(* ===== verification/Json.thy ===== *)
theory Json
  imports Prelude
begin

text \<open>
  The Python values that cross the API: what \<open>json.loads\<close> returns and \<open>json.dumps\<close> prints.
  A dictionary is an association list in insertion order with one entry per key. The operations
  are those the source applies to such values: subscripting by a string, \<open>in\<close>, truth, iteration,
  item assignment, \<open>update\<close>, and \<open>json.dumps(.., sort_keys=True)\<close>. Applying one to a value of
  another type raises as Python does. Floats are kept as their text: the code only moves them.
\<close>

datatype json =
    JNull
  | JBool bool
  | JInt int
  | JReal string
  | JStr string
  | JList "json list"
  | JObj "(string \<times> json) list"

type_synonym dict = "(string \<times> json) list"

lemma JStr_image_iff [simp]: "JStr x \<in> JStr ` A \<longleftrightarrow> x \<in> A"
  by auto

section \<open>Subscripting and membership\<close>

fun dict_get :: "dict \<Rightarrow> string \<Rightarrow> json result" where
  "dict_get d k = (case map_of d k of None \<Rightarrow> raise (KeyError k) | Some v \<Rightarrow> ok v)"

fun jget :: "json \<Rightarrow> string \<Rightarrow> json result" where
  "jget (JObj d) k = dict_get d k"
| "jget _ k = raise TypeError"

fun jin :: "string \<Rightarrow> json \<Rightarrow> bool result" where
  "jin k (JObj d) = ok (k \<in> fst ` set d)"
| "jin k (JList xs) = ok (JStr k \<in> set xs)"
| "jin k (JStr s) = ok (str_contains k s)"
| "jin k _ = raise TypeError"

fun truthy :: "json \<Rightarrow> bool" where
  "truthy JNull = False"
| "truthy (JBool b) = b"
| "truthy (JInt i) = (i \<noteq> 0)"
| "truthy (JReal s) = (\<exists>c\<in>set s. c \<in> set ''123456789'')"
| "truthy (JStr s) = (s \<noteq> [])"
| "truthy (JList xs) = (xs \<noteq> [])"
| "truthy (JObj d) = (d \<noteq> [])"

text \<open>\<open>for x in v\<close>: the elements, the characters or the keys.\<close>

fun jiter :: "json \<Rightarrow> json list result" where
  "jiter (JList xs) = ok xs"
| "jiter (JStr s) = ok (map (\<lambda>c. JStr [c]) s)"
| "jiter (JObj d) = ok (map (\<lambda>kv. JStr (fst kv)) d)"
| "jiter _ = raise TypeError"

text \<open>\<open>v[-1]\<close> and \<open>v[:-1]\<close>; a dictionary has no key \<open>-1\<close> after \<open>json.loads\<close>.\<close>

fun jlast :: "json \<Rightarrow> json result" where
  "jlast (JStr s) = (if s = [] then raise IndexError else ok (JStr [last s]))"
| "jlast (JList xs) = (if xs = [] then raise IndexError else ok (last xs))"
| "jlast (JObj d) = raise (KeyError ''-1'')"
| "jlast _ = raise TypeError"

fun jbutlast :: "json \<Rightarrow> json" where
  "jbutlast (JStr s) = JStr (butlast s)"
| "jbutlast (JList xs) = JList (butlast xs)"
| "jbutlast v = v"

lemma dict_get_Inr: "dict_get d k = Inr v \<longleftrightarrow> map_of d k = Some v"
  by (auto split: option.splits)

lemma jget_Inr: "jget j k = Inr v \<longleftrightarrow> (\<exists>d. j = JObj d \<and> map_of d k = Some v)"
  by (cases j) (auto split: option.splits)

lemma jget_Inl_class:
  "jget j k = Inl x \<Longrightarrow> x = TypeError \<or> x = KeyError k"
  by (cases j) (auto split: option.splits)

section \<open>Dictionaries that are built and updated\<close>

fun dict_set :: "dict \<Rightarrow> string \<Rightarrow> json \<Rightarrow> dict" where
  "dict_set [] k v = [(k, v)]"
| "dict_set ((k', v') # d) k v = (if k' = k then (k, v) # d else (k', v') # dict_set d k v)"

definition dict_update :: "dict \<Rightarrow> dict \<Rightarrow> dict" where
  "dict_update d e = foldl (\<lambda>d kv. dict_set d (fst kv) (snd kv)) d e"

lemma map_of_dict_set [simp]: "map_of (dict_set d k v) = (map_of d)(k \<mapsto> v)"
  by (induction d) (auto simp: fun_eq_iff)

lemma keys_dict_set: "fst ` set (dict_set d k v) = insert k (fst ` set d)"
  by (simp flip: dom_map_of_conv_image_fst)

lemma distinct_dict_set: "distinct (map fst d) \<Longrightarrow> distinct (map fst (dict_set d k v))"
proof (induction d)
  case Nil
  then show ?case by simp
next
  case (Cons p d)
  have "fst p \<noteq> k \<Longrightarrow> fst p \<notin> fst ` set d \<Longrightarrow> fst p \<notin> fst ` set (dict_set d k v)"
    by (simp add: keys_dict_set)
  with Cons show ?case by (cases p) auto
qed

lemma distinct_dict_update:
  "distinct (map fst d) \<Longrightarrow> distinct (map fst (dict_update d e))"
  unfolding dict_update_def
  by (induction e arbitrary: d) (auto simp: distinct_dict_set)

lemma map_of_dict_update:
  "distinct (map fst e) \<Longrightarrow> map_of (dict_update d e) = map_of d ++ map_of e"
proof (induction e arbitrary: d)
  case Nil
  then show ?case by (simp add: dict_update_def)
next
  case (Cons p e)
  obtain k v where p: "p = (k, v)" by (cases p)
  have "dict_update d (p # e) = dict_update (dict_set d k v) e"
    by (simp add: dict_update_def p)
  with Cons have *: "map_of (dict_update d (p # e)) = (map_of d)(k \<mapsto> v) ++ map_of e" by simp
  have "map_of e k = None" using Cons.prems by (simp add: p map_of_eq_None_iff)
  then have "(map_of d)(k \<mapsto> v) ++ map_of e = map_of d ++ map_of (p # e)"
    by (auto simp: p fun_eq_iff map_add_def split: option.splits)
  with * show ?case by (rule trans)
qed

section \<open>Printing\<close>

definition hex_char :: "nat \<Rightarrow> char" where
  "hex_char d = (if d < 10 then char_of (48 + d) else char_of (87 + d))"

definition esc_char :: "char \<Rightarrow> string" where
  "esc_char c =
     (let n = (of_char c :: nat) in
      if c = CHR 0x22 then [CHR 0x5C, CHR 0x22]
      else if c = CHR 0x5C then [CHR 0x5C, CHR 0x5C]
      else if n = 10 then [CHR 0x5C, CHR ''n'']
      else if n = 13 then [CHR 0x5C, CHR ''r'']
      else if n = 9 then [CHR 0x5C, CHR ''t'']
      else if n = 8 then [CHR 0x5C, CHR ''b'']
      else if n = 12 then [CHR 0x5C, CHR ''f'']
      else if n < 32 \<or> 127 < n
        then [CHR 0x5C, CHR ''u'', CHR ''0'', CHR ''0'', hex_char (n div 16), hex_char (n mod 16)]
      else [c])"

definition quote_str :: "string \<Rightarrow> string" where
  "quote_str s = CHR 0x22 # concat (map esc_char s) @ [CHR 0x22]"

text \<open>The texts of the floats that are no numbers differ from those of \<open>repr\<close>.\<close>

definition real_text :: "string \<Rightarrow> string" where
  "real_text s = (if s = ''nan'' then ''NaN'' else if s = ''inf'' then ''Infinity''
     else if s = ''-inf'' then ''-Infinity'' else s)"

text \<open>\<open>json.dumps(v, sort_keys=True)\<close>.\<close>

primrec dumps_sorted :: "json \<Rightarrow> string" where
  "dumps_sorted JNull = ''null''"
| "dumps_sorted (JBool b) = (if b then ''true'' else ''false'')"
| "dumps_sorted (JInt i) = show_int i"
| "dumps_sorted (JReal s) = real_text s"
| "dumps_sorted (JStr s) = quote_str s"
| "dumps_sorted (JList xs) = ''['' @ join_with '', '' (map dumps_sorted xs) @ '']''"
| "dumps_sorted (JObj d) =
     ''{'' @ join_with '', ''
        (map (\<lambda>kv. quote_str (fst kv) @ '': '' @ snd kv)
           (sort_key fst (map (map_prod id dumps_sorted) d))) @ ''}''"

text \<open>The order of the keys of a dictionary never shows in the sorted text.\<close>

lemma dumps_sorted_obj_perm:
  assumes "mset d = mset e" and "distinct (map fst d)"
  shows "dumps_sorted (JObj d) = dumps_sorted (JObj e)"
proof -
  have "mset (map (map_prod id dumps_sorted) d) = mset (map (map_prod id dumps_sorted) e)"
    using assms(1) by simp
  moreover have "distinct (map fst (map (map_prod id dumps_sorted) d))"
    using assms(2) by (simp add: comp_def)
  ultimately have "sort_key fst (map (map_prod id dumps_sorted) d) =
      sort_key fst (map (map_prod id dumps_sorted) e)"
    by (rule sort_key_mset_eq)
  then show ?thesis by simp
qed

end
