(* ===== verification/Model.thy ===== *)
theory Model
  imports Json
begin

text \<open>
  \<open>enjoliver/model.py\<close>: the three regular expressions and the validators built on them, the states
  and roles, one record per table and the database as a record of tables. A regular expression is
  a matcher that returns every rest it can leave, so alternation and backtracking are those of
  \<open>re.match\<close>; \<open>$\<close> accepts the end of the string or one trailing newline, as in Python.
\<close>

section \<open>Regular expressions\<close>

type_synonym rx = "string \<Rightarrow> string list"

definition rx_chars :: "(char \<Rightarrow> bool) \<Rightarrow> rx" where
  "rx_chars P s = (case s of [] \<Rightarrow> [] | c # t \<Rightarrow> if P c then [t] else [])"

definition rx_lit :: "char \<Rightarrow> rx" where
  "rx_lit c = rx_chars (\<lambda>x. x = c)"

definition rx_range :: "char \<Rightarrow> char \<Rightarrow> rx" where
  "rx_range a b = rx_chars (\<lambda>x. (of_char a :: nat) \<le> of_char x \<and> (of_char x :: nat) \<le> of_char b)"

definition rx_seq :: "rx \<Rightarrow> rx \<Rightarrow> rx" where
  "rx_seq r q s = concat (map q (r s))"

definition rx_alt :: "rx \<Rightarrow> rx \<Rightarrow> rx" where
  "rx_alt r q s = r s @ q s"

primrec rx_rep :: "nat \<Rightarrow> rx \<Rightarrow> rx" where
  "rx_rep 0 r = (\<lambda>s. [s])"
| "rx_rep (Suc n) r = rx_seq r (rx_rep n r)"

definition newline :: char where
  "newline = CHR 0x0A"

definition re_match :: "rx \<Rightarrow> string \<Rightarrow> bool" where
  "re_match r s = (\<exists>t\<in>set (r s). t = [] \<or> t = [newline])"

lemma rx_chars_iff: "t \<in> set (rx_chars P s) \<longleftrightarrow> (\<exists>c. P c \<and> s = c # t)"
  by (auto simp: rx_chars_def split: list.splits)

lemma rx_lit_iff: "t \<in> set (rx_lit c s) \<longleftrightarrow> s = c # t"
  by (auto simp: rx_lit_def rx_chars_iff)

lemma rx_seq_iff: "t \<in> set (rx_seq r q s) \<longleftrightarrow> (\<exists>u. u \<in> set (r s) \<and> t \<in> set (q u))"
  by (auto simp: rx_seq_def)

lemma rx_alt_iff: "t \<in> set (rx_alt r q s) \<longleftrightarrow> t \<in> set (r s) \<or> t \<in> set (q s)"
  by (auto simp: rx_alt_def)

text \<open>A matcher recognises a set of words: what it leaves is the rest after one of them.\<close>

definition rx_lang :: "rx \<Rightarrow> string set \<Rightarrow> bool" where
  "rx_lang r L \<longleftrightarrow> (\<forall>s t. t \<in> set (r s) \<longleftrightarrow> (\<exists>w\<in>L. s = w @ t))"

lemma rx_lang_seq:
  "rx_lang r L \<Longrightarrow> rx_lang q M \<Longrightarrow> rx_lang (rx_seq r q) {v @ w | v w. v \<in> L \<and> w \<in> M}"
  unfolding rx_lang_def rx_seq_iff by fastforce

lemma rx_lang_rep:
  assumes "rx_lang r L"
  shows "rx_lang (rx_rep n r) {concat ws | ws. length ws = n \<and> set ws \<subseteq> L}"
proof (induction n)
  case 0
  show ?case by (auto simp: rx_lang_def)
next
  case (Suc n)
  have "{v @ w | v w. v \<in> L \<and> w \<in> {concat ws | ws. length ws = n \<and> set ws \<subseteq> L}} =
      {concat ws | ws. length ws = Suc n \<and> set ws \<subseteq> L}" (is "?A = ?B")
  proof
    show "?A \<subseteq> ?B"
    proof
      fix x assume "x \<in> ?A"
      then obtain v ws where "v \<in> L" "length ws = n" "set ws \<subseteq> L" "x = v @ concat ws" by auto
      then show "x \<in> ?B" by (intro CollectI exI [of _ "v # ws"]) auto
    qed
    show "?B \<subseteq> ?A" by (force simp: length_Suc_conv)
  qed
  with rx_lang_seq [OF assms Suc] show ?case by simp
qed

lemma rx_lang_match:
  "rx_lang r L \<Longrightarrow> re_match r s \<longleftrightarrow> (\<exists>w\<in>L. s = w \<or> s = w @ [newline])"
  unfolding rx_lang_def re_match_def by auto

subsection \<open>MAC and UUID\<close>

definition is_hex :: "char \<Rightarrow> bool" where
  "is_hex c = (let n = (of_char c :: nat) in
     (48 \<le> n \<and> n \<le> 57) \<or> (65 \<le> n \<and> n \<le> 70) \<or> (97 \<le> n \<and> n \<le> 102))"

lemma is_hex_lits:
  "is_hex CHR ''0''" "is_hex CHR ''1''" "is_hex CHR ''2''" "is_hex CHR ''3''" "is_hex CHR ''4''"
  "is_hex CHR ''5''" "is_hex CHR ''6''" "is_hex CHR ''7''" "is_hex CHR ''8''" "is_hex CHR ''9''"
  "is_hex CHR ''a''" "is_hex CHR ''b''" "is_hex CHR ''c''" "is_hex CHR ''d''" "is_hex CHR ''e''"
  "is_hex CHR ''f''"
  by (simp_all add: is_hex_def)

definition rx_hex :: "nat \<Rightarrow> rx" where
  "rx_hex n = rx_rep n (rx_chars is_hex)"

definition mac_rx :: rx where
  "mac_rx = rx_seq (rx_rep 5 (rx_seq (rx_hex 2) (rx_lit CHR '':''))) (rx_hex 2)"

definition MAC_REGEX :: "string \<Rightarrow> string result" where
  "MAC_REGEX s = (if re_match mac_rx s then ok s else raise LookupError)"

definition uuid_rx :: rx where
  "uuid_rx =
     rx_seq (rx_rep 1 (rx_seq (rx_hex 8) (rx_lit CHR ''-'')))
       (rx_seq (rx_rep 3 (rx_seq (rx_hex 4) (rx_lit CHR ''-''))) (rx_hex 12))"

definition UUID_REGEX :: "string \<Rightarrow> string result" where
  "UUID_REGEX s = (if re_match uuid_rx s then ok s else raise LookupError)"

subsection \<open>IPv4\<close>

definition rx_digit :: rx where
  "rx_digit = rx_range CHR ''0'' CHR ''9''"

definition octet_rx :: rx where
  "octet_rx =
     rx_alt rx_digit
      (rx_alt (rx_seq (rx_range CHR ''1'' CHR ''9'') rx_digit)
      (rx_alt (rx_seq (rx_lit CHR ''1'') (rx_rep 2 rx_digit))
      (rx_alt (rx_seq (rx_lit CHR ''2'') (rx_seq (rx_range CHR ''0'' CHR ''4'') rx_digit))
        (rx_seq (rx_lit CHR ''2'') (rx_seq (rx_lit CHR ''5'') (rx_range CHR ''0'' CHR ''5''))))))"

definition ipv4_rx :: rx where
  "ipv4_rx = rx_seq (rx_rep 3 (rx_seq octet_rx (rx_lit CHR ''.''))) octet_rx"

definition IPV4_REGEX :: "string \<Rightarrow> string result" where
  "IPV4_REGEX s = (if re_match ipv4_rx s then ok s else raise LookupError)"

section \<open>Validators\<close>

text \<open>
  A validator gets the value the constructor was given; \<open>re.match\<close> and \<open>len\<close> raise TypeError on
  one that is not a string (or, for \<open>len\<close>, has no length).
\<close>

fun validate_mac :: "json \<Rightarrow> string result" where
  "validate_mac (JStr s) = MAC_REGEX s"
| "validate_mac _ = raise TypeError"

fun validate_ipv4 :: "json \<Rightarrow> string result" where
  "validate_ipv4 (JStr s) = IPV4_REGEX s"
| "validate_ipv4 _ = raise TypeError"

fun validate_uuid_field :: "json \<Rightarrow> string result" where
  "validate_uuid_field (JStr s) = (if length s \<noteq> 36 then raise LookupError else UUID_REGEX s)"
| "validate_uuid_field (JList xs) = (if length xs \<noteq> 36 then raise LookupError else raise TypeError)"
| "validate_uuid_field (JObj d) = (if length d \<noteq> 36 then raise LookupError else raise TypeError)"
| "validate_uuid_field _ = raise TypeError"

definition st_booting :: string where "st_booting = ''booting''"
definition st_discovery :: string where "st_discovery = ''discovery''"
definition st_granted :: string where "st_granted = ''os_installation_granted''"
definition st_denied :: string where "st_denied = ''os_installation_denied''"
definition st_succeed :: string where "st_succeed = ''installation_succeed''"
definition st_failed :: string where "st_failed = ''installation_failed''"

lemmas state_defs =
  st_booting_def st_discovery_def st_granted_def st_denied_def st_succeed_def st_failed_def

definition MachineStates_states :: "string list" where
  "MachineStates_states =
     [st_booting, st_discovery, st_denied, st_granted, st_failed, st_succeed]"

definition etcd_member :: string where "etcd_member = ''etcd-member''"
definition kubernetes_control_plane :: string where
  "kubernetes_control_plane = ''kubernetes-control-plane''"
definition kubernetes_node :: string where "kubernetes_node = ''kubernetes-node''"

lemmas role_defs = etcd_member_def kubernetes_control_plane_def kubernetes_node_def

definition ScheduleRoles_roles :: "string list" where
  "ScheduleRoles_roles = [etcd_member, kubernetes_control_plane, kubernetes_node]"

definition validate_state :: "string \<Rightarrow> string result" where
  "validate_state s = (if s \<in> set MachineStates_states then ok s else raise LookupError)"

fun validate_role :: "json \<Rightarrow> string result" where
  "validate_role (JStr s) = (if s \<in> set ScheduleRoles_roles then ok s else raise LookupError)"
| "validate_role _ = raise LookupError"

text \<open>\<open>_strategy_choice\<close> of a rolling update; \<open>None\<close> is one of the choices.\<close>

fun validate_strategy :: "json \<Rightarrow> string option result" where
  "validate_strategy JNull = ok None"
| "validate_strategy (JStr s) =
     (if s \<in> {''reboot'', ''kexec'', ''poweroff''} then ok (Some s) else raise LookupError)"
| "validate_strategy _ = raise LookupError"

section \<open>Tables\<close>

record machine =
  m_id :: nat
  m_uuid :: string
  m_created :: nat
  m_updated :: "nat option"

record iface =
  i_id :: nat
  i_mac :: string
  i_name :: string
  i_netmask :: int
  i_ipv4 :: string
  i_cidrv4 :: string
  i_as_boot :: bool
  i_gateway :: string
  i_fqdn :: "string option"
  i_machine :: nat

record disk =
  k_id :: nat
  k_path :: string
  k_size :: int
  k_machine :: nat

record schedule =
  s_id :: nat
  s_created :: nat
  s_machine :: nat
  s_role :: string

record current_state =
  c_id :: nat
  c_machine :: "nat option"
  c_mac :: string
  c_state :: string
  c_created :: nat
  c_updated :: nat

record ignition =
  g_id :: nat
  g_created :: nat
  g_machine :: nat
  g_updated :: "nat option"
  g_last_change :: "nat option"
  g_up_to_date :: bool

record coreos_install =
  o_id :: nat
  o_created :: nat
  o_machine :: nat
  o_updated :: nat
  o_success :: bool

record rolling =
  r_id :: nat
  r_created :: nat
  r_machine :: nat
  r_updated :: "nat option"
  r_enable :: bool
  r_strategy :: "string option"

record chassis_row =
  h_id :: nat
  h_name :: string
  h_mac :: string

record port =
  p_id :: nat
  p_mac :: string
  p_chassis :: nat
  p_iface :: nat

record health =
  z_id :: nat
  z_ts :: nat
  z_host :: string

record db =
  machines :: "machine list"
  ifaces :: "iface list"
  disks :: "disk list"
  schedules :: "schedule list"
  states :: "current_state list"
  ignitions :: "ignition list"
  installs :: "coreos_install list"
  rollings :: "rolling list"
  chassis :: "chassis_row list"
  ports :: "port list"
  healthz :: "health list"

definition empty_db :: db where
  "empty_db = \<lparr>machines = [], ifaces = [], disks = [], schedules = [], states = [],
     ignitions = [], installs = [], rollings = [], chassis = [], ports = [], healthz = []\<rparr>"

section \<open>Facts about the validators\<close>

lemma rx_lang_chars: "rx_lang (rx_chars P) {[c] | c. P c}"
  by (auto simp: rx_lang_def rx_chars_iff)

lemma rx_lang_hex: "rx_lang (rx_hex n) {w. length w = n \<and> (\<forall>c\<in>set w. is_hex c)}"
proof -
  have "{concat ws | ws. length ws = n \<and> set ws \<subseteq> {[c] | c. is_hex c}} =
      {w. length w = n \<and> (\<forall>c\<in>set w. is_hex c)}" (is "?A = ?B")
  proof
    have *: "\<exists>w. ws = map (\<lambda>c. [c]) w \<and> (\<forall>c\<in>set w. is_hex c)"
      if "set ws \<subseteq> {[c] | c. is_hex c}" for ws :: "string list"
      using that
    proof (induction ws)
      case (Cons v vs)
      then obtain c w where "v = [c]" "is_hex c" "vs = map (\<lambda>c. [c]) w" "\<forall>c\<in>set w. is_hex c"
        by auto
      then show ?case by (intro exI [of _ "c # w"]) auto
    qed simp
    have conc: "concat (map (\<lambda>c. [c]) w) = w" for w :: string by (induction w) auto
    show "?A \<subseteq> ?B" using * by (fastforce simp: conc)
    show "?B \<subseteq> ?A"
    proof
      fix w assume "w \<in> ?B"
      then show "w \<in> ?A" by (intro CollectI exI [of _ "map (\<lambda>c. [c]) w"]) (auto simp: conc)
    qed
  qed
  with rx_lang_rep [OF rx_lang_chars [of is_hex], of n] show ?thesis by (simp add: rx_hex_def)
qed

lemma rx_lang_lit: "rx_lang (rx_lit c) {[c]}"
  by (auto simp: rx_lang_def rx_lit_iff)

definition hex_word :: "nat \<Rightarrow> string \<Rightarrow> bool" where
  "hex_word n w = (length w = n \<and> (\<forall>c\<in>set w. is_hex c))"

lemma rx_lang_group:
  "rx_lang (rx_seq (rx_hex n) (rx_lit c)) {w @ [c] | w. hex_word n w}"
  using rx_lang_seq [OF rx_lang_hex [of n] rx_lang_lit [of c]] by (simp add: hex_word_def)

end
