(* ===== verification/Validators.thy ===== *)
theory Validators
  imports Model
begin

text \<open>
  What the three regular expressions of \<open>enjoliver/model.py\<close> accept: the words of the expected
  shape and, because \<open>$\<close> also matches before a final newline, those words followed by one.
\<close>

section \<open>MAC addresses\<close>

lemma join_colon_groups:
  "ws \<noteq> [] \<Longrightarrow> join_with [c] (ws @ [w]) = concat (map (\<lambda>v. v @ [c]) ws) @ w"
proof (induction ws)
  case (Cons v vs)
  then show ?case by (cases "vs = []") (auto simp: join_with_Cons)
qed simp

lemma groups_as_list:
  assumes "set us \<subseteq> {w @ [c] | w. P w}"
  shows "\<exists>ws. us = map (\<lambda>v. v @ [c]) ws \<and> (\<forall>w\<in>set ws. P w)"
  using assms
proof (induction us)
  case (Cons u us)
  then obtain w ws where "u = w @ [c]" "P w" "us = map (\<lambda>v. v @ [c]) ws" "\<forall>w\<in>set ws. P w"
    by auto
  then show ?case by (intro exI [of _ "w # ws"]) auto
qed simp

lemma rx_lang_sep_groups:
  assumes "rx_lang (rx_seq r (rx_lit c)) {w @ [c] | w. P w}" and "rx_lang q {w. Q w}"
    and "n > 0"
  shows "rx_lang (rx_seq (rx_rep n (rx_seq r (rx_lit c))) q)
    {join_with [c] (ws @ [w]) | ws w. length ws = n \<and> (\<forall>v\<in>set ws. P v) \<and> Q w}"
proof -
  let ?G = "{concat us | us. length us = n \<and> set us \<subseteq> {w @ [c] | w. P w}}"
  have "{v @ w | v w. v \<in> ?G \<and> w \<in> {w. Q w}} =
    {join_with [c] (ws @ [w]) | ws w. length ws = n \<and> (\<forall>v\<in>set ws. P v) \<and> Q w}" (is "?A = ?B")
  proof
    show "?A \<subseteq> ?B"
    proof
      fix x assume "x \<in> ?A"
      then obtain us w where us: "length us = n" "set us \<subseteq> {w @ [c] | w. P w}"
        and x: "x = concat us @ w" "Q w" by auto
      obtain ws where ws: "us = map (\<lambda>v. v @ [c]) ws" "\<forall>w\<in>set ws. P w"
        using groups_as_list [OF us(2)] by auto
      have "x = join_with [c] (ws @ [w])"
        using us(1) ws(1) x(1) \<open>n > 0\<close> by (subst join_colon_groups) auto
      with us(1) ws x(2) show "x \<in> ?B" by auto
    qed
    show "?B \<subseteq> ?A"
    proof
      fix x assume "x \<in> ?B"
      then obtain ws w where *: "length ws = n" "\<forall>v\<in>set ws. P v" "Q w"
        and x: "x = join_with [c] (ws @ [w])" by auto
      have "x = concat (map (\<lambda>v. v @ [c]) ws) @ w"
        using *(1) \<open>n > 0\<close> unfolding x by (subst join_colon_groups) auto
      moreover have "concat (map (\<lambda>v. v @ [c]) ws) \<in> ?G"
        using * by (intro CollectI exI [of _ "map (\<lambda>v. v @ [c]) ws"]) auto
      ultimately show "x \<in> ?A" using *(3) by blast
    qed
  qed
  with rx_lang_seq [OF rx_lang_rep [OF assms(1)] assms(2), of n] show ?thesis by simp
qed

definition mac_shape :: "string \<Rightarrow> bool" where
  "mac_shape s = (\<exists>ws. length ws = 6 \<and> (\<forall>w\<in>set ws. hex_word 2 w) \<and> s = join_with '':'' ws)"

lemma rx_lang_mac: "rx_lang mac_rx {s. mac_shape s}"
proof -
  have "rx_lang (rx_hex 2) {w. hex_word 2 w}"
    using rx_lang_hex [of 2] by (simp add: hex_word_def)
  from rx_lang_sep_groups [OF rx_lang_group this, of 5]
  have "rx_lang mac_rx {join_with '':'' (ws @ [w]) | ws w.
      length ws = 5 \<and> (\<forall>v\<in>set ws. hex_word 2 v) \<and> hex_word 2 w}"
    by (simp add: mac_rx_def)
  moreover have "{join_with '':'' (ws @ [w]) | ws w.
      length ws = 5 \<and> (\<forall>v\<in>set ws. hex_word 2 v) \<and> hex_word 2 w} = {s. mac_shape s}"
    (is "?A = _")
  proof -
    have "x \<in> ?A" if m: "mac_shape x" for x
    proof -
      obtain us where us: "length us = 6" "\<forall>w\<in>set us. hex_word 2 w" "x = join_with '':'' us"
        using m unfolding mac_shape_def by blast
      then have "length us = Suc 5" by simp
      then obtain ws w where "us = ws @ [w]" "length ws = 5"
        unfolding length_Suc_conv_rev by blast
      with us show ?thesis by auto
    qed
    moreover have "mac_shape x" if m: "x \<in> ?A" for x
    proof -
      obtain ws w where "length ws = 5" "\<forall>v\<in>set ws. hex_word 2 v" "hex_word 2 w"
        "x = join_with '':'' (ws @ [w])" using m by auto
      then show ?thesis unfolding mac_shape_def by (intro exI [of _ "ws @ [w]"]) auto
    qed
    ultimately show ?thesis by blast
  qed
  ultimately show ?thesis by simp
qed

lemma re_match_mac: "re_match mac_rx s \<longleftrightarrow> (\<exists>w. mac_shape w \<and> (s = w \<or> s = w @ [newline]))"
  using rx_lang_match [OF rx_lang_mac] by auto

lemma mac_shape_length: "mac_shape s \<Longrightarrow> length s = 17"
  by (auto simp: mac_shape_def hex_word_def length_Suc_conv eval_nat_numeral)

section \<open>IPv4 addresses\<close>

lemma show_nat_1: "d < 10 \<Longrightarrow> show_nat d = [digit_char d]"
  by (simp add: show_nat.simps)

lemma show_nat_snoc: "0 < m \<Longrightarrow> c < 10 \<Longrightarrow> show_nat (10 * m + c) = show_nat m @ [digit_char c]"
  by (subst show_nat.simps) simp

lemma show_nat_2:
  "0 < a \<Longrightarrow> a < 10 \<Longrightarrow> b < 10 \<Longrightarrow> show_nat (10 * a + b) = [digit_char a, digit_char b]"
  by (simp add: show_nat_snoc show_nat_1)

lemma show_nat_3:
  assumes "0 < a" "a < 10" "b < 10" "c < 10"
  shows "show_nat (10 * (10 * a + b) + c) = [digit_char a, digit_char b, digit_char c]"
  using assms by (subst show_nat_snoc) (simp_all add: show_nat_2)

lemma rx_lang_range:
  assumes "lo < 10" and "hi < 10"
  shows "rx_lang (rx_range (digit_char lo) (digit_char hi)) {[digit_char d] | d. lo \<le> d \<and> d \<le> hi}"
proof -
  have "(\<exists>c. (48 + lo \<le> (of_char c :: nat) \<and> of_char c \<le> 48 + hi) \<and> s = c # t) \<longleftrightarrow>
      (\<exists>d. lo \<le> d \<and> d \<le> hi \<and> s = digit_char d # t)" for s t
  proof
    assume "\<exists>c. (48 + lo \<le> (of_char c :: nat) \<and> of_char c \<le> 48 + hi) \<and> s = c # t"
    then obtain c where c: "48 + lo \<le> (of_char c :: nat)" "of_char c \<le> 48 + hi" "s = c # t" by auto
    then have "c = digit_char (of_char c - 48)" by (simp add: digit_char_def)
    with c show "\<exists>d. lo \<le> d \<and> d \<le> hi \<and> s = digit_char d # t"
      by (intro exI [of _ "of_char c - 48"]) auto
  next
    assume "\<exists>d. lo \<le> d \<and> d \<le> hi \<and> s = digit_char d # t"
    then obtain d where "lo \<le> d" "d \<le> hi" "s = digit_char d # t" by auto
    with assms show "\<exists>c. (48 + lo \<le> (of_char c :: nat) \<and> of_char c \<le> 48 + hi) \<and> s = c # t"
      by (intro exI [of _ "digit_char d"]) (simp add: digit_char_def)
  qed
  with assms show ?thesis
    by (auto simp: rx_lang_def rx_range_def rx_chars_iff digit_char_def)
qed

lemma rx_lang_lit_digit: "d < 10 \<Longrightarrow> rx_lang (rx_lit (digit_char d)) {[digit_char d]}"
  by (rule rx_lang_lit)

lemma octet_range:
  assumes "lo < 10" and "hi < 10"
  shows "t \<in> set (rx_range (digit_char lo) (digit_char hi) s) \<longleftrightarrow>
    (\<exists>d. lo \<le> d \<and> d \<le> hi \<and> s = digit_char d # t)"
  using rx_lang_range [OF assms] by (auto simp: rx_lang_def)

lemma char_eq_char_of: "c = char_of (n :: nat) \<longleftrightarrow> (of_char c :: nat) = n mod 256"
  by (metis char_of_char char_of_quasi_inj of_char_mod_256)

lemma digit_chars:
  "CHR ''0'' = digit_char 0" "CHR ''1'' = digit_char 1" "CHR ''2'' = digit_char 2"
  "CHR ''4'' = digit_char 4" "CHR ''5'' = digit_char 5" "CHR ''9'' = digit_char 9"
  by (simp_all add: digit_char_def char_eq_char_of)

text \<open>The octet expression accepts the decimal numerals of the numbers below 256 and nothing else.\<close>

lemma octet_rx_iff: "t \<in> set (octet_rx s) \<longleftrightarrow> (\<exists>n<256. s = show_nat n @ t)"
proof
  assume "t \<in> set (octet_rx s)"
  then consider
      d where "d \<le> 9" "s = digit_char d # t"
    | a b where "1 \<le> a" "a \<le> 9" "b \<le> 9" "s = digit_char a # digit_char b # t"
    | b c where "b \<le> 9" "c \<le> 9" "s = digit_char 1 # digit_char b # digit_char c # t"
    | b c where "b \<le> 4" "c \<le> 9" "s = digit_char 2 # digit_char b # digit_char c # t"
    | c where "c \<le> 5" "s = digit_char 2 # digit_char 5 # digit_char c # t"
    by (auto simp: octet_rx_def rx_alt_iff rx_seq_iff rx_digit_def digit_chars rx_lit_iff
      numeral_2_eq_2 octet_range)
  then show "\<exists>n<256. s = show_nat n @ t"
  proof cases
    case (1 d)
    then show ?thesis by (intro exI [of _ d]) (simp add: show_nat_1)
  next
    case (2 a b)
    then show ?thesis by (intro exI [of _ "10 * a + b"]) (simp add: show_nat_2)
  next
    case (3 b c)
    then show ?thesis
      using show_nat_3 [of 1 b c] by (intro exI [of _ "10 * (10 * 1 + b) + c"]) simp
  next
    case (4 b c)
    then show ?thesis
      using show_nat_3 [of 2 b c] by (intro exI [of _ "10 * (10 * 2 + b) + c"]) simp
  next
    case (5 c)
    then show ?thesis
      using show_nat_3 [of 2 5 c] by (intro exI [of _ "10 * (10 * 2 + 5) + c"]) simp
  qed
next
  assume "\<exists>n<256. s = show_nat n @ t"
  then obtain n where n: "n < 256" "s = show_nat n @ t" by auto
  define a b c where "a = n div 10 div 10" and "b = n div 10 mod 10" and "c = n mod 10"
  have "n = 10 * (n div 10) + c" and "n div 10 = 10 * a + b"
    unfolding a_def b_def c_def by simp_all
  then have abc: "n = 10 * (10 * a + b) + c" by simp
  have abc: "n = 10 * (10 * a + b) + c" "b \<le> 9" "c \<le> 9" "a \<le> 2"
    using abc n(1) unfolding a_def b_def c_def by auto
  note iff = octet_rx_def rx_alt_iff rx_seq_iff rx_digit_def digit_chars rx_lit_iff
    numeral_2_eq_2 rx_rep.simps octet_range
  consider "a = 0" "b = 0" | "a = 0" "1 \<le> b" | "a = 1" | "a = 2" "b \<le> 4" | "a = 2" "b = 5" "c \<le> 5"
  proof -
    have "a = 0 \<or> a = 1 \<or> a = 2" using abc(4) by arith
    moreover have "b = 0 \<or> 1 \<le> b" by arith
    moreover have "b \<le> 4 \<or> b = 5 \<and> c \<le> 5" if "a = 2" using abc n(1) that by arith
    ultimately show ?thesis using that by metis
  qed
  then show "t \<in> set (octet_rx s)"
  proof cases
    case 1
    with abc n(2) show ?thesis by (auto simp: iff show_nat_1)
  next
    case 2
    with abc n(2) have "s = digit_char b # digit_char c # t" by (simp add: show_nat_2)
    with 2 abc show ?thesis by (auto simp: iff)
  next
    case 3
    with abc n(2) have "s = digit_char 1 # digit_char b # digit_char c # t"
      using show_nat_3 [of 1 b c] by simp
    with abc show ?thesis by (auto simp: iff)
  next
    case 4
    with abc n(2) have "s = digit_char 2 # digit_char b # digit_char c # t"
      using show_nat_3 [of 2 b c] by simp
    with 4 abc show ?thesis by (auto simp: iff)
  next
    case 5
    with abc n(2) have "s = digit_char 2 # digit_char 5 # digit_char c # t"
      using show_nat_3 [of 2 5 c] by simp
    with 5 show ?thesis by (auto simp: iff)
  qed
qed


definition dotted :: "nat \<Rightarrow> nat \<Rightarrow> nat \<Rightarrow> nat \<Rightarrow> string" where
  "dotted a b c d = join_with ''.'' [show_nat a, show_nat b, show_nat c, show_nat d]"

definition octet_word :: "string \<Rightarrow> bool" where
  "octet_word w = (\<exists>n<256. w = show_nat n)"

lemma rx_lang_octet: "rx_lang octet_rx {w. octet_word w}"
  by (auto simp: rx_lang_def octet_rx_iff octet_word_def)

lemma length_3_conv: "length xs = 3 \<longleftrightarrow> (\<exists>a b c. xs = [a, b, c])"
  by (auto simp: eval_nat_numeral length_Suc_conv)

lemma triple_set:
  "{f (ws @ [w]) | ws w. length ws = 3 \<and> (\<forall>v\<in>set ws. P v) \<and> Q w} =
   {f [a, b, c, w] | a b c w. P a \<and> P b \<and> P c \<and> Q w}"
  unfolding length_3_conv
proof (intro set_eqI iffI)
  fix x assume "x \<in> {f [a, b, c, w] | a b c w. P a \<and> P b \<and> P c \<and> Q w}"
  then obtain a b c w where "x = f ([a, b, c] @ [w])" "P a" "P b" "P c" "Q w" by auto
  then show "x \<in> {f (ws @ [w]) | ws w. (\<exists>a b c. ws = [a, b, c]) \<and> (\<forall>v\<in>set ws. P v) \<and> Q w}"
    by (intro CollectI exI [of _ "[a, b, c]"] exI [of _ w]) simp
qed (auto, blast)

lemma rx_lang_ipv4: "rx_lang ipv4_rx {dotted a b c d | a b c d. a < 256 \<and> b < 256 \<and> c < 256 \<and> d < 256}"
proof -
  have "rx_lang (rx_seq octet_rx (rx_lit CHR ''.'')) {w @ ''.'' | w. octet_word w}"
    using rx_lang_seq [OF rx_lang_octet rx_lang_lit [of "CHR ''.''"]] by simp
  from rx_lang_sep_groups [OF this rx_lang_octet, of 3]
  have "rx_lang ipv4_rx {join_with ''.'' [a, b, c, w] | a b c w.
      octet_word a \<and> octet_word b \<and> octet_word c \<and> octet_word w}"
    by (simp add: ipv4_rx_def triple_set)
  moreover have "{join_with ''.'' [a, b, c, w] | a b c w.
      octet_word a \<and> octet_word b \<and> octet_word c \<and> octet_word w} =
      {dotted a b c d | a b c d. a < 256 \<and> b < 256 \<and> c < 256 \<and> d < 256}"
    unfolding dotted_def octet_word_def by blast
  ultimately show ?thesis by simp
qed

lemma re_match_ipv4:
  "re_match ipv4_rx s \<longleftrightarrow> (\<exists>a b c d. a < 256 \<and> b < 256 \<and> c < 256 \<and> d < 256 \<and>
     (s = dotted a b c d \<or> s = dotted a b c d @ [newline]))"
  unfolding rx_lang_match [OF rx_lang_ipv4] by blast

section \<open>UUIDs\<close>

lemma hex_not_newline: "\<not> is_hex newline"
  by (simp add: is_hex_def newline_def Let_def)

definition uuid_shape :: "string \<Rightarrow> bool" where
  "uuid_shape s = (\<exists>a b c d e. hex_word 8 a \<and> hex_word 4 b \<and> hex_word 4 c \<and> hex_word 4 d \<and>
     hex_word 12 e \<and> s = join_with ''-'' [a, b, c, d, e])"

lemma rx_lang_uuid: "rx_lang uuid_rx {s. uuid_shape s}"
proof -
  have hex: "rx_lang (rx_hex n) {w. hex_word n w}" for n
    using rx_lang_hex [of n] by (simp add: hex_word_def)
  from rx_lang_sep_groups [OF rx_lang_group hex, where n = 3 and c = "CHR ''-''"]
  have tail: "rx_lang (rx_seq (rx_rep 3 (rx_seq (rx_hex 4) (rx_lit CHR ''-''))) (rx_hex 12))
      {join_with ''-'' [b, c, d, e] | b c d e.
         hex_word 4 b \<and> hex_word 4 c \<and> hex_word 4 d \<and> hex_word 12 e}" by (simp add: triple_set)
  have head: "rx_lang (rx_rep 1 (rx_seq (rx_hex 8) (rx_lit CHR ''-''))) {w @ ''-'' | w. hex_word 8 w}"
    using rx_lang_group [of 8 "CHR ''-''"] by (auto simp: rx_lang_def rx_seq_iff)
  have "{v @ w | v w. v \<in> {w @ ''-'' | w. hex_word 8 w} \<and> w \<in> {join_with ''-'' [b, c, d, e] | b c d e.
         hex_word 4 b \<and> hex_word 4 c \<and> hex_word 4 d \<and> hex_word 12 e}} = {s. uuid_shape s}" (is "?A = _")
  proof (intro set_eqI iffI)
    fix x assume "x \<in> ?A"
    then obtain a b c d e where *: "hex_word 8 a" "hex_word 4 b" "hex_word 4 c" "hex_word 4 d"
      "hex_word 12 e" and "x = (a @ ''-'') @ join_with ''-'' [b, c, d, e]" by blast
    then have "x = join_with ''-'' [a, b, c, d, e]" by simp
    with * show "x \<in> {s. uuid_shape s}" unfolding uuid_shape_def by blast
  next
    fix x assume "x \<in> {s. uuid_shape s}"
    then obtain a b c d e where *: "hex_word 8 a" "hex_word 4 b" "hex_word 4 c" "hex_word 4 d"
      "hex_word 12 e" and "x = join_with ''-'' [a, b, c, d, e]" by (auto simp only: uuid_shape_def mem_Collect_eq)
    then have "x = (a @ ''-'') @ join_with ''-'' [b, c, d, e]" by simp
    with * show "x \<in> ?A" by blast
  qed
  with rx_lang_seq [OF head tail] show ?thesis by (simp add: uuid_rx_def)
qed

lemma uuid_shape_length: "uuid_shape s \<Longrightarrow> length s = 36"
  by (auto simp: uuid_shape_def hex_word_def)

lemma re_match_uuid: "re_match uuid_rx s \<longleftrightarrow> (\<exists>w. uuid_shape w \<and> (s = w \<or> s = w @ [newline]))"
  using rx_lang_match [OF rx_lang_uuid] by auto

section \<open>What the validators return\<close>

lemma MAC_REGEX_Inr:
  "MAC_REGEX s = Inr t \<longleftrightarrow> t = s \<and> (\<exists>w. mac_shape w \<and> (s = w \<or> s = w @ [newline]))"
  by (auto simp: MAC_REGEX_def re_match_mac split: if_splits)

lemma validate_mac_Inr: "validate_mac j = Inr t \<longleftrightarrow> j = JStr t \<and> MAC_REGEX t = Inr t"
  by (cases j) (auto simp: MAC_REGEX_Inr)

lemma validate_ipv4_Inr: "validate_ipv4 j = Inr t \<longleftrightarrow> j = JStr t \<and> IPV4_REGEX t = Inr t"
  by (cases j) (auto simp: IPV4_REGEX_def split: if_splits)

lemma validate_role_Inr: "validate_role j = Inr t \<longleftrightarrow> j = JStr t \<and> t \<in> set ScheduleRoles_roles"
  by (cases j) (auto split: if_splits)

lemma IPV4_dotted:
  "a < 256 \<Longrightarrow> b < 256 \<Longrightarrow> c < 256 \<Longrightarrow> d < 256 \<Longrightarrow> IPV4_REGEX (dotted a b c d) = Inr (dotted a b c d)"
  unfolding IPV4_REGEX_def re_match_ipv4 by auto

text \<open>
  The IPv4 expression of the model accepts exactly the canonical dotted decimal notation of
  four octets below 256, without leading zeros, optionally followed by one newline.
\<close>

theorem ipv4_regex_accepts:
  "is_ok (IPV4_REGEX s) \<longleftrightarrow> (\<exists>a b c d. a < 256 \<and> b < 256 \<and> c < 256 \<and> d < 256 \<and>
     s \<in> {dotted a b c d, dotted a b c d @ [newline]})"
  by (auto simp: IPV4_REGEX_def re_match_ipv4)

text \<open>
  A machine uuid passes its validator exactly when it is five groups of 8, 4, 4, 4 and 12
  hexadecimal digits joined by dashes; the length test rules out the trailing newline the
  expression alone would let through.
\<close>

theorem validate_uuid_accepts: "validate_uuid_field (JStr s) = Inr t \<longleftrightarrow> t = s \<and> uuid_shape s"
proof -
  have "uuid_shape s \<Longrightarrow> length s = 36" by (rule uuid_shape_length)
  moreover have "\<not> (length s = 36 \<and> (\<exists>w. uuid_shape w \<and> s = w @ [newline]))"
    by (auto dest: uuid_shape_length)
  ultimately show ?thesis by (auto simp: UUID_REGEX_def re_match_uuid split: if_splits)
qed

end
