(* ===== verification/Store.thy ===== *)
theory Store
  imports Validators
begin

text \<open>
  \<open>enjoliver/db.py\<close> and the database as the repositories see it. SQLAlchemy and the database
  server are not part of the repository: what they leave open is the record \<open>engine\<close>, an argument
  of every operation that depends on it (the order of rows of a query without ORDER BY, the value
  of a generated key, how a JSON value is stored in a typed column, whether stacked
  \<open>validates\<close> decorators accumulate). \<open>engine_ok\<close> states their documented behaviour and is a
  named hypothesis of the theorems that need it. A SELECT .. JOIN .. WHERE of the source is the
  comprehension it denotes, arranged in the engine's order; a query for one entity yields each
  entity once.
\<close>

record engine =
  row_order :: "nat \<Rightarrow> nat list"
  new_id :: "nat list \<Rightarrow> nat"
  col_str :: "nat option \<Rightarrow> json \<Rightarrow> string result"
  col_int :: "nat \<Rightarrow> json \<Rightarrow> int result"
  stacked_validates :: bool

definition fits :: "nat option \<Rightarrow> string \<Rightarrow> bool" where
  "fits lim s = (case lim of None \<Rightarrow> True | Some n \<Rightarrow> length s \<le> n)"

definition engine_ok :: "engine \<Rightarrow> bool" where
  "engine_ok E \<longleftrightarrow>
     (\<forall>n. mset (row_order E n) = mset [0..<n]) \<and>
     (\<forall>ids. new_id E ids \<notin> set ids) \<and>
     (\<forall>lim s. fits lim s \<longrightarrow> col_str E lim (JStr s) = Inr s) \<and>
     (\<forall>lim s t. col_str E lim (JStr s) = Inr t \<longrightarrow> s = [] \<or> last s \<noteq> CHR '' '' \<longrightarrow> t = s) \<and>
     (\<forall>lim. \<not> is_ok (col_str E lim JNull)) \<and>
     (\<forall>w i. - (2 ^ (w - 1)) \<le> i \<and> i < 2 ^ (w - 1) \<longrightarrow> col_int E w (JInt i) = Inr i)"

text \<open>An engine that returns rows in table order and numbers them by the next free key.\<close>

fun ref_col_str :: "nat option \<Rightarrow> json \<Rightarrow> string result" where
  "ref_col_str lim (JStr s) = (if fits lim s then ok s else raise DataError)"
| "ref_col_str lim JNull = raise IntegrityError"
| "ref_col_str lim _ = raise DataError"

fun ref_col_int :: "nat \<Rightarrow> json \<Rightarrow> int result" where
  "ref_col_int w (JInt i) =
     (if - (2 ^ (w - 1)) \<le> i \<and> i < 2 ^ (w - 1) then ok i else raise DataError)"
| "ref_col_int w JNull = raise IntegrityError"
| "ref_col_int w _ = raise DataError"

definition ref_engine :: engine where
  "ref_engine = \<lparr>row_order = (\<lambda>n. [0..<n]), new_id = (\<lambda>ids. Suc (foldr max ids 0)),
     col_str = ref_col_str, col_int = ref_col_int, stacked_validates = False\<rparr>"

lemma foldr_max_bound: "x \<in> set xs \<Longrightarrow> (x :: nat) \<le> foldr max xs 0"
  by (induction xs) auto

lemma engine_ok_ref: "engine_ok ref_engine"
proof -
  have "Suc (foldr max ids 0) \<notin> set ids" for ids :: "nat list"
    using foldr_max_bound by fastforce
  then show ?thesis by (auto simp: engine_ok_def ref_engine_def split: if_splits)
qed

section \<open>Queries\<close>

definition arrange :: "engine \<Rightarrow> 'a list \<Rightarrow> 'a list" where
  "arrange E xs = map (\<lambda>i. xs ! i) (row_order E (length xs))"

lemma mset_arrange [simp]: "engine_ok E \<Longrightarrow> mset (arrange E xs) = mset xs"
proof -
  assume "engine_ok E"
  then have "mset (row_order E (length xs)) = mset [0..<length xs]" by (simp add: engine_ok_def)
  then have "mset (arrange E xs) = mset (map (\<lambda>i. xs ! i) [0..<length xs])"
    by (simp add: arrange_def)
  also have "\<dots> = mset xs" by (simp only: map_nth)
  finally show ?thesis .
qed

lemma set_arrange [simp]:
  assumes "engine_ok E"
  shows "set (arrange E xs) = set xs"
proof -
  have "set_mset (mset (arrange E xs)) = set_mset (mset xs)" using assms by (simp only: mset_arrange)
  then show ?thesis by (simp only: set_mset_mset)
qed

lemma length_arrange [simp]:
  assumes "engine_ok E"
  shows "length (arrange E xs) = length xs"
proof -
  have "size (mset (arrange E xs)) = size (mset xs)" using assms by (simp only: mset_arrange)
  then show ?thesis by (simp only: size_mset)
qed

lemma arrange_eq_Nil [simp]: "engine_ok E \<Longrightarrow> arrange E xs = [] \<longleftrightarrow> xs = []"
  by (simp flip: length_0_conv)

lemma arrange_Nil [simp]: "engine_ok E \<Longrightarrow> arrange E [] = []"
  by simp

lemma arrange_single [simp]: "engine_ok E \<Longrightarrow> arrange E [x] = [x]"
proof -
  assume "engine_ok E"
  from mset_arrange [OF this, of "[x]"] show ?thesis by (simp del: mset_arrange)
qed

lemma arrange_ref [simp]: "arrange ref_engine xs = xs"
  by (simp add: arrange_def ref_engine_def map_nth)

lemma distinct_map_arrange [simp]:
  "engine_ok E \<Longrightarrow> distinct (map f (arrange E xs)) = distinct (map f xs)"
  by (metis mset_arrange mset_map mset_eq_imp_distinct_iff)

definition query_where :: "engine \<Rightarrow> ('a \<Rightarrow> bool) \<Rightarrow> 'a list \<Rightarrow> 'a list" where
  "query_where E P rows = arrange E (filter P rows)"

lemma set_query_where [simp]: "engine_ok E \<Longrightarrow> set (query_where E P xs) = {x \<in> set xs. P x}"
  by (simp add: query_where_def)

lemma mset_query_where: "engine_ok E \<Longrightarrow> mset (query_where E P xs) = filter_mset P (mset xs)"
  by (simp add: query_where_def)

text \<open>At most one row can satisfy a condition on a unique column.\<close>

lemma query_where_key:
  assumes "engine_ok E" "distinct (map f xs)" "x \<in> set xs"
  shows "query_where E (\<lambda>y. f y = f x) xs = [x]"
  using assms by (simp add: query_where_def filter_singleton)

lemma query_where_key_none:
  assumes "engine_ok E" "k \<notin> f ` set xs"
  shows "query_where E (\<lambda>y. f y = k) xs = []"
proof -
  have "filter (\<lambda>y. f y = k) xs = []" using assms(2) by (auto simp: filter_empty_conv)
  with assms(1) show ?thesis by (simp add: query_where_def)
qed

lemma first_query_key:
  assumes "engine_ok E" "distinct (map f xs)"
  shows "first (query_where E (\<lambda>y. f y = k) xs) = Some x \<longleftrightarrow> x \<in> set xs \<and> f x = k"
proof
  assume "first (query_where E (\<lambda>y. f y = k) xs) = Some x"
  then show "x \<in> set xs \<and> f x = k" using assms(1) by (auto dest: first_Some_in)
next
  assume "x \<in> set xs \<and> f x = k"
  with query_where_key [OF assms, of x] show "first (query_where E (\<lambda>y. f y = k) xs) = Some x"
    by auto
qed

text \<open>Machine joined with its interfaces, and the entity query over that join.\<close>

definition machine_iface_rows :: "(machine \<Rightarrow> iface \<Rightarrow> bool) \<Rightarrow> db \<Rightarrow> (machine \<times> iface) list" where
  "machine_iface_rows P d =
     [(m, i). m \<leftarrow> machines d, i \<leftarrow> ifaces d, i_machine i = m_id m \<and> P m i]"

definition machines_join_ifaces :: "engine \<Rightarrow> (machine \<Rightarrow> iface \<Rightarrow> bool) \<Rightarrow> db \<Rightarrow> machine list" where
  "machines_join_ifaces E P d = uniq_first (map fst (arrange E (machine_iface_rows P d)))"

lemma set_machine_iface_rows:
  "set (machine_iface_rows P d) =
     {(m, i). m \<in> set (machines d) \<and> i \<in> set (ifaces d) \<and> i_machine i = m_id m \<and> P m i}"
  by (auto simp: machine_iface_rows_def)

lemma set_machines_join_ifaces:
  assumes "engine_ok E"
  shows "set (machines_join_ifaces E P d) =
     {m \<in> set (machines d). \<exists>i\<in>set (ifaces d). i_machine i = m_id m \<and> P m i}"
  using assms by (force simp: machines_join_ifaces_def set_machine_iface_rows)

lemma distinct_machines_join_ifaces: "distinct (machines_join_ifaces E P d)"
  by (simp add: machines_join_ifaces_def)

text \<open>\<open>session.query(Machine).join(MachineInterface).filter(MachineInterface.mac == mac).first()\<close>\<close>

definition machine_by_mac :: "engine \<Rightarrow> db \<Rightarrow> string \<Rightarrow> machine option" where
  "machine_by_mac E d mac = first (machines_join_ifaces E (\<lambda>m i. i_mac i = mac) d)"

text \<open>The relationships of a machine, loaded as the ORM loads them.\<close>

definition m_interfaces :: "engine \<Rightarrow> db \<Rightarrow> machine \<Rightarrow> iface list" where
  "m_interfaces E d m = query_where E (\<lambda>i. i_machine i = m_id m) (ifaces d)"

definition m_boot_interface :: "engine \<Rightarrow> db \<Rightarrow> machine \<Rightarrow> iface option" where
  "m_boot_interface E d m =
     first (query_where E (\<lambda>i. i_machine i = m_id m \<and> i_as_boot i) (ifaces d))"

definition m_disks :: "engine \<Rightarrow> db \<Rightarrow> machine \<Rightarrow> disk list" where
  "m_disks E d m = query_where E (\<lambda>k. k_machine k = m_id m) (disks d)"

definition m_schedules :: "engine \<Rightarrow> db \<Rightarrow> machine \<Rightarrow> schedule list" where
  "m_schedules E d m = query_where E (\<lambda>s. s_machine s = m_id m) (schedules d)"

section \<open>Transactions\<close>

text \<open>
  A transaction body maps the database to an exception or a value and the new database. The
  context manager commits when the body returns; on an exception it rolls back (explicitly for a
  database error, by closing the session for any other) and lets the exception through.
\<close>

type_synonym 'a tx = "db \<Rightarrow> ('a \<times> db) result"

definition session_commit :: "'a tx \<Rightarrow> db \<Rightarrow> 'a result \<times> db" where
  "session_commit body d =
     (case body d of
        Inl x \<Rightarrow> (Inl x, d)
      | Inr (a, d') \<Rightarrow> (Inr a, d'))"

lemma session_commit_error: "fst (session_commit body d) = Inl x \<Longrightarrow> snd (session_commit body d) = d"
  by (auto simp: session_commit_def split: sum.splits prod.splits)

lemma session_commit_ok:
  "session_commit body d = (Inr a, d') \<longleftrightarrow> body d = Inr (a, d')"
  by (auto simp: session_commit_def split: sum.splits prod.splits)

lemma session_commit_snd:
  shows "body d = Inr (a, d') \<Longrightarrow> session_commit body d = (Inr a, d')"
    and "body d = Inl x \<Longrightarrow> session_commit body d = (Inl x, d)"
  by (simp_all add: session_commit_def)

lemma session_commit_invariant:
  assumes "P d" and "\<And>a d'. body d = Inr (a, d') \<Longrightarrow> P d'"
  shows "P (snd (session_commit body d))"
  using assms by (auto simp: session_commit_def split: sum.splits)

section \<open>The database invariant\<close>

text \<open>
  Keys are unique; foreign keys point at rows; the unique columns are unique; every value the
  validators guard satisfies its validator. Machine uuids are unique although the table does not
  say so: \<open>upsert\<close> keeps them so.
\<close>

definition keys_ok :: "db \<Rightarrow> bool" where
  "keys_ok d \<longleftrightarrow> distinct (map m_id (machines d)) \<and> distinct (map i_id (ifaces d)) \<and>
     distinct (map s_id (schedules d)) \<and> distinct (map c_id (states d)) \<and>
     distinct (map g_id (ignitions d)) \<and> distinct (map o_id (installs d)) \<and>
     distinct (map r_id (rollings d)) \<and> distinct (map h_id (chassis d))"

definition refs_ok :: "db \<Rightarrow> bool" where
  "refs_ok d \<longleftrightarrow>
     (\<forall>i\<in>set (ifaces d). i_machine i \<in> m_id ` set (machines d)) \<and>
     (\<forall>k\<in>set (disks d). k_machine k \<in> m_id ` set (machines d)) \<and>
     (\<forall>s\<in>set (schedules d). s_machine s \<in> m_id ` set (machines d)) \<and>
     (\<forall>c\<in>set (states d). \<forall>k. c_machine c = Some k \<longrightarrow> k \<in> m_id ` set (machines d)) \<and>
     (\<forall>g\<in>set (ignitions d). g_machine g \<in> m_id ` set (machines d)) \<and>
     (\<forall>x\<in>set (installs d). o_machine x \<in> m_id ` set (machines d)) \<and>
     (\<forall>r\<in>set (rollings d). r_machine r \<in> m_id ` set (machines d)) \<and>
     (\<forall>p\<in>set (ports d). p_iface p \<in> i_id ` set (ifaces d) \<and> p_chassis p \<in> h_id ` set (chassis d))"

definition unique_ok :: "db \<Rightarrow> bool" where
  "unique_ok d \<longleftrightarrow> distinct (map m_uuid (machines d)) \<and> distinct (map i_mac (ifaces d)) \<and>
     distinct (map c_mac (states d)) \<and> distinct (map g_machine (ignitions d)) \<and>
     distinct (map o_machine (installs d)) \<and> distinct (map r_machine (rollings d))"

definition values_ok :: "db \<Rightarrow> bool" where
  "values_ok d \<longleftrightarrow>
     (\<forall>m\<in>set (machines d). uuid_shape (m_uuid m)) \<and>
     (\<forall>i\<in>set (ifaces d). is_ok (MAC_REGEX (i_mac i)) \<and> is_ok (IPV4_REGEX (i_ipv4 i))) \<and>
     (\<forall>s\<in>set (schedules d). s_role s \<in> set ScheduleRoles_roles) \<and>
     (\<forall>c\<in>set (states d). c_state c \<in> set MachineStates_states) \<and>
     (\<forall>r\<in>set (rollings d). r_strategy r \<in> {None, Some ''reboot'', Some ''kexec'', Some ''poweroff''})"

definition db_ok :: "db \<Rightarrow> bool" where
  "db_ok d \<longleftrightarrow> keys_ok d \<and> refs_ok d \<and> unique_ok d \<and> values_ok d"

lemmas db_ok_defs = db_ok_def keys_ok_def refs_ok_def unique_ok_def values_ok_def

lemma db_ok_empty: "db_ok empty_db"
  by (simp add: db_ok_defs empty_db_def)

text \<open>With unique macs the lookup by mac finds the machine that owns the interface.\<close>

lemma machine_by_mac_Some:
  assumes "engine_ok E" "keys_ok d" "unique_ok d"
  shows "machine_by_mac E d mac = Some m \<longleftrightarrow>
    m \<in> set (machines d) \<and> (\<exists>i\<in>set (ifaces d). i_mac i = mac \<and> i_machine i = m_id m)"
proof
  assume "machine_by_mac E d mac = Some m"
  then show "m \<in> set (machines d) \<and> (\<exists>i\<in>set (ifaces d). i_mac i = mac \<and> i_machine i = m_id m)"
    using set_machines_join_ifaces [OF assms(1)] unfolding machine_by_mac_def
    by (auto dest!: first_Some_in)
next
  assume *: "m \<in> set (machines d) \<and> (\<exists>i\<in>set (ifaces d). i_mac i = mac \<and> i_machine i = m_id m)"
  let ?ms = "machines_join_ifaces E (\<lambda>m i. i_mac i = mac) d"
  have "m' = m" if m: "m' \<in> set ?ms" for m'
  proof -
    obtain i' where "i' \<in> set (ifaces d)" "i_machine i' = m_id m'" "i_mac i' = mac"
      and m': "m' \<in> set (machines d)"
      using m set_machines_join_ifaces [OF assms(1)] by auto
    moreover obtain i where "i \<in> set (ifaces d)" "i_machine i = m_id m" "i_mac i = mac"
      using * by auto
    moreover have "distinct (map i_mac (ifaces d))" using assms(3) by (simp add: unique_ok_def)
    ultimately have "m_id m' = m_id m" by (metis distinct_map_inj_set)
    with * m' assms(2) show ?thesis by (auto simp: keys_ok_def dest: distinct_map_inj_set)
  qed
  moreover have "m \<in> set ?ms" using * set_machines_join_ifaces [OF assms(1)] by auto
  ultimately show "machine_by_mac E d mac = Some m"
    unfolding machine_by_mac_def by (metis first_simps(2) list.set_intros(1) list.set_cases)
qed

lemma machine_by_mac_None:
  assumes "engine_ok E" "db_ok d"
  shows "machine_by_mac E d mac = None \<longleftrightarrow> mac \<notin> i_mac ` set (ifaces d)"
proof -
  have "machine_by_mac E d mac = None \<longleftrightarrow> \<not> (\<exists>m. machine_by_mac E d mac = Some m)" by auto
  also have "\<dots> \<longleftrightarrow> \<not> (\<exists>m\<in>set (machines d). \<exists>i\<in>set (ifaces d). i_mac i = mac \<and> i_machine i = m_id m)"
    using machine_by_mac_Some [OF assms(1)] assms(2) by (auto simp: db_ok_def)
  also have "\<dots> \<longleftrightarrow> mac \<notin> i_mac ` set (ifaces d)"
    using assms(2) by (force simp: db_ok_def refs_ok_def)
  finally show ?thesis .
qed

lemma machine_by_mac_in: "engine_ok E \<Longrightarrow> machine_by_mac E d mac = Some m \<Longrightarrow> m \<in> set (machines d)"
  using set_machines_join_ifaces unfolding machine_by_mac_def by (auto dest!: first_Some_in)

section \<open>Values that reach a column unchanged\<close>

lemma col_str_same:
  "engine_ok E \<Longrightarrow> col_str E lim (JStr s) = Inr t \<Longrightarrow> s \<noteq> [] \<Longrightarrow> last s \<noteq> CHR '' '' \<Longrightarrow> t = s"
  unfolding engine_ok_def by blast

lemma col_str_fits: "engine_ok E \<Longrightarrow> fits lim s \<Longrightarrow> col_str E lim (JStr s) = Inr s"
  unfolding engine_ok_def by blast

lemma col_str_None [simp]: "engine_ok E \<Longrightarrow> col_str E None (JStr s) = Inr s"
  by (simp add: col_str_fits fits_def)

lemma col_int_fits:
  "engine_ok E \<Longrightarrow> - (2 ^ (w - 1)) \<le> i \<Longrightarrow> i < 2 ^ (w - 1) \<Longrightarrow> col_int E w (JInt i) = Inr i"
  unfolding engine_ok_def by blast

lemma new_id_fresh: "engine_ok E \<Longrightarrow> new_id E ids \<notin> set ids"
  unfolding engine_ok_def by blast

lemma new_id_neq: "engine_ok E \<Longrightarrow> x \<in> set xs \<Longrightarrow> f x \<noteq> new_id E (map f xs)"
  by (metis image_eqI image_set new_id_fresh)

lemma new_id_image: "engine_ok E \<Longrightarrow> new_id E (map f xs) \<notin> f ` set xs"
  by (metis image_set new_id_fresh)

lemma hex_word_last: "hex_word n w \<Longrightarrow> 0 < n \<Longrightarrow> w \<noteq> [] \<and> is_hex (last w)"
  by (auto simp: hex_word_def)

lemma space_not_hex: "\<not> is_hex CHR '' ''"
  by (simp add: is_hex_def Let_def)

lemma join_nonempty: "w \<noteq> [] \<Longrightarrow> join_with sep (ws @ [w]) \<noteq> []"
proof (induction ws)
  case (Cons v vs)
  then show ?case by (simp add: join_with_Cons)
qed simp

lemma last_join: "w \<noteq> [] \<Longrightarrow> last (join_with sep (ws @ [w])) = last w"
proof (induction ws)
  case (Cons v vs)
  then show ?case by (simp add: join_with_Cons join_nonempty)
qed simp

lemma mac_shape_last: "mac_shape s \<Longrightarrow> s \<noteq> [] \<and> last s \<noteq> CHR '' ''"
proof -
  assume "mac_shape s"
  then obtain ws where ws: "length ws = 6" "\<forall>w\<in>set ws. hex_word 2 w" "s = join_with '':'' ws"
    unfolding mac_shape_def by blast
  then obtain vs w where v: "ws = vs @ [w]" by (metis list.size(3) rev_exhaust zero_neq_numeral)
  with ws hex_word_last [of 2 w] have "w \<noteq> []" "is_hex (last w)" by auto
  with ws v space_not_hex show ?thesis by (metis join_nonempty last_join)
qed

lemma mac_ok_last: "is_ok (MAC_REGEX s) \<Longrightarrow> s \<noteq> [] \<and> last s \<noteq> CHR '' ''"
  by (auto simp: MAC_REGEX_def re_match_mac newline_def split: if_splits dest: mac_shape_last)

lemma show_nat_last: "last (show_nat n) \<noteq> CHR '' ''"
proof -
  have "is_digit (last (show_nat n))" by (rule show_nat_digits [of _ n]) simp
  then show ?thesis by (auto simp: is_digit_def)
qed

lemma ipv4_ok_last: "is_ok (IPV4_REGEX s) \<Longrightarrow> s \<noteq> [] \<and> last s \<noteq> CHR '' ''"
proof -
  assume "is_ok (IPV4_REGEX s)"
  then obtain a b c d where s: "s = dotted a b c d \<or> s = dotted a b c d @ [newline]"
    by (auto simp: IPV4_REGEX_def re_match_ipv4 split: if_splits)
  have "dotted a b c d = join_with ''.'' ([show_nat a, show_nat b, show_nat c] @ [show_nat d])"
    by (simp add: dotted_def)
  then have "dotted a b c d \<noteq> [] \<and> last (dotted a b c d) = last (show_nat d)"
    by (metis join_nonempty last_join show_nat_nonempty)
  with s show_nat_last [of d] show ?thesis by (auto simp: newline_def)
qed

lemma uuid_shape_last: "uuid_shape s \<Longrightarrow> s \<noteq> [] \<and> last s \<noteq> CHR '' ''"
proof -
  assume "uuid_shape s"
  then obtain a b c d e where s: "hex_word 12 e" "s = join_with ''-'' ([a, b, c, d] @ [e])"
    unfolding uuid_shape_def by (metis append_Cons append_Nil)
  from hex_word_last [OF s(1)] have "e \<noteq> [] \<and> is_hex (last e)" by simp
  with s(2) space_not_hex show ?thesis by (metis join_nonempty last_join)
qed

section \<open>Single-row changes that keep the invariant\<close>

named_theorems db_ok_intros \<open>one row more, one row changed, some rows less\<close>

lemma db_ok_add_machine [db_ok_intros]:
  "db_ok d \<Longrightarrow> m_id m \<notin> m_id ` set (machines d) \<Longrightarrow> m_uuid m \<notin> m_uuid ` set (machines d) \<Longrightarrow>
   uuid_shape (m_uuid m) \<Longrightarrow> db_ok (d\<lparr>machines := machines d @ [m]\<rparr>)"
  by (auto simp: db_ok_defs)

lemma db_ok_add_iface [db_ok_intros]:
  "db_ok d \<Longrightarrow> i_id i \<notin> i_id ` set (ifaces d) \<Longrightarrow> i_mac i \<notin> i_mac ` set (ifaces d) \<Longrightarrow>
   i_machine i \<in> m_id ` set (machines d) \<Longrightarrow> is_ok (MAC_REGEX (i_mac i)) \<Longrightarrow>
   is_ok (IPV4_REGEX (i_ipv4 i)) \<Longrightarrow> db_ok (d\<lparr>ifaces := ifaces d @ [i]\<rparr>)"
  by (auto simp: db_ok_defs)

lemma db_ok_add_disk [db_ok_intros]:
  "db_ok d \<Longrightarrow> k_machine k \<in> m_id ` set (machines d) \<Longrightarrow> db_ok (d\<lparr>disks := disks d @ [k]\<rparr>)"
  by (auto simp: db_ok_defs)

lemma db_ok_add_chassis [db_ok_intros]:
  "db_ok d \<Longrightarrow> h_id h \<notin> h_id ` set (chassis d) \<Longrightarrow> db_ok (d\<lparr>chassis := chassis d @ [h]\<rparr>)"
  by (auto simp: db_ok_defs)

lemma db_ok_add_port [db_ok_intros]:
  "db_ok d \<Longrightarrow> p_iface p \<in> i_id ` set (ifaces d) \<Longrightarrow> p_chassis p \<in> h_id ` set (chassis d) \<Longrightarrow>
   db_ok (d\<lparr>ports := ports d @ [p]\<rparr>)"
  by (auto simp: db_ok_defs)

lemma db_ok_add_schedule [db_ok_intros]:
  "db_ok d \<Longrightarrow> s_id s \<notin> s_id ` set (schedules d) \<Longrightarrow> s_machine s \<in> m_id ` set (machines d) \<Longrightarrow>
   s_role s \<in> set ScheduleRoles_roles \<Longrightarrow> db_ok (d\<lparr>schedules := schedules d @ [s]\<rparr>)"
  by (auto simp: db_ok_defs)

end
