(* ===== verification/Tools.thy ===== *)
theory Tools
  imports Json
begin

text \<open>
  \<open>enjoliver/tools.py\<close>: the MAC address inside a matchbox query string, and the reverse DNS check
  of the names a discovery reports. The resolver is outside the program: \<open>dns n i ip\<close> is the
  outcome of the \<open>i\<close>-th \<open>socket.gethostbyaddr\<close> for the \<open>n\<close>-th name, its first component or the
  exception it raises.
\<close>

section \<open>MAC address of a raw query\<close>

fun scan_mac :: "string \<Rightarrow> string list \<Rightarrow> string" where
  "scan_mac mac [] = mac"
| "scan_mac mac (param # ps) =
     scan_mac (if str_contains ''mac='' param then str_replace ''mac='' '''' param else mac) ps"

definition get_mac_from_raw_query :: "string \<Rightarrow> string result" where
  "get_mac_from_raw_query q =
     (let mac = scan_mac '''' (split_on CHR ''&'' q) in
      if mac = '''' then raise AttributeError else ok (str_replace ''-'' '':'' mac))"

lemma scan_mac_append: "scan_mac mac (ps @ qs) = scan_mac (scan_mac mac ps) qs"
  by (induction ps arbitrary: mac) auto

lemma scan_mac_none: "(\<And>p. p \<in> set ps \<Longrightarrow> \<not> str_contains ''mac='' p) \<Longrightarrow> scan_mac mac ps = mac"
  by (induction ps arbitrary: mac) auto

definition dash_to_colon :: "string \<Rightarrow> string" where
  "dash_to_colon w = map (\<lambda>c. if c = CHR ''-'' then CHR '':'' else c) w"

lemma str_replace_dash: "str_replace ''-'' '':'' w = dash_to_colon w"
  by (simp add: str_replace_char dash_to_colon_def)

text \<open>
  A query that carries one \<open>mac=\<close> parameter, at any position among others, yields the value of
  that parameter with its dashes turned into colons.
\<close>

theorem get_mac_of_query:
  assumes "w \<noteq> ''''" and "\<not> str_contains ''mac='' w"
    and "\<forall>p\<in>set (ps @ [w] @ qs). CHR ''&'' \<notin> set p"
    and "\<forall>p\<in>set (ps @ qs). \<not> str_contains ''mac='' p"
  shows "get_mac_from_raw_query (join_with ''&'' (ps @ [''mac='' @ w] @ qs)) = ok (dash_to_colon w)"
proof -
  let ?m = "''mac='' @ w"
  have "split_on CHR ''&'' (join_with ''&'' (ps @ [?m] @ qs)) = ps @ [?m] @ qs"
    using assms(3) by (intro split_join) auto
  moreover have "str_contains ''mac='' ?m"
    by (intro str_contains_starts starts_with_append)
  moreover have "str_replace ''mac='' '''' ?m = w"
    using str_replace_prefix [of "''mac=''" "''''" w] str_replace_absent [OF assms(2)] by simp
  ultimately have "scan_mac '''' (split_on CHR ''&'' (join_with ''&'' (ps @ [?m] @ qs))) = w"
    using assms(4) by (simp add: scan_mac_append scan_mac_none)
  then show ?thesis using assms(1) by (simp add: get_mac_from_raw_query_def str_replace_dash)
qed

theorem get_mac_of_query_witness:
  "get_mac_from_raw_query ''uuid=1&mac=52-54-00&os=x'' = ok ''52:54:00''"
  using get_mac_of_query [of "''52-54-00''" "[''uuid=1'']" "[''os=x'']"]
  by (simp add: dash_to_colon_def)

section \<open>Reverse DNS\<close>

text \<open>The five tries for one name; the name loses a trailing dot on every try it has one.\<close>

fun verify_tries ::
  "(nat \<Rightarrow> json \<Rightarrow> string result) \<Rightarrow> json \<Rightarrow> json \<Rightarrow> nat \<Rightarrow> nat \<Rightarrow> json \<Rightarrow> json option result" where
  "verify_tries dns iface ip 0 i name = ok None"
| "verify_tries dns iface ip (Suc n) i name =
     (case dns i ip of
        Inl HError \<Rightarrow> verify_tries dns iface ip n (Suc i) name
      | Inl x \<Rightarrow> raise x
      | Inr first_name \<Rightarrow>
          bindE (jlast name) (\<lambda>l.
            let name' = (if l = JStr ''.'' then jbutlast name else name) in
            if name' = JStr first_name then ok (Some name')
            else bindE (jget iface ''mac'') (\<lambda>_. verify_tries dns iface ip n (Suc i) name')))"

fun fqdn_names ::
  "bool \<Rightarrow> (nat \<Rightarrow> nat \<Rightarrow> json \<Rightarrow> string result) \<Rightarrow> json \<Rightarrow> nat \<Rightarrow> json list \<Rightarrow> json list \<Rightarrow>
   json list \<times> exn option" where
  "fqdn_names verify dns iface n acc [] = (acc, None)"
| "fqdn_names verify dns iface n acc (name # names) =
     (if \<not> verify then fqdn_names verify dns iface (Suc n) (acc @ [name]) names
      else case bindE (jget iface ''ipv4'') (\<lambda>ip. verify_tries (dns n) iface ip 5 0 name) of
          Inl x \<Rightarrow> (acc, Some x)
        | Inr None \<Rightarrow> fqdn_names verify dns iface (Suc n) acc names
        | Inr (Some v) \<Rightarrow> fqdn_names verify dns iface (Suc n) (acc @ [v]) names)"

definition one_fqdn :: "json list \<Rightarrow> json result" where
  "one_fqdn acc =
     (if length acc > 1 then raise AttributeError
      else ok (case acc of [] \<Rightarrow> JNull | v # _ \<Rightarrow> v))"

fun is_key_or_type_error :: "exn \<Rightarrow> bool" where
  "is_key_or_type_error (KeyError k) = True"
| "is_key_or_type_error TypeError = True"
| "is_key_or_type_error _ = False"

definition get_verified_dns_query ::
  "bool \<Rightarrow> (nat \<Rightarrow> nat \<Rightarrow> json \<Rightarrow> string result) \<Rightarrow> json \<Rightarrow> json result" where
  "get_verified_dns_query verify dns iface =
     (let (acc, ex) =
        (case bindE (jget iface ''fqdn'') jiter of
           Inl x \<Rightarrow> ([], Some x)
         | Inr names \<Rightarrow> fqdn_names verify dns iface 0 [] names)
      in case ex of
           None \<Rightarrow> one_fqdn acc
         | Some x \<Rightarrow>
             if is_key_or_type_error x then bindE (jget iface ''ipv4'') (\<lambda>_. one_fqdn acc)
             else raise x)"

lemma verify_tries_sound:
  "verify_tries dns iface ip n i name = Inr (Some v) \<Longrightarrow>
   \<exists>j h. i \<le> j \<and> j < i + n \<and> dns j ip = Inr h \<and> v = JStr h"
proof (induction dns iface ip n i name rule: verify_tries.induct)
  case (1 dns iface ip i name)
  then show ?case by simp
next
  case (2 dns iface ip n i name)
  have later: "\<exists>j h. i \<le> j \<and> j < i + Suc n \<and> dns j ip = Inr h \<and> v = JStr h"
    if "\<exists>j h. Suc i \<le> j \<and> j < Suc i + n \<and> dns j ip = Inr h \<and> v = JStr h"
    using that by (metis Suc_leD add_Suc_shift)
  show ?case
  proof (cases "dns i ip")
    case (Inl x)
    with 2 later show ?thesis by (cases x) auto
  next
    case (Inr h)
    with "2.prems" obtain l where l: "jlast name = Inr l" by (auto simp: bindE_eq_Inr)
    let ?name = "if l = JStr ''.'' then jbutlast name else name"
    show ?thesis
    proof (cases "?name = JStr h")
      case True
      with "2.prems" Inr l have "v = JStr h" by (simp add: Let_def)
      with Inr show ?thesis by auto
    next
      case False
      with "2.prems" Inr l obtain w where "jget iface ''mac'' = Inr w"
        "verify_tries dns iface ip n (Suc i) ?name = Inr (Some v)"
        by (auto simp: Let_def bindE_eq_Inr)
      with 2(2) [OF Inr l refl False] later show ?thesis by blast
    qed
  qed
qed

lemma fqdn_names_sound:
  assumes "fqdn_names True dns iface n acc names = (acc', ex)" and "v \<in> set acc'"
  shows "v \<in> set acc \<or>
    (\<exists>ip m j h. jget iface ''ipv4'' = Inr ip \<and> j < 5 \<and> dns m j ip = Inr h \<and> v = JStr h)"
  using assms
proof (induction names arbitrary: n acc)
  case Nil
  then show ?case by simp
next
  case (Cons name names)
  show ?case
  proof (cases "bindE (jget iface ''ipv4'') (\<lambda>ip. verify_tries (dns n) iface ip 5 0 name)")
    case (Inl x)
    with Cons.prems show ?thesis by simp
  next
    case (Inr r)
    show ?thesis
    proof (cases r)
      case None
      with Inr Cons show ?thesis by simp
    next
      case (Some u)
      with Inr obtain ip where ip: "jget iface ''ipv4'' = Inr ip"
        "verify_tries (dns n) iface ip 5 0 name = Inr (Some u)" by (auto simp: bindE_eq_Inr)
      have "v \<in> set (acc @ [u]) \<or>
        (\<exists>ip m j h. jget iface ''ipv4'' = Inr ip \<and> j < 5 \<and> dns m j ip = Inr h \<and> v = JStr h)"
        using Cons.prems Inr Some by (intro Cons.IH) simp_all
      with verify_tries_sound [OF ip(2)] ip(1) show ?thesis by fastforce
    qed
  qed
qed

text \<open>
  C30. With verification on, a name is recorded only when the resolver returned that very name, in
  one of the first five tries, for the address of the interface; otherwise nothing is recorded.
\<close>

theorem fqdn_recorded_is_verified:
  assumes "get_verified_dns_query True dns iface = Inr v"
  shows "v = JNull \<or>
    (\<exists>ip m j h. jget iface ''ipv4'' = Inr ip \<and> j < 5 \<and> dns m j ip = Inr h \<and> v = JStr h)"
proof (cases "bindE (jget iface ''fqdn'') jiter")
  case (Inl x)
  with assms show ?thesis
    by (auto simp: get_verified_dns_query_def one_fqdn_def bindE_eq_Inr split: if_splits)
next
  case (Inr names)
  obtain acc ex where f: "fqdn_names True dns iface 0 [] names = (acc, ex)"
    by (cases "fqdn_names True dns iface 0 [] names")
  have "one_fqdn acc = Inr v"
    using assms Inr f by (auto simp: get_verified_dns_query_def bindE_eq_Inr split: option.splits if_splits)
  then have "v = JNull \<or> v \<in> set acc"
    by (auto simp: one_fqdn_def split: if_splits list.splits)
  with fqdn_names_sound [OF f] show ?thesis by auto
qed

theorem fqdn_recorded_is_verified_witness:
  "let ifc = JObj [(''fqdn'', JList [JStr ''n1.lan.'']), (''ipv4'', JStr ''10.0.0.1''), (''mac'', JStr ''m'')];
       dns = (\<lambda>m j ip. if j < 2 then Inl HError else Inr ''n1.lan'')
   in get_verified_dns_query True dns ifc = Inr (JStr ''n1.lan'') \<and>
     (\<exists>ip m j h. jget ifc ''ipv4'' = Inr ip \<and> j < 5 \<and> dns m j ip = Inr h \<and> JStr ''n1.lan'' = JStr h)"
proof -
  let ?ifc = "JObj [(''fqdn'', JList [JStr ''n1.lan.'']), (''ipv4'', JStr ''10.0.0.1''), (''mac'', JStr ''m'')]"
  let ?dns = "\<lambda>m j ip. if j < (2 :: nat) then Inl HError else Inr ''n1.lan''"
  have r: "get_verified_dns_query True ?dns ?ifc = Inr (JStr ''n1.lan'')"
    by (simp add: get_verified_dns_query_def one_fqdn_def numeral_eq_Suc)
  from fqdn_recorded_is_verified [OF r] r show ?thesis by (simp add: Let_def)
qed

end
