(* ===== verification/Machine_Discovery.thy ===== *)
theory Machine_Discovery
  imports Store Tools
begin

text \<open>
  \<open>enjoliver/repositories/machine_discovery.py\<close>: recording what a machine reports about itself. The
  payload is the JSON value of the request; every subscript, iteration and validator of the source
  is a step that may raise. Rows are constructed first (which runs the validators) and inserted at
  the flush (which converts the values to the column types and enforces the unique mac).
\<close>

section \<open>Linting and deleting\<close>

definition required_keys :: "string list" where
  "required_keys = [''boot-info'', ''disks'', ''lldp'', ''interfaces'']"

fun lint_discovery_data :: "json \<Rightarrow> dict result" where
  "lint_discovery_data (JObj dd) =
     (if \<not> set required_keys \<subseteq> fst ` set dd then raise TypeError
      else if map_of dd ''disks'' = Some JNull then ok (dict_set dd ''disks'' (JList []))
      else ok dd)"
| "lint_discovery_data _ = raise AttributeError"

text \<open>Disks, interfaces and the switch ports of those interfaces; nothing else of the machine.\<close>

definition delete_all_attached :: "nat \<Rightarrow> db \<Rightarrow> db" where
  "delete_all_attached mid d =
     (let all_mi = [i \<leftarrow> ifaces d. i_machine i = mid] in
      d\<lparr>disks := [k \<leftarrow> disks d. k_machine k \<noteq> mid],
        ports := [p \<leftarrow> ports d. p_iface p \<notin> i_id ` set all_mi],
        ifaces := [i \<leftarrow> ifaces d. i_machine i \<noteq> mid]\<rparr>)"

section \<open>Constructing and inserting rows\<close>

record new_iface =
  n_mac :: string
  n_name :: json
  n_netmask :: json
  n_ipv4 :: string
  n_cidrv4 :: json
  n_as_boot :: bool
  n_gateway :: json
  n_fqdn :: json

text \<open>The keyword arguments are evaluated in order, then the constructor validates.\<close>

definition construct_iface ::
  "engine \<Rightarrow> bool \<Rightarrow> (nat \<Rightarrow> nat \<Rightarrow> json \<Rightarrow> string result) \<Rightarrow> json \<Rightarrow> json \<Rightarrow> new_iface result" where
  "construct_iface E verify dns data i =
     bindE (jget i ''mac'') (\<lambda>mac.
     bindE (jget i ''name'') (\<lambda>name.
     bindE (jget i ''netmask'') (\<lambda>netmask.
     bindE (jget i ''ipv4'') (\<lambda>ipv4.
     bindE (jget i ''cidrv4'') (\<lambda>cidrv4.
     bindE (bindE (jget data ''boot-info'') (\<lambda>b. jget b ''mac'')) (\<lambda>boot_mac.
     bindE (jget i ''gateway'') (\<lambda>gateway.
     bindE (get_verified_dns_query verify dns i) (\<lambda>fqdn.
     bindE (validate_mac mac) (\<lambda>m.
     bindE (validate_ipv4 ipv4) (\<lambda>ip.
     bindE (if stacked_validates E then bindE (validate_ipv4 gateway) (\<lambda>_. ok ()) else ok ()) (\<lambda>_.
       ok \<lparr>n_mac = m, n_name = name, n_netmask = netmask, n_ipv4 = ip, n_cidrv4 = cidrv4,
           n_as_boot = (mac = boot_mac), n_gateway = gateway, n_fqdn = fqdn\<rparr>)))))))))))"

text \<open>The loop over the interfaces: one without a mac is skipped.\<close>

fun construct_ifaces ::
  "engine \<Rightarrow> bool \<Rightarrow> (nat \<Rightarrow> nat \<Rightarrow> nat \<Rightarrow> json \<Rightarrow> string result) \<Rightarrow> json \<Rightarrow> nat \<Rightarrow> json list \<Rightarrow>
   new_iface list result" where
  "construct_ifaces E verify dns data n [] = ok []"
| "construct_ifaces E verify dns data n (i # is) =
     bindE (jget i ''mac'') (\<lambda>mac.
       if truthy mac then
         bindE (construct_iface E verify (dns n) data i) (\<lambda>r.
         bindE (construct_ifaces E verify dns data (Suc n) is) (\<lambda>rs. ok (r # rs)))
       else construct_ifaces E verify dns data (Suc n) is)"

definition col_opt_str :: "engine \<Rightarrow> json \<Rightarrow> string option result" where
  "col_opt_str E v =
     (if v = JNull then ok None else bindE (col_str E None v) (\<lambda>s. ok (Some s)))"

definition flush_iface :: "engine \<Rightarrow> nat \<Rightarrow> new_iface \<Rightarrow> nat tx" where
  "flush_iface E mid r d =
     bindE (col_str E (Some 17) (JStr (n_mac r))) (\<lambda>mac.
     bindE (col_str E None (n_name r)) (\<lambda>name.
     bindE (col_int E 32 (n_netmask r)) (\<lambda>netmask.
     bindE (col_str E (Some 15) (JStr (n_ipv4 r))) (\<lambda>ipv4.
     bindE (col_str E (Some 18) (n_cidrv4 r)) (\<lambda>cidrv4.
     bindE (col_str E (Some 15) (n_gateway r)) (\<lambda>gateway.
     bindE (col_opt_str E (n_fqdn r)) (\<lambda>fqdn.
       if mac \<in> i_mac ` set (ifaces d) then raise IntegrityError
       else
         let k = new_id E (map i_id (ifaces d)) in
         ok (k, d\<lparr>ifaces := ifaces d @
           [\<lparr>i_id = k, i_mac = mac, i_name = name, i_netmask = netmask, i_ipv4 = ipv4,
             i_cidrv4 = cidrv4, i_as_boot = n_as_boot r, i_gateway = gateway, i_fqdn = fqdn,
             i_machine = mid\<rparr>]\<rparr>))))))))"

fun flush_ifaces :: "engine \<Rightarrow> nat \<Rightarrow> new_iface list \<Rightarrow> nat list tx" where
  "flush_ifaces E mid [] d = ok ([], d)"
| "flush_ifaces E mid (r # rs) d =
     bindE (flush_iface E mid r d) (\<lambda>(k, d1).
     bindE (flush_ifaces E mid rs d1) (\<lambda>(ks, d2). ok (k # ks, d2)))"

definition construct_disk :: "json \<Rightarrow> (json \<times> json) result" where
  "construct_disk k =
     bindE (jget k ''path'') (\<lambda>path. bindE (jget k ''size-bytes'') (\<lambda>size. ok (path, size)))"

definition flush_disk :: "engine \<Rightarrow> nat \<Rightarrow> db \<Rightarrow> json \<times> json \<Rightarrow> db result" where
  "flush_disk E mid d r =
     bindE (col_str E None (fst r)) (\<lambda>path.
     bindE (col_int E 64 (snd r)) (\<lambda>size.
       ok (d\<lparr>disks := disks d @
         [\<lparr>k_id = new_id E (map k_id (disks d)), k_path = path, k_size = size, k_machine = mid\<rparr>]\<rparr>)))"

section \<open>LLDP\<close>

fun hashable :: "json \<Rightarrow> bool" where
  "hashable (JList _) = False"
| "hashable (JObj _) = False"
| "hashable _ = True"

fun key_error :: "json \<Rightarrow> exn" where
  "key_error (JStr s) = KeyError s"
| "key_error _ = KeyError ''''"

text \<open>\<open>machine_interfaces[name]\<close>: a later interface of the same name replaced the earlier one.\<close>

definition iface_by_name :: "(json \<times> nat) list \<Rightarrow> json \<Rightarrow> nat result" where
  "iface_by_name tab name =
     (if \<not> hashable name then raise TypeError
      else case map_of (rev tab) name of None \<Rightarrow> raise (key_error name) | Some k \<Rightarrow> ok k)"

text \<open>
  The filter is \<open>A and B\<close> on two SQL expressions: the first has a false truth value, so the
  expression is the comparison of the name with the chassis name alone (comparing with \<open>None\<close>
  gives an expression without a truth value, which raises).
\<close>

definition lookup_chassis :: "engine \<Rightarrow> json \<Rightarrow> db \<Rightarrow> chassis_row option result" where
  "lookup_chassis E name d =
     (if name = JNull then raise TypeError
      else bindE (col_str E None name) (\<lambda>s. ok (first (query_where E (\<lambda>h. h_name h = s) (chassis d)))))"

definition ensure_chassis :: "engine \<Rightarrow> json \<Rightarrow> db \<Rightarrow> (nat \<times> db) result" where
  "ensure_chassis E lldp d =
     bindE (bindE (jget lldp ''chassis'') (\<lambda>c. jget c ''name'')) (\<lambda>name.
     bindE (lookup_chassis E name d) (\<lambda>found.
       case found of
         Some h \<Rightarrow> ok (h_id h, d)
       | None \<Rightarrow>
           bindE (bindE (jget lldp ''chassis'') (\<lambda>c. jget c ''id'')) (\<lambda>cid.
           bindE (validate_mac cid) (\<lambda>m.
           bindE (col_str E None name) (\<lambda>s.
           bindE (col_str E (Some 17) (JStr m)) (\<lambda>mac.
             let k = new_id E (map h_id (chassis d)) in
             ok (k, d\<lparr>chassis := chassis d @ [\<lparr>h_id = k, h_name = s, h_mac = mac\<rparr>]\<rparr>)))))))"

definition insert_lldp :: "engine \<Rightarrow> (json \<times> nat) list \<Rightarrow> db \<Rightarrow> json \<Rightarrow> db result" where
  "insert_lldp E tab d lldp =
     bindE (ensure_chassis E lldp d) (\<lambda>(h, d1).
     bindE (bindE (jget lldp ''name'') (iface_by_name tab)) (\<lambda>ifid.
     bindE (bindE (jget lldp ''port'') (\<lambda>p. jget p ''id'')) (\<lambda>pid.
     bindE (col_str E None pid) (\<lambda>pmac.
       ok (d1\<lparr>ports := ports d1 @
         [\<lparr>p_id = new_id E (map p_id (ports d1)), p_mac = pmac, p_chassis = h, p_iface = ifid\<rparr>]\<rparr>)))))"

text \<open>\<open>lldp["is_file"] and lldp["data"]["interfaces"]\<close>, with the short circuit of \<open>and\<close>.\<close>

definition lldp_interfaces :: "json \<Rightarrow> json list result" where
  "lldp_interfaces data =
     bindE (jget data ''lldp'') (\<lambda>l.
     bindE (jget l ''is_file'') (\<lambda>f.
       if \<not> truthy f then ok []
       else bindE (bindE (jget l ''data'') (\<lambda>x. jget x ''interfaces'')) (\<lambda>is.
              if truthy is then jiter is else ok [])))"

definition insert_network ::
  "engine \<Rightarrow> bool \<Rightarrow> (nat \<Rightarrow> nat \<Rightarrow> nat \<Rightarrow> json \<Rightarrow> string result) \<Rightarrow> nat \<Rightarrow> json \<Rightarrow> (json \<times> json) list \<Rightarrow>
   db \<Rightarrow> db result" where
  "insert_network E verify dns mid data pending_disks d =
     bindE (bindE (jget data ''interfaces'') jiter) (\<lambda>is.
     bindE (construct_ifaces E verify dns data 0 is) (\<lambda>rows.
     if \<not> list_all (\<lambda>r. hashable (n_name r)) rows then raise TypeError
     else
     bindE (foldE (flush_disk E mid) d pending_disks) (\<lambda>d1.
     bindE (flush_ifaces E mid rows d1) (\<lambda>(ks, d2).
     bindE (lldp_interfaces data) (\<lambda>ls.
       foldE (insert_lldp E (zip (map n_name rows) ks)) d2 ls)))))"

section \<open>upsert\<close>

definition find_uuid :: "engine \<Rightarrow> json \<Rightarrow> db \<Rightarrow> machine option result" where
  "find_uuid E uuid d =
     (if uuid = JNull then ok None
      else bindE (col_str E None uuid) (\<lambda>u. ok (first (query_where E (\<lambda>m. m_uuid m = u) (machines d)))))"

text \<open>\<open>machine.updated_date = now\<close> on the row of that key.\<close>

definition touch_machine :: "nat \<Rightarrow> nat \<Rightarrow> machine list \<Rightarrow> machine list" where
  "touch_machine now k ms = map (\<lambda>x. if m_id x = k then x\<lparr>m_updated := Some now\<rparr> else x) ms"

definition upsert_machine :: "engine \<Rightarrow> nat \<Rightarrow> json \<Rightarrow> (bool \<times> nat) tx" where
  "upsert_machine E now uuid d =
     bindE (find_uuid E uuid d) (\<lambda>found.
       case found of
         Some m \<Rightarrow>
           ok ((False, m_id m), delete_all_attached (m_id m)
             (d\<lparr>machines := touch_machine now (m_id m) (machines d)\<rparr>))
       | None \<Rightarrow>
           bindE (validate_uuid_field uuid) (\<lambda>u.
           bindE (col_str E (Some 36) (JStr u)) (\<lambda>u'.
             let k = new_id E (map m_id (machines d)) in
             ok ((True, k), d\<lparr>machines := machines d @
               [\<lparr>m_id = k, m_uuid = u', m_created = now, m_updated = Some now\<rparr>]\<rparr>))))"

definition upsert_body ::
  "engine \<Rightarrow> bool \<Rightarrow> (nat \<Rightarrow> nat \<Rightarrow> nat \<Rightarrow> json \<Rightarrow> string result) \<Rightarrow> nat \<Rightarrow> dict \<Rightarrow> bool tx" where
  "upsert_body E verify dns now dd d =
     (let data = JObj dd in
      bindE (bindE (jget data ''boot-info'') (\<lambda>b. jget b ''uuid'')) (\<lambda>uuid.
      bindE (upsert_machine E now uuid d) (\<lambda>((new, mid), d1).
      bindE (bindE (jget data ''disks'') jiter) (\<lambda>ks.
      bindE (mapE construct_disk ks) (\<lambda>pending.
      bindE (insert_network E verify dns mid data pending d1) (\<lambda>d2.
        ok (new, d2)))))))"

definition upsert ::
  "engine \<Rightarrow> bool \<Rightarrow> (nat \<Rightarrow> nat \<Rightarrow> nat \<Rightarrow> json \<Rightarrow> string result) \<Rightarrow> nat \<Rightarrow> json \<Rightarrow> db \<Rightarrow>
   bool result \<times> db" where
  "upsert E verify dns now data d =
     (case lint_discovery_data data of
        Inl x \<Rightarrow> (Inl x, d)
      | Inr dd \<Rightarrow> session_commit (upsert_body E verify dns now dd) d)"

section \<open>Reading back\<close>

definition iface_dict :: "iface \<Rightarrow> json" where
  "iface_dict i = JObj [
     (''as_boot'', JBool (i_as_boot i)), (''cidrv4'', JStr (i_cidrv4 i)),
     (''fqdn'', case i_fqdn i of None \<Rightarrow> JNull | Some s \<Rightarrow> JStr s),
     (''gateway'', JStr (i_gateway i)), (''ipv4'', JStr (i_ipv4 i)), (''mac'', JStr (i_mac i)),
     (''name'', JStr (i_name i)), (''netmask'', JInt (i_netmask i))]"

definition disk_dict :: "disk \<Rightarrow> json" where
  "disk_dict k = JObj [(''size-bytes'', JInt (k_size k)), (''path'', JStr (k_path k))]"

definition opt_date :: "nat option \<Rightarrow> json" where
  "opt_date t = (case t of None \<Rightarrow> JNull | Some n \<Rightarrow> JInt (int n))"

text \<open>The loop over the interfaces leaves the last one marked as boot interface.\<close>

definition last_boot :: "iface list \<Rightarrow> iface option" where
  "last_boot is = (case filter i_as_boot is of [] \<Rightarrow> None | bs \<Rightarrow> Some (last bs))"

definition fetch_discovery :: "engine \<Rightarrow> db \<Rightarrow> machine \<Rightarrow> json result" where
  "fetch_discovery E d m =
     (let is = m_interfaces E d m in
      case last_boot is of
        None \<Rightarrow> raise AttributeError
      | Some b \<Rightarrow> ok (JObj [
          (''boot-info'', JObj [(''uuid'', JStr (m_uuid m)), (''created-date'', JInt (int (m_created m))),
             (''updated-date'', opt_date (m_updated m)), (''mac'', JStr (i_mac b))]),
          (''interfaces'', JList (map iface_dict is)),
          (''disks'', JList (map disk_dict (m_disks E d m)))]))"

definition fetch_all_discovery :: "engine \<Rightarrow> db \<Rightarrow> json list result \<times> db" where
  "fetch_all_discovery E =
     session_commit (\<lambda>d. bindE (mapE (fetch_discovery E d) (machines_join_ifaces E (\<lambda>m i. True) d))
       (\<lambda>js. ok (js, d)))"

end
