(* ===== verification/Discovery_Facts.thy ===== *)
theory Discovery_Facts
  imports Machine_Discovery
begin

text \<open>
  The correctness of recording a discovery: every step keeps the database invariant, \<open>upsert\<close>
  touches nothing but the tables of the reporting machine, and on a well-formed report it succeeds
  and stores exactly what was reported, which \<open>fetch_all_discovery\<close> then returns.
\<close>

section \<open>Machines\<close>

lemma touch_machine_keys [simp]:
  "map m_id (touch_machine t k ms) = map m_id ms"
  "map m_uuid (touch_machine t k ms) = map m_uuid ms"
  by (induction ms) (auto simp: touch_machine_def)

lemma touch_machine_sets [simp]:
  "m_id ` set (touch_machine t k ms) = m_id ` set ms"
  "m_uuid ` set (touch_machine t k ms) = m_uuid ` set ms"
  by (metis image_set touch_machine_keys(1), metis image_set touch_machine_keys(2))

lemma touch_machine_uuids [simp]:
  "(\<forall>m\<in>set (touch_machine t k ms). P (m_uuid m)) \<longleftrightarrow> (\<forall>m\<in>set ms. P (m_uuid m))"
  by (metis (no_types, lifting) image_iff touch_machine_sets(2))

lemma db_ok_touch_machine: "db_ok d \<Longrightarrow> db_ok (d\<lparr>machines := touch_machine t k (machines d)\<rparr>)"
  by (simp add: db_ok_defs)

lemma distinct_map_filterI: "distinct (map f xs) \<Longrightarrow> distinct (map f (filter P xs))"
  by (rule distinct_map_filter)

lemma db_ok_delete_attached: "db_ok d \<Longrightarrow> db_ok (delete_all_attached k d)"
proof -
  assume d: "db_ok d"
  have "p_iface p \<in> i_id ` {i \<in> set (ifaces d). i_machine i \<noteq> k}"
    if p: "p \<in> set (ports d)" "p_iface p \<notin> i_id ` {i \<in> set (ifaces d). i_machine i = k}" for p
  proof -
    obtain i where "i \<in> set (ifaces d)" "p_iface p = i_id i"
      using d p(1) by (auto simp: db_ok_def refs_ok_def)
    with p(2) show ?thesis by auto
  qed
  with d have "refs_ok (delete_all_attached k d)"
    by (simp add: delete_all_attached_def db_ok_def refs_ok_def Let_def)
  with d show ?thesis
    by (simp add: delete_all_attached_def db_ok_def keys_ok_def unique_ok_def values_ok_def
        distinct_map_filterI Let_def)
qed

lemma find_uuid_str [simp]:
  "engine_ok E \<Longrightarrow> find_uuid E (JStr u) d = ok (first (query_where E (\<lambda>m. m_uuid m = u) (machines d)))"
  by (simp add: find_uuid_def)

lemma validate_uuid_Inr: "validate_uuid_field j = Inr u \<longleftrightarrow> j = JStr u \<and> uuid_shape u"
proof (cases j)
  case (JStr s)
  have "uuid_shape s \<Longrightarrow> length s = 36" by (rule uuid_shape_length)
  moreover have "\<not> (length s = 36 \<and> (\<exists>w. uuid_shape w \<and> s = w @ [newline]))"
    by (auto dest: uuid_shape_length)
  ultimately show ?thesis using JStr by (auto simp: UUID_REGEX_def re_match_uuid split: if_splits)
qed auto

text \<open>The two ways through: a known uuid, a new one.\<close>

lemma upsert_machine_cases:
  assumes E: "engine_ok E" and r: "upsert_machine E now uuid d = Inr ((new, mid), d')"
  obtains m where "\<not> new" "m \<in> set (machines d)" "mid = m_id m"
      "uuid = JStr (m_uuid m) \<or> (\<forall>s. uuid \<noteq> JStr s)"
      "d' = delete_all_attached mid
         (d\<lparr>machines := touch_machine now mid (machines d)\<rparr>)"
    | u where "new" "uuid = JStr u" "uuid_shape u" "u \<notin> m_uuid ` set (machines d)"
      "mid = new_id E (map m_id (machines d))"
      "d' = d\<lparr>machines := machines d @
         [\<lparr>m_id = mid, m_uuid = u, m_created = now, m_updated = Some now\<rparr>]\<rparr>"
proof -
  from r obtain found where f: "find_uuid E uuid d = Inr found"
    by (auto simp: upsert_machine_def bindE_eq_Inr)
  show thesis
  proof (cases found)
    case (Some m)
    have "m \<in> set (machines d) \<and> (uuid = JStr (m_uuid m) \<or> (\<forall>s. uuid \<noteq> JStr s))"
    proof (cases uuid)
      case (JStr u)
      with f Some E have "first (query_where E (\<lambda>m. m_uuid m = u) (machines d)) = Some m" by simp
      from first_Some_in [OF this] E JStr show ?thesis by simp
    next
      case JNull
      with f Some show ?thesis by (simp add: find_uuid_def)
    qed (use f Some E in \<open>auto simp: find_uuid_def bindE_eq_Inr dest!: first_Some_in\<close>)
    with r f Some show thesis by (intro that(1)) (auto simp: upsert_machine_def)
  next
    case None
    with r f obtain u u' where u: "uuid = JStr u" "uuid_shape u"
      "col_str E (Some 36) (JStr u) = Inr u'" and d': "new" "mid = new_id E (map m_id (machines d))"
      "d' = d\<lparr>machines := machines d @
         [\<lparr>m_id = mid, m_uuid = u', m_created = now, m_updated = Some now\<rparr>]\<rparr>"
      by (auto simp: upsert_machine_def bindE_eq_Inr validate_uuid_Inr Let_def)
    have "u' = u" using u(2,3) E uuid_shape_last col_str_same by blast
    moreover have "u \<notin> m_uuid ` set (machines d)"
    proof
      assume "u \<in> m_uuid ` set (machines d)"
      then have "set (query_where E (\<lambda>m. m_uuid m = u) (machines d)) \<noteq> {}" using E by auto
      moreover have "query_where E (\<lambda>m. m_uuid m = u) (machines d) = []"
        using f None u(1) E by simp
      ultimately show False by simp
    qed
    ultimately show thesis using that(2) u d' by simp
  qed
qed

lemma upsert_machine_ok:
  assumes E: "engine_ok E" and d: "db_ok d" and r: "upsert_machine E now uuid d = Inr ((new, mid), d')"
  shows "db_ok d' \<and> mid \<in> m_id ` set (machines d')"
proof (cases rule: upsert_machine_cases [OF E r])
  case (1 m)
  have "mid \<in> m_id ` set (machines d')"
    using 1 by (simp add: delete_all_attached_def Let_def)
  with 1 d show ?thesis by (simp add: db_ok_delete_attached db_ok_touch_machine)
next
  case (2 u)
  have "mid \<notin> m_id ` set (machines d)" using 2(5) new_id_image [OF E] by simp
  with 2 d show ?thesis by (auto intro!: db_ok_add_machine)
qed

section \<open>Interfaces\<close>

lemma construct_iface_mac:
  assumes "construct_iface E verify dns data i = Inr r"
  shows "is_ok (MAC_REGEX (n_mac r)) \<and> is_ok (IPV4_REGEX (n_ipv4 r))"
  using assms
  by (auto simp: construct_iface_def bindE_eq_Inr validate_mac_Inr validate_ipv4_Inr)

lemma construct_ifaces_valid:
  "construct_ifaces E verify dns data n is = Inr rs \<Longrightarrow> r \<in> set rs \<Longrightarrow>
   is_ok (MAC_REGEX (n_mac r)) \<and> is_ok (IPV4_REGEX (n_ipv4 r))"
proof (induction "is" arbitrary: n rs)
  case (Cons i "is")
  then show ?case
    by (auto simp: bindE_eq_Inr split: if_splits dest: construct_iface_mac)
qed simp

text \<open>One insertion: a row more, with a fresh key, a mac nobody had, and the machine as owner.\<close>

lemma flush_iface_Inr:
  assumes E: "engine_ok E" and r: "flush_iface E mid r d = Inr (k, d')"
    and v: "is_ok (MAC_REGEX (n_mac r))" "is_ok (IPV4_REGEX (n_ipv4 r))"
  obtains i where "d' = d\<lparr>ifaces := ifaces d @ [i]\<rparr>" "i_id i = k" "k \<notin> i_id ` set (ifaces d)"
    "i_mac i = n_mac r" "i_mac i \<notin> i_mac ` set (ifaces d)" "i_ipv4 i = n_ipv4 r"
    "i_as_boot i = n_as_boot r" "i_machine i = mid" "col_str E None (n_name r) = Inr (i_name i)"
    "col_int E 32 (n_netmask r) = Inr (i_netmask i)" "col_str E (Some 18) (n_cidrv4 r) = Inr (i_cidrv4 i)"
    "col_str E (Some 15) (n_gateway r) = Inr (i_gateway i)" "col_opt_str E (n_fqdn r) = Inr (i_fqdn i)"
proof -
  obtain mac name netmask ipv4 cidrv4 gateway fqdn where *:
    "col_str E (Some 17) (JStr (n_mac r)) = Inr mac" "col_str E None (n_name r) = Inr name"
    "col_int E 32 (n_netmask r) = Inr netmask" "col_str E (Some 15) (JStr (n_ipv4 r)) = Inr ipv4"
    "col_str E (Some 18) (n_cidrv4 r) = Inr cidrv4" "col_str E (Some 15) (n_gateway r) = Inr gateway"
    "col_opt_str E (n_fqdn r) = Inr fqdn" "mac \<notin> i_mac ` set (ifaces d)"
    "k = new_id E (map i_id (ifaces d))"
    "d' = d\<lparr>ifaces := ifaces d @
           [\<lparr>i_id = k, i_mac = mac, i_name = name, i_netmask = netmask, i_ipv4 = ipv4,
             i_cidrv4 = cidrv4, i_as_boot = n_as_boot r, i_gateway = gateway, i_fqdn = fqdn,
             i_machine = mid\<rparr>]\<rparr>"
    using r by (auto simp: flush_iface_def bindE_eq_Inr Let_def split: if_splits)
  have "mac = n_mac r" using *(1) v(1) E mac_ok_last col_str_same by blast
  moreover have "ipv4 = n_ipv4 r" using *(4) v(2) E ipv4_ok_last col_str_same by blast
  moreover have "k \<notin> i_id ` set (ifaces d)" using *(9) new_id_image [OF E] by simp
  ultimately show thesis using * by (intro that [OF *(10)]) simp_all
qed

definition stored_as :: "engine \<Rightarrow> nat \<Rightarrow> new_iface \<Rightarrow> iface \<Rightarrow> bool" where
  "stored_as E mid r i \<longleftrightarrow> i_machine i = mid \<and> i_mac i = n_mac r \<and> i_ipv4 i = n_ipv4 r \<and>
     i_as_boot i = n_as_boot r \<and> col_str E None (n_name r) = Inr (i_name i) \<and>
     col_int E 32 (n_netmask r) = Inr (i_netmask i) \<and> col_str E (Some 18) (n_cidrv4 r) = Inr (i_cidrv4 i) \<and>
     col_str E (Some 15) (n_gateway r) = Inr (i_gateway i) \<and> col_opt_str E (n_fqdn r) = Inr (i_fqdn i)"

lemma flush_ifaces_Inr:
  assumes "engine_ok E" and "flush_ifaces E mid rs d = Inr (ks, d')" and "db_ok d"
    and "mid \<in> m_id ` set (machines d)"
    and "\<forall>r\<in>set rs. is_ok (MAC_REGEX (n_mac r)) \<and> is_ok (IPV4_REGEX (n_ipv4 r))"
  shows "\<exists>new. d' = d\<lparr>ifaces := ifaces d @ new\<rparr> \<and> map i_id new = ks \<and>
    list_all2 (stored_as E mid) rs new \<and> db_ok d'"
  using assms(2-)
proof (induction rs arbitrary: d ks)
  case Nil
  then show ?case by (auto intro!: exI [of _ "[]"])
next
  case (Cons r rs)
  then obtain k d1 ks' where f: "flush_iface E mid r d = Inr (k, d1)"
    and fs: "flush_ifaces E mid rs d1 = Inr (ks', d')" and ks: "ks = k # ks'"
    by (auto simp: bindE_eq_Inr)
  from Cons.prems(4) have v: "is_ok (MAC_REGEX (n_mac r))" "is_ok (IPV4_REGEX (n_ipv4 r))" by auto
  obtain i where i: "d1 = d\<lparr>ifaces := ifaces d @ [i]\<rparr>" "i_id i = k" "k \<notin> i_id ` set (ifaces d)"
    "i_mac i \<notin> i_mac ` set (ifaces d)" and s: "stored_as E mid r i"
    by (rule flush_iface_Inr [OF assms(1) f v]) (simp add: stored_as_def)
  have "db_ok d1"
    unfolding i(1) by (rule db_ok_add_iface) (use Cons.prems i s v in \<open>auto simp: stored_as_def\<close>)
  with Cons.IH [OF fs] Cons.prems i obtain new where "d' = d1\<lparr>ifaces := ifaces d1 @ new\<rparr>"
    "map i_id new = ks'" "list_all2 (stored_as E mid) rs new" "db_ok d'" by auto
  with i s ks show ?case by (intro exI [of _ "i # new"]) auto
qed

section \<open>Disks and switch ports\<close>

definition disk_stored :: "engine \<Rightarrow> nat \<Rightarrow> json \<times> json \<Rightarrow> disk \<Rightarrow> bool" where
  "disk_stored E mid r k \<longleftrightarrow> k_machine k = mid \<and> col_str E None (fst r) = Inr (k_path k) \<and>
     col_int E 64 (snd r) = Inr (k_size k)"

lemma flush_disk_Inr:
  "flush_disk E mid d r = Inr d' \<Longrightarrow> \<exists>k. d' = d\<lparr>disks := disks d @ [k]\<rparr> \<and> disk_stored E mid r k"
  by (auto simp: bindE_eq_Inr flush_disk_def disk_stored_def)

lemma flush_disks_Inr:
  assumes "foldE (flush_disk E mid) d rs = Inr d'" and "db_ok d" and "mid \<in> m_id ` set (machines d)"
  shows "\<exists>new. d' = d\<lparr>disks := disks d @ new\<rparr> \<and> list_all2 (disk_stored E mid) rs new \<and> db_ok d'"
  using assms
proof (induction rs arbitrary: d)
  case Nil
  then show ?case by (auto intro!: exI [of _ "[]"])
next
  case (Cons r rs)
  then obtain d1 where d1: "flush_disk E mid d r = Inr d1" "foldE (flush_disk E mid) d1 rs = Inr d'"
    by (auto simp: bindE_eq_Inr)
  from flush_disk_Inr [OF d1(1)] d1(2) obtain k where k: "disk_stored E mid r k"
    and rest: "foldE (flush_disk E mid) (d\<lparr>disks := disks d @ [k]\<rparr>) rs = Inr d'" by auto
  have "db_ok (d\<lparr>disks := disks d @ [k]\<rparr>)"
    by (rule db_ok_add_disk) (use Cons.prems k in \<open>auto simp: disk_stored_def\<close>)
  with Cons.IH [OF rest] Cons.prems obtain new where
    "d' = d\<lparr>disks := (disks d @ [k]) @ new\<rparr>" "list_all2 (disk_stored E mid) rs new" "db_ok d'"
    by auto
  with k show ?case by (intro exI [of _ "k # new"]) auto
qed

lemma ensure_chassis_ok:
  assumes E: "engine_ok E" and r: "ensure_chassis E l d = Inr (h, d')" and d: "db_ok d"
  shows "db_ok d' \<and> h \<in> h_id ` set (chassis d') \<and> (\<exists>hs. d' = d\<lparr>chassis := hs\<rparr>)"
proof -
  obtain name found where f: "lookup_chassis E name d = Inr found"
    using r by (auto simp: ensure_chassis_def bindE_eq_Inr)
  from r obtain name found where n: "bindE (jget l ''chassis'') (\<lambda>c. jget c ''name'') = Inr name"
    and f: "lookup_chassis E name d = Inr found"
    unfolding ensure_chassis_def by (auto simp: bindE_eq_Inr)
  show ?thesis
  proof (cases found)
    case (Some g)
    then have "g \<in> set (chassis d)"
      using f E by (auto simp: lookup_chassis_def bindE_eq_Inr split: if_splits dest!: first_Some_in)
    moreover have "h = h_id g" "d' = d" using r n f Some by (simp_all add: ensure_chassis_def)
    ultimately show ?thesis using d by (auto intro!: exI [of _ "chassis d"])
  next
    case None
    with r n f obtain g where g: "d' = d\<lparr>chassis := chassis d @ [g]\<rparr>" "h = h_id g"
      "h_id g = new_id E (map h_id (chassis d))"
      by (auto simp: ensure_chassis_def bindE_eq_Inr Let_def)
    have "h_id g \<notin> h_id ` set (chassis d)" using g(3) new_id_image [OF E] by simp
    with d have "db_ok d'" unfolding g(1) by (rule db_ok_add_chassis)
    with g show ?thesis by auto
  qed
qed

lemma insert_lldp_ok:
  assumes E: "engine_ok E" and r: "insert_lldp E tab d l = Inr d'" and d: "db_ok d"
    and tab: "\<forall>(name, k)\<in>set tab. k \<in> i_id ` set (ifaces d)"
  shows "db_ok d' \<and> (\<exists>hs ps. d' = d\<lparr>chassis := hs, ports := ps\<rparr>)"
proof -
  obtain h d1 ifid p where c: "ensure_chassis E l d = Inr (h, d1)"
    and i: "bindE (jget l ''name'') (iface_by_name tab) = Inr ifid"
    and d': "d' = d1\<lparr>ports := ports d1 @ [p]\<rparr>" "p_iface p = ifid" "p_chassis p = h"
    using r by (auto simp: insert_lldp_def bindE_eq_Inr)
  from i obtain name where "map_of (rev tab) name = Some ifid"
    by (auto simp: bindE_eq_Inr iface_by_name_def split: if_splits option.splits)
  then have "(name, ifid) \<in> set tab" by (auto dest: map_of_SomeD)
  with tab have "ifid \<in> i_id ` set (ifaces d)" by auto
  with ensure_chassis_ok [OF E c d] d' show ?thesis by (auto intro!: db_ok_add_port)
qed

lemma insert_lldps_ok:
  assumes E: "engine_ok E" and r: "foldE (insert_lldp E tab) d ls = Inr d'" and d: "db_ok d"
    and tab: "\<forall>(name, k)\<in>set tab. k \<in> i_id ` set (ifaces d)"
  shows "db_ok d' \<and> (\<exists>hs ps. d' = d\<lparr>chassis := hs, ports := ps\<rparr>)"
  using r d tab
proof (induction ls arbitrary: d)
  case Nil
  then show ?case by (auto intro!: exI [of _ "chassis d"] exI [of _ "ports d"])
next
  case (Cons l ls)
  then obtain d1 where "insert_lldp E tab d l = Inr d1" and rest: "foldE (insert_lldp E tab) d1 ls = Inr d'"
    by (auto simp: bindE_eq_Inr)
  with insert_lldp_ok [OF E] Cons.prems obtain hs ps where
    "db_ok d1" "d1 = d\<lparr>chassis := hs, ports := ps\<rparr>" by metis
  with Cons.IH [OF rest] Cons.prems(3) show ?case by auto
qed

section \<open>The whole operation\<close>

lemma insert_network_Inr:
  assumes E: "engine_ok E" and r: "insert_network E verify dns mid data pend d = Inr d'"
    and d: "db_ok d" "mid \<in> m_id ` set (machines d)"
  obtains rows ks new hs ps where
    "bindE (bindE (jget data ''interfaces'') jiter) (construct_ifaces E verify dns data 0) = Inr rows"
    "d' = d\<lparr>disks := disks d @ ks, ifaces := ifaces d @ new, chassis := hs, ports := ps\<rparr>"
    "list_all2 (disk_stored E mid) pend ks" "list_all2 (stored_as E mid) rows new" "db_ok d'"
proof -
  obtain "is" rows d1 is' d2 ls where *:
    "bindE (jget data ''interfaces'') jiter = Inr is" "construct_ifaces E verify dns data 0 is = Inr rows"
    "foldE (flush_disk E mid) d pend = Inr d1" "flush_ifaces E mid rows d1 = Inr (is', d2)"
    "foldE (insert_lldp E (zip (map n_name rows) is')) d2 ls = Inr d'"
    using r by (auto simp: insert_network_def bindE_eq_Inr split: if_splits)
  from flush_disks_Inr [OF *(3) d] obtain ks where ks: "d1 = d\<lparr>disks := disks d @ ks\<rparr>"
    "list_all2 (disk_stored E mid) pend ks" "db_ok d1" by auto
  have v: "\<forall>r\<in>set rows. is_ok (MAC_REGEX (n_mac r)) \<and> is_ok (IPV4_REGEX (n_ipv4 r))"
    using construct_ifaces_valid [OF *(2)] by blast
  have "mid \<in> m_id ` set (machines d1)" using d(2) ks(1) by simp
  from flush_ifaces_Inr [OF E *(4) ks(3) this v] obtain new where
    new: "d2 = d1\<lparr>ifaces := ifaces d1 @ new\<rparr>" "map i_id new = is'"
    "list_all2 (stored_as E mid) rows new" "db_ok d2" by auto
  have "\<forall>(name, k)\<in>set (zip (map n_name rows) is'). k \<in> i_id ` set (ifaces d2)"
    using new(1,2) by (auto dest!: set_zip_rightD)
  from insert_lldps_ok [OF E *(5) new(4) this] obtain hs ps where
    ok: "db_ok d'" and d2: "d' = d2\<lparr>chassis := hs, ports := ps\<rparr>" by auto
  have d': "d' = d\<lparr>disks := disks d @ ks, ifaces := ifaces d @ new, chassis := hs, ports := ps\<rparr>"
    using d2 ks(1) new(1) by simp
  from *(1,2) show thesis by (intro that [OF _ d' ks(2) new(3) ok]) simp
qed

lemma upsert_body_Inr:
  assumes "upsert_body E verify dns now dd d = Inr (new, d')"
  obtains uuid mid d1 ks pend where
    "bindE (jget (JObj dd) ''boot-info'') (\<lambda>b. jget b ''uuid'') = Inr uuid"
    "upsert_machine E now uuid d = Inr ((new, mid), d1)"
    "bindE (jget (JObj dd) ''disks'') jiter = Inr ks" "mapE construct_disk ks = Inr pend"
    "insert_network E verify dns mid (JObj dd) pend d1 = Inr d'"
  using assms unfolding upsert_body_def Let_def by (auto simp: bindE_eq_Inr)

lemma upsert_body_db_ok:
  assumes E: "engine_ok E" and d: "db_ok d" and r: "upsert_body E verify dns now dd d = Inr (new, d')"
  shows "db_ok d'"
proof -
  obtain uuid mid d1 pend where *: "upsert_machine E now uuid d = Inr ((new, mid), d1)"
    "insert_network E verify dns mid (JObj dd) pend d1 = Inr d'"
    by (rule upsert_body_Inr [OF r])
  from upsert_machine_ok [OF E d *(1)] have "db_ok d1" "mid \<in> m_id ` set (machines d1)" by auto
  from insert_network_Inr [OF E *(2) this] show ?thesis by metis
qed

lemma upsert_cases:
  obtains x where "upsert E verify dns now data d = (Inl x, d)"
    | dd new d' where "lint_discovery_data data = Inr dd" "upsert_body E verify dns now dd d = Inr (new, d')"
      "upsert E verify dns now data d = (Inr new, d')"
  by (cases "lint_discovery_data data"; cases "upsert_body E verify dns now (projr (lint_discovery_data data)) d")
    (auto simp: upsert_def session_commit_def)

lemma upsert_db_ok: "engine_ok E \<Longrightarrow> db_ok d \<Longrightarrow> db_ok (snd (upsert E verify dns now data d))"
  by (rule upsert_cases [of E verify dns now data d]) (auto dest: upsert_body_db_ok)

section \<open>Well-formed reports\<close>

record nic =
  nic_mac :: string
  nic_name :: string
  nic_netmask :: int
  nic_ipv4 :: string
  nic_cidrv4 :: string
  nic_gateway :: string
  nic_names :: "json list"

record report =
  rp_uuid :: string
  rp_boot :: string
  rp_nics :: "nic list"
  rp_disks :: "(string \<times> int) list"

definition nic_json :: "nic \<Rightarrow> json" where
  "nic_json n = JObj [
     (''mac'', JStr (nic_mac n)), (''name'', JStr (nic_name n)), (''netmask'', JInt (nic_netmask n)),
     (''ipv4'', JStr (nic_ipv4 n)), (''cidrv4'', JStr (nic_cidrv4 n)),
     (''gateway'', JStr (nic_gateway n)), (''fqdn'', JList (nic_names n))]"

definition disk_json :: "string \<times> int \<Rightarrow> json" where
  "disk_json k = JObj [(''path'', JStr (fst k)), (''size-bytes'', JInt (snd k))]"

definition report_dict :: "report \<Rightarrow> dict" where
  "report_dict r = [
     (''boot-info'', JObj [(''uuid'', JStr (rp_uuid r)), (''mac'', JStr (rp_boot r))]),
     (''disks'', JList (map disk_json (rp_disks r))),
     (''lldp'', JObj [(''is_file'', JBool False)]),
     (''interfaces'', JList (map nic_json (rp_nics r)))]"

definition report_json :: "report \<Rightarrow> json" where
  "report_json r = JObj (report_dict r)"

definition nic_ok :: "engine \<Rightarrow> nic \<Rightarrow> bool" where
  "nic_ok E n \<longleftrightarrow> mac_shape (nic_mac n) \<and> is_ok (IPV4_REGEX (nic_ipv4 n)) \<and>
     length (nic_ipv4 n) \<le> 15 \<and> length (nic_cidrv4 n) \<le> 18 \<and> length (nic_gateway n) \<le> 15 \<and>
     (stacked_validates E \<longrightarrow> is_ok (IPV4_REGEX (nic_gateway n))) \<and>
     - (2 ^ 31) \<le> nic_netmask n \<and> nic_netmask n < 2 ^ 31"

definition report_ok :: "engine \<Rightarrow> report \<Rightarrow> bool" where
  "report_ok E r \<longleftrightarrow> uuid_shape (rp_uuid r) \<and> (\<forall>n\<in>set (rp_nics r). nic_ok E n) \<and>
     distinct (map nic_mac (rp_nics r)) \<and>
     (\<forall>k\<in>set (rp_disks r). - (2 ^ 63) \<le> snd k \<and> snd k < 2 ^ 63)"

definition opt_str :: "string option \<Rightarrow> json" where
  "opt_str s = (case s of None \<Rightarrow> JNull | Some t \<Rightarrow> JStr t)"

text \<open>\<open>fq n\<close> is what the DNS check of the \<open>n\<close>-th interface comes to.\<close>

definition resolves ::
  "bool \<Rightarrow> (nat \<Rightarrow> nat \<Rightarrow> nat \<Rightarrow> json \<Rightarrow> string result) \<Rightarrow> report \<Rightarrow> (nat \<Rightarrow> string option) \<Rightarrow> bool" where
  "resolves verify dns r fq \<longleftrightarrow> (\<forall>n<length (rp_nics r).
     get_verified_dns_query verify (dns n) (nic_json (rp_nics r ! n)) = Inr (opt_str (fq n)))"

type_synonym iface_view =
  "string \<times> string \<times> int \<times> string \<times> string \<times> bool \<times> string \<times> string option"

definition iface_view :: "iface \<Rightarrow> iface_view" where
  "iface_view i = (i_mac i, i_name i, i_netmask i, i_ipv4 i, i_cidrv4 i, i_as_boot i, i_gateway i, i_fqdn i)"

definition nic_view :: "string \<Rightarrow> string option \<Rightarrow> nic \<Rightarrow> iface_view" where
  "nic_view boot fq n = (nic_mac n, nic_name n, nic_netmask n, nic_ipv4 n, nic_cidrv4 n,
     nic_mac n = boot, nic_gateway n, fq)"

definition reported_views :: "report \<Rightarrow> (nat \<Rightarrow> string option) \<Rightarrow> iface_view list" where
  "reported_views r fq = map (\<lambda>(k, n). nic_view (rp_boot r) (fq k) n) (enumerate 0 (rp_nics r))"

definition nic_row :: "string \<Rightarrow> string option \<Rightarrow> nic \<Rightarrow> new_iface" where
  "nic_row boot fq n = \<lparr>n_mac = nic_mac n, n_name = JStr (nic_name n), n_netmask = JInt (nic_netmask n),
     n_ipv4 = nic_ipv4 n, n_cidrv4 = JStr (nic_cidrv4 n), n_as_boot = (nic_mac n = boot),
     n_gateway = JStr (nic_gateway n), n_fqdn = opt_str fq\<rparr>"

lemma MAC_REGEX_shape: "mac_shape s \<Longrightarrow> MAC_REGEX s = Inr s"
  by (auto simp: MAC_REGEX_def re_match_mac)

lemma is_ok_IPV4: "is_ok (IPV4_REGEX s) \<Longrightarrow> IPV4_REGEX s = Inr s"
  by (auto simp: IPV4_REGEX_def split: if_splits)

lemma jget_simps [simp]:
  "jget (JObj ((k, v) # d)) k' = (if k = k' then Inr v else jget (JObj d) k')"
  by simp

lemma construct_iface_nic:
  assumes "nic_ok E n" and "get_verified_dns_query verify dns (nic_json n) = Inr (opt_str fq)"
  shows "construct_iface E verify dns (JObj (report_dict r)) (nic_json n) = Inr (nic_row (rp_boot r) fq n)"
  using assms
  by (simp add: construct_iface_def nic_json_def report_dict_def nic_ok_def MAC_REGEX_shape is_ok_IPV4
      nic_row_def)

lemma construct_ifaces_nics:
  assumes "\<forall>n\<in>set ns. nic_ok E n"
    and "\<forall>k<length ns. get_verified_dns_query verify (dns (j + k)) (nic_json (ns ! k)) = Inr (opt_str (fq (j + k)))"
  shows "construct_ifaces E verify dns (JObj (report_dict r)) j (map nic_json ns) =
    Inr (map (\<lambda>(k, n). nic_row (rp_boot r) (fq k) n) (enumerate j ns))"
  using assms
proof (induction ns arbitrary: j)
  case Nil
  then show ?case by simp
next
  case (Cons n ns)
  have "get_verified_dns_query verify (dns j) (nic_json n) = Inr (opt_str (fq j))"
    using Cons.prems(2) by force
  then have c: "construct_iface E verify (dns j) (JObj (report_dict r)) (nic_json n) =
      Inr (nic_row (rp_boot r) (fq j) n)"
    using Cons.prems(1) by (intro construct_iface_nic) auto
  have "construct_ifaces E verify dns (JObj (report_dict r)) (Suc j) (map nic_json ns) =
      Inr (map (\<lambda>(k, n). nic_row (rp_boot r) (fq k) n) (enumerate (Suc j) ns))"
    using Cons.prems by (intro Cons.IH) force+
  moreover have "jget (nic_json n) ''mac'' = Inr (JStr (nic_mac n))" by (simp add: nic_json_def)
  moreover have "nic_mac n \<noteq> []" using Cons.prems(1) mac_shape_last by (auto simp: nic_ok_def)
  ultimately show ?case using c by simp
qed

text \<open>A well-formed row is inserted unless its mac is taken.\<close>

lemma flush_iface_nic:
  assumes "engine_ok E" "nic_ok E n" "nic_mac n \<notin> i_mac ` set (ifaces d)"
  shows "\<exists>k d'. flush_iface E mid (nic_row boot fq n) d = Inr (k, d') \<and>
    i_mac ` set (ifaces d') = insert (nic_mac n) (i_mac ` set (ifaces d))"
proof -
  have "fits (Some 17) (nic_mac n)" using assms(2) by (simp add: nic_ok_def fits_def mac_shape_length)
  moreover have "fits (Some 15) (nic_ipv4 n)" "fits (Some 18) (nic_cidrv4 n)" "fits (Some 15) (nic_gateway n)"
    using assms(2) by (simp_all add: nic_ok_def fits_def)
  moreover have "col_int E 32 (JInt (nic_netmask n)) = Inr (nic_netmask n)"
    using assms(1,2) by (intro col_int_fits) (simp_all add: nic_ok_def)
  moreover have "col_opt_str E (opt_str fq) = Inr fq"
    using assms(1) by (cases fq) (simp_all add: col_opt_str_def opt_str_def)
  ultimately show ?thesis
    using assms by (auto simp: flush_iface_def nic_row_def col_str_fits Let_def)
qed

lemma flush_ifaces_nics:
  assumes "engine_ok E" "\<forall>n\<in>set ns. nic_ok E n" "distinct (map nic_mac ns)"
    "nic_mac ` set ns \<inter> i_mac ` set (ifaces d) = {}"
  shows "is_ok (flush_ifaces E mid (map (\<lambda>(k, n). nic_row boot (fq k) n) (enumerate j ns)) d)"
  using assms(2-)
proof (induction ns arbitrary: d j)
  case (Cons n ns)
  from Cons.prems flush_iface_nic [OF assms(1), of n d mid boot "fq j"] obtain k d1 where
    d1: "flush_iface E mid (nic_row boot (fq j) n) d = Inr (k, d1)"
    "i_mac ` set (ifaces d1) = insert (nic_mac n) (i_mac ` set (ifaces d))" by auto
  with Cons.prems have "is_ok (flush_ifaces E mid (map (\<lambda>(k, n). nic_row boot (fq k) n) (enumerate (Suc j) ns)) d1)"
    by (intro Cons.IH) auto
  with d1 show ?case by (auto simp: is_ok_def split: sum.splits)
qed simp

lemma flush_ifaces_taken:
  assumes "engine_ok E" "\<forall>n\<in>set ns. nic_ok E n" "nic_mac ` set ns \<inter> i_mac ` set (ifaces d) \<noteq> {}"
  shows "flush_ifaces E mid (map (\<lambda>(k, n). nic_row boot (fq k) n) (enumerate j ns)) d = Inl IntegrityError"
  using assms(2-)
proof (induction ns arbitrary: d j)
  case (Cons n ns)
  show ?case
  proof (cases "nic_mac n \<in> i_mac ` set (ifaces d)")
    case True
    have "fits (Some 17) (nic_mac n)" using Cons.prems(1) by (simp add: nic_ok_def fits_def mac_shape_length)
    moreover have "fits (Some 15) (nic_ipv4 n)" "fits (Some 18) (nic_cidrv4 n)" "fits (Some 15) (nic_gateway n)"
      using Cons.prems(1) by (simp_all add: nic_ok_def fits_def)
    moreover have "col_int E 32 (JInt (nic_netmask n)) = Inr (nic_netmask n)"
      using assms(1) Cons.prems(1) by (intro col_int_fits) (simp_all add: nic_ok_def)
    moreover have "col_opt_str E (opt_str (fq j)) = Inr (fq j)"
      using assms(1) by (cases "fq j") (simp_all add: col_opt_str_def opt_str_def)
    ultimately have "flush_iface E mid (nic_row boot (fq j) n) d = Inl IntegrityError"
      using assms(1) True by (simp add: flush_iface_def nic_row_def col_str_fits)
    then show ?thesis by simp
  next
    case False
    with Cons.prems flush_iface_nic [OF assms(1) _ False, of mid boot "fq j"] obtain k d1 where
      d1: "flush_iface E mid (nic_row boot (fq j) n) d = Inr (k, d1)"
      "i_mac ` set (ifaces d1) = insert (nic_mac n) (i_mac ` set (ifaces d))" by auto
    with Cons.prems False have "flush_ifaces E mid (map (\<lambda>(k, n). nic_row boot (fq k) n) (enumerate (Suc j) ns)) d1 =
        Inl IntegrityError" by (intro Cons.IH) auto
    with d1 show ?thesis by simp
  qed
qed simp

end
