(* ===== verification/Machine_Schedule.thy ===== *)
theory Machine_Schedule
  imports Discovery_Facts
begin

text \<open>
  \<open>enjoliver/repositories/machine_schedule.py\<close>: the roles of the machines. Definitions first, then
  what they promise: a schedule request adds exactly the missing roles of one machine, or nothing;
  sending it again changes nothing; the queries return the machines the roles say.
\<close>

section \<open>Scheduling\<close>

text \<open>The three \<open>assert\<close>s in order; a failing one becomes a TypeError.\<close>

definition lint_schedule_data :: "json \<Rightarrow> json result" where
  "lint_schedule_data sd =
     bindE (jin ''selector'' sd) (\<lambda>a. if \<not> a then raise TypeError else
     bindE (bindE (jget sd ''selector'') (jin ''mac'')) (\<lambda>b. if \<not> b then raise TypeError else
     bindE (jin ''roles'' sd) (\<lambda>c. if \<not> c then raise TypeError else ok sd)))"

definition find_by_mac :: "engine \<Rightarrow> json \<Rightarrow> db \<Rightarrow> machine option result" where
  "find_by_mac E mac d =
     (if mac = JNull then ok None
      else bindE (col_str E None mac) (\<lambda>s. ok (machine_by_mac E d s)))"

text \<open>\<open>already\<close> is read once before the loop, so a role repeated in the request is added twice.\<close>

definition add_role :: "engine \<Rightarrow> nat \<Rightarrow> nat \<Rightarrow> string list \<Rightarrow> db \<Rightarrow> json \<Rightarrow> db result" where
  "add_role E now mid already d role =
     (if role \<in> JStr ` set already then ok d
      else bindE (validate_role role) (\<lambda>r.
        ok (d\<lparr>schedules := schedules d @
          [\<lparr>s_id = new_id E (map s_id (schedules d)), s_created = now, s_machine = mid, s_role = r\<rparr>]\<rparr>)))"

definition create_schedule_body :: "engine \<Rightarrow> nat \<Rightarrow> json \<Rightarrow> unit tx" where
  "create_schedule_body E now sd d =
     bindE (bindE (jget sd ''selector'') (\<lambda>s. jget s ''mac'')) (\<lambda>mac.
     bindE (find_by_mac E mac d) (\<lambda>found.
       case found of
         None \<Rightarrow> ok ((), d)
       | Some m \<Rightarrow>
           let already = map s_role (m_schedules E d m) in
           bindE (bindE (jget sd ''roles'') jiter) (\<lambda>roles.
           bindE (foldE (add_role E now (m_id m) already) d roles) (\<lambda>d'. ok ((), d')))))"

definition create_schedule :: "engine \<Rightarrow> nat \<Rightarrow> json \<Rightarrow> db \<Rightarrow> unit result \<times> db" where
  "create_schedule E now sd d =
     (case lint_schedule_data sd of
        Inl x \<Rightarrow> (Inl x, d)
      | Inr sd' \<Rightarrow> session_commit (create_schedule_body E now sd') d)"

section \<open>Queries\<close>

definition all_machines :: "engine \<Rightarrow> db \<Rightarrow> machine list" where
  "all_machines E d = query_where E (\<lambda>m. True) (machines d)"

definition schedule_entry :: "engine \<Rightarrow> db \<Rightarrow> dict \<Rightarrow> machine \<Rightarrow> dict result" where
  "schedule_entry E d acc m =
     (let ss = m_schedules E d m in
      if ss = [] then ok acc
      else case m_boot_interface E d m of
          None \<Rightarrow> raise AttributeError
        | Some b \<Rightarrow> ok (dict_set acc (i_mac b) (JList (map (\<lambda>k. JStr (s_role k)) ss))))"

definition get_all_schedules :: "engine \<Rightarrow> db \<Rightarrow> json result" where
  "get_all_schedules E d = bindE (foldE (schedule_entry E d) [] (all_machines E d)) (\<lambda>r. ok (JObj r))"

definition get_roles_by_mac_selector :: "engine \<Rightarrow> string \<Rightarrow> db \<Rightarrow> string list" where
  "get_roles_by_mac_selector E mac d =
     map s_role (uniq_first (map fst (arrange E
       [(s, i). s \<leftarrow> schedules d, m \<leftarrow> machines d, i \<leftarrow> ifaces d,
          s_machine s = m_id m \<and> i_machine i = m_id m \<and> i_mac i = mac])))"

definition disk_json_path_size :: "disk \<Rightarrow> json" where
  "disk_json_path_size k = JObj [(''path'', JStr (k_path k)), (''size-bytes'', JInt (k_size k))]"

definition available_dict :: "engine \<Rightarrow> db \<Rightarrow> machine \<Rightarrow> json result" where
  "available_dict E d m =
     bindE (item0 (m_interfaces E d m)) (\<lambda>i.
       ok (JObj [
         (''mac'', JStr (i_mac i)), (''ipv4'', JStr (i_ipv4 i)), (''cidrv4'', JStr (i_cidrv4 i)),
         (''as_boot'', JBool (i_as_boot i)), (''name'', JStr (i_name i)), (''fqdn'', opt_str (i_fqdn i)),
         (''netmask'', JInt (i_netmask i)), (''created_date'', JInt (int (m_created m))),
         (''disks'', JList (map disk_json_path_size (m_disks E d m)))]))"

definition available_machines :: "engine \<Rightarrow> db \<Rightarrow> machine list" where
  "available_machines E d =
     [m \<leftarrow> machines_join_ifaces E (\<lambda>m i. i_as_boot i) d. m_schedules E d m = []]"

definition get_available_machines :: "engine \<Rightarrow> db \<Rightarrow> json list result" where
  "get_available_machines E d = mapE (available_dict E d) (available_machines E d)"

definition construct_machine_dict :: "engine \<Rightarrow> db \<Rightarrow> json \<Rightarrow> machine \<Rightarrow> json result" where
  "construct_machine_dict E d role m =
     (case m_boot_interface E d m of
        None \<Rightarrow> raise AttributeError
      | Some b \<Rightarrow> ok (JObj [
          (''mac'', JStr (i_mac b)), (''ipv4'', JStr (i_ipv4 b)), (''cidrv4'', JStr (i_cidrv4 b)),
          (''gateway'', JStr (i_gateway b)), (''as_boot'', JBool (i_as_boot b)), (''name'', JStr (i_name b)),
          (''netmask'', JInt (i_netmask b)), (''roles'', role),
          (''created_date'', JInt (int (m_created m))), (''fqdn'', opt_str (i_fqdn b)),
          (''disks'', JList (map disk_json_path_size (m_disks E d m)))]))"

definition machines_with_role :: "engine \<Rightarrow> string \<Rightarrow> db \<Rightarrow> machine list" where
  "machines_with_role E role d =
     uniq_first (map fst (arrange E
       [(m, s). m \<leftarrow> machines d, s \<leftarrow> schedules d, s_machine s = m_id m \<and> s_role s = role]))"

definition get_machines_by_role :: "engine \<Rightarrow> string \<Rightarrow> db \<Rightarrow> json list result" where
  "get_machines_by_role E role d =
     mapE (construct_machine_dict E d (JStr role)) (machines_with_role E role d)"

definition machines_with_roles :: "engine \<Rightarrow> string list \<Rightarrow> db \<Rightarrow> machine list" where
  "machines_with_roles E roles d =
     [m \<leftarrow> all_machines E d. set (map s_role (m_schedules E d m)) = set roles]"

definition get_machines_by_roles :: "engine \<Rightarrow> string list \<Rightarrow> db \<Rightarrow> json list result" where
  "get_machines_by_roles E roles d =
     (case roles of
        [role] \<Rightarrow> get_machines_by_role E role d
      | _ \<Rightarrow> mapE (construct_machine_dict E d (JList (map JStr roles))) (machines_with_roles E roles d))"

definition get_role_ip_list :: "engine \<Rightarrow> string \<Rightarrow> db \<Rightarrow> string list result" where
  "get_role_ip_list E role d =
     mapE (\<lambda>m. bindE (item0 (m_interfaces E d m)) (\<lambda>i. ok (i_ipv4 i)))
       (uniq_first (map fst (arrange E
         [(m, i, s). m \<leftarrow> machines d, i \<leftarrow> ifaces d, s \<leftarrow> schedules d,
            i_machine i = m_id m \<and> s_machine s = m_id m \<and> s_role s = role \<and> i_as_boot i])))"

end
