(* ===== verification/Sync_Attr.thy ===== *)
theory Sync_Attr
  imports Json "HOL-Library.Word"
begin

text \<open>
  The static methods of \<open>ConfigSyncSchedules\<close> (\<open>enjoliver/sync.py\<close>): the parts of a host name, the
  static pod range of a host, the ordered member lists and the disk profile. \<open>IPv4Interface\<close> of
  Python's standard library is modelled for the strings the code gives it: an address with an
  optional prefix length, netmask or hostmask; addresses are naturals below \<open>2 ^ 32\<close> and arithmetic
  that leaves that range raises, as the library's does.
\<close>

section \<open>Host names\<close>

definition only_digits :: "string \<Rightarrow> string" where
  "only_digits s = filter is_digit s"

definition get_dns_attr :: "string \<Rightarrow> dict" where
  "get_dns_attr fqdn =
     (let d = [(''shortname'', JStr ''''), (''dc'', JStr ''''), (''domain'', JStr ''''), (''rack'', JStr ''''),
               (''pos'', JStr '''')];
          s = split_on CHR ''.'' fqdn;
          d = dict_set d ''shortname'' (JStr (hd s)) in
      case tl s of
        [] \<Rightarrow> d
      | dc # rest \<Rightarrow>
          let d = dict_set d ''dc'' (JStr dc);
              d = dict_set d ''domain'' (JStr (join_with ''.'' (dc # rest))) in
          case split_on CHR ''-'' (hd s) of
            [rack, pos] \<Rightarrow> dict_set (dict_set d ''rack'' (JStr (only_digits rack))) ''pos'' (JStr (only_digits pos))
          | _ \<Rightarrow> d)"

section \<open>Addresses\<close>

definition max_ipv4 :: nat where
  "max_ipv4 = 2 ^ 32 - 1"

text \<open>
  \<open>_parse_octet\<close>: one to three decimal digits, at most 255; a leading zero only where octal and
  decimal agree.
\<close>

definition parse_octet :: "string \<Rightarrow> nat result" where
  "parse_octet s =
     (if s = [] \<or> \<not> list_all is_digit s \<or> 3 < length s then raise ValueError
      else let n = read_nat s in
        if 7 < n \<and> hd s = CHR ''0'' then raise ValueError
        else if 255 < n then raise ValueError
        else ok n)"

definition ip_of_octets :: "nat list \<Rightarrow> nat" where
  "ip_of_octets os = foldl (\<lambda>n b. n * 256 + b) 0 os"

definition parse_ip :: "string \<Rightarrow> nat result" where
  "parse_ip s =
     (let parts = split_on CHR ''.'' s in
      if length parts \<noteq> 4 then raise ValueError
      else bindE (mapE parse_octet parts) (\<lambda>os. ok (ip_of_octets os)))"

definition octets :: "nat \<Rightarrow> nat list" where
  "octets n = [n div 2 ^ 24 mod 256, n div 2 ^ 16 mod 256, n div 2 ^ 8 mod 256, n mod 256]"

definition show_ip :: "nat \<Rightarrow> string" where
  "show_ip n = join_with ''.'' (map show_nat (octets n))"

text \<open>A prefix length, or an address whose bits (or whose complement's bits) are ones then zeros.\<close>

definition netmask :: "nat \<Rightarrow> nat" where
  "netmask p = 2 ^ 32 - 2 ^ (32 - p)"

definition prefix_of_mask :: "nat \<Rightarrow> nat option" where
  "prefix_of_mask m = List.find (\<lambda>p. netmask p = m) [0..<33]"

definition parse_prefix :: "string \<Rightarrow> nat result" where
  "parse_prefix s =
     (if s \<noteq> [] \<and> list_all is_digit s \<and> read_nat s \<le> 32 then ok (read_nat s)
      else bindE (parse_ip s) (\<lambda>m.
        case prefix_of_mask m of
          Some p \<Rightarrow> ok p
        | None \<Rightarrow> (case prefix_of_mask (max_ipv4 - m) of Some p \<Rightarrow> ok p | None \<Rightarrow> raise ValueError)))"

text \<open>\<open>IPv4Interface(s)\<close>: its address and its prefix length.\<close>

definition ipv4_interface :: "string \<Rightarrow> (nat \<times> nat) result" where
  "ipv4_interface s =
     (case split_on CHR ''/'' s of
        [a] \<Rightarrow> bindE (parse_ip a) (\<lambda>ip. ok (ip, 32))
      | [a, p] \<Rightarrow> bindE (parse_ip a) (\<lambda>ip. bindE (parse_prefix p) (\<lambda>n. ok (ip, n)))
      | _ \<Rightarrow> raise ValueError)"

definition network_address :: "nat \<Rightarrow> nat \<Rightarrow> nat" where
  "network_address ip p = ip div 2 ^ (32 - p) * 2 ^ (32 - p)"

definition show_network :: "nat \<Rightarrow> nat \<Rightarrow> string" where
  "show_network ip p = show_ip (network_address ip p) @ ''/'' @ show_nat p"

text \<open>\<open>IPv4Address + int\<close>.\<close>

definition ip_add :: "nat \<Rightarrow> int \<Rightarrow> nat result" where
  "ip_add ip k =
     (let n = int ip + k in if 0 \<le> n \<and> n \<le> int max_ipv4 then ok (nat n) else raise ValueError)"

section \<open>Pod ranges\<close>

record sync_config =
  sub_ips :: int
  range_nb_ips :: int
  skip_ips :: int
  perennial_ip :: string

text \<open>\<open>0 <= x <= 256\<close> and \<open>x & (x - 1) == 0\<close>.\<close>

definition valid_sub_ips :: "int \<Rightarrow> bool" where
  "valid_sub_ips x = (0 \<le> x \<and> x \<le> 256 \<and> and x (x - 1) = 0)"

definition last_field :: "nat \<Rightarrow> nat" where
  "last_field ip = read_nat (last (split_on CHR ''.'' (show_ip ip)))"

text \<open>The first and the last address of the range.\<close>

definition pod_range :: "sync_config \<Rightarrow> nat \<Rightarrow> nat \<Rightarrow> (nat \<times> nat) result" where
  "pod_range C ip p =
     bindE (if 0 < sub_ips C then ip_add (network_address ip p) (int (last_field ip) * sub_ips C) else ok ip) (\<lambda>base.
     bindE (ip_add base (skip_ips C)) (\<lambda>start.
     bindE (ip_add start (range_nb_ips C)) (\<lambda>end.
       ok (start, end))))"

definition cni_ipam :: "sync_config \<Rightarrow> string \<Rightarrow> json \<Rightarrow> dict result" where
  "cni_ipam C host_cidrv4 host_gateway =
     bindE (ipv4_interface host_cidrv4) (\<lambda>(ip, p).
     if \<not> valid_sub_ips (sub_ips C) then raise ValueError
     else bindE (pod_range C ip p) (\<lambda>(start, end).
       ok [(''type'', JStr ''host-local''), (''subnet'', JStr (show_network ip p)),
           (''rangeStart'', JStr (show_ip start)), (''rangeEnd'', JStr (show_ip end)),
           (''gateway'', host_gateway),
           (''routes'', JList [
              JObj [(''dst'', JStr (perennial_ip C @ ''/32'')), (''gw'', JStr (show_ip ip))],
              JObj [(''dst'', JStr ''0.0.0.0/0'')]]),
           (''dataDir'', JStr ''/var/lib/cni/networks'')]))"

section \<open>Selectors and member lists\<close>

fun get_extra_selectors :: "json \<Rightarrow> dict result" where
  "get_extra_selectors (JObj d) = ok d"
| "get_extra_selectors v = (if truthy v then raise TypeError else ok [])"

definition uri_of :: "bool \<Rightarrow> int \<Rightarrow> string \<Rightarrow> string" where
  "uri_of secure port ip = ''http'' @ (if secure then ''s'' else '''') @ ''://'' @ ip @ '':'' @ show_int port"

definition order_http_uri :: "string list \<Rightarrow> int \<Rightarrow> bool \<Rightarrow> string list" where
  "order_http_uri ips port secure = map (uri_of secure port) (sort ips)"

definition order_etcd_named :: "string list \<Rightarrow> int \<Rightarrow> bool \<Rightarrow> string" where
  "order_etcd_named ips port secure = join_with '','' (map (\<lambda>k. k @ ''='' @ uri_of secure port k) (sort ips))"

section \<open>Disk profiles\<close>

definition first_rung :: "(string \<times> int) list \<Rightarrow> int \<Rightarrow> string option" where
  "first_rung ladder size_gb = map_option fst (List.find (\<lambda>kv. size_gb < snd kv) ladder)"

definition compute_disks_size :: "(string \<times> int) list \<Rightarrow> int list \<Rightarrow> string result" where
  "compute_disks_size disks_ladder_gb disks =
     (if disks = [] then ok ''inMemory''
      else
        let total_size_gb = (\<Sum>b\<leftarrow>disks. drop_bit 30 b);
            ladder = sort_key snd disks_ladder_gb in
        case first_rung ladder total_size_gb of
          Some k \<Rightarrow> ok k
        | None \<Rightarrow> if ladder = [] then raise IndexError else ok (fst (last ladder)))"

end
