(* ===== verification/Pyval.thy ===== *)
theory Pyval
  imports Json
begin

text \<open>
  Conversions of Python values the configuration and the generated data go through: \<open>str\<close>, \<open>repr\<close> and
  \<open>int\<close> of a value, \<open>sep.join\<close> of a value, the comparison with zero, \<open>upper\<close> and \<open>lower\<close>. Characters
  are the 256 first of Unicode; a float is kept as the text of its \<open>repr\<close>.
\<close>

section \<open>Case and blanks\<close>

text \<open>\<open>upper\<close> is only applied to ASCII.\<close>

definition to_upper :: "string \<Rightarrow> string" where
  "to_upper s = map (\<lambda>c. if 97 \<le> (of_char c :: nat) \<and> (of_char c :: nat) \<le> 122 then char_of (of_char c - 32 :: nat) else c) s"

definition to_lower :: "string \<Rightarrow> string" where
  "to_lower s = map (\<lambda>c. let n = (of_char c :: nat) in
     if (65 \<le> n \<and> n \<le> 90) \<or> (192 \<le> n \<and> n \<le> 222 \<and> n \<noteq> 215) then char_of (n + 32) else c) s"

definition is_blank :: "char \<Rightarrow> bool" where
  "is_blank c = (let n = (of_char c :: nat) in (9 \<le> n \<and> n \<le> 13) \<or> (28 \<le> n \<and> n \<le> 32) \<or> n = 133 \<or> n = 160)"

definition strip :: "string \<Rightarrow> string" where
  "strip s = rev (dropWhile is_blank (rev (dropWhile is_blank s)))"

section \<open>int\<close>

text \<open>Groups of digits separated by single underscores.\<close>

definition int_digits :: "string \<Rightarrow> int result" where
  "int_digits s =
     (if list_all (\<lambda>w. w \<noteq> [] \<and> list_all is_digit w) (split_on CHR ''_'' s)
      then ok (int (read_nat (filter is_digit s))) else raise ValueError)"

fun int_signed :: "string \<Rightarrow> int result" where
  "int_signed [] = raise ValueError"
| "int_signed (c # cs) =
     (if c = CHR ''-'' then bindE (int_digits cs) (\<lambda>n. ok (- n))
      else if c = CHR ''+'' then int_digits cs
      else int_digits (c # cs))"

definition int_of_str :: "string \<Rightarrow> int result" where
  "int_of_str s = int_signed (strip s)"

text \<open>Truncation of a float given as \<open>[-]a[.f][e[+-]x]\<close>.\<close>

definition int_of_mantissa :: "string \<Rightarrow> int \<Rightarrow> int result" where
  "int_of_mantissa m x =
     (case split_on CHR ''.'' m of
        a # fs \<Rightarrow>
          let f = concat fs; n = read_nat (a @ f); k = x - int (length f) in
          if 1 < length fs \<or> \<not> list_all is_digit (a @ f) \<or> a = [] then raise ValueError
          else ok (int (if 0 \<le> k then n * 10 ^ nat k else n div 10 ^ nat (- k)))
      | [] \<Rightarrow> raise ValueError)"

fun int_of_abs_real :: "string \<Rightarrow> int result" where
  "int_of_abs_real s =
     (if s = ''inf'' then raise OverflowError
      else case split_on CHR ''e'' s of
        [m] \<Rightarrow> int_of_mantissa m 0
      | [m, x] \<Rightarrow> bindE (int_signed x) (int_of_mantissa m)
      | _ \<Rightarrow> raise ValueError)"

fun int_of_real :: "string \<Rightarrow> int result" where
  "int_of_real (c # cs) = (if c = CHR ''-'' then bindE (int_of_abs_real cs) (\<lambda>n. ok (- n)) else int_of_abs_real (c # cs))"
| "int_of_real [] = raise ValueError"

fun py_int :: "json \<Rightarrow> int result" where
  "py_int (JInt i) = ok i"
| "py_int (JBool b) = ok (if b then 1 else 0)"
| "py_int (JStr s) = int_of_str s"
| "py_int (JReal s) = int_of_real s"
| "py_int _ = raise TypeError"

text \<open>\<open>v > 0\<close>.\<close>

fun positive :: "json \<Rightarrow> bool result" where
  "positive (JInt i) = ok (0 < i)"
| "positive (JBool b) = ok b"
| "positive (JReal s) = ok (s = ''inf'' \<or> (s \<noteq> ''nan'' \<and> take 1 s \<noteq> ''-'' \<and> truthy (JReal s)))"
| "positive _ = raise TypeError"

section \<open>str and repr\<close>

definition repr_char :: "char \<Rightarrow> char \<Rightarrow> string" where
  "repr_char q c =
     (let n = (of_char c :: nat) in
      if c = q \<or> c = CHR 0x5C then [CHR 0x5C, c]
      else if n = 10 then [CHR 0x5C, CHR ''n'']
      else if n = 13 then [CHR 0x5C, CHR ''r'']
      else if n = 9 then [CHR 0x5C, CHR ''t'']
      else if n < 32 \<or> (127 \<le> n \<and> n \<le> 160) \<or> n = 173
        then [CHR 0x5C, CHR ''x'', hex_char (n div 16), hex_char (n mod 16)]
      else [c])"

definition repr_str :: "string \<Rightarrow> string" where
  "repr_str s =
     (let q = (if CHR 0x27 \<in> set s \<and> CHR 0x22 \<notin> set s then CHR 0x22 else CHR 0x27) in
      q # concat (map (repr_char q) s) @ [q])"

primrec py_repr :: "json \<Rightarrow> string" where
  "py_repr JNull = ''None''"
| "py_repr (JBool b) = (if b then ''True'' else ''False'')"
| "py_repr (JInt i) = show_int i"
| "py_repr (JReal s) = s"
| "py_repr (JStr s) = repr_str s"
| "py_repr (JList xs) = ''['' @ join_with '', '' (map py_repr xs) @ '']''"
| "py_repr (JObj d) =
     ''{'' @ join_with '', '' (map (\<lambda>kv. repr_str (fst kv) @ '': '' @ snd kv) (map (map_prod id py_repr) d)) @ ''}''"

fun py_str :: "json \<Rightarrow> string" where
  "py_str (JStr s) = s"
| "py_str v = py_repr v"

section \<open>join\<close>

fun as_str :: "json \<Rightarrow> string result" where
  "as_str (JStr s) = ok s"
| "as_str _ = raise TypeError"

definition str_join :: "string \<Rightarrow> json \<Rightarrow> string result" where
  "str_join sep v = bindE (jiter v) (\<lambda>xs. bindE (mapE as_str xs) (\<lambda>ws. ok (join_with sep ws)))"

lemma mapE_as_str [simp]: "mapE as_str (map JStr ws) = ok ws"
  by (induction ws) simp_all

lemma str_join_list [simp]: "str_join sep (JList (map JStr ws)) = ok (join_with sep ws)"
  by (simp add: str_join_def)

end
