(* ===== verification/Views.thy ===== *)
theory Views
  imports Machine_Schedule Sync_Attr Pyval
begin

text \<open>
  The two views that read several tables at once: the backup playbook (\<open>BackupExport\<close> of
  \<open>enjoliver/crud.py\<close>), a list of requests that rebuild the database, and the overview of the user
  interface (\<open>enjoliver/repositories/user_interface.py\<close>).
\<close>

section \<open>Backup\<close>

text \<open>The export writes the address where the record has the address with its prefix length.\<close>

definition backup_iface :: "iface \<Rightarrow> json" where
  "backup_iface i = JObj [
     (''mac'', JStr (i_mac i)), (''netmask'', JInt (i_netmask i)), (''ipv4'', JStr (i_ipv4 i)),
     (''cidrv4'', JStr (i_ipv4 i)), (''name'', JStr (i_name i)), (''gateway'', JStr (i_gateway i)),
     (''fqdn'', JList [opt_str (i_fqdn i)])]"

definition mac_boot :: "iface list \<Rightarrow> string" where
  "mac_boot is = foldl (\<lambda>m i. if i_as_boot i then i_mac i else m) [] is"

definition construct_discovery :: "engine \<Rightarrow> db \<Rightarrow> machine \<Rightarrow> json result" where
  "construct_discovery E d m =
     (let is = m_interfaces E d m in
      if mac_boot is = [] then raise LookupError
      else ok (JObj [
        (''boot-info'', JObj [(''uuid'', JStr (m_uuid m)), (''mac'', JStr (mac_boot is)), (''random-id'', JStr '''')]),
        (''interfaces'', JList (map backup_iface is)),
        (''disks'', JList (map (\<lambda>k. JObj [(''size-bytes'', JInt (k_size k)), (''path'', JStr (k_path k))]) (m_disks E d m))),
        (''lldp'', JObj [(''data'', JObj [(''interfaces'', JNull)]), (''is_file'', JBool False)]),
        (''ignition-journal'', JNull)]))"

definition construct_schedule :: "string \<Rightarrow> string \<Rightarrow> json" where
  "construct_schedule mac schedule_type =
     JObj [
       (''roles'', JList (if schedule_type = kubernetes_control_plane
          then [JStr kubernetes_control_plane, JStr etcd_member] else [JStr kubernetes_node])),
       (''selector'', JObj [(''mac'', JStr mac)])]"

text \<open>\<open>Machine.schedules.any(Schedule.role == schedule_type)\<close>\<close>

definition machines_any_role :: "engine \<Rightarrow> string \<Rightarrow> db \<Rightarrow> machine list" where
  "machines_any_role E role d =
     query_where E (\<lambda>m. \<exists>s\<in>set (schedules d). s_machine s = m_id m \<and> s_role s = role) (machines d)"

definition playbook_entries :: "engine \<Rightarrow> string \<Rightarrow> db \<Rightarrow> machine \<Rightarrow> json list result" where
  "playbook_entries E schedule_type d m =
     bindE (construct_discovery E d m) (\<lambda>data.
     bindE (bindE (jget data ''boot-info'') (\<lambda>b. bindE (jget b ''mac'') as_str)) (\<lambda>mac.
       ok [JObj [(''data'', data), (''route'', JStr ''/discovery'')],
           JObj [(''data'', construct_schedule mac schedule_type), (''route'', JStr ''/scheduler'')]]))"

definition get_playbook :: "engine \<Rightarrow> db \<Rightarrow> json list result" where
  "get_playbook E d =
     bindE (mapE (\<lambda>(t, m). playbook_entries E t d m)
       [(t, m). t \<leftarrow> [kubernetes_control_plane, kubernetes_node], m \<leftarrow> machines_any_role E t d]) (\<lambda>es.
     ok (concat es))"

section \<open>Overview\<close>

text \<open>The loop over \<open>mis\<close> runs over the boot interfaces of every machine, not of this one.\<close>

definition overview_ifaces :: "iface list \<Rightarrow> machine \<Rightarrow> iface list" where
  "overview_ifaces mis m = [i \<leftarrow> mis. i_machine i = m_id m] @ [i \<leftarrow> mis. i_as_boot i]"

definition booting_mac :: "iface list \<Rightarrow> string" where
  "booting_mac mis = (case filter i_as_boot mis of [] \<Rightarrow> [] | bs \<Rightarrow> i_mac (last bs))"

definition column_of_first :: "('r \<Rightarrow> json) \<Rightarrow> 'r list \<Rightarrow> json" where
  "column_of_first f rs = (case rs of [] \<Rightarrow> JNull | r # _ \<Rightarrow> f r)"

definition update_strategy :: "rolling list \<Rightarrow> json" where
  "update_strategy rs =
     (case rs of [] \<Rightarrow> JStr ''Disable'' | r # _ \<Rightarrow> if r_enable r then opt_str (r_strategy r) else JStr ''Disable'')"

record overview_tables =
  t_mis :: "iface list"
  t_mds :: "disk list"
  t_mss :: "current_state list"
  t_lis :: "ignition list"
  t_lrs :: "rolling list"
  t_srs :: "schedule list"

definition overview_fetch :: "engine \<Rightarrow> db \<Rightarrow> overview_tables" where
  "overview_fetch E d = \<lparr>t_mis = query_where E i_as_boot (ifaces d), t_mds = arrange E (disks d),
     t_mss = arrange E (states d), t_lis = arrange E (ignitions d), t_lrs = arrange E (rollings d),
     t_srs = arrange E (schedules d)\<rparr>"

text \<open>\<open>disks_ladder_gb.items()\<close>, for rungs that are integers.\<close>

fun ladder_of :: "json \<Rightarrow> (string \<times> int) list result" where
  "ladder_of (JObj d) = mapE (\<lambda>kv. case snd kv of JInt i \<Rightarrow> ok (fst kv, i) | _ \<Rightarrow> raise TypeError) d"
| "ladder_of _ = raise AttributeError"

definition overview_row :: "(string \<times> int) list \<Rightarrow> overview_tables \<Rightarrow> machine \<Rightarrow> json result" where
  "overview_row ladder T m =
     (let machine_disks = [k \<leftarrow> t_mds T. k_machine k = m_id m];
          machine_interfaces = overview_ifaces (t_mis T) m;
          machine_states = [c \<leftarrow> t_mss T. c_mac c = booting_mac (t_mis T)];
          lifecycle_ignition = [g \<leftarrow> t_lis T. g_machine g = m_id m];
          lifecycle_rolling = [r \<leftarrow> t_lrs T. r_machine r = m_id m];
          machine_schedules = [s \<leftarrow> t_srs T. s_machine s = m_id m] in
      bindE (compute_disks_size ladder (map k_size machine_disks)) (\<lambda>profile.
        ok (JObj [
          (''LastState'', column_of_first (\<lambda>c. JStr (c_state c)) machine_states),
          (''FQDN'', column_of_first (\<lambda>i. opt_str (i_fqdn i)) machine_interfaces),
          (''CIDR'', column_of_first (\<lambda>i. JStr (i_cidrv4 i)) machine_interfaces),
          (''MAC'', column_of_first (\<lambda>i. JStr (i_mac i)) machine_interfaces),
          (''Roles'', JStr (join_with '','' (map s_role machine_schedules))),
          (''DiskProfile'', JStr profile),
          (''LastReport'', column_of_first (\<lambda>g. opt_date (g_updated g)) lifecycle_ignition),
          (''UpToDate'', column_of_first (\<lambda>g. JBool (g_up_to_date g)) lifecycle_ignition),
          (''LastChange'', column_of_first (\<lambda>g. opt_date (g_last_change g)) lifecycle_ignition),
          (''UpdateStrategy'', update_strategy lifecycle_rolling)])))"

definition get_machines_overview :: "engine \<Rightarrow> (string \<times> int) list \<Rightarrow> db \<Rightarrow> json list result" where
  "get_machines_overview E ladder d =
     mapE (overview_row ladder (overview_fetch E d)) (all_machines E d)"

end
