(* ===== verification/Samples.thy ===== *)
theory Samples
  imports Discovery_Facts
begin

text \<open>
  Concrete data: a report, databases with one machine, all satisfying the invariant. The witnesses
  of the properties apply them here.
\<close>

section \<open>A report\<close>

text \<open>A concrete report, used by the witnesses.\<close>

definition sample_uuid :: string where
  "sample_uuid = ''b7f5f93a-b029-475f-b3a4-479ba198cb8a''"

definition sample_nic :: nic where
  "sample_nic = \<lparr>nic_mac = ''52:54:00:e8:32:5b'', nic_name = ''eth0'', nic_netmask = 21,
     nic_ipv4 = ''172.20.0.65'', nic_cidrv4 = ''172.20.0.65/21'', nic_gateway = ''172.20.0.1'',
     nic_names = [JStr ''n1.lan'']\<rparr>"

definition sample_report :: report where
  "sample_report = \<lparr>rp_uuid = sample_uuid, rp_boot = ''52:54:00:e8:32:5b'',
     rp_nics = [sample_nic], rp_disks = [(''/dev/sda'', 21474836480)]\<rparr>"

definition sample_fq :: "nat \<Rightarrow> string option" where
  "sample_fq k = Some ''n1.lan''"

definition sample_dns :: "nat \<Rightarrow> nat \<Rightarrow> nat \<Rightarrow> json \<Rightarrow> string result" where
  "sample_dns i n j ip = Inl HError"

lemma sample_ok: "report_ok ref_engine sample_report" "resolves False sample_dns sample_report sample_fq"
proof -
  have "mac_shape ''52:54:00:e8:32:5b''"
    unfolding mac_shape_def
    by (intro exI [of _ "[''52'', ''54'', ''00'', ''e8'', ''32'', ''5b'']"]) (simp add: hex_word_def is_hex_lits)
  moreover have "dotted 172 20 0 65 = ''172.20.0.65''" by code_simp
  with IPV4_dotted [of 172 20 0 65] have "is_ok (IPV4_REGEX ''172.20.0.65'')" by simp
  moreover have "uuid_shape sample_uuid"
    unfolding uuid_shape_def sample_uuid_def
    by (rule exI [of _ "''b7f5f93a''"], rule exI [of _ "''b029''"], rule exI [of _ "''475f''"], rule exI [of _ "''b3a4''"],
        rule exI [of _ "''479ba198cb8a''"]) (simp add: hex_word_def is_hex_lits)
  ultimately show "report_ok ref_engine sample_report"
    by (simp add: report_ok_def sample_report_def nic_ok_def sample_nic_def ref_engine_def)
  show "resolves False sample_dns sample_report sample_fq"
    by (simp add: resolves_def sample_report_def sample_nic_def nic_json_def sample_fq_def opt_str_def
        get_verified_dns_query_def one_fqdn_def)
qed

section \<open>Databases\<close>

text \<open>A database in which another machine owns the mac of the sample report.\<close>

definition other_machine :: machine where
  "other_machine = \<lparr>m_id = 4, m_uuid = ''b7f5f93a-b029-475f-b3a4-479ba198cb8b'', m_created = 1,
     m_updated = None\<rparr>"

definition other_iface :: iface where
  "other_iface = \<lparr>i_id = 9, i_mac = ''52:54:00:e8:32:5b'', i_name = ''eth1'', i_netmask = 24,
     i_ipv4 = ''172.20.0.66'', i_cidrv4 = ''172.20.0.66/24'', i_as_boot = True,
     i_gateway = ''172.20.0.1'', i_fqdn = None, i_machine = 4\<rparr>"

definition other_db :: db where
  "other_db = empty_db\<lparr>machines := [other_machine], ifaces := [other_iface]\<rparr>"

lemma other_uuid_shape: "uuid_shape ''b7f5f93a-b029-475f-b3a4-479ba198cb8b''"
  unfolding uuid_shape_def
  by (rule exI [of _ "''b7f5f93a''"], rule exI [of _ "''b029''"], rule exI [of _ "''475f''"], rule exI [of _ "''b3a4''"],
        rule exI [of _ "''479ba198cb8b''"]) (simp add: hex_word_def is_hex_lits)

lemma other_db_ok: "db_ok other_db"
proof -
  have "dotted 172 20 0 66 = ''172.20.0.66''" by code_simp
  with IPV4_dotted [of 172 20 0 66] have "is_ok (IPV4_REGEX ''172.20.0.66'')" by simp
  moreover have "is_ok (MAC_REGEX ''52:54:00:e8:32:5b'')" by code_simp
  ultimately show ?thesis
    using other_uuid_shape
    by (simp add: db_ok_defs other_db_def other_machine_def other_iface_def empty_db_def)
qed

definition other_mac :: string where
  "other_mac = ''52:54:00:e8:32:5b''"

lemma other_by_mac: "machine_by_mac ref_engine other_db other_mac = Some other_machine"
  by (simp add: machine_by_mac_def machines_join_ifaces_def machine_iface_rows_def other_db_def
      other_iface_def other_machine_def empty_db_def other_mac_def)

text \<open>The same with a role.\<close>

definition scheduled_db :: db where
  "scheduled_db = other_db\<lparr>schedules :=
     [\<lparr>s_id = 1, s_created = 2, s_machine = 4, s_role = etcd_member\<rparr>]\<rparr>"

lemma scheduled_db_ok: "db_ok scheduled_db"
  using other_db_ok
  by (simp add: db_ok_defs scheduled_db_def other_db_def other_machine_def empty_db_def ScheduleRoles_roles_def)

end
