(* ===== verification/Lifecycle.thy ===== *)
theory Lifecycle
  imports Samples
begin

text \<open>
  \<open>InjectLifecycle\<close> and \<open>FetchLifecycle\<close> of \<open>enjoliver/crud.py\<close>: one row per machine in each of the
  tables of ignition reports, installations and rolling-update policies. The three operations share
  a contract, stated as the locale \<open>machine_rows\<close> (a put creates or refreshes the row of one machine
  and no other) and its extension \<open>machine_values\<close> (the row holds the value put last). The
  ignition and rolling tables satisfy both; the installation table satisfies only the first.
\<close>

section \<open>InjectLifecycle\<close>

definition inject_machine :: "engine \<Rightarrow> string \<Rightarrow> db \<Rightarrow> machine result" where
  "inject_machine E query d =
     bindE (get_mac_from_raw_query query) (\<lambda>mac.
       case machine_by_mac E d mac of None \<Rightarrow> raise AttributeError | Some m \<Rightarrow> ok m)"

definition refresh_lifecycle_ignition :: "engine \<Rightarrow> nat \<Rightarrow> nat \<Rightarrow> bool \<Rightarrow> db \<Rightarrow> db result" where
  "refresh_lifecycle_ignition E now mid up d =
     (case first (query_where E (\<lambda>g. g_machine g = mid) (ignitions d)) of
        None \<Rightarrow> ok (d\<lparr>ignitions := ignitions d @
          [\<lparr>g_id = new_id E (map g_id (ignitions d)), g_created = now, g_machine = mid, g_updated = None,
            g_last_change = None, g_up_to_date = up\<rparr>]\<rparr>)
      | Some l \<Rightarrow>
          let change = (if g_up_to_date l \<noteq> up then Some now else g_last_change l) in
          ok (d\<lparr>ignitions := map (\<lambda>g. if g_id g = g_id l
            then g\<lparr>g_last_change := change, g_up_to_date := up, g_updated := Some now\<rparr> else g)
            (ignitions d)\<rparr>))"

text \<open>On an existing row the code assigns \<open>up_to_date\<close>, which is no column of this table.\<close>

definition refresh_lifecycle_coreos_install :: "engine \<Rightarrow> nat \<Rightarrow> nat \<Rightarrow> bool \<Rightarrow> db \<Rightarrow> db result" where
  "refresh_lifecycle_coreos_install E now mid success d =
     (case first (query_where E (\<lambda>x. o_machine x = mid) (installs d)) of
        None \<Rightarrow> ok (d\<lparr>installs := installs d @
          [\<lparr>o_id = new_id E (map o_id (installs d)), o_created = now, o_machine = mid, o_updated = now,
            o_success = success\<rparr>]\<rparr>)
      | Some l \<Rightarrow>
          ok (d\<lparr>installs := map (\<lambda>x. if o_id x = o_id l then x\<lparr>o_updated := now\<rparr> else x) (installs d)\<rparr>))"

text \<open>
  A \<open>None\<close> given to the constructor of a mapped class is omitted from the INSERT, so the default
  of the column applies; an UPDATE writes it as NULL.
\<close>

definition insert_strategy :: "string option \<Rightarrow> string option" where
  "insert_strategy s = (case s of None \<Rightarrow> Some ''kexec'' | Some t \<Rightarrow> Some t)"

definition apply_lifecycle_rolling :: "engine \<Rightarrow> nat \<Rightarrow> nat \<Rightarrow> bool \<times> json \<Rightarrow> db \<Rightarrow> db result" where
  "apply_lifecycle_rolling E now mid v d =
     bindE (validate_strategy (snd v)) (\<lambda>strategy.
       case first (query_where E (\<lambda>r. r_machine r = mid) (rollings d)) of
         None \<Rightarrow> ok (d\<lparr>rollings := rollings d @
           [\<lparr>r_id = new_id E (map r_id (rollings d)), r_created = now, r_machine = mid, r_updated = None,
             r_enable = fst v, r_strategy = insert_strategy strategy\<rparr>]\<rparr>)
       | Some l \<Rightarrow>
           ok (d\<lparr>rollings := map (\<lambda>r. if r_id r = r_id l
             then r\<lparr>r_enable := fst v, r_strategy := strategy, r_updated := Some now\<rparr> else r) (rollings d)\<rparr>))"

section \<open>FetchLifecycle\<close>

text \<open>\<open>query(Row).join(Machine).join(MachineInterface).filter(MachineInterface.mac == mac).first()\<close>\<close>

definition row_by_mac :: "engine \<Rightarrow> ('r \<Rightarrow> nat) \<Rightarrow> 'r list \<Rightarrow> string \<Rightarrow> db \<Rightarrow> 'r option" where
  "row_by_mac E owner rows mac d =
     first (map fst (arrange E [(r, i). r \<leftarrow> rows, m \<leftarrow> machines d, i \<leftarrow> ifaces d,
       owner r = m_id m \<and> i_machine i = m_id m \<and> i_mac i = mac]))"

definition get_ignition_uptodate_status :: "engine \<Rightarrow> string \<Rightarrow> db \<Rightarrow> bool option" where
  "get_ignition_uptodate_status E mac d =
     map_option g_up_to_date (row_by_mac E g_machine (ignitions d) mac d)"

definition get_coreos_install_status :: "engine \<Rightarrow> string \<Rightarrow> db \<Rightarrow> bool option" where
  "get_coreos_install_status E mac d =
     map_option o_success (row_by_mac E o_machine (installs d) mac d)"

text \<open>The machines that have a row, joined with their boot interfaces, each once.\<close>

definition machines_with_row :: "engine \<Rightarrow> ('r \<Rightarrow> nat) \<Rightarrow> 'r list \<Rightarrow> (iface \<Rightarrow> bool) \<Rightarrow> db \<Rightarrow> machine list" where
  "machines_with_row E owner rows P d =
     uniq_first (map fst (arrange E [(m, r, i). m \<leftarrow> machines d, r \<leftarrow> rows, i \<leftarrow> ifaces d,
       owner r = m_id m \<and> i_machine i = m_id m \<and> P i]))"

definition rows_of :: "engine \<Rightarrow> ('r \<Rightarrow> nat) \<Rightarrow> 'r list \<Rightarrow> machine \<Rightarrow> 'r list" where
  "rows_of E owner rows m = query_where E (\<lambda>r. owner r = m_id m) rows"

definition date :: "nat \<Rightarrow> json" where
  "date t = JInt (int t)"

definition updated_status :: "engine \<Rightarrow> db \<Rightarrow> machine \<Rightarrow> json result" where
  "updated_status E d m =
     bindE (item0 (rows_of E g_machine (ignitions d) m)) (\<lambda>g.
     bindE (item0 (m_interfaces E d m)) (\<lambda>i.
       ok (JObj [
         (''up-to-date'', JBool (g_up_to_date g)), (''fqdn'', opt_str (i_fqdn i)), (''mac'', JStr (i_mac i)),
         (''cidrv4'', JStr (i_cidrv4 i)), (''created_date'', date (m_created m)),
         (''updated_date'', opt_date (m_updated m)), (''last_change_date'', opt_date (g_last_change g))])))"

definition get_all_updated_status :: "engine \<Rightarrow> db \<Rightarrow> json list result" where
  "get_all_updated_status E d =
     mapE (updated_status E d) (machines_with_row E g_machine (ignitions d) i_as_boot d)"

definition coreos_install_status :: "engine \<Rightarrow> db \<Rightarrow> machine \<Rightarrow> json result" where
  "coreos_install_status E d m =
     bindE (item0 (m_interfaces E d m)) (\<lambda>i.
     bindE (item0 (rows_of E o_machine (installs d) m)) (\<lambda>x.
       ok (JObj [
         (''mac'', JStr (i_mac i)), (''fqdn'', opt_str (i_fqdn i)), (''cidrv4'', JStr (i_cidrv4 i)),
         (''success'', JBool (o_success x)), (''created_date'', date (o_created x)),
         (''updated_date'', date (o_updated x))])))"

definition get_all_coreos_install_status :: "engine \<Rightarrow> db \<Rightarrow> json list result" where
  "get_all_coreos_install_status E d =
     mapE (coreos_install_status E d) (machines_with_row E o_machine (installs d) i_as_boot d)"

text \<open>The loop returns at the first machine; an \<open>IndexError\<close> on its rows goes to the next one.\<close>

fun rolling_of_machines :: "engine \<Rightarrow> db \<Rightarrow> machine list \<Rightarrow> (bool \<times> string option) option" where
  "rolling_of_machines E d [] = None"
| "rolling_of_machines E d (m # ms) =
     (case item0 (rows_of E r_machine (rollings d) m) of
        Inl _ \<Rightarrow> rolling_of_machines E d ms
      | Inr r \<Rightarrow> Some (r_enable r, r_strategy r))"

definition get_rolling_status :: "engine \<Rightarrow> string \<Rightarrow> db \<Rightarrow> (bool \<times> string option) option" where
  "get_rolling_status E mac d =
     rolling_of_machines E d (machines_with_row E r_machine (rollings d) (\<lambda>i. i_mac i = mac) d)"

definition rolling_status :: "engine \<Rightarrow> db \<Rightarrow> machine \<Rightarrow> json result" where
  "rolling_status E d m =
     bindE (item0 (m_interfaces E d m)) (\<lambda>i.
     bindE (item0 (rows_of E r_machine (rollings d) m)) (\<lambda>r.
       ok (JObj [
         (''mac'', JStr (i_mac i)), (''fqdn'', opt_str (i_fqdn i)), (''cidrv4'', JStr (i_cidrv4 i)),
         (''enable'', JBool (r_enable r)), (''created_date'', date (r_created r)),
         (''updated_date'', opt_date (r_updated r))])))"

text \<open>An \<open>IndexError\<close> drops the machine from the list.\<close>

definition get_all_rolling_status :: "engine \<Rightarrow> db \<Rightarrow> json list" where
  "get_all_rolling_status E d =
     List.map_filter (\<lambda>m. case rolling_status E d m of Inl _ \<Rightarrow> None | Inr j \<Rightarrow> Some j)
       (machines_with_row E r_machine (rollings d) i_as_boot d)"

end
