(* ===== verification/Rows.thy ===== *)
theory Rows
  imports Store
begin

text \<open>
  Tables with one row per key that an operation creates or refreshes in place. The lifecycle tables
  (one row per machine) and the current states (one row per mac) share this contract: the locale
  \<open>keyed_rows\<close> says that a put touches the row of one key and no other, and its extension
  \<open>keyed_values\<close> that the row holds the value put last. Both are interpreted on the model's own
  operations where those are defined.
\<close>

text \<open>
  What a put does to a table: the row of owner \<open>k\<close> is \<open>x\<close> now, the other rows are as before, and
  keys and owners stay unique.
\<close>

definition row_put :: "('r \<Rightarrow> nat) \<Rightarrow> ('r \<Rightarrow> 'k) \<Rightarrow> 'k \<Rightarrow> 'r list \<Rightarrow> 'r \<Rightarrow> 'r list \<Rightarrow> bool" where
  "row_put key owner k rs x rs' \<longleftrightarrow> owner x = k \<and> set rs' = insert x {r \<in> set rs. owner r \<noteq> k} \<and>
     distinct (map key rs') \<and> distinct (map owner rs')"

lemma row_put_append:
  assumes "distinct (map key rs)" "distinct (map owner rs)" "k \<notin> owner ` set rs"
    and "owner x = k" "key x \<notin> key ` set rs"
  shows "row_put key owner k rs x (rs @ [x])"
proof -
  have "{r \<in> set rs. owner r \<noteq> k} = set rs" using assms(3) by auto
  with assms show ?thesis by (simp add: row_put_def)
qed

lemma row_put_change:
  assumes "distinct (map key rs)" "distinct (map owner rs)" "l \<in> set rs" "owner l = k"
    and "\<And>x. owner (f x) = owner x" "\<And>x. key (f x) = key x"
  shows "row_put key owner k rs (f l) (map (\<lambda>x. if key x = key l then f x else x) rs)" (is "row_put _ _ _ _ _ ?rs'")
proof -
  have k: "key x = key l \<longleftrightarrow> x = l" if "x \<in> set rs" for x
    using that assms(1,3) by (metis distinct_map_inj_set)
  have "owner x \<noteq> k \<longleftrightarrow> x \<noteq> l" if "x \<in> set rs" for x
    using that assms(2-4) by (metis distinct_map_inj_set)
  with k have "set ?rs' = insert (f l) {r \<in> set rs. owner r \<noteq> k}" using assms(3) by auto
  moreover have "map key ?rs' = map key rs" "map owner ?rs' = map owner rs" using assms(5,6) by simp_all
  moreover have "owner (f l) = k" using assms(4,5) by simp
  ultimately show ?thesis using assms(1,2) by (simp only: row_put_def)
qed

lemma row_put_laws:
  assumes "row_put key owner k rs x rs'"
  shows "owner ` set rs' = insert k (owner ` set rs)"
    and "owner r \<noteq> k \<Longrightarrow> r \<in> set rs' \<longleftrightarrow> r \<in> set rs"
    and "r \<in> set rs' \<Longrightarrow> owner r = k \<Longrightarrow> r = x"
  using assms by (auto simp: row_put_def)

locale keyed_rows =
  fixes rows :: "db \<Rightarrow> 'r list" and owner :: "'r \<Rightarrow> 'k" and known :: "db \<Rightarrow> 'k \<Rightarrow> bool"
    and put :: "engine \<Rightarrow> nat \<Rightarrow> 'k \<Rightarrow> 'v \<Rightarrow> db \<Rightarrow> db result"
  assumes owners_distinct: "db_ok d \<Longrightarrow> distinct (map owner (rows d))"
    and put_owners: "engine_ok E \<Longrightarrow> db_ok d \<Longrightarrow> known d k \<Longrightarrow> put E now k v d = Inr d' \<Longrightarrow>
      owner ` set (rows d') = insert k (owner ` set (rows d))"
    and put_frame: "engine_ok E \<Longrightarrow> db_ok d \<Longrightarrow> known d k \<Longrightarrow> put E now k v d = Inr d' \<Longrightarrow> owner r \<noteq> k \<Longrightarrow>
      r \<in> set (rows d') \<longleftrightarrow> r \<in> set (rows d)"
    and put_ok: "engine_ok E \<Longrightarrow> db_ok d \<Longrightarrow> known d k \<Longrightarrow> put E now k v d = Inr d' \<Longrightarrow> db_ok d'"
    and put_known: "put E now k v d = Inr d' \<Longrightarrow> known d' = known d"
begin

lemma put_row:
  assumes "engine_ok E" "db_ok d" "known d k" "put E now k v d = Inr d'"
  obtains r where "r \<in> set (rows d')" "owner r = k"
  using put_owners [OF assms] by (metis imageE insertI1)

lemma put_row_unique:
  assumes "engine_ok E" "db_ok d" "known d k" "put E now k v d = Inr d'"
    and "r \<in> set (rows d')" "s \<in> set (rows d')" "owner r = owner s"
  shows "r = s"
  using owners_distinct [OF put_ok [OF assms(1-4)]] assms(5-7) by (rule distinct_map_inj_set)

text \<open>A history of puts, each with its time, key and value.\<close>

lemma puts_Cons:
  assumes E: "engine_ok E" and r: "foldE (\<lambda>d (now, k, v). put E now k v d) d ((now, k, v) # ws) = Inr d'"
    and d: "db_ok d" "\<forall>(now, k, v)\<in>set ((now, k, v) # ws). known d k"
  obtains d1 where "put E now k v d = Inr d1" "foldE (\<lambda>d (now, k, v). put E now k v d) d1 ws = Inr d'"
    "db_ok d1" "\<forall>(now, k, v)\<in>set ws. known d1 k" "known d k"
proof -
  obtain d1 where d1: "put E now k v d = Inr d1" "foldE (\<lambda>d (now, k, v). put E now k v d) d1 ws = Inr d'"
    using r by (auto simp: bindE_eq_Inr)
  have k: "known d k" using d(2) by simp
  show thesis
    by (rule that [OF d1 put_ok [OF E d(1) k d1(1)] _ k]) (use d(2) put_known [OF d1(1)] in simp)
qed

lemma puts_ok:
  assumes E: "engine_ok E" and r: "foldE (\<lambda>d (now, k, v). put E now k v d) d ws = Inr d'"
    and d: "db_ok d" "\<forall>(now, k, v)\<in>set ws. known d k"
  shows "db_ok d'"
  using r d
proof (induction ws arbitrary: d)
  case (Cons w ws)
  obtain now k v where w: "w = (now, k, v)" by (cases w) auto
  show ?case
    by (rule puts_Cons [OF E Cons.prems(1) [unfolded w] Cons.prems(2) Cons.prems(3) [unfolded w]])
      (rule Cons.IH)
qed simp

lemma puts_frame:
  assumes E: "engine_ok E" and r: "foldE (\<lambda>d (now, k, v). put E now k v d) d ws = Inr d'"
    and d: "db_ok d" "\<forall>(now, k, v)\<in>set ws. known d k"
    and other: "\<forall>(now, k, v)\<in>set ws. owner x \<noteq> k"
  shows "x \<in> set (rows d') \<longleftrightarrow> x \<in> set (rows d)"
  using r d other
proof (induction ws arbitrary: d)
  case (Cons w ws)
  obtain now k v where w: "w = (now, k, v)" by (cases w) auto
  obtain d1 where d1: "put E now k v d = Inr d1" "foldE (\<lambda>d (now, k, v). put E now k v d) d1 ws = Inr d'"
    "db_ok d1" "\<forall>(now, k, v)\<in>set ws. known d1 k" "known d k"
    by (rule puts_Cons [OF E Cons.prems(1) [unfolded w] Cons.prems(2) Cons.prems(3) [unfolded w]])
  have "owner x \<noteq> k" "\<forall>(now, k, v)\<in>set ws. owner x \<noteq> k" using Cons.prems(4) w by auto
  with Cons.IH [OF d1(2-4)] put_frame [OF E Cons.prems(2) d1(5,1)] show ?case by simp
qed simp

lemma puts_total:
  assumes E: "engine_ok E" and d: "db_ok d" "\<forall>(now, k, v)\<in>set ws. known d k \<and> good v"
    and tot: "\<And>d now k v. db_ok d \<Longrightarrow> known d k \<Longrightarrow> good v \<Longrightarrow> is_ok (put E now k v d)"
  shows "is_ok (foldE (\<lambda>d (now, k, v). put E now k v d) d ws)"
  using d
proof (induction ws arbitrary: d)
  case (Cons w ws)
  obtain now k v where w: "w = (now, k, v)" by (cases w) auto
  then have k: "known d k" "good v" using Cons.prems(2) by auto
  then obtain d1 where d1: "put E now k v d = Inr d1" using tot [OF Cons.prems(1)] unfolding is_ok_iff by blast
  have "is_ok (foldE (\<lambda>d (now, k, v). put E now k v d) d1 ws)"
    by (rule Cons.IH [OF put_ok [OF E Cons.prems(1) k(1) d1]]) (use Cons.prems(2) put_known [OF d1] in simp)
  with d1 w show ?case by simp
qed simp

end

text \<open>The row of a key holds the value put last.\<close>

locale keyed_values = keyed_rows rows owner known put
  for rows :: "db \<Rightarrow> 'r list" and owner :: "'r \<Rightarrow> 'k" and known :: "db \<Rightarrow> 'k \<Rightarrow> bool"
    and put :: "engine \<Rightarrow> nat \<Rightarrow> 'k \<Rightarrow> 'v \<Rightarrow> db \<Rightarrow> db result" +
  fixes holds :: "'v \<Rightarrow> 'r \<Rightarrow> bool"
  assumes put_holds: "engine_ok E \<Longrightarrow> db_ok d \<Longrightarrow> known d k \<Longrightarrow> put E now k v d = Inr d' \<Longrightarrow>
    r \<in> set (rows d') \<Longrightarrow> owner r = k \<Longrightarrow> holds v r"
begin

lemma last_put_holds:
  assumes E: "engine_ok E" and d: "db_ok d"
    and r: "foldE (\<lambda>d (now, k, v). put E now k v d) d (ws @ (now, k, v) # us) = Inr d'"
    and known: "\<forall>(now, k, v)\<in>set (ws @ (now, k, v) # us). known d k"
    and last: "\<forall>(now', k', v')\<in>set us. k' \<noteq> k"
  shows "\<exists>x\<in>set (rows d'). owner x = k \<and> holds v x"
  using r d known
proof (induction ws arbitrary: d)
  case Nil
  obtain d1 where d1: "put E now k v d = Inr d1" "foldE (\<lambda>d (now, k, v). put E now k v d) d1 us = Inr d'"
    "db_ok d1" "\<forall>(now, k, v)\<in>set us. known d1 k" "known d k"
    by (rule puts_Cons [OF E Nil(1) [unfolded append_Nil] Nil(2) Nil(3) [unfolded append_Nil]])
  obtain x where x: "x \<in> set (rows d1)" "owner x = k" by (rule put_row [OF E Nil(2) d1(5,1)])
  have "\<forall>(now', k', v')\<in>set us. owner x \<noteq> k'" using last x(2) by auto
  then have "x \<in> set (rows d')" using puts_frame [OF E d1(2-4)] x(1) by blast
  with x put_holds [OF E Nil(2) d1(5,1)] show ?case by blast
next
  case (Cons w ws)
  obtain t j u where w: "w = (t, j, u)" by (cases w) auto
  obtain d1 where "foldE (\<lambda>d (now, k, v). put E now k v d) d1 (ws @ (now, k, v) # us) = Inr d'"
    "db_ok d1" "\<forall>(now, k, v)\<in>set (ws @ (now, k, v) # us). known d1 k"
    by (rule puts_Cons [OF E Cons.prems(1) [unfolded w append_Cons] Cons.prems(2)
        Cons.prems(3) [unfolded w append_Cons]])
  then show ?case by (rule Cons.IH)
qed

end

end
