(* ===== verification/Lifecycle_Facts.thy ===== *)
theory Lifecycle_Facts
  imports Lifecycle Rows
begin

text \<open>
  The contract of the lifecycle tables as locales, their interpretations on the model's operations,
  and the properties read off them: the status served for a mac is the one reported last (for the
  installations: the one reported first).
\<close>

section \<open>The three tables\<close>

lemma owner_query:
  assumes "engine_ok E" "first (query_where E (\<lambda>x. owner x = k) rs) = Some l"
  shows "l \<in> set rs \<and> owner l = k"
  using assms by (auto dest!: first_Some_in)

lemma owner_query_None:
  "engine_ok E \<Longrightarrow> first (query_where E (\<lambda>x. owner x = k) rs) = None \<Longrightarrow> k \<notin> owner ` set rs"
  by (auto simp: query_where_def filter_empty_conv)

lemma db_ok_unique:
  assumes "db_ok d"
  shows "distinct (map g_machine (ignitions d))" "distinct (map g_id (ignitions d))"
    "distinct (map o_machine (installs d))" "distinct (map o_id (installs d))"
    "distinct (map r_machine (rollings d))" "distinct (map r_id (rollings d))"
  using assms by (simp_all add: db_ok_defs)

text \<open>Each operation is such a put; the new row, exactly.\<close>

lemma ignition_put:
  assumes E: "engine_ok E" and d: "db_ok d" and r: "refresh_lifecycle_ignition E now k up d = Inr d'"
  obtains gs x where "d' = d\<lparr>ignitions := gs\<rparr>" "row_put g_id g_machine k (ignitions d) x gs"
    "g_up_to_date x = up"
    "\<forall>l\<in>set (ignitions d). g_machine l = k \<longrightarrow> x = l\<lparr>g_last_change :=
       (if g_up_to_date l \<noteq> up then Some now else g_last_change l), g_up_to_date := up, g_updated := Some now\<rparr>"
proof (cases "first (query_where E (\<lambda>g. g_machine g = k) (ignitions d))")
  case None
  let ?x = "\<lparr>g_id = new_id E (map g_id (ignitions d)), g_created = now, g_machine = k, g_updated = None,
    g_last_change = None, g_up_to_date = up\<rparr>"
  have k: "k \<notin> g_machine ` set (ignitions d)" by (rule owner_query_None [OF E None])
  have "row_put g_id g_machine k (ignitions d) ?x (ignitions d @ [?x])"
    using db_ok_unique [OF d] k by (intro row_put_append) (simp_all add: new_id_image [OF E])
  then show thesis
    using k r None by (intro that [where x = ?x]) (auto simp: refresh_lifecycle_ignition_def)
next
  case (Some l)
  let ?f = "\<lambda>g. g\<lparr>g_last_change := (if g_up_to_date l \<noteq> up then Some now else g_last_change l),
    g_up_to_date := up, g_updated := Some now\<rparr>"
  have l: "l \<in> set (ignitions d)" "g_machine l = k" using owner_query [OF E Some] by auto
  have d': "d' = d\<lparr>ignitions := map (\<lambda>g. if g_id g = g_id l then ?f g else g) (ignitions d)\<rparr>"
    using r unfolding refresh_lifecycle_ignition_def Some by (simp only: option.case Let_def sum.inject)
  have "row_put g_id g_machine k (ignitions d) (?f l) (map (\<lambda>g. if g_id g = g_id l then ?f g else g) (ignitions d))"
    using db_ok_unique [OF d] l by (intro row_put_change [where f = ?f]) simp_all
  from d' this show thesis
  proof (rule that)
    show "g_up_to_date (?f l) = up" by simp
    have "l' = l" if "l' \<in> set (ignitions d)" "g_machine l' = k" for l'
      using that l db_ok_unique(1) [OF d] by (metis distinct_map_inj_set)
    then show "\<forall>l'\<in>set (ignitions d). g_machine l' = k \<longrightarrow> ?f l = l'\<lparr>g_last_change :=
        (if g_up_to_date l' \<noteq> up then Some now else g_last_change l'), g_up_to_date := up, g_updated := Some now\<rparr>"
      by auto
  qed
qed

lemma install_put:
  assumes E: "engine_ok E" and d: "db_ok d" and r: "refresh_lifecycle_coreos_install E now k s d = Inr d'"
  obtains rs x where "d' = d\<lparr>installs := rs\<rparr>" "row_put o_id o_machine k (installs d) x rs"
    "k \<notin> o_machine ` set (installs d) \<Longrightarrow> o_success x = s"
    "\<And>l. l \<in> set (installs d) \<Longrightarrow> o_machine l = k \<Longrightarrow> x = l\<lparr>o_updated := now\<rparr>"
proof (cases "first (query_where E (\<lambda>x. o_machine x = k) (installs d))")
  case None
  let ?x = "\<lparr>o_id = new_id E (map o_id (installs d)), o_created = now, o_machine = k, o_updated = now,
    o_success = s\<rparr>"
  have k: "k \<notin> o_machine ` set (installs d)" by (rule owner_query_None [OF E None])
  have "row_put o_id o_machine k (installs d) ?x (installs d @ [?x])"
    using db_ok_unique [OF d] k by (intro row_put_append) (simp_all add: new_id_image [OF E])
  then show thesis
    using k r None by (intro that [where x = ?x]) (auto simp: refresh_lifecycle_coreos_install_def)
next
  case (Some l)
  let ?f = "\<lambda>x. x\<lparr>o_updated := now\<rparr>"
  have l: "l \<in> set (installs d)" "o_machine l = k" using owner_query [OF E Some] by auto
  have d': "d' = d\<lparr>installs := map (\<lambda>x. if o_id x = o_id l then ?f x else x) (installs d)\<rparr>"
    using r unfolding refresh_lifecycle_coreos_install_def Some by (simp only: option.case sum.inject)
  have "row_put o_id o_machine k (installs d) (?f l) (map (\<lambda>x. if o_id x = o_id l then ?f x else x) (installs d))"
    using db_ok_unique [OF d] l by (intro row_put_change [where f = ?f]) simp_all
  from d' this show thesis
  proof (rule that)
    show "k \<notin> o_machine ` set (installs d) \<Longrightarrow> o_success (?f l) = s" using l by auto
    fix l' assume "l' \<in> set (installs d)" "o_machine l' = k"
    then have "l' = l" using l db_ok_unique(3) [OF d] by (metis distinct_map_inj_set)
    then show "?f l = l'\<lparr>o_updated := now\<rparr>" by simp
  qed
qed

definition rolling_holds :: "bool \<times> json \<Rightarrow> rolling \<Rightarrow> bool" where
  "rolling_holds v r \<longleftrightarrow> r_enable r = fst v \<and> (\<forall>s. snd v = JStr s \<longrightarrow> r_strategy r = Some s)"

lemma insert_strategy_Some [simp]: "insert_strategy (Some t) = Some t"
  by (simp add: insert_strategy_def)

definition strategies :: "string option set" where
  "strategies = {None, Some ''reboot'', Some ''kexec'', Some ''poweroff''}"

lemma strategy_choice:
  assumes "validate_strategy j = Inr s"
  shows "s \<in> strategies" "insert_strategy s \<in> strategies"
    "\<And>t. j = JStr t \<Longrightarrow> s = Some t \<and> insert_strategy s = Some t"
  using assms by (cases j; auto simp: strategies_def insert_strategy_def split: if_splits option.splits)+

lemma rolling_put:
  assumes E: "engine_ok E" and d: "db_ok d" and r: "apply_lifecycle_rolling E now k v d = Inr d'"
  obtains rs x where "d' = d\<lparr>rollings := rs\<rparr>" "row_put r_id r_machine k (rollings d) x rs"
    "rolling_holds v x" "r_strategy x \<in> strategies"
proof -
  obtain s where s: "validate_strategy (snd v) = Inr s"
    using r by (auto simp: apply_lifecycle_rolling_def bindE_eq_Inr)
  show thesis
  proof (cases "first (query_where E (\<lambda>r. r_machine r = k) (rollings d))")
    case None
    let ?x = "\<lparr>r_id = new_id E (map r_id (rollings d)), r_created = now, r_machine = k, r_updated = None,
      r_enable = fst v, r_strategy = insert_strategy s\<rparr>"
    have k: "k \<notin> r_machine ` set (rollings d)" by (rule owner_query_None [OF E None])
    have "row_put r_id r_machine k (rollings d) ?x (rollings d @ [?x])"
      using db_ok_unique [OF d] k by (intro row_put_append) (simp_all add: new_id_image [OF E])
    then show thesis
      using k r None s strategy_choice [OF s]
      by (intro that [where x = ?x]) (simp_all add: apply_lifecycle_rolling_def rolling_holds_def)
  next
    case (Some l)
    let ?f = "\<lambda>r. r\<lparr>r_enable := fst v, r_strategy := s, r_updated := Some now\<rparr>"
    have l: "l \<in> set (rollings d)" "r_machine l = k" using owner_query [OF E Some] by auto
    have "row_put r_id r_machine k (rollings d) (?f l) (map (\<lambda>r. if r_id r = r_id l then ?f r else r) (rollings d))"
      using db_ok_unique [OF d] l by (intro row_put_change [where f = ?f]) simp_all
    then show thesis
      using r Some s strategy_choice [OF s]
      by (intro that [where x = "?f l"]) (simp_all add: apply_lifecycle_rolling_def rolling_holds_def)
  qed
qed

lemma refresh_total:
  "is_ok (refresh_lifecycle_ignition E now k up d)" "is_ok (refresh_lifecycle_coreos_install E now k s d)"
  by (simp_all add: refresh_lifecycle_ignition_def refresh_lifecycle_coreos_install_def Let_def split: option.split)

lemma put_totalE:
  obtains d' where "refresh_lifecycle_ignition E now k up d = Inr d'"
  using refresh_total(1) [unfolded is_ok_iff] by blast

lemma install_totalE:
  obtains d' where "refresh_lifecycle_coreos_install E now k s d = Inr d'"
  using refresh_total(2) [unfolded is_ok_iff] by blast

definition machine_known :: "db \<Rightarrow> nat \<Rightarrow> bool" where
  "machine_known d k \<longleftrightarrow> k \<in> m_id ` set (machines d)"

lemma put_machines:
  "refresh_lifecycle_ignition E now k up d = Inr d' \<Longrightarrow> machines d' = machines d \<and> ifaces d' = ifaces d"
  "refresh_lifecycle_coreos_install E now k s d = Inr d' \<Longrightarrow> machines d' = machines d \<and> ifaces d' = ifaces d"
  "apply_lifecycle_rolling E now k v d = Inr d' \<Longrightarrow> machines d' = machines d \<and> ifaces d' = ifaces d"
proof -
  show "refresh_lifecycle_ignition E now k up d = Inr d' \<Longrightarrow> machines d' = machines d \<and> ifaces d' = ifaces d"
    by (auto simp: refresh_lifecycle_ignition_def Let_def split: option.splits)
  show "refresh_lifecycle_coreos_install E now k s d = Inr d' \<Longrightarrow> machines d' = machines d \<and> ifaces d' = ifaces d"
    by (auto simp: refresh_lifecycle_coreos_install_def split: option.splits)
  show "apply_lifecycle_rolling E now k v d = Inr d' \<Longrightarrow> machines d' = machines d \<and> ifaces d' = ifaces d"
    by (cases "first (query_where E (\<lambda>r. r_machine r = k) (rollings d))")
      (auto simp: apply_lifecycle_rolling_def bindE_eq_Inr)
qed

lemma puts_machines:
  assumes "\<And>now k v d d'. put now k v d = Inr d' \<Longrightarrow> machines d' = machines d \<and> ifaces d' = ifaces d"
    and "foldE (\<lambda>d (now, k, v). put now k v d) d ws = Inr d'"
  shows "machines d' = machines d" "ifaces d' = ifaces d"
proof -
  have "machines d' = machines d \<and> ifaces d' = ifaces d"
    by (rule foldE_invariant [OF assms(2)]) (auto dest: assms(1))
  then show "machines d' = machines d" "ifaces d' = ifaces d" by auto
qed

section \<open>The contract holds\<close>

lemma db_ok_ignitions:
  assumes "db_ok d" "k \<in> m_id ` set (machines d)" "row_put g_id g_machine k (ignitions d) x rs"
  shows "db_ok (d\<lparr>ignitions := rs\<rparr>)"
  using assms by (auto simp: db_ok_defs row_put_def)

lemma db_ok_installs:
  assumes "db_ok d" "k \<in> m_id ` set (machines d)" "row_put o_id o_machine k (installs d) x rs"
  shows "db_ok (d\<lparr>installs := rs\<rparr>)"
  using assms by (auto simp: db_ok_defs row_put_def)

lemma db_ok_rollings:
  assumes "db_ok d" "k \<in> m_id ` set (machines d)" "row_put r_id r_machine k (rollings d) x rs"
    and "r_strategy x \<in> strategies"
  shows "db_ok (d\<lparr>rollings := rs\<rparr>)"
proof -
  have "values_ok (d\<lparr>rollings := rs\<rparr>)"
    using assms by (auto simp: db_ok_def values_ok_def row_put_def strategies_def)
  moreover have "refs_ok (d\<lparr>rollings := rs\<rparr>)" "keys_ok (d\<lparr>rollings := rs\<rparr>)" "unique_ok (d\<lparr>rollings := rs\<rparr>)"
    using assms by (auto simp: db_ok_def refs_ok_def keys_ok_def unique_ok_def row_put_def)
  ultimately show ?thesis by (simp add: db_ok_def)
qed

interpretation ign: keyed_values ignitions g_machine machine_known refresh_lifecycle_ignition "\<lambda>up g. g_up_to_date g = up"
proof
  fix E now k v d d'
  assume "refresh_lifecycle_ignition E now k v d = Inr d'"
  then show "machine_known d' = machine_known d"
    by (simp add: machine_known_def [abs_def] put_machines)
next
  fix E now k v d d'
  assume a: "engine_ok E" "db_ok d" "refresh_lifecycle_ignition E now k v d = Inr d'"
  then obtain gs x where d': "d' = d\<lparr>ignitions := gs\<rparr>" and p: "row_put g_id g_machine k (ignitions d) x gs"
    and x: "g_up_to_date x = v" by (rule ignition_put)
  show "g_machine ` set (ignitions d') = insert k (g_machine ` set (ignitions d))"
    using row_put_laws(1) [OF p] d' by simp
  show "g_machine r \<noteq> k \<Longrightarrow> r \<in> set (ignitions d') \<longleftrightarrow> r \<in> set (ignitions d)" for r
    using row_put_laws(2) [OF p] d' by simp
  show "r \<in> set (ignitions d') \<Longrightarrow> g_machine r = k \<Longrightarrow> g_up_to_date r = v" for r
    using row_put_laws(3) [OF p] d' x by auto
  show "machine_known d k \<Longrightarrow> db_ok d'"
    using db_ok_ignitions [OF a(2) _ p] d' by (simp add: machine_known_def)
qed (rule db_ok_unique)

interpretation ins: keyed_rows installs o_machine machine_known refresh_lifecycle_coreos_install
proof
  fix E now k v d d'
  assume "refresh_lifecycle_coreos_install E now k v d = Inr d'"
  then show "machine_known d' = machine_known d"
    by (simp add: machine_known_def [abs_def] put_machines)
next
  fix E now k v d d'
  assume a: "engine_ok E" "db_ok d" "refresh_lifecycle_coreos_install E now k v d = Inr d'"
  then obtain rs x where d': "d' = d\<lparr>installs := rs\<rparr>" and p: "row_put o_id o_machine k (installs d) x rs"
    by (rule install_put)
  show "o_machine ` set (installs d') = insert k (o_machine ` set (installs d))"
    using row_put_laws(1) [OF p] d' by simp
  show "o_machine r \<noteq> k \<Longrightarrow> r \<in> set (installs d') \<longleftrightarrow> r \<in> set (installs d)" for r
    using row_put_laws(2) [OF p] d' by simp
  show "machine_known d k \<Longrightarrow> db_ok d'"
    using db_ok_installs [OF a(2) _ p] d' by (simp add: machine_known_def)
qed (rule db_ok_unique)

interpretation rol: keyed_values rollings r_machine machine_known apply_lifecycle_rolling rolling_holds
proof
  fix E now k v d d'
  assume "apply_lifecycle_rolling E now k v d = Inr d'"
  then show "machine_known d' = machine_known d"
    by (simp add: machine_known_def [abs_def] put_machines)
next
  fix E now k v d d'
  assume a: "engine_ok E" "db_ok d" "apply_lifecycle_rolling E now k v d = Inr d'"
  then obtain rs x where d': "d' = d\<lparr>rollings := rs\<rparr>" and p: "row_put r_id r_machine k (rollings d) x rs"
    and x: "rolling_holds v x" "r_strategy x \<in> strategies" by (rule rolling_put)
  show "r_machine ` set (rollings d') = insert k (r_machine ` set (rollings d))"
    using row_put_laws(1) [OF p] d' by simp
  show "r_machine r \<noteq> k \<Longrightarrow> r \<in> set (rollings d') \<longleftrightarrow> r \<in> set (rollings d)" for r
    using row_put_laws(2) [OF p] d' by simp
  show "r \<in> set (rollings d') \<Longrightarrow> r_machine r = k \<Longrightarrow> rolling_holds v r" for r
    using row_put_laws(3) [OF p] d' x by auto
  show "machine_known d k \<Longrightarrow> db_ok d'"
    using db_ok_rollings [OF a(2) _ p x(2)] d' by (simp add: machine_known_def)
qed (rule db_ok_unique)

section \<open>Reading by mac\<close>

lemma row_by_mac_in:
  assumes E: "engine_ok E" and x: "row_by_mac E owner rs mac d = Some x"
  obtains m i where "x \<in> set rs" "m \<in> set (machines d)" "i \<in> set (ifaces d)" "owner x = m_id m"
    "i_machine i = m_id m" "i_mac i = mac"
proof -
  have "x \<in> set (map fst (arrange E [(r, i). r \<leftarrow> rs, m \<leftarrow> machines d, i \<leftarrow> ifaces d,
       owner r = m_id m \<and> i_machine i = m_id m \<and> i_mac i = mac]))"
    using x unfolding row_by_mac_def by (rule first_Some_in)
  with E that show thesis by auto
qed

lemma row_by_mac_None:
  assumes E: "engine_ok E" and x: "row_by_mac E owner rs mac d = None"
    and r: "r \<in> set rs" "m \<in> set (machines d)" "i \<in> set (ifaces d)" "owner r = m_id m" "i_machine i = m_id m"
  shows "i_mac i \<noteq> mac"
  using x r E unfolding row_by_mac_def by auto

lemma row_by_mac_owner:
  assumes E: "engine_ok E" and d: "db_ok d" and m: "machine_by_mac E d mac = Some m"
    and r: "r \<in> set rs" "owner r = m_id m" "distinct (map owner rs)"
  shows "row_by_mac E owner rs mac d = Some r"
proof -
  have ko: "keys_ok d" "unique_ok d" using d by (simp_all add: db_ok_def)
  obtain i where i: "m \<in> set (machines d)" "i \<in> set (ifaces d)" "i_mac i = mac" "i_machine i = m_id m"
    using m machine_by_mac_Some [OF E ko] by auto
  have "row_by_mac E owner rs mac d \<noteq> None"
  proof
    assume "row_by_mac E owner rs mac d = None"
    from row_by_mac_None [OF E this r(1) i(1,2) r(2) i(4)] i(3) show False by simp
  qed
  then obtain x where x: "row_by_mac E owner rs mac d = Some x" by auto
  from row_by_mac_in [OF E this] obtain m' where "x \<in> set rs" "owner x = m_id m'" "machine_by_mac E d mac = Some m'"
    using machine_by_mac_Some [OF E ko] by metis
  with m r have "x = r" by (metis distinct_map_inj_set option.inject)
  with x show ?thesis by simp
qed

lemma set_machines_with_row:
  assumes "engine_ok E"
  shows "set (machines_with_row E owner rs P d) = {m \<in> set (machines d).
     (\<exists>r\<in>set rs. owner r = m_id m) \<and> (\<exists>i\<in>set (ifaces d). i_machine i = m_id m \<and> P i)}" (is "_ = ?M")
proof -
  let ?L = "[(m, r, i). m \<leftarrow> machines d, r \<leftarrow> rs, i \<leftarrow> ifaces d, owner r = m_id m \<and> i_machine i = m_id m \<and> P i]"
  have "set ?L = {(m, r, i). m \<in> set (machines d) \<and> r \<in> set rs \<and> i \<in> set (ifaces d) \<and>
      owner r = m_id m \<and> i_machine i = m_id m \<and> P i}" by auto
  moreover have "fst ` {(m, r, i). m \<in> set (machines d) \<and> r \<in> set rs \<and> i \<in> set (ifaces d) \<and>
      owner r = m_id m \<and> i_machine i = m_id m \<and> P i} = ?M" by (auto simp: image_iff) blast
  ultimately show ?thesis using assms unfolding machines_with_row_def by simp
qed

lemma machines_with_row_mac:
  assumes E: "engine_ok E" and d: "db_ok d" and m: "machine_by_mac E d mac = Some m"
    and r: "r \<in> set rs" "owner r = m_id m"
  shows "machines_with_row E owner rs (\<lambda>i. i_mac i = mac) d = [m]"
proof -
  have ko: "keys_ok d" "unique_ok d" using d by (simp_all add: db_ok_def)
  have eq: "x \<in> set (machines d) \<and> (\<exists>i\<in>set (ifaces d). i_machine i = m_id x \<and> i_mac i = mac) \<longleftrightarrow> x = m" for x
    using m machine_by_mac_Some [OF E ko, of mac x] by auto
  have "set (machines_with_row E owner rs (\<lambda>i. i_mac i = mac) d) = {m}"
  proof (rule set_eqI)
    fix x
    have "x \<in> set (machines_with_row E owner rs (\<lambda>i. i_mac i = mac) d) \<longleftrightarrow> x = m \<and> (\<exists>r\<in>set rs. owner r = m_id x)"
      using eq [of x] by (simp only: set_machines_with_row [OF E] mem_Collect_eq) blast
    with r show "x \<in> set (machines_with_row E owner rs (\<lambda>i. i_mac i = mac) d) \<longleftrightarrow> x \<in> {m}" by auto
  qed
  moreover have "distinct (machines_with_row E owner rs (\<lambda>i. i_mac i = mac) d)"
    by (simp add: machines_with_row_def)
  ultimately show ?thesis by (intro set_singleton_distinct)
qed

lemma machine_by_mac_same:
  "machines d' = machines d \<Longrightarrow> ifaces d' = ifaces d \<Longrightarrow> machine_by_mac E d' mac = machine_by_mac E d mac"
  by (simp add: machine_by_mac_def machines_join_ifaces_def machine_iface_rows_def)

lemma get_rolling_status_owner:
  assumes E: "engine_ok E" and d: "db_ok d" and m: "machine_by_mac E d mac = Some m"
    and r: "r \<in> set (rollings d)" "r_machine r = m_id m"
  shows "get_rolling_status E mac d = Some (r_enable r, r_strategy r)"
proof -
  have "rows_of E r_machine (rollings d) m = [r]"
    using query_where_key [OF E db_ok_unique(5) [OF d] r(1)] r(2) by (simp add: rows_of_def)
  then show ?thesis
    using machines_with_row_mac [OF assms(1-3), of r "rollings d" r_machine] r
    by (simp add: get_rolling_status_def)
qed

section \<open>The properties\<close>

text \<open>
  The lifecycle operations keep the database consistent; in particular each table has at most
  one row per machine.
\<close>

theorem lifecycle_keeps_db_ok:
  assumes "engine_ok E" "db_ok d" "machine_known d k"
    and "refresh_lifecycle_ignition E now k up d = Inr d' \<or>
      refresh_lifecycle_coreos_install E now k up d = Inr d' \<or> apply_lifecycle_rolling E now k v d = Inr d'"
  shows "db_ok d'"
  using assms(4) ign.put_ok [OF assms(1-3)] ins.put_ok [OF assms(1-3)] rol.put_ok [OF assms(1-3)] by blast

theorem lifecycle_keeps_db_ok_witness:
  "\<exists>d'. refresh_lifecycle_ignition ref_engine 5 4 True other_db = Inr d' \<and> db_ok d'"
proof -
  obtain d' where d': "refresh_lifecycle_ignition ref_engine 5 4 True other_db = Inr d'"
    by (auto simp: refresh_lifecycle_ignition_def other_db_def empty_db_def query_where_def)
  have "machine_known other_db 4" by (simp add: machine_known_def other_db_def other_machine_def)
  with lifecycle_keeps_db_ok [OF engine_ok_ref other_db_ok _ disjI1 [OF d']] d' show ?thesis by blast
qed

text \<open>
  C28. Whatever history of ignition reports the machines send, the status served for a mac of a
  machine is the one that machine reported last.
\<close>

theorem ignition_status_is_last:
  assumes E: "engine_ok E" and d: "db_ok d" and m: "machine_by_mac E d mac = Some m"
    and known: "\<forall>(now, k, v)\<in>set (ws @ us). machine_known d k"
    and last: "\<forall>(now', k', v')\<in>set us. k' \<noteq> m_id m"
  shows "\<exists>d'. foldE (\<lambda>d (now, k, v). refresh_lifecycle_ignition E now k v d) d
      (ws @ (now, m_id m, up) # us) = Inr d' \<and> get_ignition_uptodate_status E mac d' = Some up"
proof -
  let ?ws = "ws @ (now, m_id m, up) # us"
  have "is_ok (foldE (\<lambda>d (now, k, v). refresh_lifecycle_ignition E now k v d) d ?ws)"
    by (intro foldE_total) (simp add: split_beta refresh_total)
  then obtain d' where d': "foldE (\<lambda>d (now, k, v). refresh_lifecycle_ignition E now k v d) d ?ws = Inr d'"
    by (auto simp: is_ok_iff)
  have k: "\<forall>(now, k, v)\<in>set ?ws. machine_known d k"
    using known machine_by_mac_in [OF E m] by (auto simp: machine_known_def)
  obtain x where x: "x \<in> set (ignitions d')" "g_machine x = m_id m" "g_up_to_date x = up"
    using ign.last_put_holds [OF E d d' k last] by blast
  have ok: "db_ok d'" "machines d' = machines d" "ifaces d' = ifaces d"
    using ign.puts_ok [OF E d' d k] puts_machines [OF put_machines(1) d'] by auto
  have "machine_by_mac E d' mac = Some m" using m machine_by_mac_same [OF ok(2,3)] by simp
  from row_by_mac_owner [OF E ok(1) this x(1,2) db_ok_unique(1) [OF ok(1)]] x(3) d'
  show ?thesis by (simp add: get_ignition_uptodate_status_def)
qed

theorem ignition_status_is_last_witness:
  "\<exists>d'. foldE (\<lambda>d (now, k, v). refresh_lifecycle_ignition ref_engine now k v d) other_db
      ([(1, 4, True)] @ (2, m_id other_machine, False) # []) = Inr d' \<and>
    get_ignition_uptodate_status ref_engine other_mac d' = Some False"
  by (rule ignition_status_is_last [OF engine_ok_ref other_db_ok other_by_mac])
    (simp_all add: machine_known_def other_db_def other_machine_def)

text \<open>
  The rolling-update policy served for a mac is the one set last: enabled with its strategy,
  or disabled.
\<close>

theorem rolling_status_is_last:
  assumes E: "engine_ok E" and d: "db_ok d" and m: "machine_by_mac E d mac = Some m"
    and known: "\<forall>(now, k, v)\<in>set (ws @ us). machine_known d k \<and> is_ok (validate_strategy (snd v))"
    and strategy: "strategy \<in> {''reboot'', ''kexec'', ''poweroff''}"
    and last: "\<forall>(now', k', v')\<in>set us. k' \<noteq> m_id m"
  shows "\<exists>d'. foldE (\<lambda>d (now, k, v). apply_lifecycle_rolling E now k v d) d
      (ws @ (now, m_id m, (enable, JStr strategy)) # us) = Inr d' \<and>
    get_rolling_status E mac d' = Some (enable, Some strategy)"
proof -
  let ?ws = "ws @ (now, m_id m, (enable, JStr strategy)) # us"
  have tot: "is_ok (apply_lifecycle_rolling E now k v d)" if "is_ok (validate_strategy (snd v))" for now k v d
    using that by (auto simp: apply_lifecycle_rolling_def is_ok_iff split: option.splits)
  have valid: "\<forall>(now, k, v)\<in>set ?ws. is_ok (validate_strategy (snd v))"
    using known strategy unfolding split_beta by auto
  have "is_ok (foldE (\<lambda>d (now, k, v). apply_lifecycle_rolling E now k v d) d ?ws)"
  proof (rule foldE_total)
    fix s x assume "x \<in> set ?ws"
    with valid have "case x of (now, k, v) \<Rightarrow> is_ok (validate_strategy (snd v))" by (rule bspec)
    then show "is_ok (case x of (now, k, v) \<Rightarrow> apply_lifecycle_rolling E now k v s)"
      by (cases x) (simp add: tot)
  qed
  then obtain d' where d': "foldE (\<lambda>d (now, k, v). apply_lifecycle_rolling E now k v d) d ?ws = Inr d'"
    by (auto simp: is_ok_iff)
  have k: "\<forall>(now, k, v)\<in>set ?ws. machine_known d k"
    using known machine_by_mac_in [OF E m] unfolding split_beta by (auto simp: machine_known_def)
  obtain x where x: "x \<in> set (rollings d')" "r_machine x = m_id m" "rolling_holds (enable, JStr strategy) x"
    using rol.last_put_holds [OF E d d' k last] by blast
  have ok: "db_ok d'" "machines d' = machines d" "ifaces d' = ifaces d"
    using rol.puts_ok [OF E d' d k] puts_machines [OF put_machines(3) d'] by auto
  have "machine_by_mac E d' mac = Some m" using m machine_by_mac_same [OF ok(2,3)] by simp
  from get_rolling_status_owner [OF E ok(1) this x(1,2)] x(3) d' show ?thesis
    by (simp add: rolling_holds_def)
qed

theorem rolling_status_is_last_witness:
  "\<exists>d'. foldE (\<lambda>d (now, k, v). apply_lifecycle_rolling ref_engine now k v d) other_db
      ([(1, 4, (True, JNull))] @ (2, m_id other_machine, (True, JStr ''reboot'')) # []) = Inr d' \<and>
    get_rolling_status ref_engine other_mac d' = Some (True, Some ''reboot'')"
  by (rule rolling_status_is_last [OF engine_ok_ref other_db_ok other_by_mac])
    (simp_all add: machine_known_def other_db_def other_machine_def)

lemma installs_keep_success:
  assumes E: "engine_ok E" and r: "foldE (\<lambda>d (now, k, v). refresh_lifecycle_coreos_install E now k v d) d ws = Inr d'"
    and d: "db_ok d" "\<forall>(now, k, v)\<in>set ws. machine_known d k"
    and l: "l \<in> set (installs d)"
  shows "\<exists>x\<in>set (installs d'). o_machine x = o_machine l \<and> o_success x = o_success l"
  using r d l
proof (induction ws arbitrary: d l)
  case (Cons w ws)
  obtain now k v where w: "w = (now, k, v)" by (cases w) auto
  obtain d1 where d1: "refresh_lifecycle_coreos_install E now k v d = Inr d1"
    and rest: "foldE (\<lambda>d (now, k, v). refresh_lifecycle_coreos_install E now k v d) d1 ws = Inr d'"
    and ok: "db_ok d1" "\<forall>(now, k, v)\<in>set ws. machine_known d1 k" and k: "machine_known d k"
    by (rule ins.puts_Cons [OF E Cons.prems(1) [unfolded w] Cons.prems(2) Cons.prems(3) [unfolded w]])
  obtain y where "y \<in> set (installs d1)" "o_machine y = o_machine l" "o_success y = o_success l"
  proof (cases "o_machine l = k")
    case True
    obtain rs x where "d1 = d\<lparr>installs := rs\<rparr>" "row_put o_id o_machine k (installs d) x rs"
      "x = l\<lparr>o_updated := now\<rparr>"
      by (rule install_put [OF E Cons.prems(2) d1]) (use True Cons.prems(4) in blast)
    then show thesis by (intro that [of x]) (auto simp: row_put_def)
  next
    case False
    with ins.put_frame [OF E Cons.prems(2) k d1] Cons.prems(4) show thesis by (intro that [of l]) auto
  qed
  with Cons.IH [OF rest ok] show ?case by metis
qed auto

text \<open>
  C29. The installation status of a machine never changes after its first report: a failed
  installation that is repeated and succeeds is served as failed for ever.
\<close>

theorem install_status_is_first:
  assumes E: "engine_ok E" and d: "db_ok d" and m: "machine_by_mac E d mac = Some m"
    and fresh: "m_id m \<notin> o_machine ` set (installs d)"
    and known: "\<forall>(now, k, v)\<in>set us. machine_known d k"
  shows "\<exists>d'. foldE (\<lambda>d (now, k, v). refresh_lifecycle_coreos_install E now k v d) d
      ((now, m_id m, success) # us) = Inr d' \<and> get_coreos_install_status E mac d' = Some success"
proof -
  obtain d1 where d1: "refresh_lifecycle_coreos_install E now (m_id m) success d = Inr d1"
    by (rule install_totalE)
  have "is_ok (foldE (\<lambda>d (now, k, v). refresh_lifecycle_coreos_install E now k v d) d1 us)"
    by (intro foldE_total) (simp add: split_beta refresh_total)
  then obtain d' where d': "foldE (\<lambda>d (now, k, v). refresh_lifecycle_coreos_install E now k v d) d1 us = Inr d'"
    by (auto simp: is_ok_iff)
  obtain rs x where x: "d1 = d\<lparr>installs := rs\<rparr>" "row_put o_id o_machine (m_id m) (installs d) x rs"
    "o_success x = success" by (rule install_put [OF E d d1]) (use fresh in blast)
  have ok1: "db_ok d1" using ins.put_ok [OF E d _ d1] machine_by_mac_in [OF E m] by (simp add: machine_known_def)
  have known1: "\<forall>(now, k, v)\<in>set us. machine_known d1 k"
    using known ins.put_known [OF d1] by auto
  have "x \<in> set (installs d1)" "o_machine x = m_id m" using x by (simp_all add: row_put_def)
  then obtain y where y: "y \<in> set (installs d')" "o_machine y = m_id m" "o_success y = success"
    using installs_keep_success [OF E d' ok1 known1, of x] x(3) by auto
  have ok: "db_ok d'" "machines d' = machines d" "ifaces d' = ifaces d"
    using ins.puts_ok [OF E d' ok1 known1] puts_machines [OF put_machines(2) d'] put_machines(2) [OF d1] by auto
  have "machine_by_mac E d' mac = Some m" using m machine_by_mac_same [OF ok(2,3)] by simp
  from row_by_mac_owner [OF E ok(1) this y(1,2) db_ok_unique(3) [OF ok(1)]] y(3) d1 d'
  show ?thesis by (simp add: get_coreos_install_status_def)
qed

theorem install_status_is_first_witness:
  "\<exists>d'. foldE (\<lambda>d (now, k, v). refresh_lifecycle_coreos_install ref_engine now k v d) other_db
      ((1, m_id other_machine, False) # [(2, 4, True)]) = Inr d' \<and>
    get_coreos_install_status ref_engine other_mac d' = Some False"
  by (rule install_status_is_first [OF engine_ok_ref other_db_ok other_by_mac])
    (simp_all add: machine_known_def other_db_def other_machine_def empty_db_def)

text \<open>
  A repeated ignition report updates the row of the machine in place: the report date always,
  the change date exactly when the status flips, the creation date never.
\<close>

theorem ignition_change_date:
  assumes "engine_ok E" "db_ok d" "l \<in> set (ignitions d)"
  shows "\<exists>d'. refresh_lifecycle_ignition E now (g_machine l) up d = Inr d' \<and>
    l\<lparr>g_last_change := (if g_up_to_date l \<noteq> up then Some now else g_last_change l), g_up_to_date := up,
      g_updated := Some now\<rparr> \<in> set (ignitions d') \<and> length (ignitions d') = length (ignitions d)"
proof -
  obtain d' where d': "refresh_lifecycle_ignition E now (g_machine l) up d = Inr d'"
    by (rule put_totalE)
  obtain gs x where gs: "d' = d\<lparr>ignitions := gs\<rparr>"
    "row_put g_id g_machine (g_machine l) (ignitions d) x gs"
    "g_up_to_date x = up"
    and upd: "\<forall>l'\<in>set (ignitions d). g_machine l' = g_machine l \<longrightarrow> x = l'\<lparr>g_last_change :=
       (if g_up_to_date l' \<noteq> up then Some now else g_last_change l'), g_up_to_date := up, g_updated := Some now\<rparr>"
    by (rule ignition_put [OF assms(1,2) d'])
  from upd [rule_format, OF assms(3) refl] have x: "x = l\<lparr>g_last_change :=
    (if g_up_to_date l \<noteq> up then Some now else g_last_change l), g_up_to_date := up, g_updated := Some now\<rparr>" .
  have "card (g_machine ` set gs) = card (g_machine ` set (ignitions d))"
    using row_put_laws(1) [OF gs(2)] assms(3) by (simp add: insert_absorb)
  moreover have "distinct (map g_machine gs)" using gs(2) by (simp add: row_put_def)
  ultimately have "length gs = length (ignitions d)"
    using db_ok_unique(1) [OF assms(2)] distinct_card by (metis image_set length_map)
  moreover have "x \<in> set (ignitions d')" using gs by (simp add: row_put_def)
  ultimately show ?thesis using d' gs(1) unfolding x by simp
qed

definition sample_ignition :: ignition where
  "sample_ignition = \<lparr>g_id = 1, g_created = 2, g_machine = 4, g_updated = None, g_last_change = None,
     g_up_to_date = True\<rparr>"

definition ignition_db :: db where
  "ignition_db = other_db\<lparr>ignitions := [sample_ignition]\<rparr>"

lemma ignition_db_ok: "db_ok ignition_db" "sample_ignition \<in> set (ignitions ignition_db)"
  using other_db_ok
  by (simp_all add: db_ok_defs ignition_db_def sample_ignition_def other_db_def other_machine_def empty_db_def)

theorem ignition_change_date_witness:
  "\<exists>d'. refresh_lifecycle_ignition ref_engine 9 (g_machine sample_ignition) False ignition_db = Inr d' \<and>
    sample_ignition\<lparr>g_last_change := (if g_up_to_date sample_ignition \<noteq> False then Some 9
        else g_last_change sample_ignition), g_up_to_date := False, g_updated := Some 9\<rparr>
      \<in> set (ignitions d') \<and> length (ignitions d') = length (ignitions ignition_db)"
  by (rule ignition_change_date [OF engine_ok_ref ignition_db_ok])

end
