(* ===== verification/Machine_State.thy ===== *)
theory Machine_State
  imports Lifecycle_Facts
begin

text \<open>
  \<open>enjoliver/repositories/machine_state.py\<close>: the last state of each mac that booted, discovered,
  asked to install or installed, and the recent ones for the user interface. Dates are in
  microseconds.
\<close>

section \<open>The operations\<close>

definition one_or_none :: "'a list \<Rightarrow> 'a option result" where
  "one_or_none xs = (case xs of [] \<Rightarrow> ok None | [x] \<Rightarrow> ok (Some x) | _ \<Rightarrow> raise MultipleResultsFound)"

definition find_state :: "engine \<Rightarrow> json \<Rightarrow> db \<Rightarrow> current_state option result" where
  "find_state E mac d =
     (if mac = JNull then ok None
      else bindE (col_str E None mac) (\<lambda>s. one_or_none (query_where E (\<lambda>c. c_mac c = s) (states d))))"

definition find_iface :: "engine \<Rightarrow> json \<Rightarrow> db \<Rightarrow> iface option result" where
  "find_iface E mac d =
     (if mac = JNull then ok None
      else bindE (col_str E None mac) (\<lambda>s. one_or_none (query_where E (\<lambda>i. i_mac i = s) (ifaces d))))"

text \<open>
  The mac of a new row is not validated: the validator of the class names a column it does not
  have. The \<open>try\<close> of \<open>_update_state\<close> only guards \<open>session.add\<close>, which does not raise.
\<close>

definition update_state_body :: "engine \<Rightarrow> nat \<Rightarrow> json \<Rightarrow> string \<Rightarrow> unit tx" where
  "update_state_body E now mac state d =
     bindE (find_state E mac d) (\<lambda>row.
     bindE (find_iface E mac d) (\<lambda>interface.
     let mid = map_option i_machine interface in
     bindE (validate_state state) (\<lambda>s.
       case row of
         None \<Rightarrow>
           bindE (col_str E (Some 17) mac) (\<lambda>m.
             if m \<in> c_mac ` set (states d) then raise IntegrityError
             else ok ((), d\<lparr>states := states d @
               [\<lparr>c_id = new_id E (map c_id (states d)), c_machine = mid, c_mac = m, c_state = s,
                 c_created = now, c_updated = now\<rparr>]\<rparr>))
       | Some c \<Rightarrow>
           ok ((), d\<lparr>states := map (\<lambda>x. if c_id x = c_id c
             then x\<lparr>c_state := s, c_machine := mid, c_updated := now\<rparr> else x) (states d)\<rparr>))))"

definition update_state :: "engine \<Rightarrow> nat \<Rightarrow> json \<Rightarrow> string \<Rightarrow> db \<Rightarrow> unit result \<times> db" where
  "update_state E now mac state = session_commit (update_state_body E now mac state)"

text \<open>The interfaces of the machine of a state; a state without a machine has none.\<close>

definition state_interfaces :: "engine \<Rightarrow> db \<Rightarrow> current_state \<Rightarrow> iface list" where
  "state_interfaces E d c = query_where E (\<lambda>i. c_machine c = Some (i_machine i)) (ifaces d)"

definition state_dict :: "engine \<Rightarrow> db \<Rightarrow> current_state \<Rightarrow> json" where
  "state_dict E d c =
     (let is = state_interfaces E d c in
      JObj [
        (''fqdn'', case is of [] \<Rightarrow> JNull | i # _ \<Rightarrow> opt_str (i_fqdn i)),
        (''mac'', case is of [] \<Rightarrow> JStr (c_mac c) | i # _ \<Rightarrow> JStr (i_mac i)),
        (''state'', JStr (c_state c)), (''date'', date (c_updated c))])"

definition recent_states :: "engine \<Rightarrow> nat \<Rightarrow> int \<Rightarrow> db \<Rightarrow> current_state list" where
  "recent_states E now minutes d =
     sort_key (\<lambda>c. - int (c_updated c))
       (query_where E (\<lambda>c. int now - minutes * 60000000 < int (c_updated c)) (states d))"

definition fetch_states :: "engine \<Rightarrow> nat \<Rightarrow> int \<Rightarrow> db \<Rightarrow> json list" where
  "fetch_states E now minutes d = map (state_dict E d) (recent_states E now minutes d)"

section \<open>What an update does\<close>

lemma one_or_none_Inr: "one_or_none xs = Inr y \<Longrightarrow> (y = None \<and> xs = []) \<or> (\<exists>x. y = Some x \<and> xs = [x])"
  by (auto simp: one_or_none_def split: list.splits)

lemma one_or_none_key:
  assumes "engine_ok E" "distinct (map f rs)"
  shows "one_or_none (query_where E (\<lambda>x. f x = k) rs) = Inr (first (query_where E (\<lambda>x. f x = k) rs))"
proof (cases "k \<in> f ` set rs")
  case True
  then obtain x where "x \<in> set rs" "k = f x" by auto
  with query_where_key [OF assms] show ?thesis by (simp add: one_or_none_def)
next
  case False
  then have "query_where E (\<lambda>x. f x = k) rs = []" by (rule query_where_key_none [OF assms(1)])
  then show ?thesis by (simp add: one_or_none_def)
qed

lemma find_state_in:
  assumes "engine_ok E" "find_state E mac d = Inr (Some c)"
  shows "c \<in> set (states d)"
proof -
  obtain s where "one_or_none (query_where E (\<lambda>c. c_mac c = s) (states d)) = Inr (Some c)"
    using assms(2) by (auto simp: find_state_def bindE_eq_Inr split: if_splits)
  from one_or_none_Inr [OF this] have "c \<in> set (query_where E (\<lambda>c. c_mac c = s) (states d))" by auto
  with assms(1) show ?thesis by simp
qed

lemma find_iface_in:
  assumes "engine_ok E" "find_iface E mac d = Inr (Some i)"
  shows "i \<in> set (ifaces d)"
proof -
  obtain s where "one_or_none (query_where E (\<lambda>i. i_mac i = s) (ifaces d)) = Inr (Some i)"
    using assms(2) by (auto simp: find_iface_def bindE_eq_Inr split: if_splits)
  from one_or_none_Inr [OF this] have "i \<in> set (query_where E (\<lambda>i. i_mac i = s) (ifaces d))" by auto
  with assms(1) show ?thesis by simp
qed

text \<open>An update is a put into the table of states, keyed by the mac.\<close>

definition state_put :: "string \<Rightarrow> current_state list \<Rightarrow> current_state \<Rightarrow> current_state list \<Rightarrow> bool" where
  "state_put mac cs x cs' \<longleftrightarrow> c_mac x = mac \<and> set cs' = insert x {c \<in> set cs. c_mac c \<noteq> mac} \<and>
     distinct (map c_id cs') \<and> distinct (map c_mac cs')"

lemma update_state_body_Inr:
  assumes E: "engine_ok E" and d: "db_ok d" and r: "update_state_body E now mac state d = Inr (u, d')"
  obtains x cs i where "d' = d\<lparr>states := cs\<rparr>" "state_put (c_mac x) (states d) x cs"
    "c_state x = state" "c_updated x = now" "state \<in> set MachineStates_states"
    "find_iface E mac d = Inr i" "c_machine x = map_option i_machine i"
    "\<forall>s. mac = JStr s \<longrightarrow> fits (Some 17) s \<longrightarrow> c_mac x = s"
proof -
  have uniq: "distinct (map c_mac (states d))" "distinct (map c_id (states d))"
    using d by (simp_all add: db_ok_defs)
  obtain row i where f: "find_state E mac d = Inr row" "find_iface E mac d = Inr i"
    and s: "state \<in> set MachineStates_states"
    using r by (auto simp: update_state_body_def bindE_eq_Inr validate_state_def Let_def split: if_splits)
  show thesis
  proof (cases row)
    case None
    let ?row = "\<lambda>m. \<lparr>c_id = new_id E (map c_id (states d)), c_machine = map_option i_machine i, c_mac = m,
      c_state = state, c_created = now, c_updated = now\<rparr>"
    from r f s None obtain m where m: "col_str E (Some 17) mac = Inr m" "m \<notin> c_mac ` set (states d)"
      "d' = d\<lparr>states := states d @ [?row m]\<rparr>"
      by (auto simp: update_state_body_def bindE_eq_Inr validate_state_def split: if_splits)
    have "{c \<in> set (states d). c_mac c \<noteq> m} = set (states d)" using m(2) by auto
    then have "state_put m (states d) (?row m) (states d @ [?row m])"
      using uniq m(2) by (simp add: state_put_def new_id_image [OF E])
    with m s f(2) E show thesis by (intro that [where x = "?row m"]) (auto simp: col_str_fits)
  next
    case (Some c)
    let ?f = "\<lambda>x. x\<lparr>c_state := state, c_machine := map_option i_machine i, c_updated := now\<rparr>"
    have c: "c \<in> set (states d)" using find_state_in [OF E] f(1) Some by simp
    have k: "c_id x = c_id c \<longleftrightarrow> x = c" if "x \<in> set (states d)" for x
      using that uniq(2) c by (metis distinct_map_inj_set)
    have m: "c_mac x \<noteq> c_mac c \<longleftrightarrow> x \<noteq> c" if "x \<in> set (states d)" for x
      using that uniq(1) c by (metis distinct_map_inj_set)
    let ?cs = "map (\<lambda>x. if c_id x = c_id c then ?f x else x) (states d)"
    have "set ?cs = insert (?f c) {x \<in> set (states d). c_mac x \<noteq> c_mac c}" using k m c by auto
    moreover have "map c_id ?cs = map c_id (states d)" "map c_mac ?cs = map c_mac (states d)" by simp_all
    ultimately have "state_put (c_mac c) (states d) (?f c) ?cs" using uniq by (simp only: state_put_def) simp
    moreover have "c_mac c = t" if "mac = JStr t" for t
    proof -
      have "one_or_none (query_where E (\<lambda>c. c_mac c = t) (states d)) = Inr (Some c)"
        using f(1) Some E that by (simp add: find_state_def)
      from one_or_none_Inr [OF this] have "c \<in> set (query_where E (\<lambda>c. c_mac c = t) (states d))" by auto
      with E show ?thesis by simp
    qed
    ultimately show thesis
      using r f s Some by (intro that [where x = "?f c"]) (auto simp: update_state_body_def validate_state_def)
  qed
qed

lemma update_state_db_ok:
  assumes E: "engine_ok E" and d: "db_ok d"
  shows "db_ok (snd (update_state E now mac state d))"
  unfolding update_state_def
proof (rule session_commit_invariant)
  fix u d' assume r: "update_state_body E now mac state d = Inr (u, d')"
  then obtain x cs i where x: "d' = d\<lparr>states := cs\<rparr>" "state_put (c_mac x) (states d) x cs"
    "c_state x = state" "state \<in> set MachineStates_states" "find_iface E mac d = Inr i"
    "c_machine x = map_option i_machine i" by (rule update_state_body_Inr [OF E d])
  have "k \<in> m_id ` set (machines d)" if km: "c_machine x = Some k" for k
  proof -
    obtain j where "i = Some j" "k = i_machine j" using x(6) km by (cases i) auto
    with x(5) find_iface_in [OF E, of mac d] d show ?thesis by (auto simp: db_ok_def refs_ok_def)
  qed
  with x d show "db_ok d'" by (auto simp: db_ok_defs state_put_def)
qed (rule d)

section \<open>The contract\<close>

definition put_state :: "engine \<Rightarrow> nat \<Rightarrow> string \<Rightarrow> string \<Rightarrow> db \<Rightarrow> db result" where
  "put_state E now mac state d = bindE (update_state_body E now (JStr mac) state d) (\<lambda>(u, d'). ok d')"

definition mac_fits :: "db \<Rightarrow> string \<Rightarrow> bool" where
  "mac_fits d mac \<longleftrightarrow> length mac \<le> 17"

lemma put_state_Inr:
  assumes E: "engine_ok E" and d: "db_ok d" and k: "mac_fits d mac" and r: "put_state E now mac state d = Inr d'"
  obtains x cs where "d' = d\<lparr>states := cs\<rparr>" "state_put mac (states d) x cs" "c_state x = state"
    "c_updated x = now"
proof -
  have "update_state_body E now (JStr mac) state d = Inr ((), d')" using r by (auto simp: put_state_def bindE_eq_Inr)
  then obtain x cs i where "d' = d\<lparr>states := cs\<rparr>" "state_put (c_mac x) (states d) x cs"
    "c_state x = state" "c_updated x = now" "state \<in> set MachineStates_states"
    "find_iface E (JStr mac) d = Inr i" "c_machine x = map_option i_machine i"
    "\<forall>s. JStr mac = JStr s \<longrightarrow> fits (Some 17) s \<longrightarrow> c_mac x = s" by (rule update_state_body_Inr [OF E d])
  with k show thesis by (intro that [of cs x]) (auto simp: mac_fits_def fits_def)
qed

lemma put_state_total:
  assumes E: "engine_ok E" and d: "db_ok d" and k: "mac_fits d mac" and s: "state \<in> set MachineStates_states"
  shows "is_ok (put_state E now mac state d)"
proof -
  have uniq: "distinct (map c_mac (states d))" "distinct (map i_mac (ifaces d))"
    using d by (simp_all add: db_ok_defs)
  have f: "find_state E (JStr mac) d = Inr (first (query_where E (\<lambda>c. c_mac c = mac) (states d)))"
    "find_iface E (JStr mac) d = Inr (first (query_where E (\<lambda>i. i_mac i = mac) (ifaces d)))"
    using E one_or_none_key [OF E uniq(1)] one_or_none_key [OF E uniq(2)]
    by (simp_all add: find_state_def find_iface_def)
  have c: "col_str E (Some 17) (JStr mac) = Inr mac"
    using k by (intro col_str_fits [OF E]) (simp add: mac_fits_def fits_def)
  show ?thesis
  proof (cases "first (query_where E (\<lambda>c. c_mac c = mac) (states d))")
    case None
    from owner_query_None [OF E this] have "mac \<notin> c_mac ` set (states d)" .
    with None f c s show ?thesis
      by (simp add: put_state_def update_state_body_def validate_state_def Let_def)
  next
    case (Some c)
    with f s show ?thesis by (simp add: put_state_def update_state_body_def validate_state_def Let_def)
  qed
qed

interpretation st: keyed_values states c_mac mac_fits put_state "\<lambda>s c. c_state c = s"
proof
  fix d :: db assume "db_ok d" then show "distinct (map c_mac (states d))" by (simp add: db_ok_defs)
next
  fix E now k v d d' assume "put_state E now k v d = Inr d'"
  then show "mac_fits d' = mac_fits d" by (simp add: mac_fits_def [abs_def])
next
  fix E now k v d d'
  assume a: "engine_ok E" "db_ok d" "mac_fits d k" "put_state E now k v d = Inr d'"
  then obtain x cs where x: "d' = d\<lparr>states := cs\<rparr>" "state_put k (states d) x cs" "c_state x = v"
    by (rule put_state_Inr)
  show "c_mac ` set (states d') = insert k (c_mac ` set (states d))" using x by (auto simp: state_put_def)
  show "c_mac r \<noteq> k \<Longrightarrow> r \<in> set (states d') \<longleftrightarrow> r \<in> set (states d)" for r using x by (auto simp: state_put_def)
  show "r \<in> set (states d') \<Longrightarrow> c_mac r = k \<Longrightarrow> c_state r = v" for r using x by (auto simp: state_put_def)
  show "db_ok d'"
    using update_state_db_ok [OF a(1,2), of now "JStr k" v] a(4)
    by (auto simp: put_state_def update_state_def session_commit_def bindE_eq_Inr)
qed

section \<open>The properties\<close>

text \<open>
  Recording a state keeps the database consistent whatever the mac and the state: one row per
  mac, a known state, and a machine that exists.
\<close>

theorem update_state_keeps_db_ok:
  assumes "engine_ok E" and "db_ok d"
  shows "db_ok (snd (update_state E now mac state d))"
  using assms by (rule update_state_db_ok)

theorem update_state_keeps_db_ok_witness:
  "db_ok (snd (update_state ref_engine 5 (JStr other_mac) st_booting other_db))"
  by (rule update_state_keeps_db_ok [OF engine_ok_ref other_db_ok])

text \<open>
  C14. After any sequence of state reports, the one row of a mac holds the state reported last for
  that mac.
\<close>

theorem state_is_last:
  assumes E: "engine_ok E" and d: "db_ok d"
    and valid: "\<forall>(now, mac, state)\<in>set (ws @ (t, mac, state) # us). length mac \<le> 17 \<and> state \<in> set MachineStates_states"
    and last: "\<forall>(now', mac', state')\<in>set us. mac' \<noteq> mac"
  shows "\<exists>d'. foldE (\<lambda>d (now, mac, state). put_state E now mac state d) d (ws @ (t, mac, state) # us) = Inr d' \<and>
    (\<exists>!c. c \<in> set (states d') \<and> c_mac c = mac) \<and> (\<exists>c\<in>set (states d'). c_mac c = mac \<and> c_state c = state)"
proof -
  have k: "\<forall>(now, k, v)\<in>set (ws @ (t, mac, state) # us). mac_fits d k \<and> v \<in> set MachineStates_states"
    using valid by (simp add: mac_fits_def)
  obtain d' where d': "foldE (\<lambda>d (now, mac, state). put_state E now mac state d) d (ws @ (t, mac, state) # us) = Inr d'"
    using st.puts_total [OF E d k] put_state_total [OF E] unfolding is_ok_iff by blast
  have kn: "\<forall>(now, k, v)\<in>set (ws @ (t, mac, state) # us). mac_fits d k" using k unfolding split_beta by blast
  from st.last_put_holds [OF E d d' kn last] obtain c where c: "c \<in> set (states d')" "c_mac c = mac" "c_state c = state"
    by blast
  have "distinct (map c_mac (states d'))" by (rule st.owners_distinct [OF st.puts_ok [OF E d' d kn]])
  then have "\<exists>!c. c \<in> set (states d') \<and> c_mac c = mac" using c(1,2) by (metis distinct_map_inj_set)
  with c d' show ?thesis by blast
qed

theorem state_is_last_witness:
  "\<exists>d'. foldE (\<lambda>d (now, mac, state). put_state ref_engine now mac state d) other_db
      ([(1, other_mac, st_booting)] @ (2, other_mac, st_discovery) # []) = Inr d' \<and>
    (\<exists>!c. c \<in> set (states d') \<and> c_mac c = other_mac) \<and>
    (\<exists>c\<in>set (states d'). c_mac c = other_mac \<and> c_state c = st_discovery)"
  by (rule state_is_last [OF engine_ok_ref other_db_ok])
    (simp_all add: other_mac_def MachineStates_states_def)

text \<open>
  The states view lists exactly the states updated within the last minutes asked for, each
  once, the most recent first.
\<close>

theorem recent_states_exact:
  assumes "engine_ok E"
  shows "mset (recent_states E now minutes d) =
      {#c \<in># mset (states d). int now - minutes * 60000000 < int (c_updated c)#} \<and>
    sorted_wrt (\<lambda>a b. c_updated b \<le> c_updated a) (recent_states E now minutes d)"
proof
  show "mset (recent_states E now minutes d) =
      {#c \<in># mset (states d). int now - minutes * 60000000 < int (c_updated c)#}"
    using mset_query_where [OF assms] by (simp add: recent_states_def)
  have "sorted (map (\<lambda>c. - int (c_updated c)) (recent_states E now minutes d))"
    by (simp add: recent_states_def)
  then show "sorted_wrt (\<lambda>a b. c_updated b \<le> c_updated a) (recent_states E now minutes d)"
    by (simp add: sorted_wrt_map)
qed

theorem recent_states_exact_witness:
  "mset (recent_states ref_engine 90000000 1 (empty_db\<lparr>states := [\<lparr>c_id = 1, c_machine = None, c_mac = other_mac,
      c_state = st_booting, c_created = 5, c_updated = 40000000\<rparr>]\<rparr>)) =
    {#c \<in># mset (states (empty_db\<lparr>states := [\<lparr>c_id = 1, c_machine = None, c_mac = other_mac,
      c_state = st_booting, c_created = 5, c_updated = 40000000\<rparr>]\<rparr>)).
      int 90000000 - 1 * 60000000 < int (c_updated c)#}"
  using recent_states_exact [OF engine_ok_ref] by blast

end
