(* ===== verification/Configs.thy ===== *)
theory Configs
  imports Pyval
begin

text \<open>
  \<open>enjoliver/configs.py\<close>: the configuration object. Its attributes form a dictionary in the order in
  which the constructor assigns them; the environment wins over the YAML file, which wins over the
  default. \<open>yaml.load\<close> is a library: the loaded document is an argument.
\<close>

record config =
  from_yaml :: json
  from_env :: dict
  default_values :: dict
  attrs :: dict

type_synonym env = "string \<Rightarrow> string option"

definition config_override :: "env \<Rightarrow> string \<Rightarrow> json \<Rightarrow> config \<Rightarrow> (json \<times> config) result" where
  "config_override env key dflt C =
     (case env (''ENJOLIVER_'' @ to_upper key) of
        Some v \<Rightarrow> ok (JStr v, C\<lparr>from_env := dict_set (from_env C) key (JStr v)\<rparr>)
      | None \<Rightarrow>
          (case jget (from_yaml C) key of
             Inr v \<Rightarrow> ok (v, C)
           | Inl (KeyError _) \<Rightarrow> ok (dflt, C\<lparr>default_values := dict_set (default_values C) key dflt\<rparr>)
           | Inl x \<Rightarrow> raise x))"

text \<open>What the constructor does with the value: keep it, \<open>int(..)\<close> or \<open>str(..)\<close>.\<close>

datatype conversion = AsIs | AsInt | AsStr

fun convert :: "conversion \<Rightarrow> json \<Rightarrow> json result" where
  "convert AsIs v = ok v"
| "convert AsInt v = bindE (py_int v) (\<lambda>i. ok (JInt i))"
| "convert AsStr v = ok (JStr (py_str v))"

definition assign_attr :: "env \<Rightarrow> config \<Rightarrow> string \<times> conversion \<times> json \<Rightarrow> config result" where
  "assign_attr env C s =
     (case s of (key, conv, dflt) \<Rightarrow>
        bindE (config_override env key dflt C) (\<lambda>(v, C').
        bindE (convert conv v) (\<lambda>w. ok (C'\<lparr>attrs := dict_set (attrs C') key w\<rparr>))))"

definition attr :: "config \<Rightarrow> string \<Rightarrow> json result" where
  "attr C key = (case map_of (attrs C) key of None \<Rightarrow> raise AttributeError | Some v \<Rightarrow> ok v)"

text \<open>The module's directory as \<open>__file__\<close> gives it and absolute.\<close>

record location =
  abs_dir :: string
  rel_dir :: string

definition strs :: "string list \<Rightarrow> json" where
  "strs ws = JList (map JStr ws)"

definition opt_env :: "env \<Rightarrow> string \<Rightarrow> json" where
  "opt_env env k = (case env k of None \<Rightarrow> JNull | Some v \<Rightarrow> JStr v)"

definition settings_matchbox :: "(string \<times> conversion \<times> json) list" where
  "settings_matchbox = [
     (''api_uri'', AsIs, JNull),
     (''gunicorn_workers'', AsIs, JInt 1),
     (''gunicorn_worker_type'', AsIs, JStr ''sync''),
     (''gunicorn_bind'', AsIs, JStr ''0.0.0.0:5000''),
     (''matchbox_uri'', AsIs, JStr ''http://127.0.0.1:8080''),
     (''matchbox_path'', AsIs, JStr ''/usr/local//matchbox'')]"

text \<open>The default of \<open>matchbox_assets\<close> is built from the attribute assigned before.\<close>

definition assign_matchbox_assets :: "env \<Rightarrow> config \<Rightarrow> config result" where
  "assign_matchbox_assets env C =
     bindE (attr C ''matchbox_path'') (\<lambda>p.
       assign_attr env C (''matchbox_assets'', AsIs, JStr (py_str p @ ''/assets'')))"

definition settings_storage :: "env \<Rightarrow> location \<Rightarrow> (string \<times> conversion \<times> json) list" where
  "settings_storage env here = [
     (''matchbox_urls'', AsIs, strs [''/'', ''/boot.ipxe'', ''/boot.ipxe.0'', ''/assets'', ''/metadata'']),
     (''db_uri'', AsIs, JStr ''postgresql://''),
     (''ignition_journal_dir'', AsIs, JStr (abs_dir here @ ''/ignition_journal'')),
     (''werkzeug_fs_cache_dir'', AsIs, JStr (abs_dir here @ ''/werkzeug_cache'')),
     (''prometheus_multiproc_dir'', AsIs, JStr (abs_dir here @ ''/prometheus_multiproc_dir'')),
     (''aws_id'', AsIs, opt_env env ''AWS_ACCESS_KEY_ID''),
     (''aws_secret'', AsIs, opt_env env ''AWS_SECRET_ACCESS_KEY''),
     (''backup_lock_key'', AsIs, JStr ''backup_lock''),
     (''backup_bucket_name'', AsIs, JStr ''''),
     (''backup_bucket_directory'', AsIs, JStr ''enjoliver''),
     (''assets_server_uri'', AsIs, JNull),
     (''kernel'', AsIs, JStr ''/assets/coreos/serve/coreos_production_pxe.vmlinuz''),
     (''initrd'', AsIs, JStr ''/assets/coreos/serve/coreos_production_pxe_image.cpio.gz'')]"

definition settings_numbers :: "(string \<times> conversion \<times> json) list" where
  "settings_numbers = [
     (''apply_deps_tries'', AsInt, JInt 15),
     (''apply_deps_delay'', AsInt, JInt 60),
     (''etcd_member_kubernetes_control_plane_expected_nb'', AsInt, JInt 3),
     (''sub_ips'', AsInt, JInt 256),
     (''range_nb_ips'', AsInt, JInt 253),
     (''skip_ips'', AsInt, JInt 1),
     (''perennial_local_host_ip'', AsStr, JStr ''172.31.255.255''),
     (''sync_cache_ttl'', AsInt, JInt 0),
     (''sync_notify_ttl'', AsInt, JInt 60),
     (''kubernetes_apiserver_insecure_port'', AsInt, JInt 8080),
     (''kubernetes_service_cluster_ip_range'', AsIs, JStr ''172.30.0.0/24''),
     (''kubernetes_apiserver_insecure_bind_address'', AsIs, JStr ''127.0.0.1''),
     (''kubelet_healthz_port'', AsInt, JInt 10248),
     (''kubernetes_etcd_data_dir'', AsIs, JStr ''/var/lib/etcd3/kubernetes''),
     (''kubernetes_etcd_client_port'', AsInt, JInt 2379),
     (''kubernetes_etcd_peer_port'', AsInt, JInt 2380),
     (''fleet_etcd_data_dir'', AsIs, JStr ''/var/lib/etcd3/fleet''),
     (''fleet_etcd_client_port'', AsInt, JInt 4001),
     (''fleet_etcd_peer_port'', AsInt, JInt 7001),
     (''vault_etcd_data_dir'', AsIs, JStr ''/var/lib/etcd3/vault''),
     (''vault_etcd_client_port'', AsInt, JInt 4001),
     (''vault_etcd_peer_port'', AsInt, JInt 7001),
     (''vault_port'', AsInt, JInt 8200)]"

definition settings_profiles :: "(string \<times> conversion \<times> json) list" where
  "settings_profiles = [
     (''lldp_image_url'', AsIs, JStr ''''),
     (''hyperkube_image_url'', AsIs, JStr ''enjoliver.local/hyperkube:1.7.7''),
     (''cephtools_image_url'', AsIs, JStr ''enjoliver.local/ceph-tools:latest''),
     (''ignition_dict'', AsIs, JObj [
        (''discovery'', JStr ''discovery''),
        (''etcd_member_kubernetes_control_plane'', JStr ''etcd-member-control-plane''),
        (''kubernetes_nodes'', JStr ''k8s-node'')]),
     (''extra_selectors'', AsIs, JObj [(''os'', JStr ''installed'')]),
     (''logging_level'', AsIs, JStr ''DEBUG'')]"

definition logging_formatter :: string where
  "logging_formatter = ''%(levelname)-7s %(module)-8s %(funcName)s %(message)s''"

definition assign_logging :: "env \<Rightarrow> config \<Rightarrow> config result" where
  "assign_logging env C =
     (let C1 = C\<lparr>attrs := dict_set (attrs C) ''logging_formatter'' (JStr logging_formatter)\<rparr> in
      bindE (assign_attr env C1 (''matchbox_logging_level'', AsIs, JStr ''debug'')) (\<lambda>C2.
      bindE (attr C2 ''matchbox_logging_level'') (\<lambda>l.
        if l \<in> JStr ` {''debug'', ''info'', ''warning'', ''error''} then ok C2 else raise AttributeError)))"

text \<open>The literals of \<open>ntp\<close> and \<open>fallbackntp\<close> are adjacent, so Python concatenates them.\<close>

definition settings_hosts :: "location \<Rightarrow> (string \<times> conversion \<times> json) list" where
  "settings_hosts here = [
     (''etc_hosts'', AsIs, strs [''172.20.0.1 enjoliver.local'']),
     (''matchbox_pid_file'', AsIs, JStr (rel_dir here @ ''/matchbox.pid'')),
     (''gunicorn_pid_file'', AsIs, JStr (rel_dir here @ ''/gunicorn.pid'')),
     (''plan_pid_file'', AsIs, JStr (rel_dir here @ ''/plan.pid'')),
     (''coreos_install_base_url'', AsIs, JNull),
     (''coreos_install_lock_seconds'', AsIs, JInt 29),
     (''nameservers'', AsIs, strs [''8.8.8.8'', ''8.8.4.4'']),
     (''ntp'', AsIs, strs [''0.arch.pool.ntp.org'',
        ''1.arch.pool.ntp.org'' @ ''2.arch.pool.ntp.org'' @ ''3.arch.pool.ntp.org'']),
     (''fallbackntp'', AsIs, strs [''0.pool.ntp.org'' @ ''1.pool.ntp.org'' @ ''0.fr.pool.ntp.org'']),
     (''vault_polling_sec'', AsIs, JInt 30),
     (''lifecycle_update_polling_sec'', AsIs, JInt 30),
     (''disks_ladder_gb'', AsIs, JObj [(''S'', JInt 10), (''M'', JInt 20), (''L'', JInt 30)]),
     (''discovery_fqdn_verify'', AsIs, JBool True),
     (''sync_replace_ip_by_fqdn'', AsIs, JBool False)]"

definition EnjoliverConfig_init :: "env \<Rightarrow> location \<Rightarrow> json result \<Rightarrow> config result" where
  "EnjoliverConfig_init env here yaml_load =
     (if env ''ENJOLIVER_CONFIG'' = None then raise AssertionError
      else
        bindE yaml_load (\<lambda>y.
        let C0 = \<lparr>from_yaml = y, from_env = [], default_values = [], attrs = []\<rparr> in
        bindE (foldE (assign_attr env) C0 settings_matchbox) (\<lambda>C1.
        bindE (assign_matchbox_assets env C1) (\<lambda>C2.
        bindE (foldE (assign_attr env) C2 (settings_storage env here @ settings_numbers @ settings_profiles)) (\<lambda>C3.
        bindE (assign_logging env C3) (\<lambda>C4.
          foldE (assign_attr env) C4 (settings_hosts here)))))))"

text \<open>\<open>__dict__\<close>, which \<open>items\<close> and the \<open>/configs\<close> route show.\<close>

definition config_dict :: "config \<Rightarrow> dict" where
  "config_dict C =
     [(''from_yaml'', from_yaml C), (''from_env'', JObj (from_env C)), (''default'', JObj (default_values C))] @ attrs C"

section \<open>Where the values come from\<close>

text \<open>The value the constructor converts: the environment's, else the document's, else the default.\<close>

definition configured :: "env \<Rightarrow> json \<Rightarrow> string \<Rightarrow> json \<Rightarrow> json" where
  "configured env y key dflt =
     (case env (''ENJOLIVER_'' @ to_upper key) of
        Some v \<Rightarrow> JStr v
      | None \<Rightarrow> (case jget y key of Inr v \<Rightarrow> v | Inl _ \<Rightarrow> dflt))"

lemma config_override_value:
  "config_override env key dflt C = ok (v, C') \<Longrightarrow>
     v = configured env (from_yaml C) key dflt \<and> from_yaml C' = from_yaml C \<and> attrs C' = attrs C"
  by (auto simp: config_override_def configured_def split: option.splits sum.splits exn.splits)

lemma assign_attr_value:
  assumes "assign_attr env C (key, conv, dflt) = ok C'"
  shows "\<exists>w. convert conv (configured env (from_yaml C) key dflt) = ok w \<and> attrs C' = dict_set (attrs C) key w"
    and "from_yaml C' = from_yaml C"
  using assms by (auto simp: assign_attr_def bindE_eq_Inr dest!: config_override_value)

lemma assign_attr_other:
  "assign_attr env C s = ok C' \<Longrightarrow> fst s \<noteq> key \<Longrightarrow> attr C' key = attr C key"
  using assign_attr_value(1) [of env C "fst s" "fst (snd s)" "snd (snd s)" C'] by (auto simp: attr_def)

lemma assign_attr_same:
  "assign_attr env C (key, conv, dflt) = ok C' \<Longrightarrow>
   \<exists>w. convert conv (configured env (from_yaml C) key dflt) = ok w \<and> attr C' key = ok w"
  using assign_attr_value(1) [of env C key conv dflt C'] by (auto simp: attr_def)

text \<open>A run of assignments: what a key holds afterwards, and what it leaves alone.\<close>

lemma assign_all_yaml: "foldE (assign_attr env) C ss = ok C' \<Longrightarrow> from_yaml C' = from_yaml C"
  by (induction ss arbitrary: C) (auto simp: bindE_eq_Inr dest: assign_attr_value(2))

lemma assign_all_other:
  "foldE (assign_attr env) C ss = ok C' \<Longrightarrow> key \<notin> fst ` set ss \<Longrightarrow> attr C' key = attr C key"
  by (induction ss arbitrary: C) (auto simp: bindE_eq_Inr assign_attr_other)

lemma assign_all_same:
  "foldE (assign_attr env) C ss = ok C' \<Longrightarrow> distinct (map fst ss) \<Longrightarrow> (key, conv, dflt) \<in> set ss \<Longrightarrow>
   \<exists>w. convert conv (configured env (from_yaml C) key dflt) = ok w \<and> attr C' key = ok w"
proof (induction ss arbitrary: C)
  case (Cons s ss)
  then obtain C1 where C1: "assign_attr env C s = ok C1" "foldE (assign_attr env) C1 ss = ok C'"
    by (auto simp: bindE_eq_Inr)
  have y: "from_yaml C1 = from_yaml C"
    using C1(1) assign_attr_value(2) [of env C "fst s" "fst (snd s)" "snd (snd s)"] by simp
  show ?case
  proof (cases "s = (key, conv, dflt)")
    case True
    then have "attr C' key = attr C1 key" using assign_all_other [OF C1(2)] Cons.prems(2) by simp
    with assign_attr_same C1(1) True show ?thesis by simp
  next
    case False
    with Cons.prems Cons.IH [OF C1(2)] show ?thesis by (simp add: y)
  qed
qed simp

definition main_settings :: "env \<Rightarrow> location \<Rightarrow> (string \<times> conversion \<times> json) list" where
  "main_settings env here = settings_storage env here @ settings_numbers @ settings_profiles"

lemma main_keys_distinct:
  "distinct (map fst (main_settings env here))"
  "\<forall>s\<in>set (main_settings env here). fst s \<noteq> ''matchbox_logging_level'' \<and> fst s \<noteq> ''logging_formatter''"
  "\<forall>s\<in>set (main_settings env here). fst s \<notin> fst ` set (settings_hosts here)"
  by (simp_all add: main_settings_def settings_storage_def settings_numbers_def settings_profiles_def settings_hosts_def)

lemma host_keys_distinct: "distinct (map fst (settings_hosts here))"
  by (simp add: settings_hosts_def)

lemma matchbox_keys:
  "distinct (map fst settings_matchbox)"
  "\<forall>s\<in>set settings_matchbox. fst s \<notin> fst ` set (main_settings env here) \<and> fst s \<notin> fst ` set (settings_hosts here) \<and>
     fst s \<noteq> ''matchbox_logging_level'' \<and> fst s \<noteq> ''logging_formatter'' \<and> fst s \<noteq> ''matchbox_assets''"
  by (simp_all add: settings_matchbox_def main_settings_def settings_storage_def settings_numbers_def
      settings_profiles_def settings_hosts_def)

lemma assign_logging_other:
  assumes "assign_logging env C = ok C'" "key \<noteq> ''matchbox_logging_level''" "key \<noteq> ''logging_formatter''"
  shows "attr C' key = attr C key \<and> from_yaml C' = from_yaml C"
proof -
  have *: "assign_attr env (C\<lparr>attrs := dict_set (attrs C) ''logging_formatter'' (JStr logging_formatter)\<rparr>)
      (''matchbox_logging_level'', AsIs, JStr ''debug'') = ok C'"
    using assms(1) by (auto simp: assign_logging_def bindE_eq_Inr Let_def split: if_splits)
  from assign_attr_other [OF this, of key] assign_attr_value(2) [OF this] assms(2,3) show ?thesis
    by (simp add: attr_def)
qed

lemma assign_matchbox_assets_other:
  assumes "assign_matchbox_assets env C = ok C'" "key \<noteq> ''matchbox_assets''"
  shows "attr C' key = attr C key \<and> from_yaml C' = from_yaml C"
proof -
  obtain v where *: "assign_attr env C (''matchbox_assets'', AsIs, v) = ok C'"
    using assms(1) by (auto simp: assign_matchbox_assets_def bindE_eq_Inr)
  from assign_attr_other [OF this, of key] assign_attr_value(2) [OF this] assms(2) show ?thesis by simp
qed

definition all_settings :: "env \<Rightarrow> location \<Rightarrow> (string \<times> conversion \<times> json) list" where
  "all_settings env here = settings_matchbox @ main_settings env here @ settings_hosts here"

lemma init_values:
  assumes "EnjoliverConfig_init env here (ok y) = ok C" and "(key, conv, dflt) \<in> set (all_settings env here)"
  shows "\<exists>w. convert conv (configured env y key dflt) = ok w \<and> attr C key = ok w"
proof -
  obtain C1 C2 C3 C4 where
    C1: "foldE (assign_attr env) \<lparr>from_yaml = y, from_env = [], default_values = [], attrs = []\<rparr> settings_matchbox = ok C1"
    and C2: "assign_matchbox_assets env C1 = ok C2"
    and C3: "foldE (assign_attr env) C2 (main_settings env here) = ok C3"
    and C4: "assign_logging env C3 = ok C4" and C: "foldE (assign_attr env) C4 (settings_hosts here) = ok C"
    using assms(1) by (auto simp: EnjoliverConfig_init_def bindE_eq_Inr main_settings_def Let_def split: if_splits)
  have y: "from_yaml C1 = y" "from_yaml C2 = y" "from_yaml C3 = y" "from_yaml C4 = y"
    using assign_all_yaml [OF C1] assign_matchbox_assets_other [OF C2, of "[]"] assign_all_yaml [OF C3]
      assign_logging_other [OF C4, of "[]"] by simp_all
  consider "(key, conv, dflt) \<in> set settings_matchbox" | "(key, conv, dflt) \<in> set (main_settings env here)"
    | "(key, conv, dflt) \<in> set (settings_hosts here)" using assms(2) by (auto simp: all_settings_def)
  then show ?thesis
  proof cases
    case 1
    with matchbox_keys(2) [of env here] have k: "key \<notin> fst ` set (main_settings env here)" "key \<notin> fst ` set (settings_hosts here)"
      "key \<noteq> ''matchbox_logging_level''" "key \<noteq> ''logging_formatter''" "key \<noteq> ''matchbox_assets''" by (metis fst_conv)+
    from assign_all_same [OF C1 matchbox_keys(1) 1] show ?thesis
      using assign_all_other [OF C k(2)] assign_logging_other [OF C4 k(3,4)] assign_all_other [OF C3 k(1)]
        assign_matchbox_assets_other [OF C2 k(5)] by simp
  next
    case 2
    with main_keys_distinct(2,3) [of env here] have k: "key \<noteq> ''matchbox_logging_level''" "key \<noteq> ''logging_formatter''"
      "key \<notin> fst ` set (settings_hosts here)" by (metis fst_conv)+
    from assign_all_same [OF C3 main_keys_distinct(1) 2] show ?thesis
      using assign_all_other [OF C k(3)] assign_logging_other [OF C4 k(1,2)] y by simp
  next
    case 3
    from assign_all_same [OF C host_keys_distinct 3] show ?thesis using y by simp
  qed
qed


definition sample_env :: env where
  "sample_env = (\<lambda>k. if k = ''ENJOLIVER_CONFIG'' then Some ''1''
     else if k = ''ENJOLIVER_SUB_IPS'' then Some ''64'' else None)"

definition sample_location :: location where
  "sample_location = \<lparr>abs_dir = ''/opt/enjoliver'', rel_dir = ''.''\<rparr>"

definition sample_yaml :: json where
  "sample_yaml = JObj [(''api_uri'', JStr ''http://127.0.0.1:5000''), (''sub_ips'', JInt 32),
     (''etcd_member_kubernetes_control_plane_expected_nb'', JInt 1)]"

lemma assign_attr_total:
  assumes "from_yaml C = JObj d" "is_ok (convert conv (configured env (JObj d) key dflt))"
  shows "\<exists>C'. assign_attr env C (key, conv, dflt) = ok C'"
proof -
  obtain v C1 where "config_override env key dflt C = ok (v, C1)"
    using assms(1) by (cases "env (''ENJOLIVER_'' @ to_upper key)"; cases "map_of d key") (auto simp: config_override_def)
  with config_override_value [OF this] assms show ?thesis by (auto simp: assign_attr_def is_ok_iff)
qed

lemma assign_all_total:
  assumes "from_yaml C = JObj d" "\<forall>(key, conv, dflt)\<in>set ss. is_ok (convert conv (configured env (JObj d) key dflt))"
  shows "\<exists>C'. foldE (assign_attr env) C ss = ok C'"
  using assms
proof (induction ss arbitrary: C)
  case (Cons s ss)
  obtain key conv dflt where s: "s = (key, conv, dflt)" by (cases s) auto
  with Cons.prems assign_attr_total [of C d conv env key dflt] obtain C1 where C1: "assign_attr env C s = ok C1" by auto
  with assign_attr_value(2) [of env C key conv dflt C1] Cons.prems s Cons.IH [of C1] show ?case by auto
qed simp

lemma sample_converts:
  assumes "(key, conv, dflt) \<in> set (all_settings sample_env here)"
  shows "is_ok (convert conv (configured sample_env sample_yaml key dflt))"
proof (cases conv)
  case AsInt
  then have "(key, AsInt, dflt) \<in> set settings_numbers" using assms
    by (auto simp: all_settings_def settings_matchbox_def main_settings_def settings_storage_def settings_profiles_def settings_hosts_def)
  then have k: "key \<noteq> ''api_uri''" "\<exists>i. dflt = JInt i" by (auto simp: settings_numbers_def)
  show ?thesis
  proof (cases "sample_env (''ENJOLIVER_'' @ to_upper key)")
    case None
    with k show ?thesis by (auto simp: configured_def AsInt sample_yaml_def)
  next
    case (Some v)
    then have "v = ''1'' \<or> v = ''64''" by (auto simp: sample_env_def split: if_splits)
    moreover have "int_of_str ''1'' = ok 1" "int_of_str ''64'' = ok 64" by code_simp+
    ultimately show ?thesis using Some by (auto simp: configured_def AsInt)
  qed
qed simp_all

lemma sample_total:
  assumes "from_yaml C = sample_yaml" "set ss \<subseteq> set (all_settings sample_env sample_location)"
  shows "\<exists>C'. foldE (assign_attr sample_env) C ss = ok C'"
proof (rule assign_all_total [OF assms(1) [unfolded sample_yaml_def]], rule ballI)
  fix s assume "s \<in> set ss"
  with assms(2) sample_converts [of "fst s" "fst (snd s)" "snd (snd s)" sample_location]
  show "case s of (key, conv, dflt) \<Rightarrow> is_ok (convert conv (configured sample_env
      (JObj [(''api_uri'', JStr ''http://127.0.0.1:5000''), (''sub_ips'', JInt 32),
        (''etcd_member_kubernetes_control_plane_expected_nb'', JInt 1)]) key dflt))"
    by (auto simp: split_beta sample_yaml_def)
qed

lemma sample_config: "is_ok (EnjoliverConfig_init sample_env sample_location (ok sample_yaml))"
proof -
  have "from_yaml \<lparr>from_yaml = sample_yaml, from_env = [], default_values = [], attrs = []\<rparr> = sample_yaml" by simp
  from sample_total [OF this, of settings_matchbox] obtain C1 where C1: "foldE (assign_attr sample_env)
      \<lparr>from_yaml = sample_yaml, from_env = [], default_values = [], attrs = []\<rparr> settings_matchbox = ok C1"
    by (auto simp: all_settings_def)
  have y1: "from_yaml C1 = sample_yaml" using assign_all_yaml [OF C1] by simp
  have "(''matchbox_path'', AsIs, JStr ''/usr/local//matchbox'') \<in> set settings_matchbox" by (simp add: settings_matchbox_def)
  from assign_all_same [OF C1 matchbox_keys(1) this] obtain p where p: "attr C1 ''matchbox_path'' = ok p" by auto
  then obtain C2 where C2: "assign_matchbox_assets sample_env C1 = ok C2"
    using assign_attr_total [OF y1 [unfolded sample_yaml_def], of AsIs sample_env "''matchbox_assets''"]
    by (auto simp: assign_matchbox_assets_def)
  have y2: "from_yaml C2 = sample_yaml" using assign_matchbox_assets_other [OF C2, of "[]"] y1 by simp
  obtain C3 where C3: "foldE (assign_attr sample_env) C2 (main_settings sample_env sample_location) = ok C3"
    using sample_total [OF y2, of "main_settings sample_env sample_location"] by (auto simp: all_settings_def)
  have y3: "from_yaml C3 = sample_yaml" using assign_all_yaml [OF C3] y2 by simp
  have "sample_env (''ENJOLIVER_'' @ to_upper ''matchbox_logging_level'') = None" by code_simp
  then have lv: "configured sample_env sample_yaml ''matchbox_logging_level'' (JStr ''debug'') = JStr ''debug''"
    by (simp add: configured_def sample_yaml_def)
  define C3' where "C3' = C3\<lparr>attrs := dict_set (attrs C3) ''logging_formatter'' (JStr logging_formatter)\<rparr>"
  have y3': "from_yaml C3' = sample_yaml" using y3 by (simp add: C3'_def)
  obtain C4 where C4: "assign_attr sample_env C3' (''matchbox_logging_level'', AsIs, JStr ''debug'') = ok C4"
    using assign_attr_total [OF y3' [unfolded sample_yaml_def], of AsIs sample_env "''matchbox_logging_level''"] by auto
  with assign_attr_same [OF C4] lv y3' have l: "assign_logging sample_env C3 = ok C4"
    by (simp add: assign_logging_def Let_def flip: C3'_def)
  have y4: "from_yaml C4 = sample_yaml" using assign_attr_value(2) [OF C4] y3' by simp
  obtain C where "foldE (assign_attr sample_env) C4 (settings_hosts sample_location) = ok C"
    using sample_total [OF y4, of "settings_hosts sample_location"] by (auto simp: all_settings_def)
  with C1 C2 C3 l show ?thesis by (simp add: EnjoliverConfig_init_def main_settings_def sample_env_def)
qed


text \<open>The ports, counts, delays and address steps.\<close>

definition number_keys :: "string list" where
  "number_keys = map fst (filter (\<lambda>s. fst (snd s) = AsInt) settings_numbers)"



end
