(* ===== verification/Api.thy ===== *)
theory Api
  imports Views Machine_State Configs
begin

text \<open>
  What the request handlers of the API share: requests, responses, the state behind them (database,
  cache, and the files and processes the shutdown touches), actions that change that state and may
  raise, and the two libraries they talk to. The cache (werkzeug's \<open>FileSystemCache\<close>) and the HTTP
  client (\<open>requests\<close>) are not part of the repository: they are arguments, the cache with its
  documented behaviour as the hypothesis \<open>cache_ok\<close>. Times are in microseconds, time-outs in seconds.
\<close>

section \<open>Actions\<close>

type_synonym ('s, 'a) act = "'s \<Rightarrow> 'a result \<times> 's"

definition ret :: "'a \<Rightarrow> ('s, 'a) act" where
  "ret a s = (ok a, s)"

definition raiseA :: "exn \<Rightarrow> ('s, 'a) act" where
  "raiseA x s = (raise x, s)"

definition liftA :: "'a result \<Rightarrow> ('s, 'a) act" where
  "liftA r s = (r, s)"

definition bindA :: "('s, 'a) act \<Rightarrow> ('a \<Rightarrow> ('s, 'b) act) \<Rightarrow> ('s, 'b) act" where
  "bindA m f s = (case m s of (Inl x, s') \<Rightarrow> (raise x, s') | (Inr a, s') \<Rightarrow> f a s')"

text \<open>\<open>try: m except ..: h\<close>; \<open>h\<close> says which exceptions it handles.\<close>

definition tryA :: "('s, 'a) act \<Rightarrow> (exn \<Rightarrow> ('s, 'a) act option) \<Rightarrow> ('s, 'a) act" where
  "tryA m h s =
     (case m s of
        (Inl x, s') \<Rightarrow> (case h x of None \<Rightarrow> (raise x, s') | Some g \<Rightarrow> g s')
      | (Inr a, s') \<Rightarrow> (ok a, s'))"

named_theorems act_simps \<open>running an action\<close>

lemma ret_run [act_simps]: "ret a s = (Inr a, s)" "raiseA x s = (Inl x, s)" "liftA r s = (r, s)"
  by (simp_all add: ret_def raiseA_def liftA_def)

lemma bindA_run [act_simps]: "bindA m f s = (case m s of (Inl x, s') \<Rightarrow> (Inl x, s') | (Inr a, s') \<Rightarrow> f a s')"
  by (simp add: bindA_def)

lemma tryA_run [act_simps]:
  "tryA m h s = (case m s of (Inl x, s') \<Rightarrow> (case h x of None \<Rightarrow> (Inl x, s') | Some g \<Rightarrow> g s') | (Inr a, s') \<Rightarrow> (Inr a, s'))"
  by (simp add: tryA_def)

lemma bindA_Inr: "bindA m f s = (Inr b, s') \<longleftrightarrow> (\<exists>a s1. m s = (Inr a, s1) \<and> f a s1 = (Inr b, s'))"
  by (auto simp: bindA_def split: prod.splits sum.splits)

text \<open>A loop over a list.\<close>

fun forA :: "('a \<Rightarrow> ('s, unit) act) \<Rightarrow> 'a list \<Rightarrow> ('s, unit) act" where
  "forA f [] = ret ()"
| "forA f (x # xs) = bindA (f x) (\<lambda>_. forA f xs)"

section \<open>The cache\<close>

record 'c cache_ops =
  cache_get :: "nat \<Rightarrow> string \<Rightarrow> 'c \<Rightarrow> json option"
  cache_set :: "nat \<Rightarrow> string \<Rightarrow> json \<Rightarrow> int \<Rightarrow> 'c \<Rightarrow> 'c"
  cache_delete :: "string \<Rightarrow> 'c \<Rightarrow> 'c"

definition second :: nat where
  "second = 1000000"

text \<open>
  An entry set at \<open>t\<close> with a time-out of \<open>n\<close> seconds is there until the last whole second before
  \<open>t + n\<close> and gone after \<open>t + n\<close>, and never anything else; a time-out of 0 keeps it. Keys are
  independent. (The cache evicts
  entries at random beyond 500 keys; the API uses five.)
\<close>

definition cache_ok :: "'c cache_ops \<Rightarrow> bool" where
  "cache_ok K \<longleftrightarrow>
     (\<forall>t u k v n c. 0 < n \<and> t \<le> u \<and> int u + int second \<le> int t + n * int second \<longrightarrow>
        cache_get K u k (cache_set K t k v n c) = Some v) \<and>
     (\<forall>t u k v c. cache_get K u k (cache_set K t k v 0 c) = Some v) \<and>
     (\<forall>t u k v n c. 0 < n \<and> int t + n * int second < int u \<longrightarrow>
        cache_get K u k (cache_set K t k v n c) = None) \<and>
     (\<forall>t u k v n c. cache_get K u k (cache_set K t k v n c) \<in> {None, Some v}) \<and>
     (\<forall>t u k j v n c. j \<noteq> k \<longrightarrow> cache_get K u j (cache_set K t k v n c) = cache_get K u j c) \<and>
     (\<forall>u k c. cache_get K u k (cache_delete K k c) = None) \<and>
     (\<forall>u k j c. j \<noteq> k \<longrightarrow> cache_get K u j (cache_delete K k c) = cache_get K u j c)"

text \<open>A cache that satisfies it: the expiry date is rounded down to a second, 0 is none.\<close>

type_synonym ref_cache = "(string \<times> int \<times> json) list"

definition expiry :: "nat \<Rightarrow> int \<Rightarrow> int" where
  "expiry t n = (if n = 0 then 0 else (int t + n * int second) div int second)"

definition ref_get :: "nat \<Rightarrow> string \<Rightarrow> ref_cache \<Rightarrow> json option" where
  "ref_get u k c =
     (case map_of c k of
        Some (x, v) \<Rightarrow> if x = 0 \<or> int u \<le> x * int second then Some v else None
      | None \<Rightarrow> None)"

definition ref_set :: "nat \<Rightarrow> string \<Rightarrow> json \<Rightarrow> int \<Rightarrow> ref_cache \<Rightarrow> ref_cache" where
  "ref_set t k v n c = (k, expiry t n, v) # filter (\<lambda>e. fst e \<noteq> k) c"

definition ref_delete :: "string \<Rightarrow> ref_cache \<Rightarrow> ref_cache" where
  "ref_delete k c = filter (\<lambda>e. fst e \<noteq> k) c"

definition ref_cache_ops :: "ref_cache cache_ops" where
  "ref_cache_ops = \<lparr>cache_get = ref_get, cache_set = ref_set, cache_delete = ref_delete\<rparr>"

section \<open>Requests, responses, state\<close>

record request =
  rq_method :: string
  rq_path :: string
  rq_query :: string
  rq_args :: "(string \<times> string) list"
  rq_body :: "json option"
  rq_remote :: string
  rq_now :: nat

text \<open>A response of the HTTP client: its bytes, what they decode to, and what \<open>json.loads\<close> makes of it.\<close>

record reply =
  rp_status :: nat
  rp_content :: string
  rp_text :: "string result"
  rp_json :: "json option"

datatype payload = Body json | Plain string

record response =
  status :: nat
  payload :: payload

definition jsonify :: "json \<Rightarrow> nat \<Rightarrow> response" where
  "jsonify j n = \<lparr>status = n, payload = Body j\<rparr>"

definition plain :: "string \<Rightarrow> nat \<Rightarrow> response" where
  "plain t n = \<lparr>status = n, payload = Plain t\<rparr>"

text \<open>Files by path, and the processes that are alive.\<close>

record world =
  files :: "(string \<times> string) list"
  live :: "int list"

record 'c api =
  a_db :: db
  a_cache :: 'c
  a_world :: world

text \<open>What \<open>create_app\<close> and \<open>register_routes\<close> are given.\<close>

record app_config =
  MATCHBOX_URI :: json
  API_URI :: json
  MATCHBOX_URLS :: json
  IGNITION_JOURNAL_DIR :: json
  BACKUP_BUCKET_NAME :: json
  BACKUP_BUCKET_DIRECTORY :: json
  BACKUP_LOCK_KEY :: json

record 'c server =
  sv_engine :: engine
  sv_dns :: "nat \<Rightarrow> nat \<Rightarrow> nat \<Rightarrow> json \<Rightarrow> string result"
  sv_ec :: config
  sv_app :: app_config
  sv_cache :: "'c cache_ops"
  sv_http :: "string \<Rightarrow> reply result"
  sv_rules :: "string list"
  sv_index :: string
  sv_process :: "int \<Rightarrow> string"

text \<open>The logging level and the format are given to the standard library.\<close>

definition create_app :: "config \<Rightarrow> app_config result" where
  "create_app ec =
     bindE (attr ec ''matchbox_uri'') (\<lambda>m. bindE (attr ec ''api_uri'') (\<lambda>a. bindE (attr ec ''matchbox_urls'') (\<lambda>u.
     bindE (attr ec ''ignition_journal_dir'') (\<lambda>j. bindE (attr ec ''backup_bucket_name'') (\<lambda>n.
     bindE (attr ec ''backup_bucket_directory'') (\<lambda>d. bindE (attr ec ''backup_lock_key'') (\<lambda>k.
     bindE (attr ec ''logging_level'') (\<lambda>_. bindE (attr ec ''logging_formatter'') (\<lambda>_.
       ok \<lparr>MATCHBOX_URI = m, API_URI = a, MATCHBOX_URLS = u, IGNITION_JOURNAL_DIR = j, BACKUP_BUCKET_NAME = n,
           BACKUP_BUCKET_DIRECTORY = d, BACKUP_LOCK_KEY = k\<rparr>)))))))))"

definition with_db :: "(db \<Rightarrow> 'a result \<times> db) \<Rightarrow> ('c api, 'a) act" where
  "with_db f s = (case f (a_db s) of (r, d) \<Rightarrow> (r, s\<lparr>a_db := d\<rparr>))"

definition read_db :: "(db \<Rightarrow> 'a result) \<Rightarrow> ('c api, 'a) act" where
  "read_db f s = (f (a_db s), s)"

definition cache_lookup :: "'c server \<Rightarrow> nat \<Rightarrow> string \<Rightarrow> ('c api, json option) act" where
  "cache_lookup S now k s = (ok (cache_get (sv_cache S) now k (a_cache s)), s)"

definition cache_store :: "'c server \<Rightarrow> nat \<Rightarrow> string \<Rightarrow> json \<Rightarrow> int \<Rightarrow> ('c api, unit) act" where
  "cache_store S now k v n s = (ok (), s\<lparr>a_cache := cache_set (sv_cache S) now k v n (a_cache s)\<rparr>)"

definition cache_drop :: "'c server \<Rightarrow> string \<Rightarrow> ('c api, unit) act" where
  "cache_drop S k s = (ok (), s\<lparr>a_cache := cache_delete (sv_cache S) k (a_cache s)\<rparr>)"

lemma with_db_run [act_simps]: "with_db f s = (fst (f (a_db s)), s\<lparr>a_db := snd (f (a_db s))\<rparr>)"
  by (simp add: with_db_def split_beta)

lemmas api_runs [act_simps] = read_db_def cache_lookup_def cache_store_def cache_drop_def

section \<open>Facts about the cache\<close>

lemma floor_second:
  "int u + int second \<le> x \<Longrightarrow> int u \<le> x div int second * int second"
  "x < int u \<Longrightarrow> \<not> int u \<le> x div int second * int second"
  by (simp_all add: second_def)

lemma cache_ok_ref: "cache_ok ref_cache_ops"
proof -
  have keep: "ref_get u k (ref_set t k v n c) = Some v"
    if "0 < n" "int u + int second \<le> int t + n * int second" for t u k v n c
    using that floor_second(1) [OF that(2)] by (simp add: ref_get_def ref_set_def expiry_def)
  have gone: "ref_get u k (ref_set t k v n c) = None"
    if "0 < n" "int t + n * int second < int u" for t u k v n c
  proof -
    have "int second \<le> n * int second" using that(1) by (simp add: second_def)
    then have "(int t + n * int second) div int second \<noteq> 0"
      using pos_imp_zdiv_pos_iff [of "int second" "int t + n * int second"] by (auto simp: second_def)
    with that floor_second(2) [OF that(2)] show ?thesis by (simp add: ref_get_def ref_set_def expiry_def)
  qed
  have other: "map_of (filter (\<lambda>e. fst e \<noteq> k) c) j = (if j = k then None else map_of c j)"
    for j k :: string and c :: ref_cache
    by (induction c) auto
  show ?thesis
    unfolding cache_ok_def ref_cache_ops_def
    using keep gone by (simp add: ref_delete_def ref_set_def ref_get_def other expiry_def)
qed

lemma cache_laws:
  assumes "cache_ok K"
  shows "0 < n \<Longrightarrow> t \<le> u \<Longrightarrow> int u + int second \<le> int t + n * int second \<Longrightarrow>
      cache_get K u k (cache_set K t k v n c) = Some v"
    and "cache_get K u k (cache_set K t k v 0 c) = Some v"
    and "0 < n \<Longrightarrow> int t + n * int second < int u \<Longrightarrow> cache_get K u k (cache_set K t k v n c) = None"
    and "cache_get K u k (cache_set K t k v n c) \<in> {None, Some v}"
    and "j \<noteq> k \<Longrightarrow> cache_get K u j (cache_set K t k v n c) = cache_get K u j c"
    and "cache_get K u k (cache_delete K k c) = None"
    and "j \<noteq> k \<Longrightarrow> cache_get K u j (cache_delete K k c) = cache_get K u j c"
  by (use assms in \<open>simp_all add: cache_ok_def\<close>)

end
