(* ===== verification/Files.thy ===== *)
theory Files
  imports Api
begin

text \<open>
  The files of the plan: directories and text files by path. Paths are compared as they are written;
  reading, writing and listing fail as \<open>open\<close> and \<open>os.listdir\<close> do. The order of a listing is that of
  the record, since the operating system promises none.
\<close>

record fs =
  f_dirs :: "string list"
  f_files :: "(string \<times> string) list"

definition is_dir :: "fs \<Rightarrow> string \<Rightarrow> bool" where
  "is_dir f p = (p \<in> set (f_dirs f))"

definition is_file :: "fs \<Rightarrow> string \<Rightarrow> bool" where
  "is_file f p = (p \<in> fst ` set (f_files f))"

definition read_file :: "fs \<Rightarrow> string \<Rightarrow> string result" where
  "read_file f p = (case map_of (f_files f) p of None \<Rightarrow> raise IOError | Some t \<Rightarrow> ok t)"

definition dirname :: "string \<Rightarrow> string" where
  "dirname p = join_with ''/'' (butlast (split_on CHR ''/'' p))"

definition write_file :: "fs \<Rightarrow> string \<Rightarrow> string \<Rightarrow> fs result" where
  "write_file f p t =
     (if is_dir f (dirname p) \<and> \<not> is_dir f p
      then ok (f\<lparr>f_files := (p, t) # filter (\<lambda>q. fst q \<noteq> p) (f_files f)\<rparr>) else raise IOError)"

text \<open>The names directly below a directory.\<close>

definition listdir :: "fs \<Rightarrow> string \<Rightarrow> string list" where
  "listdir f d =
     [n. p \<leftarrow> f_dirs f @ map fst (f_files f), starts_with (d @ ''/'') p,
         n \<leftarrow> [drop (Suc (length d)) p], n \<noteq> [] \<and> CHR ''/'' \<notin> set n]"

lemma read_written: "write_file f p t = ok f' \<Longrightarrow> read_file f' p = ok t"
  by (auto simp: write_file_def read_file_def split: if_splits)

lemma map_of_other: "map_of (filter (\<lambda>q. fst q \<noteq> p) xs) q = (if q = p then None else map_of xs q)"
  by (induction xs) auto

lemma read_other: "write_file f p t = ok f' \<Longrightarrow> q \<noteq> p \<Longrightarrow> read_file f' q = read_file f q"
  by (auto simp: write_file_def read_file_def map_of_other split: if_splits)

lemma write_file_dirs: "write_file f p t = ok f' \<Longrightarrow> f_dirs f' = f_dirs f"
  by (auto simp: write_file_def split: if_splits)

lemma write_file_is_file: "write_file f p t = ok f' \<Longrightarrow> is_file f' q \<longleftrightarrow> q = p \<or> is_file f q"
  by (force simp: write_file_def is_file_def split: if_splits)

lemma dirname_child: "CHR ''/'' \<notin> set n \<Longrightarrow> dirname (d @ ''/'' @ n) = d"
proof -
  assume n: "CHR ''/'' \<notin> set n"
  have "split_on CHR ''/'' (d @ CHR ''/'' # n) = split_on CHR ''/'' d @ [n]"
  proof (induction d)
    case (Cons c d)
    then show ?case by (auto split: list.splits)
  qed (simp add: split_on_no_sep n)
  then show ?thesis by (simp add: dirname_def join_split)
qed

end
