(* ===== verification/Scheduler.thy ===== *)
theory Scheduler
  imports Files
begin

text \<open>
  \<open>enjoliver/schedulerv2.py\<close>: the client that gives machines their roles through the API. What a
  process of the plan can do to the outside is the record \<open>host\<close> over a state of its own: HTTP calls
  (a post may have a body), sleeping some milliseconds, its files, and the query cache of the synchronisation
  (werkzeug's \<open>SimpleCache\<close>, given the time-out in seconds). The API model provides one (\<open>Net\<close>).
\<close>

section \<open>The outside of the plan\<close>

record 's host =
  h_get :: "string \<Rightarrow> 's \<Rightarrow> reply result \<times> 's"
  h_post :: "string \<Rightarrow> json option \<Rightarrow> 's \<Rightarrow> reply result \<times> 's"
  h_sleep :: "int \<Rightarrow> 's \<Rightarrow> 's"
  h_fs :: "'s \<Rightarrow> fs"
  h_set_fs :: "fs \<Rightarrow> 's \<Rightarrow> 's"
  h_cached :: "string \<Rightarrow> 's \<Rightarrow> json option"
  h_cache :: "int \<Rightarrow> string \<Rightarrow> json \<Rightarrow> 's \<Rightarrow> 's"

text \<open>\<open>time.sleep(n)\<close>\<close>

definition sleep :: "'s host \<Rightarrow> int \<Rightarrow> ('s, unit) act" where
  "sleep H n s = (ok (), h_sleep H (1000 * n) s)"

text \<open>\<open>json.loads(r.content.decode())\<close>\<close>

definition load_reply :: "reply \<Rightarrow> json result" where
  "load_reply r = bindE (rp_text r) (\<lambda>_. case rp_json r of None \<Rightarrow> raise ValueError | Some j \<Rightarrow> ok j)"

fun py_len :: "json \<Rightarrow> nat result" where
  "py_len (JList xs) = ok (length xs)"
| "py_len (JStr s) = ok (length s)"
| "py_len (JObj d) = ok (length d)"
| "py_len _ = raise TypeError"

text \<open>\<open>xs.sort(key=lambda k: k["mac"])\<close>: only a list sorts, and strings do not compare with other values.\<close>

definition mac_key :: "json \<Rightarrow> json result" where
  "mac_key k = jget k ''mac''"

fun sort_by_mac :: "json \<Rightarrow> json list result" where
  "sort_by_mac (JList xs) =
     bindE (mapE mac_key xs) (\<lambda>ks.
       if length xs \<le> 1 then ok xs
       else bindE (mapE as_str ks) (\<lambda>ms. ok (map snd (sort_key fst (zip ms xs)))))"
| "sort_by_mac _ = raise AttributeError"

section \<open>CommonScheduler\<close>

record scheduler =
  api_uri :: string
  sched_roles :: "string list"
  expected_nb :: int
  apply_deps_tries :: int
  apply_deps_delay :: int

definition fetch_available :: "'s host \<Rightarrow> string \<Rightarrow> ('s, json) act" where
  "fetch_available H uri =
     tryA
       (bindA (h_get H (uri @ ''/scheduler/available'')) (\<lambda>r.
        bindA (liftA (load_reply r)) (\<lambda>interfaces.
        bindA (liftA (py_len interfaces)) (\<lambda>_. ret interfaces))))
       (\<lambda>x. if x = ConnectionError then Some (ret (JList [])) else None)"

text \<open>The status of the response is not looked at.\<close>

definition affect :: "'s host \<Rightarrow> scheduler \<Rightarrow> json \<Rightarrow> ('s, nat) act" where
  "affect H C available =
     bindA (liftA (mac_key available)) (\<lambda>mac.
     bindA (h_post H (api_uri C @ ''/scheduler'')
       (Some (JObj [(''roles'', strs (sched_roles C)), (''selector'', JObj [(''mac'', mac)])]))) (\<lambda>_. ret 1))"

definition apply_available_budget :: "'s host \<Rightarrow> scheduler \<Rightarrow> ('s, bool) act" where
  "apply_available_budget H C =
     bindA (fetch_available H (api_uri C)) (\<lambda>available_list.
     bindA (liftA (py_len available_list)) (\<lambda>n.
       if expected_nb C \<le> int n then
         bindA (liftA (sort_by_mac available_list)) (\<lambda>xs.
         bindA (forA (\<lambda>x. bindA (affect H C x) (\<lambda>_. ret ())) (take (nat (expected_nb C)) xs)) (\<lambda>_. ret True))
       else ret False))"

definition roles_url :: "scheduler \<Rightarrow> string" where
  "roles_url C = api_uri C @ ''/scheduler/'' @ join_with ''&'' (sched_roles C)"

definition apply_budget :: "'s host \<Rightarrow> scheduler \<Rightarrow> ('s, bool) act" where
  "apply_budget H C =
     tryA
       (bindA (h_get H (roles_url C)) (\<lambda>r.
        bindA (liftA (load_reply r)) (\<lambda>done.
        bindA (liftA (py_len done)) (\<lambda>n.
          if int n < expected_nb C then apply_available_budget H C else ret True))))
       (\<lambda>x. if x = ConnectionError \<or> x = ValueError then Some (ret False) else None)"

fun sum_affects :: "'s host \<Rightarrow> scheduler \<Rightarrow> nat \<Rightarrow> json list \<Rightarrow> ('s, nat) act" where
  "sum_affects H C acc [] = ret acc"
| "sum_affects H C acc (x # xs) = bindA (affect H C x) (\<lambda>k. sum_affects H C (acc + k) xs)"

definition apply_everything :: "'s host \<Rightarrow> scheduler \<Rightarrow> ('s, nat) act" where
  "apply_everything H C =
     tryA
       (bindA (h_get H (roles_url C)) (\<lambda>r.
        bindA (liftA (bindE (load_reply r) py_len)) (\<lambda>done.
        bindA (fetch_available H (api_uri C)) (\<lambda>available_list.
        bindA (liftA (sort_by_mac available_list)) (\<lambda>xs.
          sum_affects H C done xs)))))
       (\<lambda>x. if x = ConnectionError then Some (ret 0) else None)"

text \<open>\<open>for i in range(nb_try)\<close> with the tries that are left; without any try the result is \<open>None\<close>.\<close>

fun apply_with_retry :: "'s host \<Rightarrow> ('s, 'a) act \<Rightarrow> nat \<Rightarrow> int \<Rightarrow> ('s, 'a option) act" where
  "apply_with_retry H apply_fn 0 seconds_sleep = ret None"
| "apply_with_retry H apply_fn (Suc left_tries) seconds_sleep =
     tryA (bindA apply_fn (\<lambda>a. ret (Some a)))
       (\<lambda>x. Some (if left_tries = 0 then raiseA x
          else bindA (sleep H seconds_sleep) (\<lambda>_. apply_with_retry H apply_fn left_tries seconds_sleep)))"

text \<open>The dependency is applied until it answers True.\<close>

fun apply_dep_tries :: "'s host \<Rightarrow> ('s, bool option) act \<Rightarrow> nat \<Rightarrow> int \<Rightarrow> ('s, bool) act" where
  "apply_dep_tries H dep_apply 0 delay = raiseA RuntimeError"
| "apply_dep_tries H dep_apply (Suc n) delay =
     bindA dep_apply (\<lambda>r.
       if r = Some True then ret True
       else bindA (sleep H delay) (\<lambda>_. apply_dep_tries H dep_apply n delay))"

definition apply_dep :: "'s host \<Rightarrow> scheduler \<Rightarrow> ('s, bool option) act \<Rightarrow> ('s, bool) act" where
  "apply_dep H C dep_apply = apply_dep_tries H dep_apply (nat (apply_deps_tries C)) (apply_deps_delay C)"

section \<open>The two schedulers\<close>

definition EtcdMemberKubernetesControlPlane :: "config \<Rightarrow> string \<Rightarrow> scheduler result" where
  "EtcdMemberKubernetesControlPlane ec uri =
     bindE (bindE (attr ec ''apply_deps_tries'') py_int) (\<lambda>tries.
     bindE (bindE (attr ec ''apply_deps_delay'') py_int) (\<lambda>delay.
     bindE (bindE (attr ec ''etcd_member_kubernetes_control_plane_expected_nb'') py_int) (\<lambda>n.
       ok \<lparr>api_uri = uri, sched_roles = sort [etcd_member, kubernetes_control_plane], expected_nb = n,
         apply_deps_tries = tries, apply_deps_delay = delay\<rparr>)))"

definition control_plane_apply :: "'s host \<Rightarrow> scheduler \<Rightarrow> nat \<Rightarrow> int \<Rightarrow> ('s, bool option) act" where
  "control_plane_apply H C nb_try seconds_sleep = apply_with_retry H (apply_budget H C) nb_try seconds_sleep"

definition node_scheduler :: "string \<Rightarrow> int \<Rightarrow> int \<Rightarrow> scheduler" where
  "node_scheduler uri tries delay = \<lparr>api_uri = uri, sched_roles = sort [kubernetes_node], expected_nb = 0,
     apply_deps_tries = tries, apply_deps_delay = delay\<rparr>"

text \<open>The constructor applies the control plane first when it is told to.\<close>

definition KubernetesNode :: "'s host \<Rightarrow> config \<Rightarrow> string \<Rightarrow> bool \<Rightarrow> ('s, scheduler) act" where
  "KubernetesNode H ec uri with_dep =
     bindA (liftA (EtcdMemberKubernetesControlPlane ec uri)) (\<lambda>cp.
     let C = node_scheduler uri (apply_deps_tries cp) (apply_deps_delay cp) in
     if with_dep then bindA (apply_dep H C (control_plane_apply H cp 2 0)) (\<lambda>_. ret C) else ret C)"

definition node_apply :: "'s host \<Rightarrow> scheduler \<Rightarrow> nat \<Rightarrow> int \<Rightarrow> ('s, nat option) act" where
  "node_apply H C nb_try seconds_sleep = apply_with_retry H (apply_everything H C) nb_try seconds_sleep"

end
