(* ===== verification/Json_Text.thy ===== *)
theory Json_Text
  imports Json
begin

text \<open>
  The text of JSON: \<open>json.dumps(v, indent=2, sort_keys=True)\<close> and \<open>json.loads\<close> of Python's standard
  library. A character is one of the first 256 of Unicode, so an escape beyond them is not read. The
  reader takes fuel; the length of the text is enough, which the round trip shows for every text the
  printer makes. What comes back is the value with the keys of its dictionaries sorted, the same
  dictionaries for Python.
\<close>

section \<open>Printing with an indent\<close>

definition nl :: "nat \<Rightarrow> string" where
  "nl l = CHR 0x0A # replicate (2 * l) CHR '' ''"

primrec render_at :: "json \<Rightarrow> nat \<Rightarrow> string" where
  "render_at JNull l = ''null''"
| "render_at (JBool b) l = (if b then ''true'' else ''false'')"
| "render_at (JInt i) l = show_int i"
| "render_at (JReal s) l = real_text s"
| "render_at (JStr s) l = quote_str s"
| "render_at (JList xs) l =
     (if xs = [] then ''[]''
      else ''['' @ nl (Suc l) @ join_with ('','' @ nl (Suc l)) (map (\<lambda>f. f (Suc l)) (map render_at xs)) @ nl l @ '']'')"
| "render_at (JObj d) l =
     (if d = [] then ''{}''
      else ''{'' @ nl (Suc l) @ join_with ('','' @ nl (Suc l))
        (map (\<lambda>kv. quote_str (fst kv) @ '': '' @ snd kv (Suc l)) (sort_key fst (map (map_prod id render_at) d)))
        @ nl l @ ''}'')"

definition render_json :: "json \<Rightarrow> string" where
  "render_json j = render_at j 0"

text \<open>The value with sorted keys.\<close>

primrec sorted_keys :: "json \<Rightarrow> json" where
  "sorted_keys JNull = JNull"
| "sorted_keys (JBool b) = JBool b"
| "sorted_keys (JInt i) = JInt i"
| "sorted_keys (JReal s) = JReal s"
| "sorted_keys (JStr s) = JStr s"
| "sorted_keys (JList xs) = JList (map sorted_keys xs)"
| "sorted_keys (JObj d) = JObj (sort_key fst (map (map_prod id sorted_keys) d))"

section \<open>Reading\<close>

definition is_ws :: "char \<Rightarrow> bool" where
  "is_ws c = (c = CHR '' '' \<or> c = CHR 0x09 \<or> c = CHR 0x0A \<or> c = CHR 0x0D)"

definition skip_ws :: "string \<Rightarrow> string" where
  "skip_ws s = dropWhile is_ws s"

definition hex_value :: "char \<Rightarrow> nat option" where
  "hex_value c =
     (let n = (of_char c :: nat) in
      if 48 \<le> n \<and> n \<le> 57 then Some (n - 48)
      else if 97 \<le> n \<and> n \<le> 102 then Some (n - 87)
      else if 65 \<le> n \<and> n \<le> 70 then Some (n - 55)
      else None)"

definition hex4 :: "string \<Rightarrow> (char \<times> string) option" where
  "hex4 s =
     (case s of
        a # b # c # d # t \<Rightarrow>
          (case (hex_value a, hex_value b, hex_value c, hex_value d) of
             (Some 0, Some 0, Some x, Some y) \<Rightarrow> Some (char_of (16 * x + y), t)
           | _ \<Rightarrow> None)
      | _ \<Rightarrow> None)"

definition unescape :: "char \<Rightarrow> char option" where
  "unescape c =
     (if c = CHR 0x22 \<or> c = CHR 0x5C \<or> c = CHR ''/'' then Some c
      else if c = CHR ''n'' then Some (char_of (10::nat))
      else if c = CHR ''r'' then Some (char_of (13::nat))
      else if c = CHR ''t'' then Some (char_of (9::nat))
      else if c = CHR ''b'' then Some (char_of (8::nat))
      else if c = CHR ''f'' then Some (char_of (12::nat))
      else None)"

text \<open>One character of a string, and the rest.\<close>

definition read_char :: "char \<Rightarrow> string \<Rightarrow> (char \<times> string) option" where
  "read_char c s =
     (if c = CHR 0x5C then
        (case s of
           [] \<Rightarrow> None
         | e # t \<Rightarrow> if e = CHR ''u'' then hex4 t else map_option (\<lambda>x. (x, t)) (unescape e))
      else if (of_char c :: nat) < 32 then None
      else Some (c, s))"

lemma hex4_shorter: "hex4 s = Some (x, t) \<Longrightarrow> length t < length s"
  by (auto simp: hex4_def split: list.splits option.splits nat.splits)

lemma read_char_shorter: "read_char c s = Some (x, t) \<Longrightarrow> length t \<le> length s"
  by (auto simp: read_char_def split: if_splits list.splits dest: hex4_shorter)

function read_string :: "string \<Rightarrow> (string \<times> string) option" where
  "read_string [] = None"
| "read_string (c # s) =
     (if c = CHR 0x22 then Some ([], s)
      else case read_char c s of
        None \<Rightarrow> None
      | Some (x, t) \<Rightarrow> map_option (\<lambda>(w, r). (x # w, r)) (read_string t))"
  by pat_completeness auto
termination
  by (relation "measure length") (auto dest: read_char_shorter)

declare read_string.simps(2) [simp del]

definition fraction :: "string \<Rightarrow> string \<times> string" where
  "fraction s =
     (case s of
        c # t \<Rightarrow> if c = CHR ''.'' \<and> takeWhile is_digit t \<noteq> []
          then (c # takeWhile is_digit t, dropWhile is_digit t) else ([], s)
      | [] \<Rightarrow> ([], []))"

definition sign :: "string \<Rightarrow> string \<times> string" where
  "sign s =
     (case s of
        c # t \<Rightarrow> if c = CHR ''-'' \<or> c = CHR ''+'' then ([c], t) else ([], s)
      | [] \<Rightarrow> ([], []))"

definition exponent :: "string \<Rightarrow> string \<times> string" where
  "exponent s =
     (case s of
        c # t \<Rightarrow>
          (let u = snd (sign t) in
           if (c = CHR ''e'' \<or> c = CHR ''E'') \<and> takeWhile is_digit u \<noteq> []
           then (c # fst (sign t) @ takeWhile is_digit u, dropWhile is_digit u) else ([], s))
      | [] \<Rightarrow> ([], []))"

text \<open>\<open>(-?(?:0|[1-9][0-9]*))(\.[0-9]+)?([eE][-+]?[0-9]+)?\<close>\<close>

definition int_part :: "string \<Rightarrow> (string \<times> string) option" where
  "int_part s =
     (case takeWhile is_digit s of
        [] \<Rightarrow> None
      | c # _ \<Rightarrow> if c = CHR ''0'' then Some ([c], tl s) else Some (takeWhile is_digit s, dropWhile is_digit s))"

definition number :: "bool \<Rightarrow> string \<Rightarrow> (json \<times> string) option" where
  "number neg s =
     (case int_part s of
        None \<Rightarrow> None
      | Some (i, r) \<Rightarrow>
          (case fraction r of (f, r1) \<Rightarrow> case exponent r1 of (e, r2) \<Rightarrow>
             if f = [] \<and> e = [] then Some (JInt (if neg then - int (read_nat i) else int (read_nat i)), r2)
             else Some (JReal ((if neg then ''-'' else []) @ i @ f @ e), r2)))"

definition atoms :: "(string \<times> json) list" where
  "atoms = [(''null'', JNull), (''true'', JBool True), (''false'', JBool False),
     (''NaN'', JReal ''nan''), (''Infinity'', JReal ''inf''), (''-Infinity'', JReal ''-inf'')]"

definition atom :: "string \<Rightarrow> (json \<times> string) option" where
  "atom s =
     (case List.find (\<lambda>a. starts_with (fst a) s) atoms of
        Some (w, j) \<Rightarrow> Some (j, drop (length w) s)
      | None \<Rightarrow> if starts_with ''-'' s then number True (tl s) else number False s)"

fun value_at :: "nat \<Rightarrow> string \<Rightarrow> (json \<times> string) option"
  and elements :: "nat \<Rightarrow> string \<Rightarrow> (json list \<times> string) option"
  and members :: "nat \<Rightarrow> string \<Rightarrow> (dict \<times> string) option" where
  "value_at 0 s = None"
| "value_at (Suc n) s =
     (case skip_ws s of
        [] \<Rightarrow> None
      | c # t \<Rightarrow>
          if c = CHR 0x22 then map_option (\<lambda>(w, r). (JStr w, r)) (read_string t)
          else if c = CHR ''['' then
            (if starts_with '']'' (skip_ws t) then Some (JList [], tl (skip_ws t))
             else map_option (\<lambda>(xs, r). (JList xs, r)) (elements n t))
          else if c = CHR ''{'' then
            (if starts_with ''}'' (skip_ws t) then Some (JObj [], tl (skip_ws t))
             else map_option (\<lambda>(d, r). (JObj (foldl (\<lambda>e kv. dict_set e (fst kv) (snd kv)) [] d), r)) (members n t))
          else atom (c # t))"
| "elements 0 s = None"
| "elements (Suc n) s =
     (case value_at n s of
        None \<Rightarrow> None
      | Some (x, r) \<Rightarrow>
          if starts_with '','' (skip_ws r) then map_option (\<lambda>(xs, t). (x # xs, t)) (elements n (tl (skip_ws r)))
          else if starts_with '']'' (skip_ws r) then Some ([x], tl (skip_ws r))
          else None)"
| "members 0 s = None"
| "members (Suc n) s =
     (if \<not> starts_with [CHR 0x22] (skip_ws s) then None
      else case read_string (tl (skip_ws s)) of
        None \<Rightarrow> None
      | Some (k, r) \<Rightarrow>
          if \<not> starts_with '':'' (skip_ws r) then None
          else (case value_at n (tl (skip_ws r)) of
             None \<Rightarrow> None
           | Some (x, r) \<Rightarrow>
               if starts_with '','' (skip_ws r) then map_option (\<lambda>(d, t). ((k, x) # d, t)) (members n (tl (skip_ws r)))
               else if starts_with ''}'' (skip_ws r) then Some ([(k, x)], tl (skip_ws r))
               else None))"

text \<open>\<open>json.loads\<close>; \<open>None\<close> is its \<open>ValueError\<close>.\<close>

definition json_loads :: "string \<Rightarrow> json option" where
  "json_loads s =
     (case value_at (Suc (length s)) s of
        Some (j, r) \<Rightarrow> if skip_ws r = [] then Some j else None
      | None \<Rightarrow> None)"

section \<open>The values that are printed faithfully\<close>

text \<open>Every float is the text of a float, and no dictionary has a key twice.\<close>

definition float_ok :: "string \<Rightarrow> bool" where
  "float_ok s = (s \<in> {''nan'', ''inf'', ''-inf''} \<or>
     number (starts_with ''-'' s) (if starts_with ''-'' s then tl s else s) = Some (JReal s, []))"

primrec json_ok :: "json \<Rightarrow> bool" where
  "json_ok JNull = True"
| "json_ok (JBool b) = True"
| "json_ok (JInt i) = True"
| "json_ok (JReal s) = float_ok s"
| "json_ok (JStr s) = True"
| "json_ok (JList xs) = list_all (\<lambda>b. b) (map json_ok xs)"
| "json_ok (JObj d) = (distinct (map fst d) \<and> list_all snd (map (map_prod id json_ok) d))"

text \<open>The two cases of containers, stated on their elements.\<close>

abbreviation dict_ok :: "dict \<Rightarrow> bool" where
  "dict_ok d \<equiv> json_ok (JObj d)"

lemma json_ok_dict: "dict_ok d \<longleftrightarrow> distinct (map fst d) \<and> (\<forall>kv\<in>set d. json_ok (snd kv))"
  by (auto simp: list_all_iff)

lemma json_ok_list [simp]: "json_ok (JList xs) \<longleftrightarrow> (\<forall>x\<in>set xs. json_ok x)"
  by (auto simp: list_all_iff)

declare json_ok.simps(6,7) [simp del]

end
