(* ===== verification/Generator.thy ===== *)
theory Generator
  imports Files Json_Text
begin

text \<open>
  \<open>enjoliver/generator.py\<close>: the profiles and groups written for matchbox. \<open>deepdiff\<close> is a library:
  whether \<open>DeepDiff(a, b, ignore_order=True)\<close> is not empty is the argument \<open>differ\<close>. The data of a
  profile or a group is a dictionary in the order in which the code builds it.
\<close>

section \<open>GenerateCommon\<close>

definition ensure_directory :: "fs \<Rightarrow> string \<Rightarrow> string result" where
  "ensure_directory f p = (if is_dir f p then ok p else raise IOError)"

definition ensure_file :: "fs \<Rightarrow> string \<Rightarrow> string result" where
  "ensure_file f p = (if is_file f p then ok p else raise IOError)"

definition target_file :: "string \<Rightarrow> dict \<Rightarrow> string result" where
  "target_file target_path target_data =
     bindE (dict_get target_data ''id'') (\<lambda>i. ok (target_path @ ''/'' @ py_str i @ ''.json''))"

text \<open>What is on disk; anything that goes wrong counts as nothing.\<close>

definition on_disk :: "fs \<Rightarrow> string \<Rightarrow> json" where
  "on_disk f file_path =
     (case read_file f file_path of
        Inl _ \<Rightarrow> JObj []
      | Inr t \<Rightarrow> (case json_loads t of None \<Rightarrow> JObj [] | Some j \<Rightarrow> j))"

text \<open>\<open>dump\<close>, given the data before and after \<open>generate\<close>: True when the file was written.\<close>

definition dump :: "(json \<Rightarrow> json \<Rightarrow> bool) \<Rightarrow> string \<Rightarrow> dict \<Rightarrow> (fs \<Rightarrow> dict result) \<Rightarrow> (fs, bool) act" where
  "dump differ target_path target_data generate f =
     (case target_file target_path target_data of
        Inl x \<Rightarrow> (raise x, f)
      | Inr file_path \<Rightarrow>
          (case generate f of
             Inl x \<Rightarrow> (raise x, f)
           | Inr data \<Rightarrow>
               if \<not> differ (JObj data) (on_disk f file_path) then (ok False, f)
               else (case write_file f file_path (render_json (JObj data)) of
                  Inl x \<Rightarrow> (raise x, f)
                | Inr f' \<Rightarrow> (ok True, f'))))"

section \<open>GenerateProfile\<close>

record gen_profile =
  pr_api_uri :: string
  pr_redirect :: bool
  pr_path :: string
  pr_data :: dict

text \<open>\<open>_ensure_file\<close> raises IOError, which \<open>except Warning\<close> does not catch.\<close>

definition GenerateProfile :: "fs \<Rightarrow> string \<Rightarrow> string \<Rightarrow> string \<Rightarrow> string \<Rightarrow> string \<Rightarrow> bool \<Rightarrow> gen_profile result" where
  "GenerateProfile f uri pid name ignition_id matchbox_path pxe_redirect =
     bindE (ensure_directory f matchbox_path) (\<lambda>_.
     bindE (ensure_directory f (matchbox_path @ ''/ignition'')) (\<lambda>_.
     bindE (ensure_file f (matchbox_path @ ''/ignition/'' @ ignition_id)) (\<lambda>_.
     bindE (ensure_directory f (matchbox_path @ ''/profiles'')) (\<lambda>target_path.
       ok \<lparr>pr_api_uri = uri, pr_redirect = pxe_redirect, pr_path = target_path, pr_data =
         [(''id'', JStr pid), (''name'', JStr name), (''boot'', JObj []), (''cloud_id'', JStr ''''),
          (''ignition_id'', JStr ignition_id)]\<rparr>))))"

definition boot_json :: "string \<Rightarrow> gen_profile \<Rightarrow> json \<Rightarrow> json \<Rightarrow> json" where
  "boot_json uri P kern initrd =
     JObj [(''kernel'', JStr (uri @ py_str kern)), (''initrd'', JList [JStr (uri @ py_str initrd)]),
       (''cmdline'', JObj [
          (''coreos.config.url'', JStr (pr_api_uri P @ ''/'' @ (if pr_redirect P then ''ignition-pxe'' else ''ignition'')
             @ ''?uuid=${uuid}&mac=${net0/mac:hexhyp}'')),
          (''coreos.first_boot'', JStr ''''), (''coreos.oem.id'', JStr ''pxe''),
          (''console'', JStr ''ttyS0 console=ttyS1'')])]"

definition profile_boot :: "config \<Rightarrow> gen_profile \<Rightarrow> json result" where
  "profile_boot ec P =
     bindE (attr ec ''assets_server_uri'') (\<lambda>assets.
     bindE (attr ec ''kernel'') (\<lambda>kern.
     bindE (attr ec ''initrd'') (\<lambda>initrd.
       ok (boot_json (if truthy assets then py_str assets else pr_api_uri P) P kern initrd))))"

definition profile_generate :: "config \<Rightarrow> gen_profile \<Rightarrow> dict result" where
  "profile_generate ec P = bindE (profile_boot ec P) (\<lambda>boot. ok (dict_set (pr_data P) ''boot'' boot))"

section \<open>GenerateGroup\<close>

record gen_group =
  gr_api_uri :: string
  gr_path :: string
  gr_keys_dir :: string
  gr_selector :: "dict option"
  gr_metadata :: dict
  gr_data :: dict

definition GenerateGroup :: "fs \<Rightarrow> string \<Rightarrow> string \<Rightarrow> string \<Rightarrow> string \<Rightarrow> string \<Rightarrow> dict \<Rightarrow> dict \<Rightarrow> gen_group result" where
  "GenerateGroup f uri gid name profile matchbox_path selector metadata =
     bindE (ensure_directory f matchbox_path) (\<lambda>_.
     bindE (ensure_directory f (matchbox_path @ ''/groups'')) (\<lambda>target_path.
       ok \<lparr>gr_api_uri = uri, gr_path = target_path, gr_keys_dir = matchbox_path @ ''/ssh_authorized_keys'',
         gr_selector = (if selector = [] then None else Some selector), gr_metadata = metadata, gr_data =
         [(''id'', JStr gid), (''name'', JStr name), (''profile'', JStr profile),
          (''metadata'', JObj [(''api_uri'', JStr '''')])]\<rparr>))"

text \<open>The files that hold at least two words are keys.\<close>

definition ssh_authorized_keys :: "fs \<Rightarrow> string \<Rightarrow> json result" where
  "ssh_authorized_keys f keys_dir =
     (if \<not> is_dir f keys_dir then ok (JList [])
      else bindE (mapE (\<lambda>k. read_file f (keys_dir @ ''/'' @ k)) (listdir f keys_dir)) (\<lambda>contents.
        ok (strs [c \<leftarrow> contents. 2 \<le> length (split_on CHR '' '' c)])))"

definition metadata_of :: "dict \<Rightarrow> dict" where
  "metadata_of data = (case map_of data ''metadata'' of Some (JObj d) \<Rightarrow> d | _ \<Rightarrow> [])"

definition group_metadata :: "fs \<Rightarrow> gen_group \<Rightarrow> dict result" where
  "group_metadata f G =
     bindE (ssh_authorized_keys f (gr_keys_dir G)) (\<lambda>keys.
     let md = dict_set (metadata_of (gr_data G)) ''api_uri'' (JStr (gr_api_uri G));
         md = dict_set md ''ssh_authorized_keys'' keys in
     ok (dict_set (gr_data G) ''metadata'' (JObj (dict_update md (gr_metadata G)))))"

definition is_lower_hex :: "char \<Rightarrow> bool" where
  "is_lower_hex c = (is_digit c \<or> (97 \<le> (of_char c :: nat) \<and> (of_char c :: nat) \<le> 102))"

definition selector_mac_rx :: rx where
  "selector_mac_rx =
     rx_seq (rx_rep 5 (rx_seq (rx_rep 2 (rx_chars is_lower_hex)) (rx_lit CHR '':''))) (rx_rep 2 (rx_chars is_lower_hex))"

text \<open>The mac of a selector is lowered and checked; a selector without one is kept as it is.\<close>

definition selector_of :: "dict \<Rightarrow> dict result" where
  "selector_of sel =
     (case map_of sel ''mac'' of
        None \<Rightarrow> ok sel
      | Some (JStr m) \<Rightarrow>
          if re_match selector_mac_rx (to_lower m) then ok (dict_set sel ''mac'' (JStr (to_lower m))) else raise TypeError
      | Some _ \<Rightarrow> raise AttributeError)"

definition group_selector :: "gen_group \<Rightarrow> dict \<Rightarrow> dict result" where
  "group_selector G data =
     (case gr_selector G of
        None \<Rightarrow> ok data
      | Some sel \<Rightarrow> bindE (selector_of sel) (\<lambda>sel.
          let data = dict_set data ''selector'' (JObj sel) in
          ok (dict_set data ''metadata'' (JObj (dict_set (metadata_of data) ''selector'' (JObj sel))))))"

definition group_generate :: "gen_group \<Rightarrow> fs \<Rightarrow> dict result" where
  "group_generate G f = bindE (group_metadata f G) (group_selector G)"

section \<open>Generator\<close>

record generator =
  profile :: gen_profile
  group :: gen_group

definition Generator :: "fs \<Rightarrow> string \<Rightarrow> string \<Rightarrow> string \<Rightarrow> string \<Rightarrow> string \<Rightarrow> dict \<Rightarrow> string option \<Rightarrow> dict \<Rightarrow> bool \<Rightarrow>
    generator result" where
  "Generator f uri profile_id name ignition_id matchbox_path selector group_id extra_metadata pxe_redirect =
     bindE (GenerateProfile f uri profile_id name ignition_id matchbox_path pxe_redirect) (\<lambda>P.
     bindE (GenerateGroup f uri (case group_id of Some (c # cs) \<Rightarrow> c # cs | _ \<Rightarrow> profile_id) name profile_id matchbox_path
        selector extra_metadata) (\<lambda>G.
       ok \<lparr>profile = P, group = G\<rparr>))"

definition generator_dumps :: "(json \<Rightarrow> json \<Rightarrow> bool) \<Rightarrow> config \<Rightarrow> generator \<Rightarrow> (fs, unit) act" where
  "generator_dumps differ ec N =
     bindA (dump differ (pr_path (profile N)) (pr_data (profile N)) (\<lambda>_. profile_generate ec (profile N))) (\<lambda>_.
     bindA (dump differ (gr_path (group N)) (gr_data (group N)) (group_generate (group N))) (\<lambda>_. ret ()))"

section \<open>What the code relies on\<close>

text \<open>
  The documented behaviour of \<open>DeepDiff\<close> the code relies on: a value does not differ from itself, in
  whatever order the keys are; a dictionary that does not differ from a value has the same keys with
  values that do not differ; a string only does not differ from itself.
\<close>

definition differ_ok :: "(json \<Rightarrow> json \<Rightarrow> bool) \<Rightarrow> bool" where
  "differ_ok differ \<longleftrightarrow>
     (\<forall>j. json_ok j \<longrightarrow> \<not> differ j (sorted_keys j)) \<and>
     (\<forall>d v. \<not> differ (JObj d) v \<longrightarrow>
        (\<exists>e. v = JObj e \<and> (\<forall>k. rel_option (\<lambda>x y. \<not> differ x y) (map_of d k) (map_of e k)))) \<and>
     (\<forall>s v. \<not> differ (JStr s) v \<longrightarrow> v = JStr s)"

text \<open>A function that behaves so.\<close>

definition json_differ :: "json \<Rightarrow> json \<Rightarrow> bool" where
  "json_differ a b = (sorted_keys a \<noteq> sorted_keys b)"

end
