(* ===== verification/Sync.thy ===== *)
theory Sync
  imports Scheduler Generator Sync_Attr
begin

text \<open>
  \<open>enjoliver/sync.py\<close>: the synchronisation of the schedules with matchbox. It reads the machines of the
  two kinds from the API, through a query cache when one is configured, writes the profile and the
  group of each with its metadata, and notifies the API. Its static methods are in \<open>Sync_Attr\<close>. The
  environment variable the constructor sets is read by nothing in the repository and left out.
\<close>

record synchroniser =
  sy_api_uri :: string
  sy_path :: string
  sy_ignition :: dict
  sy_extra :: json
  sy_ttl :: "int option"

definition on_fs :: "'s host \<Rightarrow> (fs, 'a) act \<Rightarrow> ('s, 'a) act" where
  "on_fs H m s = (case m (h_fs H s) of (r, f) \<Rightarrow> (r, h_set_fs H f s))"

section \<open>Construction\<close>

text \<open>A value as the key of a JSON object.\<close>

fun key_text :: "json \<Rightarrow> string result" where
  "key_text (JStr s) = ok s"
| "key_text (JInt i) = ok (show_int i)"
| "key_text (JBool b) = ok (if b then ''true'' else ''false'')"
| "key_text (JReal s) = ok (real_text s)"
| "key_text JNull = ok ''null''"
| "key_text _ = raise TypeError"

definition report_ignition :: "'s host \<Rightarrow> string \<Rightarrow> string \<Rightarrow> string \<times> json \<Rightarrow> ('s, unit) act" where
  "report_ignition H uri matchbox_path kv s =
     (let v = py_str (snd kv); f = matchbox_path @ ''/ignition/'' @ v @ ''.yaml'' in
      if \<not> is_file (h_fs H s) f then (raise IOError, s)
      else
        bindA (liftA (read_file (h_fs H s) f)) (\<lambda>blob.
        bindA (liftA (key_text (snd kv))) (\<lambda>k.
          tryA
            (bindA (h_post H (uri @ ''/ignition/version/'' @ v) (Some (JObj [(k, JStr blob)]))) (\<lambda>r.
             bindA (liftA (load_reply r)) (\<lambda>_. ret ())))
            (\<lambda>x. if x = ConnectionError then Some (ret ()) else None))) s)"

definition reporting_ignitions :: "'s host \<Rightarrow> string \<Rightarrow> string \<Rightarrow> dict \<Rightarrow> ('s, unit) act" where
  "reporting_ignitions H uri matchbox_path ignition_dict = forA (report_ignition H uri matchbox_path) ignition_dict"

definition ConfigSyncSchedules :: "'s host \<Rightarrow> config \<Rightarrow> string \<Rightarrow> string \<Rightarrow> dict \<Rightarrow> json \<Rightarrow> ('s, synchroniser) act" where
  "ConfigSyncSchedules H ec uri matchbox_path ignition_dict extra_selector_dict =
     bindA (reporting_ignitions H uri matchbox_path ignition_dict) (\<lambda>_.
     bindA (liftA (attr ec ''sync_cache_ttl'')) (\<lambda>ttl.
     bindA (liftA (positive ttl)) (\<lambda>cached.
     bindA (liftA (py_int ttl)) (\<lambda>n.
       ret \<lparr>sy_api_uri = uri, sy_path = matchbox_path, sy_ignition = ignition_dict,
         sy_extra = (if truthy extra_selector_dict then extra_selector_dict else JObj []),
         sy_ttl = (if cached then Some n else None)\<rparr>))))"

section \<open>Queries\<close>

definition cached_query :: "'s host \<Rightarrow> synchroniser \<Rightarrow> string \<Rightarrow> 's \<Rightarrow> json option" where
  "cached_query H Y url s = (case sy_ttl Y of None \<Rightarrow> None | Some _ \<Rightarrow> h_cached H url s)"

definition keep_query :: "'s host \<Rightarrow> synchroniser \<Rightarrow> string \<Rightarrow> json \<Rightarrow> ('s, unit) act" where
  "keep_query H Y url v s = (ok (), case sy_ttl Y of None \<Rightarrow> s | Some n \<Rightarrow> h_cache H n url v s)"

definition query :: "'s host \<Rightarrow> synchroniser \<Rightarrow> (json \<Rightarrow> json list result) \<Rightarrow> string \<Rightarrow> ('s, json list) act" where
  "query H Y sorted_data url s =
     (case cached_query H Y url s of
        Some data \<Rightarrow> (jiter data, s)
      | None \<Rightarrow>
          bindA (h_get H (sy_api_uri Y @ url)) (\<lambda>r.
          bindA (liftA (load_reply r)) (\<lambda>j.
          bindA (liftA (sorted_data j)) (\<lambda>data.
          bindA (keep_query H Y url (JList data)) (\<lambda>_. ret data)))) s)"

definition query_roles :: "'s host \<Rightarrow> synchroniser \<Rightarrow> string list \<Rightarrow> ('s, json list) act" where
  "query_roles H Y roles = query H Y sort_by_mac (''/scheduler/'' @ join_with ''&'' roles)"

text \<open>\<open>data.sort()\<close> of addresses; the API lists strings.\<close>

fun sort_strings :: "json \<Rightarrow> json list result" where
  "sort_strings (JList xs) = bindE (mapE as_str xs) (\<lambda>ws. ok (map JStr (sort ws)))"
| "sort_strings _ = raise AttributeError"

definition query_ip_list :: "'s host \<Rightarrow> synchroniser \<Rightarrow> string \<Rightarrow> ('s, string list) act" where
  "query_ip_list H Y role =
     bindA (query H Y sort_strings (''/scheduler/ip-list/'' @ role)) (\<lambda>ips. liftA (mapE as_str ips))"

section \<open>Member lists\<close>

definition etcd_member_ip_list :: "'s host \<Rightarrow> synchroniser \<Rightarrow> ('s, string list) act" where
  "etcd_member_ip_list H Y = query_ip_list H Y etcd_member"

definition kubernetes_control_plane_ip_list :: "'s host \<Rightarrow> synchroniser \<Rightarrow> ('s, string list) act" where
  "kubernetes_control_plane_ip_list H Y = query_ip_list H Y kubernetes_control_plane"

definition kubernetes_nodes_ip_list :: "'s host \<Rightarrow> synchroniser \<Rightarrow> ('s, string list) act" where
  "kubernetes_nodes_ip_list H Y = query_ip_list H Y kubernetes_node"

text \<open>A port for \<open>%d\<close>: the configuration holds integers.\<close>

definition port_of :: "config \<Rightarrow> string \<Rightarrow> int result" where
  "port_of ec key = bindE (attr ec key) (\<lambda>v. case v of JInt i \<Rightarrow> ok i | _ \<Rightarrow> raise TypeError)"

text \<open>The initial clusters and the lists of URIs; the port tells which.\<close>

definition initial_cluster :: "'s host \<Rightarrow> config \<Rightarrow> synchroniser \<Rightarrow> string \<Rightarrow> ('s, json) act" where
  "initial_cluster H ec Y port_key =
     bindA (etcd_member_ip_list H Y) (\<lambda>ips. bindA (liftA (port_of ec port_key)) (\<lambda>p. ret (JStr (order_etcd_named ips p True))))"

definition member_uri_list :: "'s host \<Rightarrow> config \<Rightarrow> synchroniser \<Rightarrow> string \<Rightarrow> ('s, json) act" where
  "member_uri_list H ec Y port_key =
     bindA (etcd_member_ip_list H Y) (\<lambda>ips. bindA (liftA (port_of ec port_key)) (\<lambda>p.
       ret (JStr (join_with '','' (order_http_uri ips p True)))))"

definition kubernetes_control_plane_uris :: "'s host \<Rightarrow> config \<Rightarrow> synchroniser \<Rightarrow> ('s, string list) act" where
  "kubernetes_control_plane_uris H ec Y =
     bindA (kubernetes_control_plane_ip_list H Y) (\<lambda>ips.
     bindA (liftA (port_of ec ''kubernetes_apiserver_insecure_port'')) (\<lambda>p. ret (order_http_uri ips p False)))"

section \<open>The metadata of a machine\<close>

text \<open>A dictionary display: the values are computed in the order in which they are written.\<close>

fun dictA :: "(string \<times> ('s, json) act) list \<Rightarrow> ('s, dict) act" where
  "dictA [] = ret []"
| "dictA (kv # kvs) = bindA (snd kv) (\<lambda>v. bindA (dictA kvs) (\<lambda>d. ret ((fst kv, v) # d)))"

definition ec_value :: "config \<Rightarrow> string \<Rightarrow> ('s, json) act" where
  "ec_value ec key = liftA (attr ec key)"

definition field :: "json \<Rightarrow> string \<Rightarrow> ('s, json) act" where
  "field m key = liftA (jget m key)"

definition member_url :: "config \<Rightarrow> json \<Rightarrow> string \<Rightarrow> ('s, json) act" where
  "member_url ec m port_key =
     bindA (field m ''ipv4'') (\<lambda>ip. bindA (liftA (port_of ec port_key)) (\<lambda>p.
       ret (JStr (''https://'' @ py_str ip @ '':'' @ show_int p))))"

definition joined :: "string \<Rightarrow> ('s, string list) act \<Rightarrow> ('s, json) act" where
  "joined sep m = bindA m (\<lambda>ws. ret (JStr (join_with sep ws)))"

definition etcd_metadata :: "'s host \<Rightarrow> config \<Rightarrow> synchroniser \<Rightarrow> json \<Rightarrow> (string \<times> ('s, json) act) list" where
  "etcd_metadata H ec Y m = [
     (''etcd_name'', field m ''ipv4''),
     (''kubernetes_etcd_initial_cluster'', initial_cluster H ec Y ''kubernetes_etcd_peer_port''),
     (''vault_etcd_initial_cluster'', initial_cluster H ec Y ''vault_etcd_peer_port''),
     (''fleet_etcd_initial_cluster'', initial_cluster H ec Y ''fleet_etcd_peer_port''),
     (''kubernetes_etcd_initial_advertise_peer_urls'', member_url ec m ''kubernetes_etcd_peer_port''),
     (''vault_etcd_initial_advertise_peer_urls'', member_url ec m ''vault_etcd_peer_port''),
     (''fleet_etcd_initial_advertise_peer_urls'', member_url ec m ''fleet_etcd_peer_port''),
     (''kubernetes_etcd_member_client_uri_list'', member_uri_list H ec Y ''kubernetes_etcd_client_port''),
     (''vault_etcd_member_client_uri_list'', member_uri_list H ec Y ''vault_etcd_client_port''),
     (''fleet_etcd_member_client_uri_list'', member_uri_list H ec Y ''fleet_etcd_client_port''),
     (''kubernetes_etcd_data_dir'', ec_value ec ''kubernetes_etcd_data_dir''),
     (''vault_etcd_data_dir'', ec_value ec ''vault_etcd_data_dir''),
     (''fleet_etcd_data_dir'', ec_value ec ''fleet_etcd_data_dir''),
     (''kubernetes_etcd_client_port'', ec_value ec ''kubernetes_etcd_client_port''),
     (''vault_etcd_client_port'', ec_value ec ''vault_etcd_client_port''),
     (''fleet_etcd_client_port'', ec_value ec ''fleet_etcd_client_port''),
     (''kubernetes_etcd_advertise_client_urls'', member_url ec m ''kubernetes_etcd_client_port''),
     (''vault_etcd_advertise_client_urls'', member_url ec m ''vault_etcd_client_port''),
     (''fleet_etcd_advertise_client_urls'', member_url ec m ''fleet_etcd_client_port'')]"

definition kubernetes_metadata :: "'s host \<Rightarrow> config \<Rightarrow> synchroniser \<Rightarrow> json \<Rightarrow> string \<Rightarrow> string \<Rightarrow> (string \<times> ('s, json) act) list" where
  "kubernetes_metadata H ec Y m fqdn automatic_name = [
     (''kubernetes_apiserver_insecure_port'', ec_value ec ''kubernetes_apiserver_insecure_port''),
     (''kubernetes_node_ip'', bindA (field m ''ipv4'') (\<lambda>ip. ret (JStr (py_str ip)))),
     (''kubernetes_node_name'',
        if fqdn = automatic_name then bindA (field m ''ipv4'') (\<lambda>ip. ret (JStr (py_str ip))) else ret (JStr fqdn)),
     (''kubernetes_service_cluster_ip_range'', ec_value ec ''kubernetes_service_cluster_ip_range''),
     (''vault_ip_list'', joined '','' (etcd_member_ip_list H Y)),
     (''vault_port'', ec_value ec ''vault_port''),
     (''kubelet_healthz_port'', ec_value ec ''kubelet_healthz_port''),
     (''etcd_member_kubernetes_control_plane_ip_list'', joined '','' (etcd_member_ip_list H Y)),
     (''etcd_member_kubernetes_control_plane_ip'', bindA (etcd_member_ip_list H Y) (\<lambda>ips. ret (strs ips))),
     (''hyperkube_image_url'', ec_value ec ''hyperkube_image_url''),
     (''cephtools_image_url'', ec_value ec ''cephtools_image_url'')]"

definition network_metadata :: "config \<Rightarrow> json \<Rightarrow> string \<Rightarrow> dict \<Rightarrow> ('s, json) act" where
  "network_metadata ec m fqdn cni_attr =
     bindA (dictA [
       (''cidrv4'', field m ''cidrv4''), (''gateway'', field m ''gateway''), (''ip'', field m ''ipv4''),
       (''subnet'', liftA (dict_get cni_attr ''subnet'')), (''perennial_host_ip'', ec_value ec ''perennial_local_host_ip''),
       (''ip_or_fqdn'', bindA (ec_value ec ''sync_replace_ip_by_fqdn'') (\<lambda>b.
          if truthy b then ret (JStr fqdn) else field m ''ipv4''))])
       (\<lambda>d. ret (JObj d))"

text \<open>\<open>compute_disks_size\<close> on the value the API sent.\<close>

fun shiftable :: "json \<Rightarrow> int result" where
  "shiftable (JInt i) = ok i"
| "shiftable (JBool b) = ok (if b then 1 else 0)"
| "shiftable _ = raise TypeError"

definition disk_profile_of :: "config \<Rightarrow> json \<Rightarrow> json result" where
  "disk_profile_of ec v =
     (if \<not> truthy v then ok (JStr ''inMemory'')
      else
        bindE (jiter v) (\<lambda>ds.
        bindE (mapE (\<lambda>d. bindE (jget d ''size-bytes'') shiftable) ds) (\<lambda>sizes.
        bindE (bindE (attr ec ''disks_ladder_gb'') ladder_of) (\<lambda>ladder.
        bindE (compute_disks_size ladder sizes) (\<lambda>k. ok (JStr k))))))"

definition host_metadata :: "config \<Rightarrow> json \<Rightarrow> string \<Rightarrow> dict \<Rightarrow> dict \<Rightarrow> (string \<times> ('s, json) act) list" where
  "host_metadata ec m fqdn dns_attr cni_attr = [
     (''cni'', ret (JStr (dumps_sorted (JObj cni_attr)))),
     (''network'', network_metadata ec m fqdn cni_attr),
     (''hostname'', liftA (dict_get dns_attr ''shortname'')),
     (''dns_attr'', ret (JObj dns_attr)),
     (''nameservers'', liftA (bindE (attr ec ''nameservers'') (\<lambda>v. bindE (str_join '' '' v) (\<lambda>w. ok (JStr w))))),
     (''ntp'', liftA (bindE (attr ec ''ntp'') (\<lambda>v. bindE (str_join '' '' v) (\<lambda>w. ok (JStr w))))),
     (''fallbackntp'', liftA (bindE (attr ec ''fallbackntp'') (\<lambda>v. bindE (str_join '' '' v) (\<lambda>w. ok (JStr w))))),
     (''vault_polling_sec'', ec_value ec ''vault_polling_sec''),
     (''lifecycle_update_polling_sec'', ec_value ec ''lifecycle_update_polling_sec''),
     (''disk_profile'', bindA (field m ''disks'') (\<lambda>v. liftA (disk_profile_of ec v)))]"

section \<open>One machine\<close>

definition sync_config_of :: "config \<Rightarrow> sync_config result" where
  "sync_config_of ec =
     bindE (port_of ec ''sub_ips'') (\<lambda>sub. bindE (port_of ec ''range_nb_ips'') (\<lambda>nb. bindE (port_of ec ''skip_ips'') (\<lambda>skip.
     bindE (attr ec ''perennial_local_host_ip'') (\<lambda>p.
       ok \<lparr>sub_ips = sub, range_nb_ips = nb, skip_ips = skip, perennial_ip = py_str p\<rparr>))))"

text \<open>The name of the machine: its \<open>fqdn\<close> when there is one.\<close>

definition name_of :: "json \<Rightarrow> string \<Rightarrow> json result" where
  "name_of m automatic_name =
     (case jget m ''fqdn'' of
        Inr v \<Rightarrow> ok (if truthy v then v else JStr automatic_name)
      | Inl (KeyError _) \<Rightarrow> bindE (jget m ''mac'') (\<lambda>_. ok (JStr automatic_name))
      | Inl x \<Rightarrow> raise x)"

fun text_or_attribute_error :: "json \<Rightarrow> string result" where
  "text_or_attribute_error (JStr s) = ok s"
| "text_or_attribute_error _ = raise AttributeError"

text \<open>The argument of \<open>IPv4Interface\<close>: an integer stands for its address.\<close>

fun cidr_text :: "json \<Rightarrow> string result" where
  "cidr_text (JStr s) = ok s"
| "cidr_text (JInt i) = (if 0 \<le> i \<and> i \<le> int max_ipv4 then ok (show_ip (nat i)) else raise ValueError)"
| "cidr_text (JBool b) = ok (show_ip (if b then 1 else 0))"
| "cidr_text _ = raise ValueError"

definition machine_metadata :: "'s host \<Rightarrow> config \<Rightarrow> synchroniser \<Rightarrow> json \<Rightarrow> string \<Rightarrow> ('s, dict) act" where
  "machine_metadata H ec Y m automatic_name =
     bindA (liftA (name_of m automatic_name)) (\<lambda>name.
     bindA (liftA (bindE (attr ec ''etc_hosts'') jiter)) (\<lambda>hosts.
     bindA (liftA (text_or_attribute_error name)) (\<lambda>fqdn.
     let dns_attr = get_dns_attr fqdn in
     bindA (liftA (dict_get dns_attr ''shortname'')) (\<lambda>short.
     let etc_hosts = hosts @ [JStr (''127.0.1.1 '' @ fqdn @ '' '' @ py_str short)] in
     bindA (liftA (bindE (jget m ''cidrv4'') (\<lambda>cidr. bindE (jget m ''gateway'') (\<lambda>gw.
        bindE (cidr_text cidr) (\<lambda>c. bindE (sync_config_of ec) (\<lambda>C. cni_ipam C c gw)))))) (\<lambda>cni_attr.
       dictA ((''etc_hosts'', ret (JList etc_hosts)) # etcd_metadata H ec Y m @
         kubernetes_metadata H ec Y m fqdn automatic_name @ host_metadata ec m fqdn dns_attr cni_attr))))))"

definition selector_for :: "synchroniser \<Rightarrow> json \<Rightarrow> dict result" where
  "selector_for Y m =
     bindE (jget m ''mac'') (\<lambda>mac. bindE (get_extra_selectors (sy_extra Y)) (\<lambda>extra.
       ok (dict_update [(''mac'', mac)] extra)))"

definition produce_matchbox_data :: "(json \<Rightarrow> json \<Rightarrow> bool) \<Rightarrow> 's host \<Rightarrow> config \<Rightarrow> synchroniser \<Rightarrow> string \<Rightarrow> nat \<Rightarrow> json \<Rightarrow>
    string \<Rightarrow> dict \<Rightarrow> ('s, unit) act" where
  "produce_matchbox_data differ H ec Y marker i m automatic_name update_extra_metadata =
     bindA (machine_metadata H ec Y m automatic_name) (\<lambda>extra_metadata.
     bindA (liftA (selector_for Y m)) (\<lambda>selector.
     bindA (liftA (dict_get (sy_ignition Y) marker)) (\<lambda>ignition.
     on_fs H (\<lambda>f.
       bindA (liftA (Generator f (sy_api_uri Y) marker marker (py_str ignition @ ''.yaml'') (sy_path Y) selector
           (Some (marker @ ''-'' @ show_nat i)) (dict_update extra_metadata update_extra_metadata) False))
         (generator_dumps differ ec) f))))"

section \<open>All machines\<close>

definition cp_marker :: string where
  "cp_marker = ''etcd_member_kubernetes_control_plane''"

definition node_marker :: string where
  "node_marker = ''kubernetes_nodes''"

definition cp_roles :: "string list" where
  "cp_roles = sort [etcd_member, kubernetes_control_plane]"

definition node_roles :: "string list" where
  "node_roles = sort [kubernetes_node]"

text \<open>The name given to a machine without \<open>fqdn\<close>: a prefix, its place and its address with dashes.\<close>

definition automatic_name_of :: "string \<Rightarrow> nat \<Rightarrow> json \<Rightarrow> string result" where
  "automatic_name_of prefix i m =
     bindE (jget m ''ipv4'') (\<lambda>ip. bindE (text_or_attribute_error ip) (\<lambda>s.
       ok (prefix @ show_nat i @ ''-'' @ str_replace ''.'' ''-'' s)))"

definition control_plane_update :: "'s host \<Rightarrow> config \<Rightarrow> synchroniser \<Rightarrow> nat \<Rightarrow> ('s, dict) act" where
  "control_plane_update H ec Y n =
     dictA [
       (''roles'', ret (JStr (join_with '','' cp_roles))),
       (''kubernetes_etcd_member_peer_uri_list'', member_uri_list H ec Y ''kubernetes_etcd_peer_port''),
       (''vault_etcd_member_peer_uri_list'', member_uri_list H ec Y ''vault_etcd_peer_port''),
       (''fleet_etcd_member_peer_uri_list'', member_uri_list H ec Y ''fleet_etcd_peer_port''),
       (''kubernetes_etcd_peer_port'', ec_value ec ''kubernetes_etcd_peer_port''),
       (''vault_etcd_peer_port'', ec_value ec ''vault_etcd_peer_port''),
       (''fleet_etcd_peer_port'', ec_value ec ''fleet_etcd_peer_port''),
       (''kubernetes_apiserver_count'', ret (JInt (int n))),
       (''kubernetes_apiserver_insecure_bind_address'', ec_value ec ''kubernetes_apiserver_insecure_bind_address'')]"

definition sync_machine :: "(json \<Rightarrow> json \<Rightarrow> bool) \<Rightarrow> 's host \<Rightarrow> config \<Rightarrow> synchroniser \<Rightarrow> string \<Rightarrow> string \<Rightarrow> ('s, dict) act \<Rightarrow>
    nat \<times> json \<Rightarrow> ('s, unit) act" where
  "sync_machine differ H ec Y marker prefix update_md im =
     bindA update_md (\<lambda>md.
     bindA (liftA (automatic_name_of prefix (fst im) (snd im))) (\<lambda>name.
       produce_matchbox_data differ H ec Y marker (fst im) (snd im) name md))"

definition sync_control_plane :: "(json \<Rightarrow> json \<Rightarrow> bool) \<Rightarrow> 's host \<Rightarrow> config \<Rightarrow> synchroniser \<Rightarrow> ('s, nat) act" where
  "sync_control_plane differ H ec Y =
     bindA (query_roles H Y cp_roles) (\<lambda>machine_roles.
     bindA (forA (sync_machine differ H ec Y cp_marker ''cp-'' (control_plane_update H ec Y (length machine_roles)))
         (List.enumerate 0 machine_roles)) (\<lambda>_.
       ret (length machine_roles)))"

definition kubernetes_nodes :: "(json \<Rightarrow> json \<Rightarrow> bool) \<Rightarrow> 's host \<Rightarrow> config \<Rightarrow> synchroniser \<Rightarrow> ('s, nat) act" where
  "kubernetes_nodes differ H ec Y =
     bindA (query_roles H Y node_roles) (\<lambda>machine_roles.
     bindA (forA (sync_machine differ H ec Y node_marker ''no-'' (ret [(''roles'', JStr (join_with '','' node_roles))]))
         (List.enumerate 0 machine_roles)) (\<lambda>_.
       ret (length machine_roles)))"

section \<open>apply\<close>

definition notify :: "'s host \<Rightarrow> synchroniser \<Rightarrow> ('s, unit) act" where
  "notify H Y = bindA (h_post H (sy_api_uri Y @ ''/sync-notify'') None) (\<lambda>_. ret ())"

definition sync_round :: "(json \<Rightarrow> json \<Rightarrow> bool) \<Rightarrow> 's host \<Rightarrow> config \<Rightarrow> synchroniser \<Rightarrow> ('s, nat) act" where
  "sync_round differ H ec Y =
     bindA (sync_control_plane differ H ec Y) (\<lambda>nb.
     bindA (kubernetes_nodes differ H ec Y) (\<lambda>nb'.
     bindA (notify H Y) (\<lambda>_. ret (nb + nb'))))"

fun sync_tries :: "'s host \<Rightarrow> ('s, nat) act \<Rightarrow> nat \<Rightarrow> int \<Rightarrow> ('s, nat) act" where
  "sync_tries H r 0 seconds_sleep = raiseA RuntimeError"
| "sync_tries H r (Suc left_tries) seconds_sleep =
     tryA r (\<lambda>x. Some (if left_tries = 0 then raiseA x
       else bindA (sleep H seconds_sleep) (\<lambda>_. sync_tries H r left_tries seconds_sleep)))"

definition sync_apply :: "(json \<Rightarrow> json \<Rightarrow> bool) \<Rightarrow> 's host \<Rightarrow> config \<Rightarrow> synchroniser \<Rightarrow> nat \<Rightarrow> int \<Rightarrow> ('s, nat) act" where
  "sync_apply differ H ec Y nb_try seconds_sleep = sync_tries H (sync_round differ H ec Y) nb_try seconds_sleep"

end
