(* ===== verification/Plan.thy ===== *)
theory Plan
  imports Sync
begin

text \<open>
  \<open>enjoliver/k8s_2t.py\<close>: the plan. It waits for a healthy API, writes the discovery profile, then for
  ever schedules the control plane, schedules the nodes, synchronises matchbox and sleeps. Waiting for
  the control plane has no bound in the code: not returning is \<open>None\<close>. The endless loop is the relation
  \<open>plan_runs\<close> between the states at its head.
\<close>

section \<open>Construction\<close>

text \<open>\<open>"%s=%s" % (k, v)\<close> of the extra selectors, joined.\<close>

fun selector_text :: "json \<Rightarrow> string result" where
  "selector_text (JObj d) = ok (join_with ''&'' (map (\<lambda>kv. fst kv @ ''='' @ py_str (snd kv)) d))"
| "selector_text v = (if truthy v then raise AttributeError else ok '''')"

definition discovery_metadata :: "config \<Rightarrow> dict result" where
  "discovery_metadata ec =
     bindE (bindE (attr ec ''extra_selectors'') selector_text) (\<lambda>extra_selectors.
     bindE (attr ec ''etc_hosts'') (\<lambda>etc_hosts.
     bindE (attr ec ''coreos_install_base_url'') (\<lambda>base.
     bindE (attr ec ''lldp_image_url'') (\<lambda>lldp.
     let extra_md = [(''etc_hosts'', etc_hosts), (''extra_selectors'', JStr extra_selectors), (''coreos_install_base_url'', base)] in
       ok (if truthy lldp then dict_set extra_md ''lldp_image_url'' lldp else extra_md)))))"

definition init_discovery :: "(json \<Rightarrow> json \<Rightarrow> bool) \<Rightarrow> 's host \<Rightarrow> config \<Rightarrow> string \<Rightarrow> string \<Rightarrow> dict \<Rightarrow> ('s, unit) act" where
  "init_discovery differ H ec uri matchbox_path ignition_dict =
     bindA (liftA (discovery_metadata ec)) (\<lambda>extra_md.
     bindA (liftA (dict_get ignition_dict ''discovery'')) (\<lambda>ignition.
     on_fs H (\<lambda>f.
       bindA (liftA (Generator f uri ''discovery'' ''discovery'' (py_str ignition @ ''.yaml'') matchbox_path [] None extra_md True))
         (generator_dumps differ ec) f)))"

record plan =
  sch_control_plane :: scheduler
  sch_node :: scheduler
  k_sync :: synchroniser

definition Kubernetes2Tiers :: "(json \<Rightarrow> json \<Rightarrow> bool) \<Rightarrow> 's host \<Rightarrow> config \<Rightarrow> dict \<Rightarrow> string \<Rightarrow> string \<Rightarrow> json \<Rightarrow> ('s, plan) act" where
  "Kubernetes2Tiers differ H ec ignition_dict matchbox_path uri extra_selectors =
     bindA (init_discovery differ H ec uri matchbox_path ignition_dict) (\<lambda>_.
     bindA (liftA (EtcdMemberKubernetesControlPlane ec uri)) (\<lambda>cp.
     bindA (KubernetesNode H ec uri False) (\<lambda>node.
     bindA (ConfigSyncSchedules H ec uri matchbox_path ignition_dict extra_selectors) (\<lambda>Y.
       ret \<lparr>sch_control_plane = cp, sch_node = node, k_sync = Y\<rparr>))))"

section \<open>apply\<close>

text \<open>\<open>while m() is False: time.sleep(wait)\<close>, with the wait in milliseconds.\<close>

partial_function (option) wait_until :: "'s host \<Rightarrow> int \<Rightarrow> ('s, bool option) act \<Rightarrow> 's \<Rightarrow> (unit result \<times> 's) option" where
  "wait_until H ms m s =
     (case m s of
        (Inl x, s') \<Rightarrow> Some (Inl x, s')
      | (Inr r, s') \<Rightarrow> if r = Some False then wait_until H ms m (h_sleep H ms s') else Some (Inr (), s'))"

text \<open>The class variable \<open>wait\<close>: 10 seconds.\<close>

definition plan_poll :: int where
  "plan_poll = 10 * 1000"

definition plan_apply :: "(json \<Rightarrow> json \<Rightarrow> bool) \<Rightarrow> 's host \<Rightarrow> config \<Rightarrow> plan \<Rightarrow> 's \<Rightarrow> (nat result \<times> 's) option" where
  "plan_apply differ H ec P s =
     (case wait_until H plan_poll (control_plane_apply H (sch_control_plane P) 5 1) s of
        None \<Rightarrow> None
      | Some (Inl x, s') \<Rightarrow> Some (raise x, s')
      | Some (Inr _, s') \<Rightarrow>
          Some (bindA (node_apply H (sch_node P) 5 1) (\<lambda>_. sync_apply differ H ec (k_sync P) 10 2) s'))"

section \<open>The main program\<close>

definition is_health_for_plan :: "json \<Rightarrow> bool result" where
  "is_health_for_plan hz =
     bindE (jget hz ''global'') (\<lambda>g.
       if g = JBool True then ok True
       else bindE (jget hz ''db'') (\<lambda>d.
         if d = JBool True then bindE (jget hz ''matchbox'') (\<lambda>m. bindE (jget m ''/'') (\<lambda>r. ok (r = JBool True)))
         else ok False))"

text \<open>
  The tries before the start; an exception is fatal at the last one only, and after the last try
  the program goes on whatever the status was.
\<close>

fun wait_healthy :: "'s host \<Rightarrow> string \<Rightarrow> nat \<Rightarrow> ('s, unit) act" where
  "wait_healthy H url 0 = ret ()"
| "wait_healthy H url (Suc left_tries) =
     bindA
       (tryA
         (bindA (h_get H url) (\<lambda>r. bindA (liftA (load_reply r)) (\<lambda>j. liftA (is_health_for_plan j))))
         (\<lambda>x. Some (if left_tries = 0 then raiseA x else ret False)))
       (\<lambda>status. if status then ret () else bindA (sleep H 5) (\<lambda>_. wait_healthy H url left_tries))"

definition start_plan :: "(json \<Rightarrow> json \<Rightarrow> bool) \<Rightarrow> 's host \<Rightarrow> config \<Rightarrow> string \<Rightarrow> ('s, plan) act" where
  "start_plan differ H ec uri =
     bindA (wait_healthy H (uri @ ''/healthz'') 10) (\<lambda>_.
     bindA (liftA (attr ec ''ignition_dict'')) (\<lambda>ign.
     bindA (liftA (bindE (attr ec ''matchbox_path'') as_str)) (\<lambda>path.
     bindA (liftA (attr ec ''extra_selectors'')) (\<lambda>extra.
     bindA (liftA (case ign of JObj d \<Rightarrow> ok d | _ \<Rightarrow> raise TypeError)) (\<lambda>d.
       Kubernetes2Tiers differ H ec d path uri extra)))))"

text \<open>The sleep between rounds in milliseconds: a tenth more than the time to live of the query cache.\<close>

definition plan_wait :: "config \<Rightarrow> int result" where
  "plan_wait ec = bindE (port_of ec ''sync_cache_ttl'') (\<lambda>ttl. ok (if 0 < ttl then 1100 * ttl else 10 * 1000))"

inductive plan_runs :: "(json \<Rightarrow> json \<Rightarrow> bool) \<Rightarrow> 's host \<Rightarrow> config \<Rightarrow> plan \<Rightarrow> int \<Rightarrow> 's \<Rightarrow> 's \<Rightarrow> bool"
  for differ H ec P ms s where
  runs_start: "plan_runs differ H ec P ms s s"
| runs_round: "plan_runs differ H ec P ms s t \<Longrightarrow> plan_apply differ H ec P t = Some (Inr n, t') \<Longrightarrow>
    plan_runs differ H ec P ms s (h_sleep H ms t')"

end
