(* ===== verification/Json_Text_Facts.thy ===== *)
theory Json_Text_Facts
  imports Json_Text
begin

text \<open>
  The round trip of the JSON text: what \<open>json.dumps(v, indent=2, sort_keys=True)\<close> prints,
  \<open>json.loads\<close> reads back with sorted keys, for every value whose dictionaries have distinct keys and
  whose floats are texts of floats. The lemmas go through the reader's parts; each says what the part
  leaves when the text is followed by more.
\<close>

named_theorems text_simps \<open>what a part of the reader makes of a printed text\<close>

section \<open>Strings\<close>

lemma skip_ws_simps [simp]: "skip_ws [] = []" "skip_ws (c # s) = (if is_ws c then skip_ws s else c # s)"
  by (simp_all add: skip_ws_def)

lemma skip_ws_append: "list_all is_ws w \<Longrightarrow> skip_ws (w @ s) = skip_ws s"
  by (induction w) auto

lemma skip_ws_nl [simp]: "skip_ws (nl l @ s) = skip_ws s"
  by (rule skip_ws_append) (simp add: nl_def is_ws_def list_all_iff)

lemma is_ws_marks [simp]:
  "\<not> is_ws CHR 0x22" "\<not> is_ws CHR ''[''" "\<not> is_ws CHR '']''" "\<not> is_ws CHR ''{''" "\<not> is_ws CHR ''}''"
  "\<not> is_ws CHR '',''" "\<not> is_ws CHR '':''"
  by (simp_all add: is_ws_def)

lemma hex_value_char: "n < 16 \<Longrightarrow> hex_value (hex_char n) = Some n"
  by (auto simp: hex_value_def hex_char_def Let_def)

lemma hex4_byte: "n < 256 \<Longrightarrow> hex4 (CHR ''0'' # CHR ''0'' # hex_char (n div 16) # hex_char (n mod 16) # t) = Some (char_of n, t)"
proof -
  assume "n < 256"
  then have "n div 16 < 16" "n mod 16 < 16" by auto
  moreover have "hex_value CHR ''0'' = Some 0" by (simp add: hex_value_def)
  ultimately show ?thesis by (simp add: hex4_def hex_value_char)
qed

lemma read_string_esc: "read_string (esc_char c @ s) = map_option (\<lambda>(w, r). (c # w, r)) (read_string s)"
proof -
  have b: "(of_char c :: nat) < 256" by (rule nat_of_char_less_256)
  have c: "c = char_of k" if "(of_char c :: nat) = k" for k using that by (metis char_of_char)
  have h: "read_string (CHR 0x5C # CHR ''u'' # CHR ''0'' # CHR ''0'' # hex_char (of_char c div 16) # hex_char (of_char c mod 16) # s)
    = map_option (\<lambda>(w, r). (c # w, r)) (read_string s)"
    by (subst read_string.simps(2)) (simp add: read_char_def hex4_byte [OF b])
  show ?thesis
    using h by (auto simp: esc_char_def Let_def read_string.simps(2) read_char_def unescape_def dest: c)
qed

lemma read_string_quoted: "read_string (concat (map esc_char w) @ CHR 0x22 # s) = Some (w, s)"
proof (induction w)
  case Nil
  then show ?case by (simp add: read_string.simps(2))
next
  case (Cons c w)
  then show ?case by (simp add: read_string_esc)
qed

section \<open>Numbers\<close>

text \<open>What follows a printed value.\<close>

definition delim :: "string \<Rightarrow> bool" where
  "delim s \<longleftrightarrow> s = [] \<or> hd s \<in> {CHR '','', CHR '']'', CHR ''}'', CHR 0x0A}"

lemma delim_simps [simp]: "delim []" "delim (CHR '','' # s)" "delim (CHR '']'' # s)" "delim (CHR ''}'' # s)" "delim (nl l @ s)"
  by (simp_all add: delim_def nl_def)

lemma delim_no_digit: "delim (c # s) \<Longrightarrow> \<not> is_digit c"
  by (auto simp: delim_def is_digit_def)

lemma digits_append:
  assumes "delim s"
  shows "takeWhile is_digit (w @ s) = takeWhile is_digit w" "dropWhile is_digit (w @ s) = dropWhile is_digit w @ s"
proof -
  have s: "takeWhile is_digit s = []" "dropWhile is_digit s = s"
    using assms delim_no_digit by (cases s; simp)+
  show "takeWhile is_digit (w @ s) = takeWhile is_digit w" "dropWhile is_digit (w @ s) = dropWhile is_digit w @ s"
    by (induction w) (simp_all add: s)
qed

lemma int_part_append:
  assumes "delim s"
  shows "int_part (w @ s) = map_option (apsnd (\<lambda>r. r @ s)) (int_part w)"
proof (cases w)
  case Nil
  with digits_append(1) [OF assms, of "[]"] show ?thesis by (simp add: int_part_def)
next
  case (Cons c v)
  then show ?thesis by (simp add: int_part_def digits_append [OF assms] split: list.splits)
qed

lemma fraction_append:
  assumes "delim s"
  shows "fraction (w @ s) = apsnd (\<lambda>r. r @ s) (fraction w)"
proof (cases w)
  case Nil
  have "\<not> (hd s = CHR ''.'' \<and> s \<noteq> [])" using assms by (auto simp: delim_def)
  with Nil show ?thesis by (cases s) (simp_all add: fraction_def)
next
  case (Cons c v)
  then show ?thesis by (simp add: fraction_def digits_append [OF assms])
qed

lemma sign_append:
  assumes "delim s"
  shows "sign (w @ s) = apsnd (\<lambda>r. r @ s) (sign w)"
proof (cases w)
  case Nil
  have "s = [] \<or> hd s \<noteq> CHR ''-'' \<and> hd s \<noteq> CHR ''+''" using assms by (auto simp: delim_def)
  with Nil show ?thesis by (cases s) (simp_all add: sign_def)
qed (simp add: sign_def)

lemma exponent_append:
  assumes "delim s"
  shows "exponent (w @ s) = apsnd (\<lambda>r. r @ s) (exponent w)"
proof (cases w)
  case Nil
  have "s = [] \<or> hd s \<noteq> CHR ''e'' \<and> hd s \<noteq> CHR ''E''" using assms by (auto simp: delim_def)
  with Nil show ?thesis by (cases s) (simp_all add: exponent_def Let_def)
next
  case (Cons c v)
  then show ?thesis by (simp add: exponent_def Let_def sign_append [OF assms] digits_append [OF assms])
qed

lemma number_append:
  assumes "delim s"
  shows "number neg (w @ s) = map_option (apsnd (\<lambda>r. r @ s)) (number neg w)"
  by (auto simp: number_def int_part_append [OF assms] fraction_append [OF assms] exponent_append [OF assms]
      split: option.splits prod.splits)

lemma digits_all: "list_all is_digit w \<Longrightarrow> takeWhile is_digit w = w" "list_all is_digit w \<Longrightarrow> dropWhile is_digit w = []"
  by (induction w) auto

lemma show_nat_all: "list_all is_digit (show_nat n)"
  using show_nat_digits by (auto simp: list_all_iff)

lemma number_show_nat: "number neg (show_nat n) = Some (JInt (if neg then - int n else int n), [])"
proof -
  note d = digits_all [OF show_nat_all [of n]]
  have "int_part (show_nat n) = Some (show_nat n, [])"
  proof (cases "n = 0")
    case True
    then show ?thesis by (simp add: show_nat.simps [of 0] int_part_def digit_char_def is_digit_def)
  next
    case False
    from hd_show_nat [OF this] d show ?thesis
      by (cases "show_nat n") (simp_all add: int_part_def)
  qed
  then show ?thesis by (simp add: number_def fraction_def exponent_def read_show_nat)
qed

section \<open>Values that are one word\<close>

lemma number_digit: "number neg w = Some r \<Longrightarrow> w \<noteq> [] \<and> is_digit (hd w)"
  by (cases w) (auto simp: number_def int_part_def split: option.splits list.splits if_splits)

lemma not_digit [simp]:
  "\<not> is_digit CHR ''n''" "\<not> is_digit CHR ''t''" "\<not> is_digit CHR ''f''" "\<not> is_digit CHR ''N''"
  "\<not> is_digit CHR ''I''" "\<not> is_digit CHR ''-''" "\<not> is_digit CHR 0x22" "\<not> is_digit CHR ''[''"
  "\<not> is_digit CHR ''{''" "\<not> is_digit CHR '']''" "\<not> is_digit CHR ''}''" "\<not> is_digit CHR '',''"
  by (simp_all add: is_digit_def)

lemma digit_not_ws: "is_digit c \<Longrightarrow> \<not> is_ws c"
  by (auto simp: is_digit_def is_ws_def)

lemma atom_number:
  assumes "number False w = Some (j, [])" and "delim s"
  shows "atom (w @ s) = Some (j, s)"
proof -
  obtain c v where w: "w = c # v" "is_digit c" using number_digit [OF assms(1)] by (cases w) auto
  then have "c \<noteq> CHR ''n''" "c \<noteq> CHR ''t''" "c \<noteq> CHR ''f''" "c \<noteq> CHR ''N''" "c \<noteq> CHR ''I''" "c \<noteq> CHR ''-''" by auto
  then have "atom (w @ s) = number False (w @ s)" by (simp add: atom_def atoms_def w(1))
  then show ?thesis by (simp add: number_append assms)
qed

lemma atom_negative:
  assumes "number True w = Some (j, [])" and "delim s"
  shows "atom (CHR ''-'' # w @ s) = Some (j, s)"
proof -
  obtain c v where w: "w = c # v" "is_digit c" using number_digit [OF assms(1)] by (cases w) auto
  then have "c \<noteq> CHR ''I''" by auto
  then have "atom (CHR ''-'' # w @ s) = number True (w @ s)" by (simp add: atom_def atoms_def w(1))
  then show ?thesis by (simp add: number_append assms)
qed

text \<open>A word: its first character opens nothing, and the reader takes the whole of it.\<close>

definition word_of :: "json \<Rightarrow> string \<Rightarrow> bool" where
  "word_of j w \<longleftrightarrow> w \<noteq> [] \<and> \<not> is_ws (hd w) \<and> hd w \<notin> {CHR 0x22, CHR ''['', CHR ''{'', CHR '']'', CHR ''}''} \<and>
     (\<forall>s. delim s \<longrightarrow> atom (w @ s) = Some (j, s))"

lemma word_number: "number False w = Some (j, []) \<Longrightarrow> word_of j w"
  using number_digit [of False w] digit_not_ws by (auto simp: word_of_def atom_number)

lemma word_negative: "number True w = Some (j, []) \<Longrightarrow> word_of j (CHR ''-'' # w)"
  by (auto simp: word_of_def atom_negative is_ws_def)

lemma word_literals [simp]:
  "word_of JNull ''null''" "word_of (JBool True) ''true''" "word_of (JBool False) ''false''"
  "word_of (JReal ''nan'') ''NaN''" "word_of (JReal ''inf'') ''Infinity''" "word_of (JReal ''-inf'') ''-Infinity''"
  by (simp_all add: word_of_def is_ws_def atom_def atoms_def)

lemma word_int: "word_of (JInt i) (show_int i)"
proof (cases "i < 0")
  case True
  with word_negative [OF number_show_nat [of True "nat (- i)"]] show ?thesis by (simp add: show_int_def)
next
  case False
  with word_number [OF number_show_nat [of False "nat i"]] show ?thesis by (simp add: show_int_def)
qed

lemma word_float:
  assumes "float_ok s"
  shows "word_of (JReal s) (real_text s)"
proof (cases "s \<in> {''nan'', ''inf'', ''-inf''}")
  case True
  then show ?thesis by (auto simp: real_text_def)
next
  case False
  with assms have n: "number (starts_with ''-'' s) (if starts_with ''-'' s then tl s else s) = Some (JReal s, [])"
    by (simp add: float_ok_def)
  from False have r: "real_text s = s" by (auto simp: real_text_def)
  show ?thesis
  proof (cases "starts_with ''-'' s")
    case True
    then obtain w where "s = CHR ''-'' # w" by (cases s) auto
    with n word_negative [of w "JReal s"] r show ?thesis by simp
  next
    case False
    with n word_number [of s "JReal s"] r show ?thesis by simp
  qed
qed

lemma value_word:
  assumes "word_of j w" and "delim s" and "list_all is_ws v"
  shows "value_at (Suc n) (v @ w @ s) = Some (j, s)"
proof -
  obtain c t where w: "w = c # t" using assms(1) by (cases w) (auto simp: word_of_def)
  have "skip_ws (v @ w @ s) = c # t @ s" using assms(1,3) w by (simp add: skip_ws_append word_of_def)
  moreover have "atom (c # t @ s) = Some (j, s)" using assms(1,2) w by (auto simp: word_of_def)
  ultimately show ?thesis using assms(1) w by (auto simp: word_of_def)
qed

section \<open>Lists and dictionaries\<close>

text \<open>The text of a value: it opens with no closing bracket, and the reader with enough fuel takes the whole of it.\<close>

definition text_of :: "json \<Rightarrow> string \<Rightarrow> bool" where
  "text_of j w \<longleftrightarrow> w \<noteq> [] \<and> \<not> is_ws (hd w) \<and> hd w \<notin> {CHR '']'', CHR ''}''} \<and>
     (\<forall>n v s. length w \<le> n \<and> list_all is_ws v \<and> delim s \<longrightarrow> value_at n (v @ w @ s) = Some (j, s))"

lemma text_of_word: "word_of j w \<Longrightarrow> text_of j w"
proof -
  assume w: "word_of j w"
  then have "value_at n (v @ w @ s) = Some (j, s)" if l: "length w \<le> n" "list_all is_ws v" "delim s" for n v s
  proof -
    obtain m where "n = Suc m" using l(1) w by (cases n) (auto simp: word_of_def)
    with value_word [OF w l(3,2)] show ?thesis by simp
  qed
  with w show ?thesis by (auto simp: text_of_def word_of_def)
qed

lemma text_of_read:
  "text_of j w \<Longrightarrow> length w \<le> n \<Longrightarrow> list_all is_ws v \<Longrightarrow> delim s \<Longrightarrow> value_at n (v @ w @ s) = Some (j, s)"
  by (simp add: text_of_def)

lemma text_of_string: "text_of (JStr s) (quote_str s)"
  unfolding text_of_def
proof (intro conjI allI impI)
  fix n v r
  assume a: "length (quote_str s) \<le> n \<and> list_all is_ws v \<and> delim r"
  then obtain m where "n = Suc m" by (cases n) (auto simp: quote_str_def)
  with a show "value_at n (v @ quote_str s @ r) = Some (JStr s, r)"
    by (simp add: quote_str_def skip_ws_append read_string_quoted)
qed (simp_all add: quote_str_def)

lemma elements_text:
  assumes "list_all2 text_of js ws" "ws \<noteq> []" "list_all is_ws v" "list_all is_ws u" "u = [] \<or> hd u = CHR 0x0A"
    and "length (join_with (CHR '','' # v) ws) < n" "list_all is_ws b"
  shows "elements n (b @ join_with (CHR '','' # v) ws @ u @ CHR '']'' # s) = Some (js, s)"
  using assms
proof (induction n arbitrary: js ws b)
  case 0
  then show ?case by simp
next
  case (Suc n)
  obtain j js' w ws' where w: "js = j # js'" "ws = w # ws'" "text_of j w" "list_all2 text_of js' ws'"
    using Suc.prems(1,2) by (cases ws) (auto simp: list_all2_Cons2)
  have u: "delim (u @ CHR '']'' # s)" using Suc.prems(5) by (cases u) (auto simp: delim_def)
  show ?case
  proof (cases "ws' = []")
    case True
    then have "value_at n (b @ w @ u @ CHR '']'' # s) = Some (j, u @ CHR '']'' # s)"
      using text_of_read [OF w(3) _ Suc.prems(7) u, of n] Suc.prems(6) w(2) by simp
    with True w Suc.prems(4) show ?thesis by (simp add: skip_ws_append)
  next
    case False
    then have j: "join_with (CHR '','' # v) ws = w @ CHR '','' # v @ join_with (CHR '','' # v) ws'"
      by (simp add: w(2) join_with_Cons)
    with Suc.prems(6) have l: "length w \<le> n" "length (join_with (CHR '','' # v) ws') < n" by auto
    have "value_at n (b @ w @ CHR '','' # v @ join_with (CHR '','' # v) ws' @ u @ CHR '']'' # s) =
        Some (j, CHR '','' # v @ join_with (CHR '','' # v) ws' @ u @ CHR '']'' # s)"
      using text_of_read [OF w(3) l(1) Suc.prems(7)] by simp
    with Suc.IH [OF w(4) False Suc.prems(3-5) l(2) Suc.prems(3)] show ?thesis by (simp add: j w(1))
  qed
qed

lemma text_of_list:
  assumes "list_all2 text_of js ws" "list_all is_ws v" "list_all is_ws u" "u = [] \<or> hd u = CHR 0x0A" "ws \<noteq> []"
    and b: "list_all is_ws b"
  shows "text_of (JList js) (CHR ''['' # b @ join_with (CHR '','' # v) ws @ u @ '']'')"
  unfolding text_of_def
proof (intro conjI allI impI)
  fix n x s
  assume a: "length (CHR ''['' # b @ join_with (CHR '','' # v) ws @ u @ '']'') \<le> n \<and> list_all is_ws x \<and> delim s"
  then obtain m where m: "n = Suc m" by (cases n) auto
  have e: "elements m (b @ join_with (CHR '','' # v) ws @ u @ CHR '']'' # s) = Some (js, s)"
    using a m by (intro elements_text assms) auto
  obtain w ws' where w: "ws = w # ws'" using assms(5) by (cases ws) auto
  with assms(1) have "w \<noteq> []" "\<not> is_ws (hd w)" "hd w \<noteq> CHR '']''" by (auto simp: list_all2_Cons2 text_of_def)
  then have "\<not> starts_with '']'' (skip_ws (b @ join_with (CHR '','' # v) ws @ u @ CHR '']'' # s))"
    using b w by (cases w; cases ws') (auto simp: skip_ws_append)
  with e a m show "value_at n (x @ (CHR ''['' # b @ join_with (CHR '','' # v) ws @ u @ '']'') @ s) = Some (JList js, s)"
    by (simp add: skip_ws_append)
qed simp_all

definition member_text :: "string \<times> json \<Rightarrow> string \<Rightarrow> bool" where
  "member_text kv w \<longleftrightarrow> (\<exists>x. w = quote_str (fst kv) @ '': '' @ x \<and> text_of (snd kv) x)"

lemma members_text:
  assumes "list_all2 member_text d ws" "ws \<noteq> []" "list_all is_ws v" "list_all is_ws u" "u = [] \<or> hd u = CHR 0x0A"
    and "length (join_with (CHR '','' # v) ws) < n" "list_all is_ws b"
  shows "members n (b @ join_with (CHR '','' # v) ws @ u @ CHR ''}'' # s) = Some (d, s)"
  using assms
proof (induction n arbitrary: d ws b)
  case 0
  then show ?case by simp
next
  case (Suc n)
  obtain k j d' w ws' where w: "d = (k, j) # d'" "ws = (quote_str k @ '': '' @ w) # ws'" "text_of j w" "list_all2 member_text d' ws'"
  proof -
    obtain y ws' where ws: "ws = y # ws'" using Suc.prems(2) by (cases ws) auto
    with Suc.prems(1) obtain kv d' where d: "d = kv # d'" "member_text kv y" "list_all2 member_text d' ws'"
      by (auto simp: list_all2_Cons2)
    then obtain w where "y = quote_str (fst kv) @ '': '' @ w" "text_of (snd kv) w" by (auto simp: member_text_def)
    with ws d that [of "fst kv" "snd kv" d' w ws'] show thesis by simp
  qed
  have u: "delim (u @ CHR ''}'' # s)" using Suc.prems(5) by (cases u) (auto simp: delim_def)
  have sp: "list_all is_ws '' ''" by (simp add: is_ws_def)
  show ?case
  proof (cases "ws' = []")
    case True
    then have "value_at n ('' '' @ w @ u @ CHR ''}'' # s) = Some (j, u @ CHR ''}'' # s)"
      using text_of_read [OF w(3) _ sp u, of n] Suc.prems(6) w(2) by simp
    with True w Suc.prems(4,7) show ?thesis by (simp add: skip_ws_append quote_str_def read_string_quoted)
  next
    case False
    then have j: "join_with (CHR '','' # v) ws = quote_str k @ '': '' @ w @ CHR '','' # v @ join_with (CHR '','' # v) ws'"
      by (simp add: w(2) join_with_Cons)
    with Suc.prems(6) have l: "length w \<le> n" "length (join_with (CHR '','' # v) ws') < n" by auto
    have "value_at n ('' '' @ w @ CHR '','' # v @ join_with (CHR '','' # v) ws' @ u @ CHR ''}'' # s) =
        Some (j, CHR '','' # v @ join_with (CHR '','' # v) ws' @ u @ CHR ''}'' # s)"
      using text_of_read [OF w(3) l(1) sp] by simp
    with Suc.IH [OF w(4) False Suc.prems(3-5) l(2) Suc.prems(3)] Suc.prems(7) show ?thesis
      by (simp add: j w(1) skip_ws_append quote_str_def read_string_quoted)
  qed
qed

lemma dict_set_new: "k \<notin> fst ` set d \<Longrightarrow> dict_set d k x = d @ [(k, x)]"
  by (induction d) auto

lemma dict_of_distinct:
  "distinct (map fst (e @ d)) \<Longrightarrow> foldl (\<lambda>e kv. dict_set e (fst kv) (snd kv)) e d = e @ d"
proof (induction d arbitrary: e)
  case (Cons kv d)
  obtain k x where kv: "kv = (k, x)" by (cases kv)
  with Cons.prems have "dict_set e k x = e @ [(k, x)]" by (intro dict_set_new) auto
  with Cons.IH [of "e @ [(k, x)]"] Cons.prems kv show ?case by simp
qed simp

lemma text_of_dict:
  assumes "list_all2 member_text d ws" "list_all is_ws v" "list_all is_ws u" "u = [] \<or> hd u = CHR 0x0A" "ws \<noteq> []"
    and "distinct (map fst d)" and b: "list_all is_ws b"
  shows "text_of (JObj d) (CHR ''{'' # b @ join_with (CHR '','' # v) ws @ u @ ''}'')"
  unfolding text_of_def
proof (intro conjI allI impI)
  fix n x s
  assume a: "length (CHR ''{'' # b @ join_with (CHR '','' # v) ws @ u @ ''}'') \<le> n \<and> list_all is_ws x \<and> delim s"
  then obtain m where m: "n = Suc m" by (cases n) auto
  have e: "members m (b @ join_with (CHR '','' # v) ws @ u @ CHR ''}'' # s) = Some (d, s)"
    using a m by (intro members_text assms) auto
  obtain w ws' where w: "ws = w # ws'" using assms(5) by (cases ws) auto
  with assms(1) obtain w' where "w = CHR 0x22 # w'" by (auto simp: list_all2_Cons2 member_text_def quote_str_def)
  then have "\<not> starts_with ''}'' (skip_ws (b @ join_with (CHR '','' # v) ws @ u @ CHR ''}'' # s))"
    using b w by (cases ws') (auto simp: skip_ws_append)
  with e a m show "value_at n (x @ (CHR ''{'' # b @ join_with (CHR '','' # v) ws @ u @ ''}'') @ s) = Some (JObj d, s)"
    using dict_of_distinct [of "[]" d] assms(6) by (simp add: skip_ws_append)
qed simp_all

section \<open>The round trip\<close>

lemma insort_key_map: "insort_key f (g x) (map g xs) = map g (insort_key (\<lambda>y. f (g y)) x xs)"
  by (induction xs) auto

lemma sort_key_map: "sort_key f (map g xs) = map g (sort_key (\<lambda>y. f (g y)) xs)"
  by (induction xs) (simp_all add: insort_key_map)

lemma nl_ws: "list_all is_ws (nl l)" "nl l = [] \<or> hd (nl l) = CHR 0x0A"
  by (simp_all add: nl_def is_ws_def list_all_iff)

lemma text_of_empty: "text_of (JList []) ''[]''" "text_of (JObj []) ''{}''"
proof -
  have "value_at n (v @ ''[]'' @ s) = Some (JList [], s)" "value_at n (v @ ''{}'' @ s) = Some (JObj [], s)"
    if "2 \<le> n" "list_all is_ws v" for n v s
    using that by (cases n; simp add: skip_ws_append)+
  then show "text_of (JList []) ''[]''" "text_of (JObj []) ''{}''" by (simp_all add: text_of_def)
qed

lemma text_of_render: "json_ok j \<Longrightarrow> text_of (sorted_keys j) (render_at j l)"
proof (induction j arbitrary: l)
  case (JList xs)
  show ?case
  proof (cases "xs = []")
    case False
    have "list_all2 text_of (map sorted_keys xs) (map (\<lambda>x. render_at x (Suc l)) xs)"
      using JList by (auto simp: list_all2_map1 list_all2_map2 list_all_iff list_all2_same)
    from text_of_list [OF this nl_ws(1) nl_ws(1) nl_ws(2) _ nl_ws(1)] False show ?thesis
      by (simp add: comp_def)
  qed (simp add: text_of_empty)
next
  case (JObj d)
  let ?d = "sort_key fst d"
  show ?case
  proof (cases "d = []")
    case False
    have d: "text_of (sorted_keys (snd kv)) (render_at (snd kv) (Suc l))" if "kv \<in> set d" for kv
    proof -
      have "json_ok (snd kv)" using JObj.prems that by (auto simp: json_ok_dict)
      with JObj.IH [OF that, of "snd kv" "Suc l"] show ?thesis by (simp add: snds.simps)
    qed
    have "list_all2 member_text (map (map_prod id sorted_keys) ?d)
        (map (\<lambda>kv. quote_str (fst kv) @ '': '' @ render_at (snd kv) (Suc l)) ?d)"
      using d by (auto simp: list_all2_map1 list_all2_map2 member_text_def list_all2_same)
    moreover have "distinct (map fst (map (map_prod id sorted_keys) ?d))"
      using JObj.prems by (simp add: json_ok_dict comp_def distinct_map inj_on_def)
    moreover have "?d \<noteq> []" using False by (metis length_0_conv length_sort)
    ultimately show ?thesis
      using text_of_dict [OF _ nl_ws(1) nl_ws(1) nl_ws(2) _ _ nl_ws(1)] False by (simp add: sort_key_map comp_def)
  qed (simp add: text_of_empty)
qed (simp_all add: text_of_word word_int word_float text_of_string)

text \<open>
  C20. What \<open>json.dumps(v, indent=2, sort_keys=True)\<close> writes, \<open>json.loads\<close> reads back as the same value
  with the keys of its dictionaries in order, whatever the strings hold and however the value nests.
\<close>

theorem json_roundtrip:
  assumes "json_ok j"
  shows "json_loads (render_json j) = Some (sorted_keys j)"
proof -
  have "value_at (Suc (length (render_at j 0))) (render_at j 0) = Some (sorted_keys j, [])"
    using text_of_read [OF text_of_render [OF assms, of 0], of "Suc (length (render_at j 0))" "[]" "[]"] by simp
  then show ?thesis by (simp add: json_loads_def render_json_def)
qed

theorem json_roundtrip_witness:
  "json_loads (render_json (JObj [(''b'', JList [JInt (-12), JReal ''1.5e-3'', JObj []]), (''a'', JStr [CHR 0x22])])) =
     Some (JObj [(''a'', JStr [CHR 0x22]), (''b'', JList [JInt (-12), JReal ''1.5e-3'', JObj []])])"
proof -
  have "float_ok ''1.5e-3''"
    by (simp add: float_ok_def number_def int_part_def fraction_def exponent_def sign_def is_digit_def)
  then have "json_ok (JObj [(''b'', JList [JInt (-12), JReal ''1.5e-3'', JObj []]), (''a'', JStr [CHR 0x22])])"
    by (simp add: json_ok_dict)
  from json_roundtrip [OF this] show ?thesis by (simp add: less_eq_char_def)
qed

end
