(* ===== verification/Generator_Facts.thy ===== *)
theory Generator_Facts
  imports Generator Json_Text_Facts
begin

text \<open>
  What writing a profile or a group leaves on disk: the file reads back as the generated data, other
  files are untouched, and writing again changes nothing. The selector and the metadata of a group
  are followed into the file.
\<close>

section \<open>Sorted keys\<close>

lemma map_of_insort: "map_of (insort_key fst p xs) = (map_of xs)(fst p \<mapsto> snd p)"
  by (induction xs) (auto simp: fun_eq_iff)

lemma map_of_sort: "map_of (sort_key fst xs) = map_of xs"
  by (induction xs) (auto simp: map_of_insort fun_eq_iff)

lemma map_of_prod: "map_of (map (map_prod id f) d) k = map_option f (map_of d k)"
  by (induction d) auto

lemma sorted_keys_idem: "sorted_keys (sorted_keys j) = sorted_keys j"
proof (induction j)
  case (JObj d)
  have "map (map_prod id sorted_keys) (map (map_prod id sorted_keys) d) = map (map_prod id sorted_keys) d"
    using JObj.IH by (auto simp: snds.simps)
  then have *: "map (map_prod id sorted_keys) (sort_key fst (map (map_prod id sorted_keys) d)) =
      sort_key fst (map (map_prod id sorted_keys) d)"
    by (simp add: sort_key_map comp_def)
  show ?case by (simp add: * sorted_sort_id [symmetric] sort_key_id_if_sorted)
qed (simp_all add: comp_def)

lemma differ_ok_json_differ: "differ_ok json_differ"
proof -
  have obj: "\<exists>e. v = JObj e \<and> (\<forall>k. rel_option (\<lambda>x y. sorted_keys x = sorted_keys y) (map_of d k) (map_of e k))"
    if eq: "sorted_keys (JObj d) = sorted_keys v" for d v
  proof -
    obtain e where v: "v = JObj e" using eq by (cases v) auto
    then have "map_of (sort_key fst (map (map_prod id sorted_keys) d)) = map_of (sort_key fst (map (map_prod id sorted_keys) e))"
      using eq by simp
    then have *: "map_option sorted_keys (map_of d k) = map_option sorted_keys (map_of e k)" for k
      unfolding map_of_sort map_of_prod [symmetric] by simp
    have "rel_option (\<lambda>x y. sorted_keys x = sorted_keys y) (map_of d k) (map_of e k)" for k
      using * [of k] by (cases "map_of d k"; cases "map_of e k"; simp)
    with v show ?thesis by blast
  qed
  moreover have "v = JStr s" if "sorted_keys (JStr s) = sorted_keys v" for s v
    using that by (cases v) auto
  ultimately show ?thesis unfolding differ_ok_def json_differ_def not_not sorted_keys_idem by blast
qed

lemma differ_object:
  assumes "differ_ok D" "\<not> D (JObj d) v"
  obtains e where "v = JObj e" "\<And>k. rel_option (\<lambda>x y. \<not> D x y) (map_of d k) (map_of e k)"
  using assms unfolding differ_ok_def by blast

lemma differ_string: "differ_ok D \<Longrightarrow> \<not> D (JStr s) v \<Longrightarrow> v = JStr s"
  unfolding differ_ok_def by blast

lemma differ_field:
  assumes "differ_ok D" "\<And>k. rel_option (\<lambda>x y. \<not> D x y) (map_of d k) (map_of e k)" "map_of d k = Some x"
  obtains y where "map_of e k = Some y" "\<not> D x y"
  using assms(2) [of k] assms(3) by (cases "map_of e k") auto

section \<open>One dump\<close>

lemma dump_cases:
  assumes "dump D path data generate f = (ok b, f')"
  obtains p t where "target_file path data = ok p" "generate f = ok t"
    and "if D (JObj t) (on_disk f p) then b \<and> write_file f p (render_json (JObj t)) = ok f' else \<not> b \<and> f' = f"
  using assms unfolding dump_def by (auto split: sum.splits if_splits)

lemma on_disk_written:
  assumes "json_ok j" "write_file f p (render_json j) = ok f'"
  shows "on_disk f' p = sorted_keys j"
  by (simp add: on_disk_def read_written [OF assms(2)] json_roundtrip [OF assms(1)])

text \<open>
  C19. A dump that succeeds leaves a file that reads back as data without difference from the
  generated one, touches no other file, says whether it wrote, and is stable: dumping again writes
  nothing.
\<close>

theorem dump_converges:
  assumes D: "differ_ok D" and t: "json_ok (JObj t)" and p: "target_file path data = ok p"
    and run: "dump D path data generate f = (ok b, f')" and gen: "generate f = ok t" "generate f' = ok t"
  shows "\<not> D (JObj t) (on_disk f' p) \<and> dump D path data generate f' = (ok False, f') \<and>
    (\<forall>q. q \<noteq> p \<longrightarrow> read_file f' q = read_file f q) \<and> (b \<longleftrightarrow> f' \<noteq> f)"
proof -
  from run have r: "if D (JObj t) (on_disk f p) then b \<and> write_file f p (render_json (JObj t)) = ok f' else \<not> b \<and> f' = f"
    using p gen(1) by (cases rule: dump_cases) auto
  have *: "\<not> D (JObj t) (on_disk f' p)"
  proof (cases "D (JObj t) (on_disk f p)")
    case True
    with r have w: "write_file f p (render_json (JObj t)) = ok f'" by simp
    have "on_disk f' p = sorted_keys (JObj t)" by (rule on_disk_written [OF t w])
    with D t show ?thesis unfolding differ_ok_def by metis
  next
    case False
    with r show ?thesis by simp
  qed
  moreover have "dump D path data generate f' = (ok False, f')" using * p gen(2) by (simp add: dump_def)
  moreover have "\<forall>q. q \<noteq> p \<longrightarrow> read_file f' q = read_file f q"
    using r read_other by (auto split: if_splits)
  moreover have "b \<longleftrightarrow> f' \<noteq> f" using r * by (auto split: if_splits)
  ultimately show ?thesis by blast
qed

definition sample_fs :: fs where
  "sample_fs = \<lparr>f_dirs = [''/m'', ''/m/ignition'', ''/m/profiles'', ''/m/groups''],
     f_files = [(''/m/ignition/k8s-node.yaml'', ''x'')]\<rparr>"

theorem dump_converges_witness:
  "\<exists>f'. dump json_differ ''/m/groups'' [(''id'', JStr ''a'')] (\<lambda>_. ok [(''id'', JStr ''a'')]) sample_fs = (ok True, f') \<and>
     dump json_differ ''/m/groups'' [(''id'', JStr ''a'')] (\<lambda>_. ok [(''id'', JStr ''a'')]) f' = (ok False, f')"
proof -
  have p: "target_file ''/m/groups'' [(''id'', JStr ''a'')] = ok ''/m/groups/a.json''" by (simp add: target_file_def)
  obtain f' where f': "dump json_differ ''/m/groups'' [(''id'', JStr ''a'')] (\<lambda>_. ok [(''id'', JStr ''a'')]) sample_fs = (ok True, f')"
    by (simp add: dump_def p on_disk_def read_file_def sample_fs_def json_differ_def write_file_def is_dir_def dirname_def)
  have "dict_ok [(''id'', JStr ''a'')]" by (simp add: json_ok_dict)
  from dump_converges [OF differ_ok_json_differ this p f'] f' show ?thesis by simp
qed

lemma dump_frame:
  assumes "dump D path data generate f = (r, f')"
  shows "f_dirs f' = f_dirs f"
    and "target_file path data = ok p \<Longrightarrow> q \<noteq> p \<Longrightarrow> read_file f' q = read_file f q"
    and "is_file f q \<Longrightarrow> is_file f' q"
  using assms write_file_dirs read_other write_file_is_file
  unfolding dump_def by (auto split: sum.splits if_splits)

section \<open>Dictionaries that print faithfully\<close>

lemma set_dict_set: "set (dict_set d k v) \<subseteq> insert (k, v) (set d)"
  by (induction d) (auto split: if_splits)

lemma dict_ok_set: "dict_ok d \<Longrightarrow> json_ok v \<Longrightarrow> dict_ok (dict_set d k v)"
  unfolding json_ok_dict using set_dict_set [of d k v] distinct_dict_set by (auto 0 3)

lemma dict_ok_update: "dict_ok d \<Longrightarrow> \<forall>kv\<in>set e. json_ok (snd kv) \<Longrightarrow> dict_ok (dict_update d e)"
  unfolding dict_update_def by (induction e arbitrary: d) (auto simp: dict_ok_set)

lemma json_ok_at: "dict_ok d \<Longrightarrow> map_of d k = Some v \<Longrightarrow> json_ok v"
  unfolding json_ok_dict by (metis map_of_SomeD snd_conv)

lemma json_ok_strs [simp]: "json_ok (strs ws)"
  by (auto simp: strs_def)

section \<open>The data of a group\<close>

lemma ssh_authorized_keys_ok: "ssh_authorized_keys f d = ok v \<Longrightarrow> json_ok v"
  by (auto simp: ssh_authorized_keys_def bindE_eq_Inr split: if_splits)

lemma selector_of_ok: "selector_of sel = ok sel' \<Longrightarrow> dict_ok sel \<Longrightarrow> dict_ok sel'"
  by (auto simp: selector_of_def dict_ok_set split: option.splits json.splits if_splits)

lemma selector_of_mac:
  "selector_of sel = ok sel' \<Longrightarrow> map_of sel ''mac'' = Some v \<Longrightarrow>
     \<exists>m. v = JStr m \<and> re_match selector_mac_rx (to_lower m) \<and> sel' = dict_set sel ''mac'' (JStr (to_lower m))"
  by (auto simp: selector_of_def split: json.splits if_splits)

lemma GenerateProfile_fields:
  assumes "GenerateProfile f uri prof name ign mp redirect = ok P"
  shows "target_file (pr_path P) (pr_data P) = ok (mp @ ''/profiles'' @ ''/'' @ prof @ ''.json'')"
  using assms by (auto simp: GenerateProfile_def bindE_eq_Inr target_file_def ensure_directory_def split: if_splits)

lemma GenerateGroup_fields:
  assumes "GenerateGroup f uri gid name prof mp sel md = ok G"
  shows "gr_path G = mp @ ''/groups''" "gr_keys_dir G = mp @ ''/ssh_authorized_keys''"
    "gr_selector G = (if sel = [] then None else Some sel)" "gr_metadata G = md" "gr_api_uri G = uri"
    "gr_data G = [(''id'', JStr gid), (''name'', JStr name), (''profile'', JStr prof), (''metadata'', JObj [(''api_uri'', JStr '''')])]"
  using assms by (auto simp: GenerateGroup_def bindE_eq_Inr ensure_directory_def split: if_splits)

lemma group_generate_run:
  assumes G: "GenerateGroup f0 uri gid name prof mp sel md = ok G" and g: "group_generate G f = ok t"
    and ok: "dict_ok sel" "dict_ok md" and sel: "sel \<noteq> []"
  obtains sel' mdj where "dict_ok t" "map_of t ''id'' = Some (JStr gid)" "map_of t ''name'' = Some (JStr name)"
    "map_of t ''profile'' = Some (JStr prof)" "selector_of sel = ok sel'" "map_of t ''selector'' = Some (JObj sel')"
    "map_of t ''metadata'' = Some (JObj mdj)" "\<And>k v. k \<noteq> ''selector'' \<Longrightarrow> map_of md k = Some v \<Longrightarrow> map_of mdj k = Some v"
proof -
  note F = GenerateGroup_fields [OF G]
  obtain keys sel' where keys: "ssh_authorized_keys f (mp @ ''/ssh_authorized_keys'') = ok keys" and s: "selector_of sel = ok sel'"
    using g sel by (auto simp: group_generate_def group_metadata_def group_selector_def F bindE_eq_Inr Let_def)
  define m where "m = dict_update (dict_set (dict_set [(''api_uri'', JStr '''')] ''api_uri'' (JStr uri)) ''ssh_authorized_keys'' keys) md"
  have m: "dict_ok m" "\<And>k v. map_of md k = Some v \<Longrightarrow> map_of m k = Some v"
  proof -
    have "dict_ok [(''api_uri'', JStr '''')]" by (simp add: json_ok_dict)
    then show "dict_ok m" unfolding m_def
      using ok(2) ssh_authorized_keys_ok [OF keys] by (intro dict_ok_update dict_ok_set) (auto simp: json_ok_dict)
    have "distinct (map fst md)" using ok(2) by (simp add: json_ok_dict)
    then show "\<And>k v. map_of md k = Some v \<Longrightarrow> map_of m k = Some v"
      unfolding m_def by (simp add: map_of_dict_update)
  qed
  have t: "t = [(''id'', JStr gid), (''name'', JStr name), (''profile'', JStr prof),
      (''metadata'', JObj (dict_set m ''selector'' (JObj sel'))), (''selector'', JObj sel')]"
    using g sel keys s by (auto simp: group_generate_def group_metadata_def group_selector_def F bindE_eq_Inr Let_def
        metadata_of_def m_def)
  have s': "json_ok (JObj sel')" using selector_of_ok [OF s ok(1)] .
  have "dict_ok (dict_set m ''selector'' (JObj sel'))" by (rule dict_ok_set [OF m(1) s'])
  with s' have "dict_ok t" unfolding t by (subst json_ok_dict) simp
  moreover have "map_of (dict_set m ''selector'' (JObj sel')) k = Some v" if "k \<noteq> ''selector''" "map_of md k = Some v" for k v
    using that m(2) by simp
  ultimately show thesis using s t by (intro that [of sel' "dict_set m ''selector'' (JObj sel')"]) simp_all
qed

section \<open>The group of a machine\<close>

text \<open>What a file says of a machine: its identity, its profile, its selector and the strings of its metadata.\<close>

definition group_file :: "string \<Rightarrow> string \<Rightarrow> string" where
  "group_file mp gid = mp @ ''/groups'' @ ''/'' @ gid @ ''.json''"

definition group_on_disk :: "fs \<Rightarrow> string \<Rightarrow> string \<Rightarrow> string \<Rightarrow> dict \<Rightarrow> string \<Rightarrow> bool" where
  "group_on_disk f mp gid prof md mac \<longleftrightarrow>
     (\<exists>g e mdj. on_disk f (group_file mp gid) = JObj g \<and> map_of g ''id'' = Some (JStr gid) \<and>
        map_of g ''profile'' = Some (JStr prof) \<and> map_of g ''selector'' = Some (JObj e) \<and>
        map_of e ''mac'' = Some (JStr (to_lower mac)) \<and> re_match selector_mac_rx (to_lower mac) \<and>
        map_of g ''metadata'' = Some (JObj mdj) \<and>
        (\<forall>k w. k \<noteq> ''selector'' \<and> map_of md k = Some (JStr w) \<longrightarrow> map_of mdj k = Some (JStr w)))"

lemma Generator_parts:
  assumes "Generator f uri prof name ign mp sel (Some (c # cs)) md redirect = ok N"
  obtains "GenerateProfile f uri prof name ign mp redirect = ok (profile N)"
    "GenerateGroup f uri (c # cs) name prof mp sel md = ok (group N)"
  using assms by (auto simp: Generator_def bindE_eq_Inr)

lemma group_written:
  assumes D: "differ_ok D" and N: "Generator f0 uri prof name ign mp sel (Some (c # cs)) md redirect = ok N"
    and run: "generator_dumps D ec N f = (ok (), f')"
    and ok: "dict_ok sel" "dict_ok md" and mac: "map_of sel ''mac'' = Some v"
  shows "\<exists>w. v = JStr w \<and> group_on_disk f' mp (c # cs) prof md w"
proof -
  let ?gid = "c # cs"
  obtain G: "GenerateGroup f0 uri ?gid name prof mp sel md = ok (group N)" by (rule Generator_parts [OF N])
  note F = GenerateGroup_fields [OF G]
  obtain f1 b where d: "dump D (mp @ ''/groups'') (gr_data (group N)) (group_generate (group N)) f1 = (ok b, f')"
    using run F(1) by (auto simp: generator_dumps_def act_simps split: prod.splits sum.splits)
  then obtain p t where p: "target_file (mp @ ''/groups'') (gr_data (group N)) = ok p" and t: "group_generate (group N) f1 = ok t"
    and c: "if D (JObj t) (on_disk f1 p) then b \<and> write_file f1 p (render_json (JObj t)) = ok f' else \<not> b \<and> f' = f1"
    by (rule dump_cases)
  have sel: "sel \<noteq> []" using mac by auto
  obtain sel' mdj where tt: "dict_ok t" "map_of t ''id'' = Some (JStr ?gid)" "map_of t ''name'' = Some (JStr name)"
    "map_of t ''profile'' = Some (JStr prof)" "selector_of sel = ok sel'" "map_of t ''selector'' = Some (JObj sel')"
    "map_of t ''metadata'' = Some (JObj mdj)" "\<And>k v. k \<noteq> ''selector'' \<Longrightarrow> map_of md k = Some v \<Longrightarrow> map_of mdj k = Some v"
    by (rule group_generate_run [OF G t ok sel]) blast
  have pp: "p = group_file mp ?gid" using p by (simp add: F target_file_def group_file_def)
  have nd: "\<not> D (JObj t) (on_disk f' p)"
  proof (cases "D (JObj t) (on_disk f1 p)")
    case True
    with c have w: "write_file f1 p (render_json (JObj t)) = ok f'" by simp
    have "on_disk f' p = sorted_keys (JObj t)" by (rule on_disk_written [OF tt(1) w])
    with D tt(1) show ?thesis unfolding differ_ok_def by metis
  next
    case False
    with c show ?thesis by simp
  qed
  obtain g where g: "on_disk f' p = JObj g" "\<And>k. rel_option (\<lambda>x y. \<not> D x y) (map_of t k) (map_of g k)"
    by (rule differ_object [OF D nd]) blast
  note at = differ_field [OF D g(2)]
  note str = differ_string [OF D]
  have "map_of g ''id'' = Some (JStr ?gid)" "map_of g ''profile'' = Some (JStr prof)"
    using at [OF tt(2)] at [OF tt(4)] str by metis+
  moreover obtain e where e: "map_of g ''selector'' = Some (JObj e)" "\<And>k. rel_option (\<lambda>x y. \<not> D x y) (map_of sel' k) (map_of e k)"
    using at [OF tt(6)] differ_object [OF D] by metis
  moreover obtain mg where mg: "map_of g ''metadata'' = Some (JObj mg)" "\<And>k. rel_option (\<lambda>x y. \<not> D x y) (map_of mdj k) (map_of mg k)"
    using at [OF tt(7)] differ_object [OF D] by metis
  moreover obtain w where w: "v = JStr w" "re_match selector_mac_rx (to_lower w)" "map_of sel' ''mac'' = Some (JStr (to_lower w))"
    using selector_of_mac [OF tt(5) mac] by auto
  moreover have "map_of e ''mac'' = Some (JStr (to_lower w))"
    using differ_field [OF D e(2) w(3)] str by metis
  moreover have "map_of mg k = Some (JStr x)" if "k \<noteq> ''selector''" "map_of md k = Some (JStr x)" for k x
    using differ_field [OF D mg(2) tt(8) [OF that]] str by metis
  ultimately show ?thesis using g(1) unfolding pp group_on_disk_def by blast
qed

lemma generator_frame:
  assumes N: "Generator f0 uri prof name ign mp sel (Some (c # cs)) md redirect = ok N"
    and run: "generator_dumps D ec N f = (r, f')"
  shows "q \<noteq> group_file mp (c # cs) \<Longrightarrow> q \<noteq> mp @ ''/profiles'' @ ''/'' @ prof @ ''.json'' \<Longrightarrow> read_file f' q = read_file f q"
    and "f_dirs f' = f_dirs f"
proof -
  obtain P: "GenerateProfile f0 uri prof name ign mp redirect = ok (profile N)"
    and G: "GenerateGroup f0 uri (c # cs) name prof mp sel md = ok (group N)" by (rule Generator_parts [OF N])
  have pp: "target_file (pr_path (profile N)) (pr_data (profile N)) = ok (mp @ ''/profiles'' @ ''/'' @ prof @ ''.json'')"
    by (rule GenerateProfile_fields [OF P])
  have pg: "target_file (gr_path (group N)) (gr_data (group N)) = ok (group_file mp (c # cs))"
    by (simp add: GenerateGroup_fields [OF G] target_file_def group_file_def)
  obtain r1 f1 where 1: "dump D (pr_path (profile N)) (pr_data (profile N)) (\<lambda>_. profile_generate ec (profile N)) f = (r1, f1)"
    by fastforce
  obtain r2 f2 where 2: "dump D (gr_path (group N)) (gr_data (group N)) (group_generate (group N)) f1 = (r2, f2)"
    by fastforce
  have f': "f' = f1 \<or> f' = f2"
    using run 1 2 by (auto simp: generator_dumps_def act_simps split: sum.splits)
  note d1 = dump_frame [OF 1]
  note d2 = dump_frame [OF 2]
  show "q \<noteq> group_file mp (c # cs) \<Longrightarrow> q \<noteq> mp @ ''/profiles'' @ ''/'' @ prof @ ''.json'' \<Longrightarrow> read_file f' q = read_file f q"
    using f' d1(2) [OF pp, of q] d2(2) [OF pg, of q] by auto
  show "f_dirs f' = f_dirs f" using f' d1(1) d2(1) by auto
qed

end
