(* ===== verification/Sync_Run.thy ===== *)
theory Sync_Run
  imports Sync Generator_Facts
begin

text \<open>
  What a run of the synchronisation leaves in matchbox's files, against any host whose files change
  only when they are written (locale \<open>file_host\<close>). \<open>yields\<close> states what the result of an action
  satisfies, \<open>kept\<close> what an action preserves; both are proved by rules that follow the structure of
  the action. The locale \<open>sync_reads\<close> proves the second for any predicate the reads of the API keep and
  gives \<open>file_host\<close> its frame; \<open>sync_writes\<close> follows a predicate the files do not touch through a whole
  round, up to the notification.
\<close>

section \<open>Results of actions\<close>

definition yields :: "('a \<Rightarrow> bool) \<Rightarrow> ('s, 'a) act \<Rightarrow> bool" where
  "yields P m \<longleftrightarrow> (\<forall>s. case fst (m s) of Inl _ \<Rightarrow> True | Inr a \<Rightarrow> P a)"

named_theorems yields_intros \<open>what the result of an action satisfies\<close>

lemma yieldsD: "yields P m \<Longrightarrow> m s = (Inr a, s') \<Longrightarrow> P a"
  unfolding yields_def by (metis fst_conv sum.simps(6))

lemma yields_ret [yields_intros]: "P a \<Longrightarrow> yields P (ret a)"
  by (simp add: yields_def act_simps)

lemma yields_liftA [yields_intros]: "(\<And>a. r = Inr a \<Longrightarrow> P a) \<Longrightarrow> yields P (liftA r)"
  by (simp add: yields_def act_simps split: sum.split)

lemma yields_bindA:
  assumes "yields Q m" "\<And>a. Q a \<Longrightarrow> yields P (f a)"
  shows "yields P (bindA m f)"
  unfolding yields_def
proof
  fix s
  obtain r s' where m: "m s = (r, s')" by fastforce
  show "case fst (bindA m f s) of Inl _ \<Rightarrow> True | Inr a \<Rightarrow> P a"
  proof (cases r)
    case (Inr a)
    with m yieldsD [OF assms(1)] assms(2) [of a] show ?thesis by (simp add: act_simps yields_def)
  qed (simp add: m act_simps)
qed

lemma yields_bindA_any [yields_intros]: "(\<And>a. yields P (f a)) \<Longrightarrow> yields P (bindA m f)"
  by (rule yields_bindA [where Q = "\<lambda>_. True"]) (simp_all add: yields_def split: sum.split)

lemma yields_conj: "yields P m \<Longrightarrow> yields Q m \<Longrightarrow> yields (\<lambda>a. P a \<and> Q a) m"
  by (simp add: yields_def split: sum.splits)

lemma yields_dictA:
  "(\<And>kv. kv \<in> set kvs \<Longrightarrow> yields (P (fst kv)) (snd kv)) \<Longrightarrow>
   yields (\<lambda>d. map fst d = map fst kvs \<and> (\<forall>kv\<in>set d. P (fst kv) (snd kv))) (dictA kvs)"
proof (induction kvs)
  case (Cons kv kvs)
  have "yields (\<lambda>d. map fst d = map fst kvs \<and> (\<forall>kv\<in>set d. P (fst kv) (snd kv))) (dictA kvs)" using Cons by simp
  moreover have "yields (P (fst kv)) (snd kv)" using Cons.prems by simp
  ultimately show ?case
    unfolding dictA.simps by (elim yields_bindA) (auto intro!: yields_ret)
qed (simp add: yields_ret)

section \<open>Values that print faithfully\<close>

definition ec_ok :: "config \<Rightarrow> bool" where
  "ec_ok ec \<longleftrightarrow> (\<forall>kv\<in>set (attrs ec). json_ok (snd kv))"

lemma attr_ok: "ec_ok ec \<Longrightarrow> attr ec k = Inr v \<Longrightarrow> json_ok v"
  by (force simp: ec_ok_def attr_def split: option.splits dest: map_of_SomeD)

lemma jget_ok: "json_ok m \<Longrightarrow> jget m k = Inr v \<Longrightarrow> json_ok v"
  using json_ok_at by (auto simp: jget_Inr)

lemma jiter_ok: "json_ok v \<Longrightarrow> jiter v = Inr xs \<Longrightarrow> \<forall>x\<in>set xs. json_ok x"
  by (cases v) auto

lemma dict_get_ok: "dict_ok d \<Longrightarrow> dict_get d k = Inr v \<Longrightarrow> json_ok v"
  using json_ok_at by (auto split: option.splits)

lemma dns_attr_ok: "dict_ok (get_dns_attr fqdn)"
  unfolding get_dns_attr_def Let_def
  by (auto simp: json_ok_dict [of "[_, _, _, _, _]"] intro!: dict_ok_set split: list.split)

lemma cni_ipam_ok: "cni_ipam C c gw = Inr d \<Longrightarrow> json_ok gw \<Longrightarrow> dict_ok d"
proof -
  assume d: "cni_ipam C c gw = Inr d" and gw: "json_ok gw"
  from d obtain ip p where "ipv4_interface c = Inr (ip, p)" by (cases "ipv4_interface c") (auto simp: cni_ipam_def)
  with d obtain r where "pod_range C ip p = Inr r" by (cases "pod_range C ip p") (auto simp: cni_ipam_def split: if_splits)
  with d \<open>ipv4_interface c = Inr (ip, p)\<close> have "d = [(''type'', JStr ''host-local''), (''subnet'', JStr (show_network ip p)),
      (''rangeStart'', JStr (show_ip (fst r))), (''rangeEnd'', JStr (show_ip (snd r))), (''gateway'', gw),
      (''routes'', JList [JObj [(''dst'', JStr (perennial_ip C @ ''/32'')), (''gw'', JStr (show_ip ip))],
        JObj [(''dst'', JStr ''0.0.0.0/0'')]]),
      (''dataDir'', JStr ''/var/lib/cni/networks'')]"
    by (cases r) (auto simp: cni_ipam_def split: if_splits)
  with gw show "dict_ok d" by (simp add: json_ok_dict)
qed

lemma yields_ec [yields_intros]: "ec_ok ec \<Longrightarrow> yields json_ok (ec_value ec k)"
  unfolding ec_value_def by (intro yields_liftA) (rule attr_ok)

lemma yields_field [yields_intros]: "json_ok m \<Longrightarrow> yields json_ok (field m k)"
  unfolding field_def by (intro yields_liftA) (rule jget_ok)

lemma yields_strings [yields_intros]:
  "yields json_ok (initial_cluster H ec Y p)" "yields json_ok (member_uri_list H ec Y p)" "yields json_ok (member_url ec m p)"
  "yields json_ok (joined sep l)"
  by (simp_all add: initial_cluster_def member_uri_list_def member_url_def joined_def yields_intros)

lemma yields_etcd: "ec_ok ec \<Longrightarrow> json_ok m \<Longrightarrow> kv \<in> set (etcd_metadata H ec Y m) \<Longrightarrow> yields json_ok (snd kv)"
  by (auto simp: etcd_metadata_def intro: yields_intros)

lemma yields_kubernetes:
  "ec_ok ec \<Longrightarrow> json_ok m \<Longrightarrow> kv \<in> set (kubernetes_metadata H ec Y m fqdn name) \<Longrightarrow> yields json_ok (snd kv)"
  by (auto simp: kubernetes_metadata_def intro!: yields_intros)

lemma yields_network:
  assumes "ec_ok ec" "json_ok m" "dict_ok cni"
  shows "yields json_ok (network_metadata ec m fqdn cni)"
  unfolding network_metadata_def
  using assms
  by (intro yields_bindA [OF yields_dictA [where P = "\<lambda>_. json_ok"]] yields_ret)
    (auto simp: json_ok_dict [of "_ # _"] intro!: yields_intros intro: dict_get_ok [of cni] simp del: dict_get.simps)

lemma yields_host:
  "ec_ok ec \<Longrightarrow> json_ok m \<Longrightarrow> dict_ok cni \<Longrightarrow> dict_ok dns \<Longrightarrow> kv \<in> set (host_metadata ec m fqdn dns cni) \<Longrightarrow>
     yields json_ok (snd kv)"
  by (auto simp: host_metadata_def bindE_eq_Inr disk_profile_of_def yields_network split: if_splits
      intro!: yields_intros intro: dict_get_ok [of dns] simp del: dict_get.simps)

section \<open>The metadata of a machine\<close>

definition metadata_entries :: "'s host \<Rightarrow> config \<Rightarrow> synchroniser \<Rightarrow> json \<Rightarrow> string \<Rightarrow> string \<Rightarrow> json list \<Rightarrow> dict \<Rightarrow> dict \<Rightarrow>
    (string \<times> ('s, json) act) list" where
  "metadata_entries H ec Y m fqdn name hosts dns cni =
     (''etc_hosts'', ret (JList hosts)) # etcd_metadata H ec Y m @ kubernetes_metadata H ec Y m fqdn name @ host_metadata ec m fqdn dns cni"

lemma metadata_keys: "distinct (map fst (metadata_entries H ec Y m fqdn name hosts dns cni))"
  by (simp add: metadata_entries_def etcd_metadata_def kubernetes_metadata_def host_metadata_def)

lemma metadata_address:
  "kv \<in> set (metadata_entries H ec Y m fqdn name hosts dns cni) \<Longrightarrow> fst kv = ''etcd_name'' \<Longrightarrow> snd kv = field m ''ipv4''"
  by (auto simp: metadata_entries_def etcd_metadata_def kubernetes_metadata_def host_metadata_def)

lemma metadata_has_address: "''etcd_name'' \<in> fst ` set (metadata_entries H ec Y m fqdn name hosts dns cni)"
  by (simp add: metadata_entries_def etcd_metadata_def)

lemma yields_entries:
  assumes "ec_ok ec" "json_ok m" "\<forall>x\<in>set hosts. json_ok x" "dict_ok cni" "dict_ok dns"
  shows "yields (\<lambda>d. dict_ok d \<and> (\<exists>v. map_of d ''etcd_name'' = Some v \<and> jget m ''ipv4'' = ok v))
    (dictA (metadata_entries H ec Y m fqdn name hosts dns cni))"
proof -
  let ?E = "metadata_entries H ec Y m fqdn name hosts dns cni"
  let ?P = "\<lambda>k v. json_ok v \<and> (k = ''etcd_name'' \<longrightarrow> jget m ''ipv4'' = ok v)"
  have "yields (?P (fst kv)) (snd kv)" if kv: "kv \<in> set ?E" for kv
  proof (rule yields_conj)
    show "yields json_ok (snd kv)"
    proof -
      from kv consider "kv = (''etc_hosts'', ret (JList hosts))" | "kv \<in> set (etcd_metadata H ec Y m)"
        | "kv \<in> set (kubernetes_metadata H ec Y m fqdn name)" | "kv \<in> set (host_metadata ec m fqdn dns cni)"
        by (auto simp: metadata_entries_def)
      then show ?thesis
      proof cases
        case 1
        with assms(3) show ?thesis by (simp add: yields_ret)
      next
        case 2
        then show ?thesis by (rule yields_etcd [OF assms(1,2)])
      next
        case 3
        then show ?thesis by (rule yields_kubernetes [OF assms(1,2)])
      next
        case 4
        then show ?thesis by (rule yields_host [OF assms(1,2,4,5)])
      qed
    qed
    show "yields (\<lambda>v. fst kv = ''etcd_name'' \<longrightarrow> jget m ''ipv4'' = ok v) (snd kv)"
      using metadata_address [OF kv] by (cases "fst kv = ''etcd_name''") (auto simp: field_def intro!: yields_liftA, simp add: yields_def split: sum.split)
  qed
  then have "yields (\<lambda>d. map fst d = map fst ?E \<and> (\<forall>kv\<in>set d. ?P (fst kv) (snd kv))) (dictA ?E)"
    by (rule yields_dictA)
  moreover have "dict_ok d \<and> (\<exists>v. map_of d ''etcd_name'' = Some v \<and> jget m ''ipv4'' = ok v)"
    if d: "map fst d = map fst ?E \<and> (\<forall>kv\<in>set d. ?P (fst kv) (snd kv))" for d
  proof -
    have "dict_ok d" using d metadata_keys by (auto simp: json_ok_dict)
    moreover obtain v where v: "map_of d ''etcd_name'' = Some v"
      using d metadata_has_address [of H ec Y m fqdn name hosts dns cni]
      by (metis list.set_map map_of_eq_None_iff not_Some_eq)
    then have "jget m ''ipv4'' = ok v" using d by (fastforce dest: map_of_SomeD)
    ultimately show ?thesis using v by blast
  qed
  ultimately show ?thesis by (auto simp: yields_def split: sum.splits)
qed

lemma yields_metadata:
  assumes "ec_ok ec" "json_ok m"
  shows "yields (\<lambda>d. dict_ok d \<and> (\<exists>v. map_of d ''etcd_name'' = Some v \<and> jget m ''ipv4'' = ok v)) (machine_metadata H ec Y m name)"
proof -
  have hosts: "yields (\<lambda>hosts. \<forall>x\<in>set hosts. json_ok x) (liftA (bindE (attr ec ''etc_hosts'') jiter))"
  proof (rule yields_liftA)
    fix a assume "bindE (attr ec ''etc_hosts'') jiter = Inr a"
    then obtain v where "attr ec ''etc_hosts'' = Inr v" "jiter v = Inr a" by (auto simp: bindE_eq_Inr)
    with attr_ok [OF assms(1)] jiter_ok show "\<forall>x\<in>set a. json_ok x" by blast
  qed
  have cni: "yields dict_ok (liftA (bindE (jget m ''cidrv4'') (\<lambda>cidr. bindE (jget m ''gateway'') (\<lambda>gw.
        bindE (cidr_text cidr) (\<lambda>c. bindE (sync_config_of ec) (\<lambda>C. cni_ipam C c gw))))))"
    using jget_ok [OF assms(2)] cni_ipam_ok by (auto simp: bindE_eq_Inr intro!: yields_liftA)
  show ?thesis
    unfolding machine_metadata_def Let_def
    by (rule yields_bindA_any, rule yields_bindA [OF hosts], rule yields_bindA_any, rule yields_bindA_any,
        rule yields_bindA [OF cni], rule yields_entries [OF assms, unfolded metadata_entries_def])
      (simp_all add: dns_attr_ok)
qed

section \<open>What actions keep\<close>

definition kept :: "('s \<Rightarrow> bool) \<Rightarrow> ('s, 'a) act \<Rightarrow> bool" where
  "kept P m \<longleftrightarrow> (\<forall>s. P s \<longrightarrow> P (snd (m s)))"

named_theorems kept_intros \<open>what an action keeps\<close>

lemma kept_run: "kept P m \<Longrightarrow> P s \<Longrightarrow> m s = (r, s') \<Longrightarrow> P s'"
  unfolding kept_def by (metis snd_conv)

lemma kept_basic [kept_intros]: "kept P (ret a)" "kept P (raiseA x)" "kept P (liftA r)"
  by (simp_all add: kept_def act_simps)

lemma kept_bindA [kept_intros]: "kept P m \<Longrightarrow> (\<And>a. kept P (f a)) \<Longrightarrow> kept P (bindA m f)"
  unfolding kept_def by (fastforce simp: act_simps split: prod.split sum.split)

lemma kept_dictA: "(\<And>kv. kv \<in> set kvs \<Longrightarrow> kept P (snd kv)) \<Longrightarrow> kept P (dictA kvs)"
  by (induction kvs) (auto intro!: kept_intros)

lemma kept_forA: "(\<And>x. kept P (f x)) \<Longrightarrow> kept P (forA f xs)"
  by (induction xs) (auto intro!: kept_intros)

text \<open>The URLs the synchronisation reads.\<close>

definition sync_url :: "string \<Rightarrow> bool" where
  "sync_url u \<longleftrightarrow> u \<in> {''/scheduler/'' @ join_with ''&'' cp_roles, ''/scheduler/'' @ join_with ''&'' node_roles,
     ''/scheduler/ip-list/'' @ etcd_member}"

locale sync_queries =
  fixes H :: "'s host" and Y :: synchroniser and P :: "'s \<Rightarrow> bool"
  assumes kept_query_roles: "roles \<in> {cp_roles, node_roles} \<Longrightarrow> kept P (query_roles H Y roles)"
    and kept_etcd_members: "kept P (etcd_member_ip_list H Y)"
begin

lemma kept_lists:
  "kept P (initial_cluster H ec Y p)" "kept P (member_uri_list H ec Y p)" "kept P (member_url ec m p)"
  unfolding initial_cluster_def member_uri_list_def member_url_def field_def
  by (intro kept_intros kept_etcd_members)+

lemma kept_entries: "kv \<in> set (metadata_entries H ec Y m fqdn name hosts dns cni) \<Longrightarrow> kept P (snd kv)"
  by (auto simp: metadata_entries_def etcd_metadata_def kubernetes_metadata_def host_metadata_def network_metadata_def
      field_def ec_value_def joined_def intro!: kept_intros kept_lists kept_etcd_members kept_dictA)

lemma kept_metadata: "kept P (machine_metadata H ec Y m name)"
  unfolding machine_metadata_def Let_def
  by (intro kept_intros kept_dictA) (fold metadata_entries_def, rule kept_entries)

lemma kept_update: "kept P (control_plane_update H ec Y n)"
  unfolding control_plane_update_def
  by (intro kept_dictA) (auto simp: ec_value_def intro!: kept_intros kept_lists)

end

text \<open>A predicate that no read of the API and no use of the query cache changes.\<close>

locale sync_reads =
  fixes H :: "'s host" and Y :: synchroniser and P :: "'s \<Rightarrow> bool"
  assumes get_kept: "sync_url u \<Longrightarrow> kept P (h_get H (sy_api_uri Y @ u))"
    and cache_kept: "P s \<Longrightarrow> P (h_cache H n k v s)"
begin

lemma kept_keep_query: "kept P (keep_query H Y k v)"
  by (simp add: kept_def keep_query_def cache_kept split: option.split)

lemma kept_query: "sync_url u \<Longrightarrow> kept P (query H Y f u)"
proof -
  assume "sync_url u"
  then have "kept P (bindA (h_get H (sy_api_uri Y @ u)) (\<lambda>r. bindA (liftA (load_reply r)) (\<lambda>j. bindA (liftA (f j)) (\<lambda>data.
      bindA (keep_query H Y u (JList data)) (\<lambda>_. ret data)))))"
    by (intro kept_intros get_kept kept_keep_query)
  then show ?thesis by (simp add: kept_def query_def split: option.split)
qed

lemma kept_queries: "roles \<in> {cp_roles, node_roles} \<Longrightarrow> kept P (query_roles H Y roles)" "kept P (etcd_member_ip_list H Y)"
  unfolding query_roles_def etcd_member_ip_list_def query_ip_list_def
  by (auto simp: sync_url_def intro!: kept_intros kept_query)

end

sublocale sync_reads \<subseteq> sync_queries
  by unfold_locales (rule kept_queries; assumption)+

text \<open>With the files out of sight of \<open>P\<close>, the rounds keep it up to the notification.\<close>

locale sync_writes = sync_queries +
  assumes set_kept: "P s \<Longrightarrow> P (h_set_fs H f s)"
begin

lemma kept_on_fs: "kept P (on_fs H m)"
  by (simp add: kept_def on_fs_def set_kept split: prod.split)

lemma kept_machine: "kept P upd \<Longrightarrow> kept P (sync_machine D H ec Y marker prefix upd im)"
  unfolding sync_machine_def produce_matchbox_data_def
  by (intro kept_intros kept_metadata kept_on_fs) assumption

lemma kept_machines:
  "kept P (sync_control_plane D H ec Y)" "kept P (kubernetes_nodes D H ec Y)"
  unfolding sync_control_plane_def kubernetes_nodes_def
  by (intro kept_intros kept_query_roles kept_forA kept_machine kept_update; simp)+

lemma round_cases:
  assumes "P s"
  obtains x t where "sync_round D H ec Y s = (Inl x, t)" "P t"
    | n t where "sync_round D H ec Y s = bindA (notify H Y) (\<lambda>_. ret n) t" "P t"
proof -
  obtain r1 s1 where 1: "sync_control_plane D H ec Y s = (r1, s1)" by fastforce
  note p1 = kept_run [OF kept_machines(1) assms 1]
  obtain r2 s2 where 2: "kubernetes_nodes D H ec Y s1 = (r2, s2)" by fastforce
  note p2 = kept_run [OF kept_machines(2) p1 2]
  show thesis
    using that 1 2 p1 p2 by (cases r1; cases r2) (auto simp: sync_round_def bindA_def)
qed

end

section \<open>Files along a run\<close>

locale file_host =
  fixes H :: "'s host"
  assumes get_fs: "h_fs H (snd (h_get H u s)) = h_fs H s"
    and post_fs: "h_fs H (snd (h_post H u b s)) = h_fs H s"
    and sleep_fs: "h_fs H (h_sleep H n s) = h_fs H s"
    and cache_fs: "h_fs H (h_cache H n k v s) = h_fs H s"
    and set_fs: "h_fs H (h_set_fs H f s) = f"
begin

definition quiet :: "('s, 'a) act \<Rightarrow> bool" where
  "quiet m \<longleftrightarrow> (\<forall>f. kept (\<lambda>s. h_fs H s = f) m)"

lemma quiet_run: "quiet m \<Longrightarrow> m s = (r, s') \<Longrightarrow> h_fs H s' = h_fs H s"
  unfolding quiet_def using kept_run [of "\<lambda>t. h_fs H t = h_fs H s" m s] by blast

end

sublocale file_host \<subseteq> frame: sync_reads H Y "\<lambda>s. h_fs H s = f" for Y f
  by unfold_locales (simp_all add: kept_def get_fs cache_fs)

context file_host
begin

lemma quiet_reads:
  "quiet (ret a)" "quiet (machine_metadata H ec Y m name)" "quiet (control_plane_update H ec Y n)"
  "roles \<in> {cp_roles, node_roles} \<Longrightarrow> quiet (query_roles H Y roles)"
  by (simp_all add: quiet_def kept_basic frame.kept_metadata frame.kept_update frame.kept_query_roles)

end

section \<open>One machine\<close>

text \<open>The group of a machine is on disk: its selector is the machine's mac, its metadata holds the address.\<close>

definition group_id :: "string \<Rightarrow> nat \<Rightarrow> string" where
  "group_id marker i = marker @ ''-'' @ show_nat i"

definition synced :: "fs \<Rightarrow> synchroniser \<Rightarrow> string \<Rightarrow> nat \<times> json \<Rightarrow> bool" where
  "synced f Y marker im \<longleftrightarrow>
     (\<exists>w ip. jget (snd im) ''mac'' = ok (JStr w) \<and> jget (snd im) ''ipv4'' = ok (JStr ip) \<and>
        group_on_disk f (sy_path Y) (group_id marker (fst im)) marker [(''etcd_name'', JStr ip)] w)"

definition extra_ok :: "synchroniser \<Rightarrow> bool" where
  "extra_ok Y \<longleftrightarrow> json_ok (sy_extra Y) \<and> (\<forall>d. sy_extra Y = JObj d \<longrightarrow> ''mac'' \<notin> fst ` set d)"

lemma liftA_Inr: "liftA r s = (Inr a, s') \<longleftrightarrow> r = Inr a \<and> s' = s"
  by (auto simp: act_simps)

lemma dict_update_other:
  assumes "dict_ok e" "k \<notin> fst ` set e"
  shows "map_of (dict_update d e) k = map_of d k"
proof -
  have "map_of e k = None" using assms(2) by (simp add: map_of_eq_None_iff)
  with assms(1) show ?thesis by (simp add: json_ok_dict map_of_dict_update map_add_def)
qed

lemma selector_for_ok:
  assumes "extra_ok Y" "json_ok m" "selector_for Y m = Inr sel"
  obtains v where "jget m ''mac'' = Inr v" "dict_ok sel" "map_of sel ''mac'' = Some v"
proof -
  obtain v extra where v: "jget m ''mac'' = Inr v" "get_extra_selectors (sy_extra Y) = Inr extra"
    and sel: "sel = dict_update [(''mac'', v)] extra"
    using assms(3) by (auto simp: selector_for_def bindE_eq_Inr)
  have e: "dict_ok extra" "''mac'' \<notin> fst ` set extra"
    using v(2) assms(1) by (cases "sy_extra Y"; auto simp: extra_ok_def json_ok_dict split: if_splits)+
  have "dict_ok [(''mac'', v)]" using jget_ok [OF assms(2) v(1)] by (simp add: json_ok_dict)
  then have "dict_ok sel" unfolding sel using e(1) by (intro dict_ok_update) (auto simp: json_ok_dict)
  moreover have "map_of sel ''mac'' = Some v"
    using e by (simp add: sel dict_update_other)
  ultimately show thesis using v(1) that by blast
qed

lemma group_on_disk_cong:
  "read_file f (group_file mp gid) = read_file g (group_file mp gid) \<Longrightarrow>
   group_on_disk f mp gid prof md mac \<longleftrightarrow> group_on_disk g mp gid prof md mac"
  by (simp add: group_on_disk_def on_disk_def)

lemma group_on_disk_mono:
  "group_on_disk f mp gid prof md mac \<Longrightarrow> (\<And>k w. map_of md' k = Some (JStr w) \<Longrightarrow> map_of md k = Some (JStr w)) \<Longrightarrow>
   group_on_disk f mp gid prof md' mac"
  unfolding group_on_disk_def by (elim exE conjE, intro exI conjI allI impI) auto

text \<open>The files one machine of a kind may touch.\<close>

definition own_files :: "synchroniser \<Rightarrow> string \<Rightarrow> nat \<Rightarrow> string set" where
  "own_files Y marker i = {group_file (sy_path Y) (group_id marker i), sy_path Y @ ''/profiles'' @ ''/'' @ marker @ ''.json''}"

definition update_ok :: "dict \<Rightarrow> bool" where
  "update_ok d \<longleftrightarrow> dict_ok d \<and> ''etcd_name'' \<notin> fst ` set d"

context file_host
begin

lemma produce_run:
  assumes D: "differ_ok D" and ec: "ec_ok ec" "json_ok m" "extra_ok Y" "update_ok upd" and mk: "marker = c # cs"
    and run: "produce_matchbox_data D H ec Y marker i m name upd s = (Inr (), s')"
    and ip: "jget m ''ipv4'' = Inr (JStr ip)"
  shows "synced (h_fs H s') Y marker (i, m)"
proof -
  obtain md s1 sel ign where md: "machine_metadata H ec Y m name s = (Inr md, s1)"
    and sel: "selector_for Y m = Inr sel" and ign: "dict_get (sy_ignition Y) marker = Inr ign"
    and w: "on_fs H (\<lambda>f. bindA (liftA (Generator f (sy_api_uri Y) marker marker (py_str ign @ ''.yaml'') (sy_path Y) sel
      (Some (marker @ ''-'' @ show_nat i)) (dict_update md upd) False)) (generator_dumps D ec) f) s1 = (Inr (), s')"
    using run by (auto simp: produce_matchbox_data_def bindA_Inr liftA_Inr simp del: dict_get.simps)
  obtain N f' where N: "Generator (h_fs H s1) (sy_api_uri Y) marker marker (py_str ign @ ''.yaml'') (sy_path Y) sel
      (Some (marker @ ''-'' @ show_nat i)) (dict_update md upd) False = Inr N"
    and d: "generator_dumps D ec N (h_fs H s1) = (Inr (), f')" and s': "s' = h_set_fs H f' s1"
    using w by (auto simp: on_fs_def bindA_Inr liftA_Inr split: prod.splits)
  obtain v where v: "jget m ''mac'' = Inr v" "dict_ok sel" "map_of sel ''mac'' = Some v"
    by (rule selector_for_ok [OF ec(3,2) sel])
  have mdo: "dict_ok md" "map_of md ''etcd_name'' = Some (JStr ip)"
    using yieldsD [OF yields_metadata [OF ec(1,2)] md] ip by auto
  have u: "dict_ok (dict_update md upd)" using mdo(1) ec(4) by (intro dict_ok_update) (auto simp: update_ok_def json_ok_dict)
  have e: "map_of (dict_update md upd) ''etcd_name'' = Some (JStr ip)"
    using mdo ec(4) by (simp add: update_ok_def dict_update_other)
  have gid: "marker @ ''-'' @ show_nat i = c # cs @ ''-'' @ show_nat i" by (simp add: mk)
  from group_written [OF D N [unfolded gid] d v(2) u v(3)] obtain x where x: "v = JStr x"
      "group_on_disk f' (sy_path Y) (c # cs @ ''-'' @ show_nat i) marker (dict_update md upd) x" by auto
  have "group_on_disk f' (sy_path Y) (group_id marker i) marker [(''etcd_name'', JStr ip)] x"
    unfolding group_id_def gid by (rule group_on_disk_mono [OF x(2)]) (use e in \<open>auto split: if_splits\<close>)
  with x(1) v(1) ip show ?thesis by (auto simp: synced_def s' set_fs)
qed

lemma produce_frame:
  assumes mk: "marker = c # cs" and run: "produce_matchbox_data D H ec Y marker i m name upd s = (r, s')"
    and q: "q \<notin> own_files Y marker i"
  shows "read_file (h_fs H s') q = read_file (h_fs H s) q"
proof -
  obtain r1 s1 where md: "machine_metadata H ec Y m name s = (r1, s1)" by fastforce
  have f1: "h_fs H s1 = h_fs H s" by (rule quiet_run [OF quiet_reads(2) md])
  have gid: "marker @ ''-'' @ show_nat i = c # cs @ ''-'' @ show_nat i" by (simp add: mk)
  have q': "q \<noteq> group_file (sy_path Y) (c # cs @ ''-'' @ show_nat i)" "q \<noteq> sy_path Y @ ''/profiles'' @ ''/'' @ marker @ ''.json''"
    using q by (auto simp: own_files_def group_id_def mk)
  have gf: "read_file f' q = read_file f q"
    if "Generator f0 uri marker marker ign (sy_path Y) sel (Some (marker @ ''-'' @ show_nat i)) md False = Inr N"
      "generator_dumps D ec N f = (r2, f')" for f0 uri ign sel md N f r2 f'
    by (rule generator_frame(1) [OF that(1) [unfolded gid] that(2) q'])
  show ?thesis
    using run md f1 set_fs
    by (auto simp: produce_matchbox_data_def on_fs_def act_simps simp del: dict_get.simps append.simps
        split: prod.splits sum.splits dest!: gf)
qed

end

section \<open>All machines\<close>

lemma forA_establishes:
  assumes "forA f xs s = (Inr (), s')" and "distinct xs"
    and "\<And>x t t'. x \<in> set xs \<Longrightarrow> f x t = (Inr (), t') \<Longrightarrow> Q x t'"
    and "\<And>x y t t'. x \<in> set xs \<Longrightarrow> y \<in> set xs \<Longrightarrow> x \<noteq> y \<Longrightarrow> f x t = (Inr (), t') \<Longrightarrow> Q y t \<Longrightarrow> Q y t'"
  shows "\<forall>x\<in>set xs. Q x s'"
proof -
  have "\<forall>x\<in>A \<union> set ys. Q x s'"
    if "forA f ys t = (Inr (), s')" "\<forall>x\<in>A. Q x t" "A \<inter> set ys = {}" "A \<union> set ys \<subseteq> set xs" "distinct ys" for A ys t
    using that
  proof (induction ys arbitrary: A t)
    case (Cons y ys)
    then obtain t1 where t1: "f y t = (Inr (), t1)" "forA f ys t1 = (Inr (), s')" by (auto simp: bindA_Inr)
    have "\<forall>x\<in>insert y A. Q x t1"
    proof
      fix x assume "x \<in> insert y A"
      then show "Q x t1"
        using assms(3) [of y] assms(4) [of y x] t1(1) Cons.prems(2,3,4) by (cases "x = y") auto
    qed
    from Cons.IH [OF t1(2) this] Cons.prems(3,4,5) show ?case by auto
  qed (simp add: act_simps)
  from this [of xs s "{}"] assms(1,2) show ?thesis by simp
qed

lemma own_files_apart:
  assumes "i \<noteq> j \<or> marker \<noteq> marker'" "{marker, marker'} \<subseteq> {cp_marker, node_marker}"
  shows "group_file (sy_path Y) (group_id marker' j) \<notin> own_files Y marker i"
proof -
  have "group_id marker' j \<noteq> group_id marker i"
    using assms by (auto simp: group_id_def cp_marker_def node_marker_def show_nat_inj)
  moreover have "take 3 (''/groups'' @ ''/'' @ w @ ''.json'') \<noteq> take 3 (''/profiles'' @ ''/'' @ v @ ''.json'')" for v w :: string
    by simp
  then have "''/groups'' @ ''/'' @ w @ ''.json'' \<noteq> ''/profiles'' @ ''/'' @ v @ ''.json''" for v w :: string
    by metis
  ultimately show ?thesis by (simp add: own_files_def group_file_def)
qed

lemma synced_cong:
  "read_file f (group_file (sy_path Y) (group_id marker (fst im))) = read_file g (group_file (sy_path Y) (group_id marker (fst im))) \<Longrightarrow>
   synced f Y marker im \<longleftrightarrow> synced g Y marker im"
  unfolding synced_def using group_on_disk_cong by blast

context file_host
begin

lemma sync_machine_parts:
  assumes "quiet upd" "sync_machine D H ec Y marker prefix upd im s = (Inr (), s')"
  obtains md s1 name ip where "upd s = (Inr md, s1)" "h_fs H s1 = h_fs H s" "jget (snd im) ''ipv4'' = Inr (JStr ip)"
    "produce_matchbox_data D H ec Y marker (fst im) (snd im) name md s1 = (Inr (), s')"
proof -
  obtain md s1 name where m: "upd s = (Inr md, s1)" "automatic_name_of prefix (fst im) (snd im) = Inr name"
    "produce_matchbox_data D H ec Y marker (fst im) (snd im) name md s1 = (Inr (), s')"
    using assms(2) by (auto simp: sync_machine_def bindA_Inr liftA_Inr)
  obtain v w where "jget (snd im) ''ipv4'' = Inr v" "text_or_attribute_error v = Inr w"
    using m(2) by (auto simp: automatic_name_of_def bindE_eq_Inr)
  moreover from this have "v = JStr w" by (cases v) auto
  ultimately show thesis using m quiet_run [OF assms(1) m(1)] that by blast
qed

lemma machines_run:
  assumes D: "differ_ok D" and ec: "ec_ok ec" "extra_ok Y" "\<forall>m\<in>set ms. json_ok m"
    and upd: "quiet upd" "yields update_ok upd" and mk: "marker \<in> {cp_marker, node_marker}"
    and run: "forA (sync_machine D H ec Y marker prefix upd) (List.enumerate 0 ms) s = (Inr (), s')"
  shows "\<forall>im\<in>set (List.enumerate 0 ms). synced (h_fs H s') Y marker im"
proof -
  obtain c cs where mc: "marker = c # cs" using mk by (auto simp: cp_marker_def node_marker_def)
  let ?f = "sync_machine D H ec Y marker prefix upd"
  have own: "synced (h_fs H t') Y marker im" if x: "im \<in> set (List.enumerate 0 ms)" "?f im t = (Inr (), t')" for im t t'
  proof -
    obtain i m where im: "im = (i, m)" by (cases im)
    with x(1) ec(3) have m: "json_ok m" by (auto simp: in_set_enumerate_eq)
    obtain md t1 name ip where p: "upd t = (Inr md, t1)" "jget m ''ipv4'' = Inr (JStr ip)"
      "produce_matchbox_data D H ec Y marker i m name md t1 = (Inr (), t')"
      using sync_machine_parts [OF upd(1) x(2)] im by (metis fst_conv snd_conv)
    have "update_ok md" using yieldsD [OF upd(2) p(1)] .
    from produce_run [OF D ec(1) m ec(2) this mc p(3,2)] im show ?thesis by simp
  qed
  have other: "synced (h_fs H t') Y marker jn"
    if x: "im \<in> set (List.enumerate 0 ms)" "jn \<in> set (List.enumerate 0 ms)" "im \<noteq> jn" "?f im t = (Inr (), t')" "synced (h_fs H t) Y marker jn"
    for im jn t t'
  proof -
    have ne: "fst im \<noteq> fst jn" using x(1-3) by (auto simp: in_set_enumerate_eq prod_eq_iff)
    obtain md t1 name where p: "h_fs H t1 = h_fs H t" "produce_matchbox_data D H ec Y marker (fst im) (snd im) name md t1 = (Inr (), t')"
      using sync_machine_parts [OF upd(1) x(4)] by metis
    have "group_file (sy_path Y) (group_id marker (fst jn)) \<notin> own_files Y marker (fst im)"
      using own_files_apart [of "fst im" "fst jn" marker marker Y] ne mk by auto
    from produce_frame [OF mc p(2) this] p(1) x(5) show ?thesis using synced_cong by metis
  qed
  have "distinct (List.enumerate 0 ms)" by simp
  from forA_establishes [OF run this, of "\<lambda>im t. synced (h_fs H t) Y marker im"] own other show ?thesis by blast
qed

lemma machines_frame:
  assumes upd: "quiet upd" and mk: "marker \<in> {cp_marker, node_marker}" "marker' \<in> {cp_marker, node_marker}" "marker \<noteq> marker'"
    and run: "forA (sync_machine D H ec Y marker prefix upd) ims s = (Inr (), s')"
  shows "read_file (h_fs H s') (group_file (sy_path Y) (group_id marker' j)) = read_file (h_fs H s) (group_file (sy_path Y) (group_id marker' j))"
  using run
proof (induction ims arbitrary: s)
  case (Cons im ims)
  then obtain t where t: "sync_machine D H ec Y marker prefix upd im s = (Inr (), t)"
    "forA (sync_machine D H ec Y marker prefix upd) ims t = (Inr (), s')" by (auto simp: bindA_Inr)
  obtain md s1 name where p: "h_fs H s1 = h_fs H s" "produce_matchbox_data D H ec Y marker (fst im) (snd im) name md s1 = (Inr (), t)"
    using sync_machine_parts [OF upd t(1)] by metis
  obtain c cs where mc: "marker = c # cs" using mk(1) by (auto simp: cp_marker_def node_marker_def)
  have "group_file (sy_path Y) (group_id marker' j) \<notin> own_files Y marker (fst im)"
    using own_files_apart [of "fst im" j marker marker' Y] mk by auto
  from produce_frame [OF mc p(2) this] p(1) Cons.IH [OF t(2)] show ?case by simp
qed (simp add: act_simps)

end

section \<open>A round\<close>

lemma yields_update:
  assumes "\<And>kv. kv \<in> set kvs \<Longrightarrow> yields json_ok (snd kv)" "distinct (map fst kvs)" "''etcd_name'' \<notin> set (map fst kvs)"
  shows "yields update_ok (dictA kvs)"
proof -
  have "update_ok d" if d: "map fst d = map fst kvs \<and> (\<forall>kv\<in>set d. json_ok (snd kv))" for d
    using assms(2,3) d unfolding update_ok_def json_ok_dict by (metis list.set_map)
  moreover have "yields (\<lambda>d. map fst d = map fst kvs \<and> (\<forall>kv\<in>set d. json_ok (snd kv))) (dictA kvs)"
    by (rule yields_dictA) (rule assms(1))
  ultimately show ?thesis by (auto simp: yields_def split: sum.splits)
qed

lemma update_ok_cp: "ec_ok ec \<Longrightarrow> yields update_ok (control_plane_update H ec Y n)"
  unfolding control_plane_update_def by (rule yields_update) (auto intro!: yields_intros)

lemma update_ok_node: "yields update_ok (ret [(''roles'', JStr r)])"
  by (rule yields_ret) (simp add: update_ok_def json_ok_dict)

text \<open>What a list of machines leaves.\<close>

definition all_synced :: "fs \<Rightarrow> synchroniser \<Rightarrow> string \<Rightarrow> json list \<Rightarrow> bool" where
  "all_synced f Y marker ms \<longleftrightarrow> (\<forall>i<length ms. synced f Y marker (i, ms ! i))"

lemma all_synced_enumerate: "all_synced f Y marker ms \<longleftrightarrow> (\<forall>im\<in>set (List.enumerate 0 ms). synced f Y marker im)"
  by (auto simp: all_synced_def in_set_enumerate_eq)

context file_host
begin

lemma round_run:
  assumes D: "differ_ok D" and ec: "ec_ok ec" "extra_ok Y"
    and run: "sync_round D H ec Y s = (Inr n, s')"
  obtains cps s1 s2 nodes s3 s4 r where "query_roles H Y cp_roles s = (Inr cps, s1)" "query_roles H Y node_roles s2 = (Inr nodes, s3)"
    "n = length cps + length nodes"
    "forA (sync_machine D H ec Y cp_marker ''cp-'' (control_plane_update H ec Y (length cps))) (List.enumerate 0 cps) s1 = (Inr (), s2)"
    "forA (sync_machine D H ec Y node_marker ''no-'' (ret [(''roles'', JStr (join_with '','' node_roles))])) (List.enumerate 0 nodes) s3 = (Inr (), s4)"
    "h_post H (sy_api_uri Y @ ''/sync-notify'') None s4 = (Inr r, s')"
    "(\<forall>m\<in>set cps \<union> set nodes. json_ok m) \<Longrightarrow> all_synced (h_fs H s') Y cp_marker cps \<and> all_synced (h_fs H s') Y node_marker nodes"
proof -
  obtain cps s1 s2 nodes s3 s4 r where q: "query_roles H Y cp_roles s = (Inr cps, s1)" "query_roles H Y node_roles s2 = (Inr nodes, s3)"
    and n: "n = length cps + length nodes"
    and cp: "forA (sync_machine D H ec Y cp_marker ''cp-'' (control_plane_update H ec Y (length cps))) (List.enumerate 0 cps) s1 = (Inr (), s2)"
    and no: "forA (sync_machine D H ec Y node_marker ''no-'' (ret [(''roles'', JStr (join_with '','' node_roles))])) (List.enumerate 0 nodes) s3 = (Inr (), s4)"
    and post: "h_post H (sy_api_uri Y @ ''/sync-notify'') None s4 = (Inr r, s')"
    using run by (auto simp: sync_round_def sync_control_plane_def kubernetes_nodes_def notify_def bindA_Inr act_simps split: prod.splits sum.splits)
  have f3: "h_fs H s3 = h_fs H s2" using quiet_run [OF quiet_reads(4) q(2)] by simp
  have f5: "h_fs H s' = h_fs H s4" using post_fs [of "sy_api_uri Y @ ''/sync-notify''" None s4] post by simp
  have "all_synced (h_fs H s') Y cp_marker cps \<and> all_synced (h_fs H s') Y node_marker nodes"
    if js: "\<forall>m\<in>set cps \<union> set nodes. json_ok m"
  proof
    have mk: "cp_marker \<in> {cp_marker, node_marker}" "node_marker \<in> {cp_marker, node_marker}" "node_marker \<noteq> cp_marker"
      by (simp_all add: cp_marker_def node_marker_def)
    have "\<forall>im\<in>set (List.enumerate 0 cps). synced (h_fs H s2) Y cp_marker im"
      by (rule machines_run [OF D ec _ quiet_reads(3) update_ok_cp [OF ec(1)] mk(1) cp]) (use js in auto)
    moreover have "read_file (h_fs H s') (group_file (sy_path Y) (group_id cp_marker j)) =
        read_file (h_fs H s2) (group_file (sy_path Y) (group_id cp_marker j))" for j
      unfolding f5 f3 [symmetric] by (rule machines_frame [OF quiet_reads(1) mk(2,1,3) no])
    ultimately show "all_synced (h_fs H s') Y cp_marker cps"
      unfolding all_synced_enumerate using synced_cong by blast
    show "all_synced (h_fs H s') Y node_marker nodes"
      unfolding all_synced_enumerate f5
      by (rule machines_run [OF D ec _ quiet_reads(1) update_ok_node mk(2) no]) (use js in auto)
  qed
  with that [OF q n cp no post] show thesis by blast
qed

end

end
