(* ===== verification/Scheduler_Facts.thy ===== *)
theory Scheduler_Facts
  imports Scheduler
begin

text \<open>
  What the scheduler achieves against any API that keeps its contract. The contract is the locale
  \<open>schedule_service\<close>: what the two listings answer and what a posted schedule changes; the outcome of
  a scheduling round is derived inside it. The retry loops need no contract: they return the first
  success of their tries.
\<close>

section \<open>Retries\<close>

text \<open>The state before the try number \<open>i\<close>, when all tries before it raised.\<close>

primrec before_try :: "'s host \<Rightarrow> ('s, 'a) act \<Rightarrow> int \<Rightarrow> 's \<Rightarrow> nat \<Rightarrow> 's" where
  "before_try H f seconds s 0 = s"
| "before_try H f seconds s (Suc i) = before_try H f seconds (h_sleep H (1000 * seconds) (snd (f s))) i"

lemma retry_fails:
  "\<forall>i\<le>n. \<not> is_ok (fst (f (before_try H f t s i))) \<Longrightarrow> apply_with_retry H f (Suc n) t s =
     (Inl (projl (fst (f (before_try H f t s n)))), snd (f (before_try H f t s n)))"
proof (induction n arbitrary: s)
  case 0
  then obtain x s' where "f s = (Inl x, s')" by (cases "f s"; cases "fst (f s)") auto
  then show ?case by (simp add: act_simps)
next
  case (Suc n)
  from Suc.prems have "\<not> is_ok (fst (f s))" by (metis before_try.simps(1) le0)
  then obtain x s' where f: "f s = (Inl x, s')" by (cases "f s"; cases "fst (f s)") auto
  have "\<forall>i\<le>n. \<not> is_ok (fst (f (before_try H f t (h_sleep H (1000 * t) s') i)))"
  proof (intro allI impI)
    fix i assume "i \<le> n"
    then have "\<not> is_ok (fst (f (before_try H f t s (Suc i))))" using Suc.prems by blast
    then show "\<not> is_ok (fst (f (before_try H f t (h_sleep H (1000 * t) s') i)))" by (simp add: f)
  qed
  from Suc.IH [OF this] f show ?case by (simp add: act_simps sleep_def)
qed

lemma retry_succeeds:
  "\<forall>i<j. \<not> is_ok (fst (f (before_try H f t s i))) \<Longrightarrow> f (before_try H f t s j) = (Inr a, s') \<Longrightarrow> j < n \<Longrightarrow>
   apply_with_retry H f n t s = (Inr (Some a), s')"
proof (induction j arbitrary: s n)
  case 0
  then show ?case by (cases n) (simp_all add: act_simps)
next
  case (Suc j)
  from Suc.prems have "\<not> is_ok (fst (f s))" by (metis before_try.simps(1) zero_less_Suc)
  then obtain x s1 where f: "f s = (Inl x, s1)" by (cases "f s"; cases "fst (f s)") auto
  obtain m where m: "n = Suc m" "j < m" using Suc.prems(3) by (cases n) auto
  have "\<forall>i<j. \<not> is_ok (fst (f (before_try H f t (h_sleep H (1000 * t) s1) i)))"
  proof (intro allI impI)
    fix i assume "i < j"
    then have "\<not> is_ok (fst (f (before_try H f t s (Suc i))))" using Suc.prems(1) by blast
    then show "\<not> is_ok (fst (f (before_try H f t (h_sleep H (1000 * t) s1) i)))" by (simp add: f)
  qed
  from Suc.IH [OF this _ m(2)] Suc.prems(2) f m show ?case by (auto simp: act_simps sleep_def)
qed

text \<open>
  C22. With \<open>n\<close> tries the retry loop returns the result of the first try that does not raise, in the
  state that try left; when all of them raise, the exception of the last one; no try is made after
  the first success or after the last one.
\<close>

theorem retry_outcome:
  "(\<forall>j a s'. j < n \<and> (\<forall>i<j. \<not> is_ok (fst (f (before_try H f t s i)))) \<and> f (before_try H f t s j) = (Inr a, s') \<longrightarrow>
      apply_with_retry H f n t s = (Inr (Some a), s')) \<and>
   (\<forall>m. n = Suc m \<and> (\<forall>i\<le>m. \<not> is_ok (fst (f (before_try H f t s i)))) \<longrightarrow>
      fst (f (before_try H f t s m)) = Inl (projl (fst (apply_with_retry H f n t s))) \<and>
      snd (apply_with_retry H f n t s) = snd (f (before_try H f t s m)))"
proof (intro conjI allI impI)
  fix j a s'
  assume "j < n \<and> (\<forall>i<j. \<not> is_ok (fst (f (before_try H f t s i)))) \<and> f (before_try H f t s j) = (Inr a, s')"
  then show "apply_with_retry H f n t s = (Inr (Some a), s')" using retry_succeeds by metis
next
  fix m assume m: "n = Suc m \<and> (\<forall>i\<le>m. \<not> is_ok (fst (f (before_try H f t s i))))"
  then have "\<not> is_ok (fst (f (before_try H f t s m)))" by blast
  then obtain x where "fst (f (before_try H f t s m)) = Inl x" by (cases "fst (f (before_try H f t s m))") auto
  with m retry_fails [of m f H t s]
  show "fst (f (before_try H f t s m)) = Inl (projl (fst (apply_with_retry H f n t s)))"
    and "snd (apply_with_retry H f n t s) = snd (f (before_try H f t s m))" by simp_all
qed

definition idle_host :: "nat host" where
  "idle_host = \<lparr>h_get = (\<lambda>_ s. (raise ConnectionError, s)), h_post = (\<lambda>_ _ s. (raise ConnectionError, s)),
     h_sleep = (\<lambda>n s. s + nat (n div 1000)), h_fs = (\<lambda>_. \<lparr>f_dirs = [], f_files = []\<rparr>), h_set_fs = (\<lambda>_ s. s),
     h_cached = (\<lambda>_ _. None), h_cache = (\<lambda>_ _ _ s. s)\<rparr>"

text \<open>A try that succeeds once the clock shows 3.\<close>

definition late_try :: "(nat, nat) act" where
  "late_try s = (if 3 \<le> s then (ok s, s) else (raise IndexError, s))"

theorem retry_outcome_witness:
  "apply_with_retry idle_host late_try 3 2 0 = (Inr (Some 4), 4)"
proof -
  have f: "before_try idle_host late_try 2 0 2 = 4" "\<forall>i<2. \<not> is_ok (fst (late_try (before_try idle_host late_try 2 0 i)))"
    by (simp_all add: numeral_2_eq_2 late_try_def idle_host_def less_Suc_eq)
  have "late_try (before_try idle_host late_try 2 0 2) = (Inr 4, 4)" by (simp add: f late_try_def)
  with f(2) retry_outcome [of 3 late_try idle_host 2 0] show ?thesis by (metis lessI numeral_3_eq_3 numeral_2_eq_2)
qed

section \<open>Sorting by mac\<close>

definition macs_are :: "string list \<Rightarrow> json list \<Rightarrow> bool" where
  "macs_are ms xs \<longleftrightarrow> map mac_key xs = map (\<lambda>m. ok (JStr m)) ms"

lemma macs_are_mapE: "macs_are ms xs \<Longrightarrow> mapE mac_key xs = ok (map JStr ms)"
  unfolding macs_are_def by (induction xs arbitrary: ms) (auto simp: map_eq_Cons_conv Cons_eq_map_conv)

lemma macs_are_length: "macs_are ms xs \<Longrightarrow> length xs = length ms"
  unfolding macs_are_def by (metis length_map)

lemma map_fst_sort: "map fst (sort_key fst xs) = sort (map fst xs)"
  by (rule properties_for_sort [symmetric]) simp_all

lemma sort_by_mac_ok:
  assumes "macs_are ms xs"
  shows "\<exists>ys. sort_by_mac (JList xs) = ok ys \<and> macs_are (sort ms) ys"
proof (cases "length xs \<le> 1")
  case True
  then have "sort ms = ms" using macs_are_length [OF assms] by (cases ms) (auto simp: Suc_le_eq)
  with True assms show ?thesis by (auto simp: macs_are_mapE)
next
  case False
  let ?z = "sort_key fst (zip ms xs)"
  have l: "length xs = length ms" by (rule macs_are_length [OF assms])
  have "mac_key (snd p) = ok (JStr (fst p))" if p: "p \<in> set ?z" for p
  proof -
    have "p \<in> set (zip ms xs)" using p by simp
    then obtain i where "i < length ms" "p = (ms ! i, xs ! i)" using l by (auto simp: set_zip)
    with assms l show ?thesis unfolding macs_are_def by (metis fst_conv nth_map snd_conv)
  qed
  then have "map mac_key (map snd ?z) = map (\<lambda>m. ok (JStr m)) (map fst ?z)" by simp
  moreover have "map fst ?z = sort ms" using l by (simp add: map_fst_sort)
  ultimately have "macs_are (sort ms) (map snd ?z)" by (simp only: macs_are_def)
  with False show ?thesis by (simp add: macs_are_mapE [OF assms])
qed

lemma macs_are_take: "macs_are ms xs \<Longrightarrow> macs_are (take n ms) (take n xs)"
  unfolding macs_are_def by (metis take_map)

section \<open>The contract of the API\<close>

definition plan_roles :: "string list \<Rightarrow> bool" where
  "plan_roles roles \<longleftrightarrow> roles \<in> {[etcd_member, kubernetes_control_plane], [kubernetes_node]}"

definition role_body :: "string list \<Rightarrow> json \<Rightarrow> json" where
  "role_body roles mac = JObj [(''roles'', strs roles), (''selector'', JObj [(''mac'', mac)])]"

locale schedule_service =
  fixes H :: "'s host" and uri :: string and good :: "'s \<Rightarrow> bool"
    and idents :: "'s \<Rightarrow> string set" and avail :: "'s \<Rightarrow> string list"
    and holders :: "'s \<Rightarrow> string list \<Rightarrow> nat" and roles_at :: "'s \<Rightarrow> string \<Rightarrow> string set"
  assumes avail_distinct: "good s \<Longrightarrow> distinct (avail s) \<and> set (avail s) \<subseteq> idents s"
    and get_available: "good s \<Longrightarrow> \<exists>r xs. h_get H (uri @ ''/scheduler/available'') s = (Inr r, s) \<and>
      load_reply r = ok (JList xs) \<and> macs_are (avail s) xs"
    and get_roles: "good s \<Longrightarrow> plan_roles roles \<Longrightarrow>
      \<exists>r xs. h_get H (uri @ ''/scheduler/'' @ join_with ''&'' roles) s = (Inr r, s) \<and>
        load_reply r = ok (JList xs) \<and> length xs = holders s roles"
    and post_roles: "good s \<Longrightarrow> plan_roles roles \<Longrightarrow> mac \<in> set (avail s) \<Longrightarrow>
      \<exists>r s'. h_post H (uri @ ''/scheduler'') (Some (role_body roles (JStr mac))) s = (Inr r, s') \<and> good s' \<and>
        idents s' = idents s \<and> set (avail s') = set (avail s) - {mac} \<and>
        (\<forall>m\<in>idents s. roles_at s' m = (if m = mac then set roles else roles_at s m)) \<and>
        holders s' roles = Suc (holders s roles) \<and>
        (\<forall>rs. plan_roles rs \<and> rs \<noteq> roles \<longrightarrow> holders s' rs = holders s rs)"
begin

text \<open>What a round of posts for the machines \<open>ms\<close> leaves.\<close>

definition scheduled :: "string list \<Rightarrow> string list \<Rightarrow> 's \<Rightarrow> 's \<Rightarrow> bool" where
  "scheduled roles ms s s' \<longleftrightarrow> good s' \<and> idents s' = idents s \<and> set (avail s') = set (avail s) - set ms \<and>
     (\<forall>m\<in>idents s. roles_at s' m = (if m \<in> set ms then set roles else roles_at s m)) \<and>
     holders s' roles = holders s roles + length ms \<and>
     (\<forall>rs. plan_roles rs \<and> rs \<noteq> roles \<longrightarrow> holders s' rs = holders s rs)"

lemma scheduled_refl: "good s \<Longrightarrow> scheduled roles [] s s"
  by (simp add: scheduled_def)

lemma scheduled_step:
  assumes s: "good s" "plan_roles (sched_roles C)" "api_uri C = uri" and m: "m \<in> set (avail s)" and x: "mac_key x = ok (JStr m)"
  obtains s' where "affect H C x s = (Inr 1, s')" "scheduled (sched_roles C) [m] s s'"
proof -
  obtain r s' where "h_post H (uri @ ''/scheduler'') (Some (role_body (sched_roles C) (JStr m))) s = (Inr r, s')"
    "scheduled (sched_roles C) [m] s s'"
    using post_roles [OF s(1,2) m] by (auto simp: scheduled_def)
  with x s(3) show thesis by (intro that) (simp_all add: affect_def act_simps role_body_def)
qed

lemma scheduled_trans:
  "scheduled roles [m] s s1 \<Longrightarrow> scheduled roles ms s1 s2 \<Longrightarrow> m \<notin> set ms \<Longrightarrow> scheduled roles (m # ms) s s2"
  unfolding scheduled_def by auto

lemma sum_affects_run:
  assumes "good s" "plan_roles (sched_roles C)" "api_uri C = uri" "macs_are ms xs" "distinct ms" "set ms \<subseteq> set (avail s)"
  shows "\<exists>s'. sum_affects H C k xs s = (Inr (k + length ms), s') \<and> scheduled (sched_roles C) ms s s'"
  using assms
proof (induction xs arbitrary: ms s k)
  case Nil
  then show ?case by (auto simp: macs_are_def act_simps scheduled_refl)
next
  case (Cons x xs)
  then obtain m ms' where ms: "ms = m # ms'" "mac_key x = ok (JStr m)" "macs_are ms' xs"
    by (auto simp: macs_are_def Cons_eq_map_conv)
  obtain s1 where s1: "affect H C x s = (Inr 1, s1)" "scheduled (sched_roles C) [m] s s1"
    by (rule scheduled_step [OF Cons.prems(1-3) _ ms(2)]) (use Cons.prems(6) ms(1) in auto)
  have "good s1" "set ms' \<subseteq> set (avail s1)" using s1(2) Cons.prems(5,6) ms(1) by (auto simp: scheduled_def)
  from Cons.IH [OF this(1) Cons.prems(2,3) ms(3) _ this(2), of "k + 1"] Cons.prems(5) ms(1)
  obtain s2 where "sum_affects H C (k + 1) xs s1 = (Inr (k + 1 + length ms'), s2)" "scheduled (sched_roles C) ms' s1 s2"
    by auto
  with s1 ms(1) scheduled_trans [OF s1(2)] Cons.prems(5) show ?case by (auto simp: act_simps)
qed

lemma for_affects_run:
  assumes "good s" "plan_roles (sched_roles C)" "api_uri C = uri" "macs_are ms xs" "distinct ms" "set ms \<subseteq> set (avail s)"
  shows "\<exists>s'. forA (\<lambda>x. bindA (affect H C x) (\<lambda>_. ret ())) xs s = (Inr (), s') \<and> scheduled (sched_roles C) ms s s'"
proof -
  have "forA (\<lambda>x. bindA (affect H C x) (\<lambda>_. ret ())) xs s =
      (case sum_affects H C k xs s of (Inl x, s') \<Rightarrow> (Inl x, s') | (Inr _, s') \<Rightarrow> (Inr (), s'))" for k
  proof (induction xs arbitrary: s k)
    case (Cons x xs)
    obtain r s1 where "affect H C x s = (r, s1)" by fastforce
    with Cons.IH [of s1 "k + projr r"] show ?case by (cases r) (simp_all add: act_simps)
  qed (simp add: act_simps)
  from this [of 0] sum_affects_run [OF assms, of 0] show ?thesis by auto
qed

lemma fetch_available_run:
  assumes "good s"
  obtains xs where "fetch_available H uri s = (Inr (JList xs), s)" "macs_are (avail s) xs"
proof -
  obtain r xs where "h_get H (uri @ ''/scheduler/available'') s = (Inr r, s)" "load_reply r = ok (JList xs)" "macs_are (avail s) xs"
    using get_available [OF assms] by blast
  then show thesis by (intro that) (simp_all add: fetch_available_def act_simps)
qed

lemma roles_url_run:
  assumes "good s" "plan_roles (sched_roles C)" "api_uri C = uri"
  obtains r xs where "h_get H (roles_url C) s = (Inr r, s)" "load_reply r = ok (JList xs)" "length xs = holders s (sched_roles C)"
  using get_roles [OF assms(1,2)] assms(3) that by (auto simp: roles_url_def)

lemma budget_outcome:
  assumes s: "good s" and C: "plan_roles (sched_roles C)" "api_uri C = uri" "expected_nb C = int n"
  shows "if n \<le> holders s (sched_roles C) then apply_budget H C s = (Inr True, s)
    else if length (avail s) < n then apply_budget H C s = (Inr False, s)
    else \<exists>s'. apply_budget H C s = (Inr True, s') \<and> scheduled (sched_roles C) (take n (sort (avail s))) s s'"
proof -
  obtain r held where r: "h_get H (roles_url C) s = (Inr r, s)" "load_reply r = ok (JList held)"
      "length held = holders s (sched_roles C)" by (rule roles_url_run [OF s C(1,2)])
  obtain xs where xs: "fetch_available H uri s = (Inr (JList xs), s)" "macs_are (avail s) xs"
    by (rule fetch_available_run [OF s])
  obtain ys where ys: "sort_by_mac (JList xs) = ok ys" "macs_are (sort (avail s)) ys"
    using sort_by_mac_ok [OF xs(2)] by blast
  note l = macs_are_length [OF xs(2)]
  show ?thesis
  proof (cases "n \<le> holders s (sched_roles C)")
    case True
    with r C show ?thesis by (simp add: apply_budget_def act_simps)
  next
    case few: False
    show ?thesis
    proof (cases "length (avail s) < n")
      case True
      with few r C xs l show ?thesis by (simp add: apply_budget_def apply_available_budget_def act_simps)
    next
      case False
      have "set (take n (sort (avail s))) \<subseteq> set (avail s)" by (metis set_sort set_take_subset)
      moreover have "distinct (take n (sort (avail s)))" using avail_distinct [OF s] by simp
      ultimately obtain s' where "forA (\<lambda>x. bindA (affect H C x) (\<lambda>_. ret ())) (take n ys) s = (Inr (), s')"
        "scheduled (sched_roles C) (take n (sort (avail s))) s s'"
        using for_affects_run [OF s C(1,2) macs_are_take [OF ys(2), of n]] by blast
      with few False r C xs ys l show ?thesis by (auto simp: apply_budget_def apply_available_budget_def act_simps)
    qed
  qed
qed

lemma everything_outcome:
  assumes s: "good s" and C: "plan_roles (sched_roles C)" "api_uri C = uri"
  shows "\<exists>s'. apply_everything H C s = (Inr (holders s (sched_roles C) + length (avail s)), s') \<and>
    scheduled (sched_roles C) (sort (avail s)) s s'"
proof -
  obtain r held where r: "h_get H (roles_url C) s = (Inr r, s)" "load_reply r = ok (JList held)"
      "length held = holders s (sched_roles C)" by (rule roles_url_run [OF s C])
  obtain xs where xs: "fetch_available H uri s = (Inr (JList xs), s)" "macs_are (avail s) xs"
    by (rule fetch_available_run [OF s])
  obtain ys where ys: "sort_by_mac (JList xs) = ok ys" "macs_are (sort (avail s)) ys"
    using sort_by_mac_ok [OF xs(2)] by blast
  have "distinct (sort (avail s))" "set (sort (avail s)) \<subseteq> set (avail s)" using avail_distinct [OF s] by simp_all
  from sum_affects_run [OF s C ys(2) this, of "length held"] r C xs ys show ?thesis
    by (auto simp: apply_everything_def act_simps)
qed

end

end
