(* ===== verification/Plan_Facts.thy ===== *)
theory Plan_Facts
  imports Plan Sync_Run Scheduler_Facts
begin

text \<open>
  When the plan's wait for the control plane ends, when its start-up does, and what the tries of the
  synchronisation amount to; for any host.
\<close>

section \<open>Waiting for the control plane\<close>

text \<open>The state before the call number \<open>i\<close>, when all calls before it answered False.\<close>

primrec wait_state :: "'s host \<Rightarrow> int \<Rightarrow> ('s, bool option) act \<Rightarrow> 's \<Rightarrow> nat \<Rightarrow> 's" where
  "wait_state H ms m s 0 = s"
| "wait_state H ms m s (Suc i) = wait_state H ms m (h_sleep H ms (snd (m s))) i"

definition answers_false :: "'s host \<Rightarrow> int \<Rightarrow> ('s, bool option) act \<Rightarrow> 's \<Rightarrow> nat \<Rightarrow> bool" where
  "answers_false H ms m s i \<longleftrightarrow> fst (m (wait_state H ms m s i)) = Inr (Some False)"

lemma wait_until_step:
  "fst (m s) = Inr (Some False) \<Longrightarrow> wait_until H ms m s = wait_until H ms m (h_sleep H ms (snd (m s)))"
  by (subst wait_until.simps) (cases "m s"; simp)

lemma wait_until_end:
  "fst (m s) \<noteq> Inr (Some False) \<Longrightarrow> wait_until H ms m s = Some (case fst (m s) of Inl x \<Rightarrow> Inl x | Inr _ \<Rightarrow> Inr (), snd (m s))"
  by (subst wait_until.simps) (cases "m s"; auto split: sum.split)

lemma wait_until_some:
  "\<forall>j<i. answers_false H ms m s j \<Longrightarrow> \<not> answers_false H ms m s i \<Longrightarrow>
   wait_until H ms m s = Some (case fst (m (wait_state H ms m s i)) of Inl x \<Rightarrow> Inl x | Inr _ \<Rightarrow> Inr (),
     snd (m (wait_state H ms m s i)))"
proof (induction i arbitrary: s)
  case 0
  then show ?case by (simp add: answers_false_def wait_until_end)
next
  case (Suc i)
  have "answers_false H ms m s 0" using Suc.prems(1) by blast
  then have f: "fst (m s) = Inr (Some False)" by (simp add: answers_false_def)
  have "answers_false H ms m (h_sleep H ms (snd (m s))) j" if "j < i" for j
    using Suc.prems(1) that by (metis Suc_less_eq answers_false_def wait_state.simps(2))
  moreover have "\<not> answers_false H ms m (h_sleep H ms (snd (m s))) i" using Suc.prems(2) by (simp add: answers_false_def)
  ultimately show ?case using Suc.IH wait_until_step [of m s H ms] f by simp
qed

lemma wait_until_returned:
  assumes "wait_until H ms m s = Some r"
  shows "\<exists>i. \<not> answers_false H ms m s i"
proof (rule wait_until.raw_induct [where P = "\<lambda>H ms m s r. \<exists>i. \<not> answers_false H ms m s i", OF _ assms])
  fix w and H :: "'a host" and ms m s r
  assume IH: "\<And>H ms m s r. w H ms m s = Some r \<Longrightarrow> \<exists>i. \<not> answers_false H ms m s i"
    and eq: "(case m s of (Inl x, s') \<Rightarrow> Some (raise x, s')
       | (Inr r, s') \<Rightarrow> if r = Some False then w H ms m (h_sleep H ms s') else Some (ok (), s')) = Some r"
  show "\<exists>i. \<not> answers_false H ms m s i"
  proof (cases "fst (m s) = Inr (Some False)")
    case True
    then have "w H ms m (h_sleep H ms (snd (m s))) = Some r" using eq by (cases "m s") simp
    then obtain i where "\<not> answers_false H ms m (h_sleep H ms (snd (m s))) i" using IH by blast
    then have "\<not> answers_false H ms m s (Suc i)" by (simp add: answers_false_def)
    then show ?thesis ..
  next
    case False
    then have "\<not> answers_false H ms m s 0" by (simp add: answers_false_def)
    then show ?thesis ..
  qed
qed

text \<open>
  C18. The wait for the control plane returns exactly when some call answers anything but False; it
  then ends with the first such call, with its exception if it raised, in the state that call left.
  While every call answers False it never returns.
\<close>

theorem wait_until_outcome:
  "(wait_until H ms m s = None \<longleftrightarrow> (\<forall>i. answers_false H ms m s i)) \<and>
   (\<forall>i. (\<forall>j<i. answers_false H ms m s j) \<and> \<not> answers_false H ms m s i \<longrightarrow>
      wait_until H ms m s = Some (case fst (m (wait_state H ms m s i)) of Inl x \<Rightarrow> Inl x | Inr _ \<Rightarrow> Inr (),
        snd (m (wait_state H ms m s i))))"
proof (intro conjI iffI allI impI)
  fix i
  assume none: "wait_until H ms m s = None"
  show "answers_false H ms m s i"
  proof (rule ccontr)
    assume ex: "\<not> answers_false H ms m s i"
    define k where "k = (LEAST k. \<not> answers_false H ms m s k)"
    have "\<not> answers_false H ms m s k" unfolding k_def by (rule LeastI) (rule ex)
    moreover have "\<forall>j<k. answers_false H ms m s j" unfolding k_def by (blast dest: not_less_Least)
    ultimately have "wait_until H ms m s \<noteq> None" using wait_until_some [of k H ms m s] by simp
    with none show False by contradiction
  qed
next
  assume "\<forall>i. answers_false H ms m s i"
  then show "wait_until H ms m s = None" using wait_until_returned [of H ms m s] by (cases "wait_until H ms m s") auto
next
  fix i
  assume "(\<forall>j<i. answers_false H ms m s j) \<and> \<not> answers_false H ms m s i"
  then show "wait_until H ms m s = Some (case fst (m (wait_state H ms m s i)) of Inl x \<Rightarrow> Inl x | Inr _ \<Rightarrow> Inr (),
        snd (m (wait_state H ms m s i)))" by (intro wait_until_some) auto
qed

text \<open>A control plane that is complete after 20 seconds.\<close>

definition late_plane :: "(nat, bool option) act" where
  "late_plane s = (ok (Some (20 \<le> s)), s)"

theorem wait_until_outcome_witness:
  "wait_until idle_host plan_poll late_plane 0 = Some (ok (), 20)"
proof -
  have "(\<forall>j<2. answers_false idle_host plan_poll late_plane 0 j) \<and> \<not> answers_false idle_host plan_poll late_plane 0 2"
    "wait_state idle_host plan_poll late_plane 0 2 = 20"
    by (simp_all add: numeral_2_eq_2 less_Suc_eq answers_false_def late_plane_def idle_host_def plan_poll_def)
  with wait_until_outcome [of idle_host plan_poll late_plane 0] show ?thesis by (simp add: late_plane_def)
qed

section \<open>Tries\<close>

lemma retry_first: "f s = (Inr a, s') \<Longrightarrow> 0 < n \<Longrightarrow> apply_with_retry H f n t s = (Inr (Some a), s')"
  using retry_succeeds [of 0 f H t s a s' n] by simp

text \<open>The tries of the synchronisation end with a round whose result they return.\<close>

lemma sync_tries_round:
  assumes "\<And>s x s'. P s \<Longrightarrow> r s = (Inl x, s') \<Longrightarrow> P s'" "\<And>n s. P s \<Longrightarrow> P (h_sleep H n s)"
    and "P s" "sync_tries H r (Suc n) t s = (res, s')"
  shows "\<exists>s0. P s0 \<and> r s0 = (res, s')"
  using assms(3,4)
proof (induction n arbitrary: s)
  case 0
  then show ?case by (cases "r s"; cases "fst (r s)") (auto simp: act_simps)
next
  case (Suc n)
  show ?case
  proof (cases "fst (r s)")
    case (Inr a)
    with Suc.prems show ?thesis by (cases "r s") (auto simp: act_simps)
  next
    case (Inl x)
    then have "r s = (Inl x, snd (r s))" by (cases "r s") simp
    with assms(1) Suc.prems(1) have "P (h_sleep H (1000 * t) (snd (r s)))" by (intro assms(2)) blast
    moreover have "sync_tries H r (Suc n) t (h_sleep H (1000 * t) (snd (r s))) = (res, s')"
      using Suc.prems(2) Inl by (cases "r s") (simp add: act_simps sleep_def)
    ultimately show ?thesis by (rule Suc.IH)
  qed
qed

section \<open>The sleep between rounds\<close>

text \<open>The plan sleeps longer than an entry of its query cache lives.\<close>

lemma wait_outlives_cache:
  assumes "plan_wait ec = ok ms" and "ConfigSyncSchedules H ec uri matchbox_path ignition_dict extra s = (Inr Y, s')"
  shows "\<forall>n. sy_ttl Y = Some n \<longrightarrow> 0 < n \<and> 1000 * n < ms"
proof -
  obtain ttl where ttl: "port_of ec ''sync_cache_ttl'' = ok ttl" "ms = (if 0 < ttl then 1100 * ttl else 10 * 1000)"
    using assms(1) by (auto simp: plan_wait_def bindE_eq_Inr)
  obtain i where i: "attr ec ''sync_cache_ttl'' = ok (JInt i)" and ms: "ms = (if 0 < i then 1100 * i else 10 * 1000)"
  proof (cases "attr ec ''sync_cache_ttl''")
    case (Inr v)
    with ttl show ?thesis by (cases v) (auto simp: port_of_def intro: that)
  qed (use ttl in \<open>simp add: port_of_def\<close>)
  have "sy_ttl Y = (if 0 < i then Some i else None)"
    using assms(2) i by (auto simp: ConfigSyncSchedules_def bindA_Inr liftA_def ret_def)
  with ms show ?thesis by auto
qed

end
