(* ===== verification/Ops.thy ===== *)
theory Ops
  imports Api
begin

text \<open>
  \<open>enjoliver/ops.py\<close>: the health report and the shutdown. A probe of matchbox is a call of the HTTP
  client; pid files and processes are those of the \<open>world\<close> of the state (\<open>psutil\<close> is a library: what
  is used of it is that a process that is not alive raises \<open>NoSuchProcess\<close> and that a terminated
  process that was waited for is gone).
\<close>

section \<open>Health\<close>

definition health_check :: "engine \<Rightarrow> nat \<Rightarrow> string \<Rightarrow> bool tx" where
  "health_check E ts who d =
     (case first (arrange E (healthz d)) of
        None \<Rightarrow> ok (True, d\<lparr>healthz := healthz d @
          [\<lparr>z_id = new_id E (map z_id (healthz d)), z_ts = ts, z_host = who\<rparr>]\<rparr>)
      | Some h \<Rightarrow> ok (True, d\<lparr>healthz := map (\<lambda>z. if z_id z = z_id h then z\<lparr>z_ts := ts, z_host := who\<rparr> else z)
          (healthz d)\<rparr>))"

definition probe :: "'c server \<Rightarrow> string \<Rightarrow> reply result" where
  "probe S path = sv_http S (py_str (MATCHBOX_URI (sv_app S)) @ path)"

text \<open>The keys of the dictionary comprehension: a repeated url counts once.\<close>

definition matchbox_urls :: "'c server \<Rightarrow> string list result" where
  "matchbox_urls S = bindE (jiter (MATCHBOX_URLS (sv_app S))) (\<lambda>us. bindE (mapE as_str us) (\<lambda>ws. ok (uniq_first ws)))"

definition ipxe_alive :: "'c server \<Rightarrow> bool" where
  "ipxe_alive S = (case probe S ''/ipxe'' of Inl _ \<Rightarrow> False | Inr r \<Rightarrow> rp_status r = 200)"

definition ignition_alive :: "'c server \<Rightarrow> bool" where
  "ignition_alive S =
     (case probe S ''/ignition?mac=00-00-00-00-00-00'' of
        Inl _ \<Rightarrow> False
      | Inr r \<Rightarrow> is_ok (rp_text r) \<and> rp_json r \<noteq> None \<and> rp_status r = 200)"

definition ops_healthz :: "'c server \<Rightarrow> request \<Rightarrow> ('c api, json) act" where
  "ops_healthz S rq =
     bindA (liftA (matchbox_urls S)) (\<lambda>urls.
     let alive = map (\<lambda>k. (k, is_ok (probe S k))) urls in
     bindA (tryA (bindA (with_db (session_commit (health_check (sv_engine S) (rq_now rq) (rq_remote rq)))) (\<lambda>b. ret b))
       (\<lambda>_. Some (ret False))) (\<lambda>db_alive.
     let all_alive = (list_all snd alive \<and> ipxe_alive S \<and> ignition_alive S \<and> db_alive) in
     ret (JObj [
       (''global'', JBool all_alive), (''flask'', JBool True), (''db'', JBool db_alive),
       (''matchbox'', JObj (map (\<lambda>(k, b). (k, JBool b)) alive)),
       (''discovery'', JObj [(''ipxe'', JBool (ipxe_alive S)), (''ignition'', JBool (ignition_alive S))])])))"

section \<open>Shutdown\<close>

definition on_world :: "(world \<Rightarrow> 'a result \<times> world) \<Rightarrow> ('c api, 'a) act" where
  "on_world f s = (case f (a_world s) of (r, w) \<Rightarrow> (r, s\<lparr>a_world := w\<rparr>))"

lemma on_world_run [act_simps]: "on_world f s = (fst (f (a_world s)), s\<lparr>a_world := snd (f (a_world s))\<rparr>)"
  by (simp add: on_world_def split_beta)

text \<open>
  \<open>open\<close>, \<open>int(f.read())\<close>, \<open>os.remove\<close>, \<open>psutil.Process\<close>. An \<open>IOError\<close> and a \<open>NoSuchProcess\<close> are
  logged; a pid file that holds no number lets its \<open>ValueError\<close> through.
\<close>

definition process_of_file :: "string \<Rightarrow> world \<Rightarrow> int result \<times> world" where
  "process_of_file path w =
     (case map_of (files w) path of
        None \<Rightarrow> (raise IOError, w)
      | Some t \<Rightarrow>
          (case int_of_str t of
             Inl x \<Rightarrow> (raise x, w)
           | Inr pid \<Rightarrow>
               let w' = w\<lparr>files := filter (\<lambda>f. fst f \<noteq> path) (files w)\<rparr> in
               if pid < 0 then (raise ValueError, w')
               else if pid \<in> set (live w) then (ok pid, w') else (raise NoSuchProcess, w')))"

definition pid_or_none :: "string \<Rightarrow> ('c api, int option) act" where
  "pid_or_none path =
     tryA (bindA (on_world (process_of_file path)) (\<lambda>p. ret (Some p)))
       (\<lambda>x. if x = IOError \<or> x = NoSuchProcess then Some (ret None) else None)"

fun collect_pids :: "string list \<Rightarrow> ('c api, int list) act" where
  "collect_pids [] = ret []"
| "collect_pids (path # paths) =
     bindA (pid_or_none path) (\<lambda>p. bindA (collect_pids paths) (\<lambda>ps.
       ret (case p of None \<Rightarrow> ps | Some k \<Rightarrow> k # ps)))"

definition terminate :: "int \<Rightarrow> ('c api, unit) act" where
  "terminate pid =
     on_world (\<lambda>w. if pid \<in> set (live w) then (ok (), w\<lparr>live := removeAll pid (live w)\<rparr>) else (raise NoSuchProcess, w))"

text \<open>
  Without a gunicorn process the last \<open>terminate\<close> is called on \<open>None\<close>, after the other processes
  have been terminated.
\<close>

definition ops_shutdown :: "'c server \<Rightarrow> ('c api, json) act" where
  "ops_shutdown S =
     bindA (liftA (bindE (attr (sv_ec S) ''plan_pid_file'') as_str)) (\<lambda>plan.
     bindA (liftA (bindE (attr (sv_ec S) ''matchbox_pid_file'') as_str)) (\<lambda>matchbox.
     bindA (collect_pids [plan, matchbox]) (\<lambda>pids.
     bindA (liftA (bindE (attr (sv_ec S) ''gunicorn_pid_file'') as_str)) (\<lambda>gunicorn.
     bindA (pid_or_none gunicorn) (\<lambda>gunicorn_pid.
     bindA (forA terminate pids) (\<lambda>_.
       case gunicorn_pid of
         None \<Rightarrow> raiseA AttributeError
       | Some g \<Rightarrow>
           bindA (terminate g) (\<lambda>_. ret (JList (map (\<lambda>p. JStr (sv_process S p)) (pids @ [g]))))))))))"

end
