(* ===== verification/Routes.thy ===== *)
theory Routes
  imports Ops
begin

text \<open>
  \<open>enjoliver/routes.py\<close>: the handlers of the API, one definition each, and the URL map. A handler is
  an action; an exception it lets through is the 500 of Flask (\<open>serve\<close>), with the state as it was
  when the exception was raised: what was committed before stays committed.
\<close>

type_synonym 'c handler = "('c api, response) act"

section \<open>Discovery\<close>

definition discovery_error :: response where
  "discovery_error =
     jsonify (JObj [(''boot-info'', JObj []), (''lldp'', JObj []), (''interfaces'', JList []), (''disks'', JList [])]) 406"

definition verify_fqdn :: "'c server \<Rightarrow> bool" where
  "verify_fqdn S = (attr (sv_ec S) ''discovery_fqdn_verify'' \<noteq> ok (JBool False))"

definition put_machine_state :: "'c server \<Rightarrow> nat \<Rightarrow> json \<Rightarrow> string \<Rightarrow> ('c api, unit) act" where
  "put_machine_state S now mac state = with_db (update_state (sv_engine S) now mac state)"

definition record_discovery_data :: "'c server \<Rightarrow> request \<Rightarrow> 'c handler" where
  "record_discovery_data S rq =
     (case rq_body rq of
        None \<Rightarrow> ret discovery_error
      | Some data \<Rightarrow>
          tryA
            (bindA (with_db (upsert (sv_engine S) (verify_fqdn S) (sv_dns S) (rq_now rq) data)) (\<lambda>new.
             bindA (liftA (bindE (jget data ''boot-info'') (\<lambda>b. jget b ''mac''))) (\<lambda>mac.
             bindA (put_machine_state S (rq_now rq) mac st_discovery) (\<lambda>_.
             bindA (cache_drop S (rq_path rq)) (\<lambda>_.
               ret (jsonify (JObj [(''new-discovery'', JBool new)]) 200))))))
            (\<lambda>x. if x = TypeError then Some (ret discovery_error) else None))"

text \<open>\<open>if not all_data\<close>: a cached empty list is fetched again.\<close>

definition get_discovery_data :: "'c server \<Rightarrow> request \<Rightarrow> 'c handler" where
  "get_discovery_data S rq =
     bindA (cache_lookup S (rq_now rq) (rq_path rq)) (\<lambda>hit.
       case hit of
         Some v \<Rightarrow>
           if truthy v then ret (jsonify v 200)
           else bindA (with_db (fetch_all_discovery (sv_engine S))) (\<lambda>js.
                bindA (cache_store S (rq_now rq) (rq_path rq) (JList js) 30) (\<lambda>_. ret (jsonify (JList js) 200)))
       | None \<Rightarrow>
           bindA (with_db (fetch_all_discovery (sv_engine S))) (\<lambda>js.
           bindA (cache_store S (rq_now rq) (rq_path rq) (JList js) 30) (\<lambda>_. ret (jsonify (JList js) 200))))"

section \<open>Scheduler\<close>

definition scheduler_get :: "'c server \<Rightarrow> request \<Rightarrow> 'c handler" where
  "scheduler_get S rq =
     bindA (cache_lookup S (rq_now rq) (rq_path rq)) (\<lambda>hit.
       case hit of
         Some v \<Rightarrow> ret (jsonify v 200)
       | None \<Rightarrow>
           bindA (read_db (get_all_schedules (sv_engine S))) (\<lambda>v.
           bindA (cache_store S (rq_now rq) (rq_path rq) v 10) (\<lambda>_. ret (jsonify v 200))))"

definition scheduler_error :: response where
  "scheduler_error =
     jsonify (JObj [(''roles'', strs ScheduleRoles_roles), (''selector'', JObj [(''mac'', JStr '''')])]) 406"

definition scheduler_post :: "'c server \<Rightarrow> request \<Rightarrow> 'c handler" where
  "scheduler_post S rq =
     (case rq_body rq of
        None \<Rightarrow> ret scheduler_error
      | Some req \<Rightarrow>
          bindA (with_db (create_schedule (sv_engine S) (rq_now rq) req)) (\<lambda>_.
          bindA (cache_drop S (rq_path rq)) (\<lambda>_. ret (jsonify req 200))))"

definition get_schedule_by_role :: "'c server \<Rightarrow> string \<Rightarrow> 'c handler" where
  "get_schedule_by_role S role =
     bindA (read_db (get_machines_by_roles (sv_engine S) (split_on CHR ''&'' role))) (\<lambda>js. ret (jsonify (JList js) 200))"

definition get_available_machine :: "'c server \<Rightarrow> 'c handler" where
  "get_available_machine S =
     bindA (read_db (get_available_machines (sv_engine S))) (\<lambda>js. ret (jsonify (JList js) 200))"

definition get_schedule_role_ip_list :: "'c server \<Rightarrow> string \<Rightarrow> 'c handler" where
  "get_schedule_role_ip_list S role =
     bindA (read_db (get_role_ip_list (sv_engine S) role)) (\<lambda>ips. ret (jsonify (strs ips) 200))"

section \<open>Installation\<close>

text \<open>The lock is set before the mac is parsed.\<close>

definition grant_install :: "'c server \<Rightarrow> request \<Rightarrow> string \<Rightarrow> 'c handler" where
  "grant_install S rq raw_query =
     bindA (liftA (get_mac_from_raw_query raw_query)) (\<lambda>mac.
     bindA (put_machine_state S (rq_now rq) (JStr mac) st_granted) (\<lambda>_. ret (plain ''Granted'' 200)))"

definition deny_install :: "'c server \<Rightarrow> request \<Rightarrow> string \<Rightarrow> json \<Rightarrow> 'c handler" where
  "deny_install S rq raw_query lock =
     bindA (liftA (get_mac_from_raw_query raw_query)) (\<lambda>mac.
     bindA (put_machine_state S (rq_now rq) (JStr mac) st_denied) (\<lambda>_. ret (plain (''Locked by '' @ py_str lock) 403)))"

definition require_install_authorization :: "'c server \<Rightarrow> request \<Rightarrow> string \<Rightarrow> 'c handler" where
  "require_install_authorization S rq raw_query =
     bindA (liftA (attr (sv_ec S) ''coreos_install_lock_seconds'')) (\<lambda>seconds.
     bindA (liftA (positive seconds)) (\<lambda>locking.
       if locking then
         bindA (cache_lookup S (rq_now rq) ''lock-install'') (\<lambda>hit.
           case hit of
             Some lock \<Rightarrow> deny_install S rq raw_query lock
           | None \<Rightarrow>
               bindA (liftA (py_int seconds)) (\<lambda>n.
               bindA (cache_store S (rq_now rq) ''lock-install'' (JStr raw_query) n) (\<lambda>_.
                 grant_install S rq raw_query)))
       else grant_install S rq raw_query))"

section \<open>Lifecycle\<close>

definition lifecycle_get_coreos_install_status :: "'c server \<Rightarrow> 'c handler" where
  "lifecycle_get_coreos_install_status S =
     bindA (read_db (get_all_coreos_install_status (sv_engine S))) (\<lambda>js. ret (jsonify (JList js) 200))"

definition report_lifecycle_coreos_install :: "'c server \<Rightarrow> request \<Rightarrow> string \<Rightarrow> string \<Rightarrow> 'c handler" where
  "report_lifecycle_coreos_install S rq status_text raw_query =
     (let E = sv_engine S; report = (\<lambda>success.
        bindA (with_db (session_commit (\<lambda>d. bindE (inject_machine E raw_query d) (\<lambda>m.
          bindE (refresh_lifecycle_coreos_install E (rq_now rq) (m_id m) success d) (\<lambda>d'. ok ((), d')))))) (\<lambda>_.
        bindA (liftA (get_mac_from_raw_query raw_query)) (\<lambda>mac.
        bindA (put_machine_state S (rq_now rq) (JStr mac) (if success then st_succeed else st_failed)) (\<lambda>_.
          ret (jsonify (JObj [(''success'', JBool success), (''request_raw_query'', JStr raw_query)]) 200))))) in
      if to_lower status_text = ''success'' then report True
      else if to_lower status_text = ''fail'' then report False
      else ret (plain (''success or fail != '' @ to_lower status_text) 403))"

definition lifecycle_get_ignition_status :: "'c server \<Rightarrow> 'c handler" where
  "lifecycle_get_ignition_status S =
     bindA (read_db (get_all_updated_status (sv_engine S))) (\<lambda>js. ret (jsonify (JList js) 200))"

definition message :: "string \<Rightarrow> nat \<Rightarrow> response" where
  "message t n = jsonify (JObj [(''message'', JStr t)]) n"

definition same_json :: "json \<Rightarrow> json \<Rightarrow> bool" where
  "same_json a b = (dumps_sorted a = dumps_sorted b)"

definition submit_lifecycle_ignition :: "'c server \<Rightarrow> request \<Rightarrow> string \<Rightarrow> 'c handler" where
  "submit_lifecycle_ignition S rq raw_query =
     (case rq_body rq of
        None \<Rightarrow> ret (message ''FlaskValueError'' 406)
      | Some machine_ignition \<Rightarrow>
          bindA (liftA (attr (sv_ec S) ''matchbox_uri'')) (\<lambda>uri.
          bindA (liftA (sv_http S (py_str uri @ ''/ignition?'' @ raw_query))) (\<lambda>reply.
            case rp_json reply of
              None \<Rightarrow> ret (message ''MatchboxValueError'' 406)
            | Some matchbox_ignition \<Rightarrow>
                let E = sv_engine S; uptodate = same_json machine_ignition matchbox_ignition in
                tryA
                  (bindA (with_db (session_commit (\<lambda>d. bindE (inject_machine E raw_query d) (\<lambda>m.
                     bindE (refresh_lifecycle_ignition E (rq_now rq) (m_id m) uptodate d) (\<lambda>d'. ok ((), d')))))) (\<lambda>_.
                   ret (if uptodate then message ''Up-to-date'' 200 else message ''Outdated'' 210)))
                  (\<lambda>x. if x = AttributeError then Some (ret (message ''Unknown'' 406)) else None))))"

definition lifecycle_rolling_all :: "'c server \<Rightarrow> 'c handler" where
  "lifecycle_rolling_all S =
     bindA (read_db (\<lambda>d. ok (get_all_rolling_status (sv_engine S) d))) (\<lambda>js. ret (jsonify (JList js) 200))"

definition rolling_reply :: "json \<Rightarrow> string \<Rightarrow> json \<Rightarrow> nat \<Rightarrow> response" where
  "rolling_reply enable raw_query strategy n =
     jsonify (JObj [(''enable'', enable), (''request_raw_query'', JStr raw_query), (''strategy'', strategy)]) n"

definition report_lifecycle_rolling :: "'c server \<Rightarrow> string \<Rightarrow> 'c handler" where
  "report_lifecycle_rolling S raw_query =
     (case get_mac_from_raw_query raw_query of
        Inl AttributeError \<Rightarrow>
          ret (jsonify (JObj [(''enable'', JNull),
            (''request_raw_query'', JStr (raw_query @ '':'' @ raw_query @ '' is not parsable''))]) 403)
      | Inl x \<Rightarrow> raiseA x
      | Inr mac \<Rightarrow>
          bindA (read_db (\<lambda>d. ok (get_rolling_status (sv_engine S) mac d))) (\<lambda>st.
            ret (case st of
                Some (True, strategy) \<Rightarrow> rolling_reply (JBool True) raw_query (opt_str strategy) 200
              | Some (False, strategy) \<Rightarrow> rolling_reply (JBool False) raw_query (opt_str strategy) 403
              | None \<Rightarrow> rolling_reply (JBool False) raw_query JNull 401)))"

definition apply_rolling :: "'c server \<Rightarrow> nat \<Rightarrow> string \<Rightarrow> bool \<Rightarrow> json \<Rightarrow> ('c api, unit) act" where
  "apply_rolling S now raw_query enable strategy =
     (let E = sv_engine S in
      with_db (session_commit (\<lambda>d. bindE (inject_machine E raw_query d) (\<lambda>m.
        bindE (apply_lifecycle_rolling E now (m_id m) (enable, strategy) d) (\<lambda>d'. ok ((), d'))))))"

text \<open>A body that is no JSON, or an object without the key, stands for the default strategy.\<close>

definition requested_strategy :: "json option \<Rightarrow> json result" where
  "requested_strategy body =
     (case body of
        None \<Rightarrow> ok (JStr ''kexec'')
      | Some b \<Rightarrow>
          (case jget b ''strategy'' of
             Inl (KeyError _) \<Rightarrow> ok (JStr ''kexec'')
           | Inl x \<Rightarrow> raise x
           | Inr v \<Rightarrow> ok v))"

definition change_lifecycle_rolling :: "'c server \<Rightarrow> request \<Rightarrow> string \<Rightarrow> 'c handler" where
  "change_lifecycle_rolling S rq raw_query =
     bindA (liftA (requested_strategy (rq_body rq))) (\<lambda>strategy.
       tryA
         (bindA (apply_rolling S (rq_now rq) raw_query True strategy) (\<lambda>_.
          ret (rolling_reply (JBool True) raw_query strategy 200)))
         (\<lambda>x. if x = AttributeError then Some (ret (rolling_reply JNull raw_query strategy 401)) else None))"

definition lifecycle_rolling_delete :: "'c server \<Rightarrow> request \<Rightarrow> string \<Rightarrow> 'c handler" where
  "lifecycle_rolling_delete S rq raw_query =
     bindA (apply_rolling S (rq_now rq) raw_query False JNull) (\<lambda>_.
       ret (jsonify (JObj [(''enable'', JBool False), (''request_raw_query'', JStr raw_query)]) 200))"

section \<open>Matchbox\<close>

definition matchbox_absent :: "'c server \<Rightarrow> nat \<Rightarrow> response" where
  "matchbox_absent S n = plain (''matchbox='' @ py_str (MATCHBOX_URI (sv_app S))) n"

definition full_path :: "request \<Rightarrow> string" where
  "full_path rq = rq_path rq @ ''?'' @ rq_query rq"

definition assets :: "'c server \<Rightarrow> string \<Rightarrow> 'c handler" where
  "assets S path =
     (let uri = MATCHBOX_URI (sv_app S) in
      if truthy uri then
        bindA (liftA (sv_http S (py_str uri @ ''/assets/'' @ path))) (\<lambda>r. ret (plain (rp_content r) 200))
      else ret (matchbox_absent S 404))"

definition boot_script :: "string \<Rightarrow> string" where
  "boot_script uri = ''#!ipxe'' @ [newline] @ ''echo start /boot.ipxe'' @ [newline] @ '':retry_dhcp'' @ [newline] @
     ''dhcp || goto retry_dhcp'' @ [newline] @ ''chain '' @ uri @ ''/ipxe?'' @ ''uuid=${uuid}&'' @
     ''mac=${net0/mac:hexhyp}&'' @ ''domain=${domain}&'' @ ''hostname=${hostname}&'' @ ''serial=${serial}'' @ [newline]"

definition boot_ipxe :: "'c server \<Rightarrow> 'c handler" where
  "boot_ipxe S =
     (let api = API_URI (sv_app S); mb = MATCHBOX_URI (sv_app S) in
      if api \<noteq> JNull then ret (plain (boot_script (py_str api)) 200)
      else if mb = JNull then raiseA AttributeError
      else ret (plain (boot_script (py_str mb)) 200))"

text \<open>\<open>/ignition\<close> is refused until a synchronisation was notified; the discovery boot is not.\<close>

definition ignition_pxe :: "request \<Rightarrow> bool" where
  "ignition_pxe rq = (rq_path rq = ''/ignition-pxe'')"

definition ask_ignition :: "'c server \<Rightarrow> request \<Rightarrow> 'c handler" where
  "ask_ignition S rq =
     tryA
       (bindA (liftA (sv_http S (py_str (MATCHBOX_URI (sv_app S)) @
           str_replace ''/ignition-pxe?'' ''/ignition?'' (full_path rq)))) (\<lambda>r.
        ret (plain (rp_content r) (rp_status r))))
       (\<lambda>x. if x = ConnectionError \<or> x = RequestException
            then Some (ret (plain (''matchbox doesn'' @ [CHR 0x27] @ ''t respond'') 502))
            else None)"

definition ignition_route :: "'c server \<Rightarrow> request \<Rightarrow> 'c handler" where
  "ignition_route S rq =
     bindA (cache_lookup S (rq_now rq) ''sync-notify'') (\<lambda>last_sync_ts.
       if last_sync_ts = None \<and> \<not> ignition_pxe rq then ret (plain ''matchbox is out of sync'' 503)
       else if truthy (MATCHBOX_URI (sv_app S)) then ask_ignition S rq
       else ret (matchbox_absent S 403))"

definition get_ignition_versions :: "'c server \<Rightarrow> request \<Rightarrow> 'c handler" where
  "get_ignition_versions S rq =
     bindA (cache_lookup S (rq_now rq) ''ignition-version'') (\<lambda>v.
       ret (jsonify (case v of None \<Rightarrow> JNull | Some j \<Rightarrow> j) 200))"

fun as_dict :: "json option \<Rightarrow> dict" where
  "as_dict (Some (JObj d)) = d"
| "as_dict _ = []"

definition report_ignition_version :: "'c server \<Rightarrow> request \<Rightarrow> string \<Rightarrow> 'c handler" where
  "report_ignition_version S rq filename =
     bindA (cache_lookup S (rq_now rq) ''ignition-version'') (\<lambda>hit.
     let versions = as_dict hit; new_entry = (filename \<notin> fst ` set versions) in
     bindA (liftA (case rq_body rq of None \<Rightarrow> raise ValueError | Some data \<Rightarrow> jget data filename)) (\<lambda>v.
     let versions' = dict_set versions filename v in
     bindA (cache_store S (rq_now rq) ''ignition-version'' (JObj versions') 0) (\<lambda>_.
       ret (jsonify (JObj [(''new'', JBool new_entry), (''total'', JInt (int (length versions')))]) 200))))"

definition ipxe :: "'c server \<Rightarrow> request \<Rightarrow> 'c handler" where
  "ipxe S rq =
     tryA
       (bindA (liftA (sv_http S (py_str (MATCHBOX_URI (sv_app S)) @ full_path rq))) (\<lambda>r.
        bindA (liftA (rp_text r)) (\<lambda>text.
        bindA (case map_of (rq_args rq) ''mac'' of
                 Some (c # cs) \<Rightarrow> put_machine_state S (rq_now rq) (JStr (str_replace ''-'' '':'' (c # cs))) st_booting
               | _ \<Rightarrow> ret ()) (\<lambda>_.
          ret (plain text 200)))))
       (\<lambda>x. if x = ConnectionError then Some (ret (plain ''404'' 404)) else None)"

definition metadata :: "'c server \<Rightarrow> request \<Rightarrow> 'c handler" where
  "metadata S rq =
     (let uri = MATCHBOX_URI (sv_app S) in
      if truthy uri then
        bindA (liftA (sv_http S (py_str uri @ full_path rq))) (\<lambda>r. ret (plain (rp_content r) (rp_status r)))
      else ret (matchbox_absent S 403))"

definition sync_notify :: "'c server \<Rightarrow> request \<Rightarrow> 'c handler" where
  "sync_notify S rq =
     bindA (liftA (attr (sv_ec S) ''sync_notify_ttl'')) (\<lambda>ttl.
     bindA (liftA (py_int ttl)) (\<lambda>n.
     bindA (cache_store S (rq_now rq) ''sync-notify'' (date (rq_now rq)) n) (\<lambda>_.
       ret (jsonify (JObj [(''ts'', date (rq_now rq)), (''ttl'', ttl)]) 200))))"

definition sync_notify_status :: "'c server \<Rightarrow> request \<Rightarrow> 'c handler" where
  "sync_notify_status S rq =
     bindA (cache_lookup S (rq_now rq) ''sync-notify'') (\<lambda>v.
       ret (case v of
           Some t \<Rightarrow> if truthy t then jsonify (JObj [(''sync-notify'', t)]) 200
             else jsonify (JObj [(''sync-notify'', JBool False)]) 503
         | None \<Rightarrow> jsonify (JObj [(''sync-notify'', JBool False)]) 503))"

section \<open>Operations and views\<close>

definition api_mapper :: "'c server \<Rightarrow> 'c handler" where
  "api_mapper S = ret (jsonify (strs (sort (remdups (sv_rules S)))) 200)"

definition backup_as_export :: "'c server \<Rightarrow> 'c handler" where
  "backup_as_export S = bindA (read_db (get_playbook (sv_engine S))) (\<lambda>js. ret (jsonify (JList js) 200))"

definition configs_route :: "'c server \<Rightarrow> 'c handler" where
  "configs_route S = ret (jsonify (JObj (config_dict (sv_ec S))) 200)"

definition healthz_route :: "'c server \<Rightarrow> request \<Rightarrow> 'c handler" where
  "healthz_route S rq =
     bindA (ops_healthz S rq) (\<lambda>data.
     bindA (liftA (jget data ''global'')) (\<lambda>g. ret (jsonify data (if g = JBool False then 503 else 200))))"

definition shutdown_route :: "'c server \<Rightarrow> 'c handler" where
  "shutdown_route S = bindA (ops_shutdown S) (\<lambda>v. ret (jsonify v 200))"

definition user_interface :: "'c server \<Rightarrow> 'c handler" where
  "user_interface S = ret (plain (sv_index S) 200)"

definition user_view_machine :: "'c server \<Rightarrow> 'c handler" where
  "user_view_machine S =
     bindA (liftA (bindE (attr (sv_ec S) ''disks_ladder_gb'') ladder_of)) (\<lambda>ladder.
     bindA (read_db (get_machines_overview (sv_engine S) ladder)) (\<lambda>js. ret (jsonify (JList js) 200)))"

definition user_view_machine_statuses :: "'c server \<Rightarrow> request \<Rightarrow> 'c handler" where
  "user_view_machine_statuses S rq =
     bindA (liftA (case map_of (rq_args rq) ''data_since_last_min'' of
         Some (c # cs) \<Rightarrow> int_of_str (c # cs) | _ \<Rightarrow> ok 30)) (\<lambda>minutes.
     bindA (read_db (\<lambda>d. ok (fetch_states (sv_engine S) (rq_now rq) minutes d))) (\<lambda>js. ret (jsonify (JList js) 200)))"

section \<open>The URL map\<close>

text \<open>
  The methods and the handler behind a path, given by its segments. A fixed segment wins over a
  variable one (\<open>/scheduler/available\<close> over \<open>/scheduler/<role>\<close>); a variable segment is not empty.
\<close>

definition routes_of_1 :: "'c server \<Rightarrow> request \<Rightarrow> string \<Rightarrow> (string \<times> 'c handler) list" where
  "routes_of_1 S rq a =
     (if a = '''' then [(''GET'', api_mapper S)]
      else if a = ''assets'' then [(''GET'', assets S '''')]
      else if a = ''boot.ipxe'' \<or> a = ''boot.ipxe.0'' then [(''GET'', boot_ipxe S)]
      else if a = ''config'' \<or> a = ''configs'' then [(''GET'', configs_route S)]
      else if a = ''discovery'' then [(''POST'', record_discovery_data S rq), (''GET'', get_discovery_data S rq)]
      else if a = ''healthz'' then [(''GET'', healthz_route S rq)]
      else if a = ''ignition'' \<or> a = ''ignition-pxe'' then [(''GET'', ignition_route S rq)]
      else if a = ''ipxe'' then [(''GET'', ipxe S rq)]
      else if a = ''metadata'' then [(''GET'', metadata S rq)]
      else if a = ''scheduler'' then [(''GET'', scheduler_get S rq), (''POST'', scheduler_post S rq)]
      else if a = ''shutdown'' then [(''POST'', shutdown_route S)]
      else if a = ''sync-notify'' then [(''POST'', sync_notify S rq), (''GET'', sync_notify_status S rq)]
      else if a = ''ui'' then [(''GET'', user_interface S)]
      else [])"

definition routes_of_2 :: "'c server \<Rightarrow> request \<Rightarrow> string \<Rightarrow> string \<Rightarrow> (string \<times> 'c handler) list" where
  "routes_of_2 S rq a b =
     (if a = ''backup'' \<and> b = ''export'' then [(''GET'', backup_as_export S)]
      else if a = ''ignition'' \<and> b = ''version'' then [(''GET'', get_ignition_versions S rq)]
      else if a = ''install-authorization'' \<and> b \<noteq> '''' then [(''GET'', require_install_authorization S rq b)]
      else if a = ''lifecycle'' \<and> b = ''coreos-install'' then [(''GET'', lifecycle_get_coreos_install_status S)]
      else if a = ''lifecycle'' \<and> b = ''ignition'' then [(''GET'', lifecycle_get_ignition_status S)]
      else if a = ''lifecycle'' \<and> b = ''rolling'' then [(''GET'', lifecycle_rolling_all S)]
      else if a = ''scheduler'' \<and> b = ''available'' then [(''GET'', get_available_machine S)]
      else if a = ''scheduler'' \<and> b \<noteq> '''' then [(''GET'', get_schedule_by_role S b)]
      else [])"

definition routes_of_3 :: "'c server \<Rightarrow> request \<Rightarrow> string \<Rightarrow> string \<Rightarrow> string \<Rightarrow> (string \<times> 'c handler) list" where
  "routes_of_3 S rq a b c =
     (if c = '''' then []
      else if a = ''ignition'' \<and> b = ''version'' then [(''POST'', report_ignition_version S rq c)]
      else if a = ''lifecycle'' \<and> b = ''ignition'' then [(''POST'', submit_lifecycle_ignition S rq c)]
      else if a = ''lifecycle'' \<and> b = ''rolling'' then
        [(''GET'', report_lifecycle_rolling S c), (''POST'', change_lifecycle_rolling S rq c),
         (''DELETE'', lifecycle_rolling_delete S rq c)]
      else if a = ''scheduler'' \<and> b = ''ip-list'' then [(''GET'', get_schedule_role_ip_list S c)]
      else if a = ''ui'' \<and> b = ''view'' \<and> c = ''machine'' then [(''GET'', user_view_machine S)]
      else if a = ''ui'' \<and> b = ''view'' \<and> c = ''states'' then [(''GET'', user_view_machine_statuses S rq)]
      else [])"

definition routes_of :: "'c server \<Rightarrow> request \<Rightarrow> (string \<times> 'c handler) list" where
  "routes_of S rq =
     (case split_on CHR ''/'' (rq_path rq) of
        [w, a] \<Rightarrow> if w = [] then routes_of_1 S rq a else []
      | [w, a, b] \<Rightarrow>
          if w \<noteq> [] then [] else if a = ''assets'' \<and> b \<noteq> '''' then [(''GET'', assets S b)] else routes_of_2 S rq a b
      | [w, a, b, c] \<Rightarrow>
          if w \<noteq> [] then []
          else if a = ''assets'' \<and> b \<noteq> '''' then [(''GET'', assets S (join_with ''/'' [b, c]))]
          else routes_of_3 S rq a b c
      | [w, a, b, c, e] \<Rightarrow>
          if w \<noteq> [] then []
          else if a = ''assets'' \<and> b \<noteq> '''' then [(''GET'', assets S (join_with ''/'' [b, c, e]))]
          else if a = ''lifecycle'' \<and> b = ''coreos-install'' \<and> c \<noteq> '''' \<and> e \<noteq> ''''
            then [(''POST'', report_lifecycle_coreos_install S rq c e)]
          else []
      | w # a # b # rest \<Rightarrow>
          if w = [] \<and> a = ''assets'' \<and> b \<noteq> '''' then [(''GET'', assets S (join_with ''/'' (b # rest)))] else []
      | _ \<Rightarrow> [])"

definition not_found :: response where
  "not_found = plain ''404'' 404"

definition server_error :: response where
  "server_error = plain ''Internal Server Error'' 500"

text \<open>A request from its path to its response.\<close>

definition serve :: "'c server \<Rightarrow> request \<Rightarrow> 'c api \<Rightarrow> response \<times> 'c api" where
  "serve S rq s =
     (case routes_of S rq of
        [] \<Rightarrow> (not_found, s)
      | hs \<Rightarrow>
          (case map_of hs (rq_method rq) of
             None \<Rightarrow> (plain ''Method Not Allowed'' 405, s)
           | Some h \<Rightarrow> (case h s of (Inl _, s') \<Rightarrow> (server_error, s') | (Inr r, s') \<Rightarrow> (r, s'))))"

text \<open>
  \<open>api.gunicorn\<close>: the application is the repositories over one engine, the cache in the directory of the
  configuration, and the application's own settings. \<open>create_engine\<close>, \<open>FileSystemCache\<close>, the resolver, the
  HTTP client, the templates and the process table are libraries.
\<close>

definition gunicorn_app ::
  "(json \<Rightarrow> engine result) \<Rightarrow> (json \<Rightarrow> 'c cache_ops result) \<Rightarrow> (nat \<Rightarrow> nat \<Rightarrow> nat \<Rightarrow> json \<Rightarrow> string result) \<Rightarrow>
   (string \<Rightarrow> reply result) \<Rightarrow> string list \<Rightarrow> string \<Rightarrow> (int \<Rightarrow> string) \<Rightarrow> config \<Rightarrow> 'c server result" where
  "gunicorn_app create_engine file_system_cache dns http rules index process ec =
     bindE (bindE (attr ec ''db_uri'') create_engine) (\<lambda>E.
     bindE (bindE (attr ec ''werkzeug_fs_cache_dir'') file_system_cache) (\<lambda>K.
     bindE (create_app ec) (\<lambda>app.
       ok \<lparr>sv_engine = E, sv_dns = dns, sv_ec = ec, sv_app = app, sv_cache = K, sv_http = http, sv_rules = rules,
           sv_index = index, sv_process = process\<rparr>)))"

end
