(* ===== verification/Routes_Facts.thy ===== *)
theory Routes_Facts
  imports Routes
begin

text \<open>
  What the API guarantees about its cache across whole runs of requests: the installation lock and
  the synchronisation mark are written by their own routes only, so a granted lock refuses every
  later request until it expires and \<open>/ignition\<close> stays refused until a synchronisation is notified.
\<close>

section \<open>Actions that leave a cache entry alone\<close>

named_theorems keeps_intros \<open>actions that keep the entry of a key\<close>

definition keeps :: "'c cache_ops \<Rightarrow> string \<Rightarrow> ('c api, 'a) act \<Rightarrow> bool" where
  "keeps K k m \<longleftrightarrow> (\<forall>s u. cache_get K u k (a_cache (snd (m s))) = cache_get K u k (a_cache s))"

lemma keepsD: "keeps K k m \<Longrightarrow> m s = (r, s') \<Longrightarrow> cache_get K u k (a_cache s') = cache_get K u k (a_cache s)"
  unfolding keeps_def by (metis snd_conv)

lemma keeps_basic [keeps_intros]:
  "keeps K k (ret a)" "keeps K k (raiseA x)" "keeps K k (liftA r)" "keeps K k (with_db f)" "keeps K k (read_db g)"
  "keeps K k (on_world h)" "keeps K k (cache_lookup S now j)"
  by (simp_all add: keeps_def act_simps)

lemma keeps_bind [keeps_intros]:
  "keeps K k m \<Longrightarrow> (\<And>a. keeps K k (f a)) \<Longrightarrow> keeps K k (bindA m f)"
  unfolding keeps_def bindA_run by (auto split: prod.splits sum.splits) (metis snd_conv)+

lemma keeps_try [keeps_intros]:
  "keeps K k m \<Longrightarrow> (\<And>x g. h x = Some g \<Longrightarrow> keeps K k g) \<Longrightarrow> keeps K k (tryA m h)"
  unfolding keeps_def tryA_run by (auto split: prod.splits sum.splits option.splits) (metis snd_conv)+

lemma keeps_store [keeps_intros]:
  "cache_ok (sv_cache S) \<Longrightarrow> k \<noteq> j \<Longrightarrow> keeps (sv_cache S) k (cache_store S now j v n)"
  by (simp add: keeps_def act_simps cache_laws)

lemma keeps_drop [keeps_intros]:
  "cache_ok (sv_cache S) \<Longrightarrow> k \<noteq> j \<Longrightarrow> keeps (sv_cache S) k (cache_drop S j)"
  by (simp add: keeps_def act_simps cache_laws)

lemma keeps_cases [keeps_intros]:
  "(b \<Longrightarrow> keeps K k m) \<Longrightarrow> (\<not> b \<Longrightarrow> keeps K k m') \<Longrightarrow> keeps K k (if b then m else m')"
  "(r = None \<Longrightarrow> keeps K k m) \<Longrightarrow> (\<And>a. r = Some a \<Longrightarrow> keeps K k (f a)) \<Longrightarrow> keeps K k (case r of None \<Rightarrow> m | Some a \<Rightarrow> f a)"
  by (auto split: option.splits)

lemma keeps_for [keeps_intros]: "(\<And>x. keeps K k (f x)) \<Longrightarrow> keeps K k (forA f xs)"
  by (induction xs) (auto intro!: keeps_intros)

lemma keeps_pid [keeps_intros]: "keeps K k (pid_or_none p)"
  unfolding pid_or_none_def by (auto intro!: keeps_intros split: if_splits)

lemma keeps_collect [keeps_intros]: "keeps K k (collect_pids ps)"
  by (induction ps) (auto intro!: keeps_intros)

lemmas handler_defs =
  record_discovery_data_def get_discovery_data_def put_machine_state_def scheduler_get_def scheduler_post_def
  get_schedule_by_role_def get_available_machine_def get_schedule_role_ip_list_def
  lifecycle_get_coreos_install_status_def report_lifecycle_coreos_install_def lifecycle_get_ignition_status_def
  submit_lifecycle_ignition_def lifecycle_rolling_all_def report_lifecycle_rolling_def apply_rolling_def
  change_lifecycle_rolling_def lifecycle_rolling_delete_def assets_def boot_ipxe_def ask_ignition_def ignition_route_def
  get_ignition_versions_def ipxe_def metadata_def sync_notify_status_def api_mapper_def backup_as_export_def
  configs_route_def healthz_route_def ops_healthz_def shutdown_route_def ops_shutdown_def terminate_def
  user_interface_def user_view_machine_def user_view_machine_statuses_def

lemma keeps_rolling_report [keeps_intros]: "keeps K k (report_lifecycle_rolling S q)"
  unfolding report_lifecycle_rolling_def by (auto intro!: keeps_intros split: sum.splits exn.splits)

lemma keeps_ipxe [keeps_intros]: "keeps K k (ipxe S rq)"
  unfolding ipxe_def put_machine_state_def by (auto intro!: keeps_intros split: option.splits list.splits if_splits)

lemma keeps_plain_routes [keeps_intros]:
  "keeps K k (get_schedule_by_role S r)" "keeps K k (get_available_machine S)" "keeps K k (get_schedule_role_ip_list S r)"
  "keeps K k (lifecycle_get_coreos_install_status S)" "keeps K k (report_lifecycle_coreos_install S rq st q)"
  "keeps K k (lifecycle_get_ignition_status S)" "keeps K k (submit_lifecycle_ignition S rq q)"
  "keeps K k (lifecycle_rolling_all S)" "keeps K k (change_lifecycle_rolling S rq q)"
  "keeps K k (lifecycle_rolling_delete S rq q)" "keeps K k (assets S p)" "keeps K k (boot_ipxe S)"
  "keeps K k (ignition_route S rq)" "keeps K k (get_ignition_versions S rq)" "keeps K k (metadata S rq)"
  "keeps K k (sync_notify_status S rq)" "keeps K k (api_mapper S)" "keeps K k (backup_as_export S)"
  "keeps K k (configs_route S)" "keeps K k (healthz_route S rq)" "keeps K k (shutdown_route S)"
  "keeps K k (user_interface S)" "keeps K k (user_view_machine S)" "keeps K k (user_view_machine_statuses S rq)"
  unfolding handler_defs Let_def by (auto intro!: keeps_intros split: if_splits)

lemma keeps_writers:
  assumes "cache_ok (sv_cache S)"
  shows "k \<noteq> rq_path rq \<Longrightarrow> keeps (sv_cache S) k (record_discovery_data S rq)"
    and "k \<noteq> rq_path rq \<Longrightarrow> keeps (sv_cache S) k (get_discovery_data S rq)"
    and "k \<noteq> rq_path rq \<Longrightarrow> keeps (sv_cache S) k (scheduler_get S rq)"
    and "k \<noteq> rq_path rq \<Longrightarrow> keeps (sv_cache S) k (scheduler_post S rq)"
    and "k \<noteq> ''ignition-version'' \<Longrightarrow> keeps (sv_cache S) k (report_ignition_version S rq f)"
  using assms
  unfolding record_discovery_data_def get_discovery_data_def scheduler_get_def scheduler_post_def
    report_ignition_version_def put_machine_state_def Let_def
  by (auto intro!: keeps_intros split: if_splits)

section \<open>Runs of requests\<close>

lemma path_segments: "split_on CHR ''/'' p = ws \<Longrightarrow> p = join_with ''/'' ws"
  using join_split by metis

text \<open>Besides the two routes that own them nothing writes the lock and the mark.\<close>

definition asks_install :: "request \<Rightarrow> string \<Rightarrow> bool" where
  "asks_install rq q \<longleftrightarrow> rq_method rq = ''GET'' \<and> q \<noteq> '''' \<and> split_on CHR ''/'' (rq_path rq) = ['''', ''install-authorization'', q]"

definition notifies_sync :: "request \<Rightarrow> bool" where
  "notifies_sync rq \<longleftrightarrow> rq_method rq = ''POST'' \<and> rq_path rq = ''/sync-notify''"

lemma keeps_sync_notify: "cache_ok (sv_cache S) \<Longrightarrow> k \<noteq> ''sync-notify'' \<Longrightarrow> keeps (sv_cache S) k (sync_notify S rq)"
  unfolding sync_notify_def by (auto intro!: keeps_intros)

lemma keeps_install:
  "cache_ok (sv_cache S) \<Longrightarrow> k \<noteq> ''lock-install'' \<Longrightarrow> keeps (sv_cache S) k (require_install_authorization S rq q)"
  unfolding require_install_authorization_def grant_install_def deny_install_def put_machine_state_def
  by (auto intro!: keeps_intros split: if_splits)

text \<open>Every entry of a part of the URL map, without the conditions under which it is there.\<close>

definition all_entries :: "(string \<Rightarrow> 'c handler \<Rightarrow> bool) \<Rightarrow> (string \<times> 'c handler) list \<Rightarrow> bool" where
  "all_entries P hs \<longleftrightarrow> (\<forall>e\<in>set hs. P (fst e) (snd e))"

lemma all_entries_intros:
  "all_entries P []" "P m h \<Longrightarrow> all_entries P hs \<Longrightarrow> all_entries P ((m, h) # hs)"
  "(b \<Longrightarrow> all_entries P hs) \<Longrightarrow> all_entries P hs' \<Longrightarrow> all_entries P (if b then hs else hs')"
  by (auto simp: all_entries_def)

lemma all_entriesD: "all_entries P hs \<Longrightarrow> (m, h) \<in> set hs \<Longrightarrow> P m h"
  by (auto simp: all_entries_def)

lemma routes_1_keep:
  assumes "cache_ok (sv_cache S)" "k \<noteq> rq_path rq"
  shows "all_entries (\<lambda>m h. keeps (sv_cache S) k h \<or> (m = ''POST'' \<and> a = ''sync-notify'' \<and> h = sync_notify S rq))
    (routes_of_1 S rq a)"
  unfolding routes_of_1_def
  by (intro all_entries_intros; (rule disjI1, (rule keeps_plain_routes keeps_ipxe keeps_writers(1-4) [OF assms]) | simp))

lemma routes_2_keep:
  assumes "cache_ok (sv_cache S)"
  shows "all_entries (\<lambda>m h. keeps (sv_cache S) k h \<or>
      (m = ''GET'' \<and> a = ''install-authorization'' \<and> b \<noteq> '''' \<and> h = require_install_authorization S rq b))
    (routes_of_2 S rq a b)"
  unfolding routes_of_2_def
  by (intro all_entries_intros; (rule disjI1, rule keeps_plain_routes | simp))

lemma routes_3_keep:
  assumes "cache_ok (sv_cache S)" "k \<noteq> ''ignition-version''"
  shows "all_entries (\<lambda>m h. keeps (sv_cache S) k h) (routes_of_3 S rq a b c)"
  unfolding routes_of_3_def
  by (intro all_entries_intros; rule keeps_plain_routes keeps_rolling_report keeps_writers(5) [OF assms])

lemma routes_of_parts:
  fixes S :: "'c server"
  obtains (none) "routes_of S rq = []"
    | (assets) p where "routes_of S rq = [(''GET'', assets S p)]"
    | (one) a where "split_on CHR ''/'' (rq_path rq) = ['''', a]" "routes_of S rq = routes_of_1 S rq a"
    | (two) a b where "split_on CHR ''/'' (rq_path rq) = ['''', a, b]" "routes_of S rq = routes_of_2 S rq a b"
    | (three) a b c where "split_on CHR ''/'' (rq_path rq) = ['''', a, b, c]" "routes_of S rq = routes_of_3 S rq a b c"
    | (four) c e where "routes_of S rq = [(''POST'', report_lifecycle_coreos_install S rq c e)]"
proof -
  define assets_segment :: string where "assets_segment = ''assets''"
  define lifecycle_segment :: string where "lifecycle_segment = ''lifecycle''"
  define install_segment :: string where "install_segment = ''coreos-install''"
  note d = routes_of_def [of S rq, folded assets_segment_def lifecycle_segment_def install_segment_def]
  show thesis
  proof (cases "split_on CHR ''/'' (rq_path rq)")
    case Nil
    then show thesis by simp
  next
    case w: (Cons w ws)
    show thesis
    proof (cases ws)
      case Nil
      with w d show thesis using none by simp
    next
      case a: (Cons a as)
      show thesis
      proof (cases "w = []")
        case False
        then have "routes_of S rq = []" using w a d by (auto split: list.splits)
        then show thesis by (rule none)
      next
        case w0: True
        consider "as = []" | b where "as = [b]" | b c where "as = [b, c]" | b c e where "as = [b, c, e]"
          | b c e f fs where "as = b # c # e # f # fs"
          by (metis list.exhaust)
        then show thesis
          using w a w0 d none assets one two three four by cases (auto split: if_splits)
      qed
    qed
  qed
qed

lemma routes_keep:
  assumes S: "cache_ok (sv_cache S)" and k: "k \<noteq> ''ignition-version''" "rq_path rq = k \<Longrightarrow> CHR ''/'' \<notin> set k"
  shows "all_entries (\<lambda>m h. keeps (sv_cache S) k h \<or>
      (m = ''POST'' \<and> rq_path rq = ''/sync-notify'' \<and> h = sync_notify S rq) \<or>
      (\<exists>q. m = ''GET'' \<and> q \<noteq> '''' \<and> split_on CHR ''/'' (rq_path rq) = ['''', ''install-authorization'', q] \<and>
         h = require_install_authorization S rq q))
    (routes_of S rq)"
proof (cases rule: routes_of_parts [of S rq])
  case (one a)
  from path_segments [OF one(1)] have p: "rq_path rq = CHR ''/'' # a" by simp
  then have "k \<noteq> rq_path rq" using k(2) by auto
  from routes_1_keep [OF S this, of a] show ?thesis unfolding one(2) p by (auto simp: all_entries_def)
next
  case (two a b)
  from routes_2_keep [OF S, of k a b rq] show ?thesis
    unfolding two by (auto simp: all_entries_def)
next
  case (three a b c)
  from routes_3_keep [OF S k(1), of rq a b c] show ?thesis unfolding three by (auto simp: all_entries_def)
qed (simp_all add: all_entries_def keeps_plain_routes)

lemma serve_runs:
  assumes "all_entries P (routes_of S rq)"
  shows "snd (serve S rq s) = s \<or> (\<exists>h. map_of (routes_of S rq) (rq_method rq) = Some h \<and> P (rq_method rq) h \<and>
    snd (serve S rq s) = snd (h s) \<and> fst (serve S rq s) = (case fst (h s) of Inl _ \<Rightarrow> server_error | Inr r \<Rightarrow> r))"
proof (cases "map_of (routes_of S rq) (rq_method rq)")
  case None
  then show ?thesis by (auto simp: serve_def split: list.splits)
next
  case (Some h)
  from all_entriesD [OF assms map_of_SomeD [OF this]] Some show ?thesis
    by (auto simp: serve_def split: list.splits prod.splits sum.splits)
qed

lemma serve_keep:
  assumes S: "cache_ok (sv_cache S)" and k: "k \<noteq> ''ignition-version''" "rq_path rq = k \<Longrightarrow> CHR ''/'' \<notin> set k"
    and lock: "\<forall>q. asks_install rq q \<longrightarrow> k \<noteq> ''lock-install''" and mark: "notifies_sync rq \<Longrightarrow> k \<noteq> ''sync-notify''"
  shows "cache_get (sv_cache S) u k (a_cache (snd (serve S rq s))) = cache_get (sv_cache S) u k (a_cache s)"
proof -
  have "keeps (sv_cache S) k h \<Longrightarrow>
      cache_get (sv_cache S) u k (a_cache (snd (h s))) = cache_get (sv_cache S) u k (a_cache s)" for h :: "'a handler"
    by (simp add: keeps_def)
  moreover have "keeps (sv_cache S) k (sync_notify S rq)" if "rq_method rq = ''POST''" "rq_path rq = ''/sync-notify''"
    using keeps_sync_notify [OF S mark] that by (simp add: notifies_sync_def)
  moreover have "keeps (sv_cache S) k (require_install_authorization S rq q)"
    if "rq_method rq = ''GET''" "q \<noteq> ''''" "split_on CHR ''/'' (rq_path rq) = ['''', ''install-authorization'', q]" for q
    using keeps_install [OF S] lock that by (simp add: asks_install_def)
  ultimately show ?thesis using serve_runs [OF routes_keep [OF S k], of rq s] by metis
qed

section \<open>The installation lock\<close>

primrec run :: "'c server \<Rightarrow> request list \<Rightarrow> 'c api \<Rightarrow> response list \<times> 'c api" where
  "run S [] s = ([], s)"
| "run S (rq # rqs) s = (case serve S rq s of (r, s1) \<Rightarrow> (case run S rqs s1 of (rs, s2) \<Rightarrow> (r # rs, s2)))"

lemma run_step:
  "fst (run S (rq # rqs) s) = fst (serve S rq s) # fst (run S rqs (snd (serve S rq s)))"
  "snd (run S (rq # rqs) s) = snd (run S rqs (snd (serve S rq s)))"
  by (simp_all add: split_beta)

text \<open>A property of each response follows from a property of the states that the requests keep.\<close>

lemma run_invariant:
  assumes "Inv s" and "\<And>rq s. rq \<in> set rqs \<Longrightarrow> Inv s \<Longrightarrow> Inv (snd (serve S rq s)) \<and> P rq (fst (serve S rq s))"
  shows "list_all2 P rqs (fst (run S rqs s)) \<and> Inv (snd (run S rqs s))"
  using assms
proof (induction rqs arbitrary: s)
  case (Cons rq rqs)
  then have "Inv (snd (serve S rq s))" "P rq (fst (serve S rq s))" by auto
  with Cons.IH [of "snd (serve S rq s)"] Cons.prems(2) show ?case by (simp add: run_step del: run.simps(2))
qed simp

lemma serve_install:
  "asks_install rq q \<Longrightarrow> serve S rq s =
     (case require_install_authorization S rq q s of (Inl _, s') \<Rightarrow> (server_error, s') | (Inr r, s') \<Rightarrow> (r, s'))"
  by (simp add: asks_install_def serve_def routes_of_def routes_of_2_def)

lemma install_locked:
  assumes n: "attr (sv_ec S) ''coreos_install_lock_seconds'' = ok (JInt n)" "0 < n"
    and lock: "cache_get (sv_cache S) (rq_now rq) ''lock-install'' (a_cache s) = Some v"
    and rq: "asks_install rq q"
  shows "status (fst (serve S rq s)) \<in> {403, 500}"
    and "a_cache (snd (serve S rq s)) = a_cache s"
proof -
  have r: "require_install_authorization S rq q s = deny_install S rq q v s"
    using n lock by (simp add: require_install_authorization_def act_simps)
  show "status (fst (serve S rq s)) \<in> {403, 500}" "a_cache (snd (serve S rq s)) = a_cache s"
    unfolding serve_install [OF rq] r deny_install_def put_machine_state_def
    by (auto simp: act_simps plain_def server_error_def split: sum.splits)
qed

lemma install_granted:
  assumes S: "cache_ok (sv_cache S)" and n: "attr (sv_ec S) ''coreos_install_lock_seconds'' = ok (JInt n)" "0 < n"
    and rq: "asks_install rq q" and granted: "status (fst (serve S rq s)) = 200"
  shows "a_cache (snd (serve S rq s)) = cache_set (sv_cache S) (rq_now rq) ''lock-install'' (JStr q) n (a_cache s)"
proof (cases "cache_get (sv_cache S) (rq_now rq) ''lock-install'' (a_cache s)")
  case None
  have r: "require_install_authorization S rq q s =
      grant_install S rq q (s\<lparr>a_cache := cache_set (sv_cache S) (rq_now rq) ''lock-install'' (JStr q) n (a_cache s)\<rparr>)"
    using n None by (simp add: require_install_authorization_def act_simps)
  show ?thesis unfolding serve_install [OF rq] r grant_install_def put_machine_state_def
    by (auto simp: act_simps split: sum.splits)
next
  case (Some v)
  with install_locked [OF n Some rq] granted show ?thesis by simp
qed

text \<open>
  C8. Once an installation is granted, no other request for an authorisation is granted while the
  lock lasts, whatever requests of any route are served in between: each is answered 403, or 500
  when it names no mac or the state cannot be stored.
\<close>

theorem install_lock_exclusive:
  fixes S :: "'c server"
  assumes S: "cache_ok (sv_cache S)" and n: "attr (sv_ec S) ''coreos_install_lock_seconds'' = ok (JInt n)" "0 < n"
    and rq: "asks_install rq q" and granted: "status (fst (serve S rq s)) = 200"
    and times: "\<forall>rq'\<in>set rqs. rq_now rq \<le> rq_now rq' \<and> int (rq_now rq') + int second \<le> int (rq_now rq) + n * int second"
  shows "list_all2 (\<lambda>rq' r. (\<exists>q'. asks_install rq' q') \<longrightarrow> status r \<in> {403, 500}) rqs (fst (run S rqs (snd (serve S rq s))))"
proof -
  define held where "held (s :: 'c api) \<longleftrightarrow> (\<forall>u. rq_now rq \<le> u \<and> int u + int second \<le> int (rq_now rq) + n * int second \<longrightarrow>
      cache_get (sv_cache S) u ''lock-install'' (a_cache s) = Some (JStr q))" for s
  have init: "held (snd (serve S rq s))"
    unfolding held_def install_granted [OF S n rq granted] using cache_laws(1) [OF S n(2)] by blast
  have step: "held (snd (serve S rq' s)) \<and> ((\<exists>q'. asks_install rq' q') \<longrightarrow> status (fst (serve S rq' s)) \<in> {403, 500})"
    if rq': "rq' \<in> set rqs" and s: "held s" for rq' and s :: "'c api"
  proof (cases "\<exists>q'. asks_install rq' q'")
    case True
    then obtain q' where q': "asks_install rq' q'" by blast
    have "cache_get (sv_cache S) (rq_now rq') ''lock-install'' (a_cache s) = Some (JStr q)"
      using s times rq' unfolding held_def by blast
    from install_locked [OF n this q'] s show ?thesis by (simp add: held_def)
  next
    case False
    have "cache_get (sv_cache S) u ''lock-install'' (a_cache (snd (serve S rq' s))) =
        cache_get (sv_cache S) u ''lock-install'' (a_cache s)" for u
      by (rule serve_keep [OF S]) (use False in auto)
    with s False show ?thesis by (simp add: held_def)
  qed
  show ?thesis by (rule run_invariant [of held, THEN conjunct1, OF init step])
qed

section \<open>The synchronisation mark\<close>

definition boots_ignition :: "request \<Rightarrow> bool" where
  "boots_ignition rq \<longleftrightarrow> rq_method rq = ''GET'' \<and> rq_path rq = ''/ignition''"

lemma serve_ignition:
  "boots_ignition rq \<Longrightarrow> serve S rq s =
     (case ignition_route S rq s of (Inl _, s') \<Rightarrow> (server_error, s') | (Inr r, s') \<Rightarrow> (r, s'))"
  by (simp add: boots_ignition_def serve_def routes_of_def routes_of_1_def)

lemma serve_notify:
  "notifies_sync rq \<Longrightarrow> serve S rq s =
     (case sync_notify S rq s of (Inl _, s') \<Rightarrow> (server_error, s') | (Inr r, s') \<Rightarrow> (r, s'))"
  by (simp add: notifies_sync_def serve_def routes_of_def routes_of_1_def)

lemma mark_kept:
  assumes "cache_ok (sv_cache S)" "\<not> notifies_sync rq"
  shows "cache_get (sv_cache S) u ''sync-notify'' (a_cache (snd (serve S rq s))) =
    cache_get (sv_cache S) u ''sync-notify'' (a_cache s)"
  by (rule serve_keep [OF assms(1)]) (use assms(2) in auto)

text \<open>
  C15. As long as no synchronisation is notified, no machine gets its ignition: every request for
  \<open>/ignition\<close> in a run of requests of any kind is answered 503.
\<close>

theorem ignition_refused_before_sync:
  fixes S :: "'c server"
  assumes S: "cache_ok (sv_cache S)" and cold: "\<forall>u. cache_get (sv_cache S) u ''sync-notify'' (a_cache s) = None"
    and rqs: "\<forall>rq\<in>set rqs. \<not> notifies_sync rq"
  shows "list_all2 (\<lambda>rq r. boots_ignition rq \<longrightarrow> status r = 503) rqs (fst (run S rqs s))"
proof -
  define absent where "absent (s :: 'c api) \<longleftrightarrow> (\<forall>u. cache_get (sv_cache S) u ''sync-notify'' (a_cache s) = None)" for s
  have "absent (snd (serve S rq s)) \<and> (boots_ignition rq \<longrightarrow> status (fst (serve S rq s)) = 503)"
    if "rq \<in> set rqs" "absent s" for rq and s :: "'c api"
  proof -
    have "\<not> ignition_pxe rq" if "boots_ignition rq" using that by (simp add: boots_ignition_def ignition_pxe_def)
    with that mark_kept [OF S] rqs show ?thesis
      by (auto simp: absent_def serve_ignition ignition_route_def act_simps plain_def)
  qed
  with run_invariant [of absent s rqs S] cold show ?thesis by (simp add: absent_def)
qed

text \<open>
  C16. After a notified synchronisation every request for \<open>/ignition\<close> served within the time to live
  of the mark, whatever is served in between, is answered with the status and the content matchbox
  answers, and 502 when matchbox cannot be reached.
\<close>

theorem ignition_served_after_sync:
  fixes S :: "'c server"
  assumes S: "cache_ok (sv_cache S)" and ttl: "attr (sv_ec S) ''sync_notify_ttl'' = ok (JInt n)" "0 < n"
    and uri: "MATCHBOX_URI (sv_app S) = JStr (c # uri)" and notify: "notifies_sync rq"
    and rqs: "\<forall>rq'\<in>set rqs. \<not> notifies_sync rq' \<and> rq_now rq \<le> rq_now rq' \<and>
      int (rq_now rq') + int second \<le> int (rq_now rq) + n * int second"
  shows "list_all2 (\<lambda>rq' r. boots_ignition rq' \<and> \<not> str_contains ''/ignition-pxe?'' (full_path rq') \<longrightarrow>
      (case sv_http S (c # uri @ ''/ignition?'' @ rq_query rq') of
         Inr reply \<Rightarrow> r = plain (rp_content reply) (rp_status reply)
       | Inl x \<Rightarrow> status r = (if x = ConnectionError \<or> x = RequestException then 502 else 500)))
    rqs (fst (run S rqs (snd (serve S rq s))))"
proof -
  define open_at where "open_at (s :: 'c api) \<longleftrightarrow> (\<forall>u. rq_now rq \<le> u \<and> int u + int second \<le> int (rq_now rq) + n * int second \<longrightarrow>
      cache_get (sv_cache S) u ''sync-notify'' (a_cache s) \<noteq> None)" for s
  have "a_cache (snd (serve S rq s)) = cache_set (sv_cache S) (rq_now rq) ''sync-notify'' (date (rq_now rq)) n (a_cache s)"
    using ttl by (simp add: serve_notify [OF notify] sync_notify_def act_simps)
  then have init: "open_at (snd (serve S rq s))" unfolding open_at_def using cache_laws(1) [OF S ttl(2)] by simp
  have step: "open_at (snd (serve S rq' s)) \<and> (boots_ignition rq' \<and> \<not> str_contains ''/ignition-pxe?'' (full_path rq') \<longrightarrow>
      (case sv_http S (c # uri @ ''/ignition?'' @ rq_query rq') of
         Inr reply \<Rightarrow> fst (serve S rq' s) = plain (rp_content reply) (rp_status reply)
       | Inl x \<Rightarrow> status (fst (serve S rq' s)) = (if x = ConnectionError \<or> x = RequestException then 502 else 500)))"
    if rq': "rq' \<in> set rqs" and s: "open_at s" for rq' and s :: "'c api"
  proof (rule conjI)
    show "open_at (snd (serve S rq' s))" using s rqs rq' mark_kept [OF S, of rq'] by (simp add: open_at_def)
    have "cache_get (sv_cache S) (rq_now rq') ''sync-notify'' (a_cache s) \<noteq> None" using s rqs rq' by (simp add: open_at_def)
    then have r: "ignition_route S rq' s = ask_ignition S rq' s" using uri by (auto simp: ignition_route_def act_simps)
    show "boots_ignition rq' \<and> \<not> str_contains ''/ignition-pxe?'' (full_path rq') \<longrightarrow>
      (case sv_http S (c # uri @ ''/ignition?'' @ rq_query rq') of
         Inr reply \<Rightarrow> fst (serve S rq' s) = plain (rp_content reply) (rp_status reply)
       | Inl x \<Rightarrow> status (fst (serve S rq' s)) = (if x = ConnectionError \<or> x = RequestException then 502 else 500))"
    proof
      assume b: "boots_ignition rq' \<and> \<not> str_contains ''/ignition-pxe?'' (full_path rq')"
      then have "str_replace ''/ignition-pxe?'' ''/ignition?'' (full_path rq') = ''/ignition?'' @ rq_query rq'"
        by (simp add: str_replace_absent) (simp add: full_path_def boots_ignition_def)
      then have "ask_ignition S rq' s = tryA (bindA (liftA (sv_http S (c # uri @ ''/ignition?'' @ rq_query rq')))
          (\<lambda>r. ret (plain (rp_content r) (rp_status r))))
          (\<lambda>x. if x = ConnectionError \<or> x = RequestException
            then Some (ret (plain (''matchbox doesn'' @ [CHR 0x27] @ ''t respond'') 502)) else None) s"
        using uri by (simp add: ask_ignition_def)
      with b r show "case sv_http S (c # uri @ ''/ignition?'' @ rq_query rq') of
         Inr reply \<Rightarrow> fst (serve S rq' s) = plain (rp_content reply) (rp_status reply)
       | Inl x \<Rightarrow> status (fst (serve S rq' s)) = (if x = ConnectionError \<or> x = RequestException then 502 else 500)"
        by (auto simp: serve_ignition act_simps plain_def server_error_def split: sum.splits)
    qed
  qed
  show ?thesis by (rule run_invariant [of open_at, THEN conjunct1, OF init step])
qed

section \<open>Witnesses\<close>

definition sample_ec :: config where
  "sample_ec = \<lparr>from_yaml = JObj [], from_env = [], default_values = [], attrs = [
     (''coreos_install_lock_seconds'', JInt 29), (''sync_notify_ttl'', JInt 60),
     (''matchbox_uri'', JStr ''http://m:8080''), (''discovery_fqdn_verify'', JBool False)]\<rparr>"

definition sample_reply :: reply where
  "sample_reply = \<lparr>rp_status = 200, rp_content = ''{}'', rp_text = ok ''{}'', rp_json = Some (JObj [])\<rparr>"

definition sample_server :: "ref_cache server" where
  "sample_server = \<lparr>sv_engine = ref_engine, sv_dns = sample_dns, sv_ec = sample_ec,
     sv_app = \<lparr>MATCHBOX_URI = JStr ''http://m:8080'', API_URI = JNull, MATCHBOX_URLS = strs [''/''],
       IGNITION_JOURNAL_DIR = JStr ''/j'', BACKUP_BUCKET_NAME = JStr '''', BACKUP_BUCKET_DIRECTORY = JStr '''', BACKUP_LOCK_KEY = JStr ''''\<rparr>,
     sv_cache = ref_cache_ops, sv_http = (\<lambda>_. ok sample_reply), sv_rules = [], sv_index = '''', sv_process = show_int\<rparr>"

definition sample_state :: "db \<Rightarrow> ref_cache api" where
  "sample_state d = \<lparr>a_db = d, a_cache = [], a_world = \<lparr>files = [], live = []\<rparr>\<rparr>"

definition sample_request :: "string \<Rightarrow> string \<Rightarrow> json option \<Rightarrow> nat \<Rightarrow> request" where
  "sample_request verb path body now = \<lparr>rq_method = verb, rq_path = path, rq_query = '''', rq_args = [], rq_body = body,
     rq_remote = ''10.0.0.1'', rq_now = now\<rparr>"

lemma sample_server_parts [simp]:
  "sv_cache sample_server = ref_cache_ops" "sv_engine sample_server = ref_engine"
  "cache_ok ref_cache_ops"
  "attr (sv_ec sample_server) ''coreos_install_lock_seconds'' = ok (JInt 29)"
  "attr (sv_ec sample_server) ''sync_notify_ttl'' = ok (JInt 60)"
  "MATCHBOX_URI (sv_app sample_server) = JStr (CHR ''h'' # ''ttp://m:8080'')" "sv_http sample_server u = ok sample_reply"
  by (simp_all add: sample_server_def sample_ec_def attr_def cache_ok_ref)

definition install_request :: "nat \<Rightarrow> request" where
  "install_request now = sample_request ''GET'' ''/install-authorization/mac=aa'' None now"

lemma install_request_asks: "asks_install (install_request now) ''mac=aa''" "rq_now (install_request now) = now"
  by (simp_all add: asks_install_def install_request_def sample_request_def)

theorem install_lock_exclusive_witness:
  "status (fst (serve sample_server (install_request 0) (sample_state empty_db))) = 200 \<and>
   status (fst (serve sample_server (install_request 10000000)
     (snd (serve sample_server (install_request 0) (sample_state empty_db))))) \<in> {403, 500}"
proof -
  have m: "get_mac_from_raw_query ''mac=aa'' = ok ''aa''" by code_simp
  have "require_install_authorization sample_server (install_request 0) ''mac=aa'' (sample_state empty_db) =
      grant_install sample_server (install_request 0) ''mac=aa'' (sample_state empty_db
        \<lparr>a_cache := ref_set 0 ''lock-install'' (JStr ''mac=aa'') 29 []\<rparr>)"
    by (simp add: require_install_authorization_def act_simps sample_state_def ref_cache_ops_def ref_get_def install_request_asks)
  then have g: "status (fst (serve sample_server (install_request 0) (sample_state empty_db))) = 200"
    by (simp add: serve_install [OF install_request_asks(1)] grant_install_def put_machine_state_def act_simps m
        update_state_def update_state_body_def session_commit_def find_state_def find_iface_def sample_state_def empty_db_def
        one_or_none_def query_where_def validate_state_def MachineStates_states_def ref_engine_def fits_def plain_def arrange_def)
  have "list_all2 (\<lambda>rq' r. (\<exists>q'. asks_install rq' q') \<longrightarrow> status r \<in> {403, 500}) [install_request 10000000]
      (fst (run sample_server [install_request 10000000] (snd (serve sample_server (install_request 0) (sample_state empty_db)))))"
    by (rule install_lock_exclusive [where n = 29, OF _ _ _ install_request_asks(1) g])
      (simp_all add: install_request_asks second_def)
  with g install_request_asks(1) [of 10000000] show ?thesis by (auto simp: run_step simp del: run.simps(2))
qed

definition boot_request :: "nat \<Rightarrow> request" where
  "boot_request now = sample_request ''GET'' ''/ignition'' None now"

lemma boot_request_boots: "boots_ignition (boot_request now)" "\<not> notifies_sync (boot_request now)" "rq_now (boot_request now) = now"
  by (simp_all add: boots_ignition_def notifies_sync_def boot_request_def sample_request_def)

theorem ignition_refused_before_sync_witness:
  "status (fst (serve sample_server (boot_request 7) (sample_state empty_db))) = 503"
proof -
  have "list_all2 (\<lambda>rq r. boots_ignition rq \<longrightarrow> status r = 503) [boot_request 7]
      (fst (run sample_server [boot_request 7] (sample_state empty_db)))"
    by (rule ignition_refused_before_sync)
      (simp_all add: boot_request_boots, simp add: sample_state_def ref_cache_ops_def ref_get_def)
  then show ?thesis by (simp add: run_step boot_request_boots del: run.simps(2))
qed

definition notify_request :: "nat \<Rightarrow> request" where
  "notify_request now = sample_request ''POST'' ''/sync-notify'' None now"

theorem ignition_served_after_sync_witness:
  "fst (serve sample_server (boot_request 1000000)
     (snd (serve sample_server (notify_request 5) (sample_state empty_db)))) = plain ''{}'' 200"
proof -
  have n: "notifies_sync (notify_request 5)" "rq_now (notify_request 5) = 5"
    by (simp_all add: notifies_sync_def notify_request_def sample_request_def)
  have p: "\<not> str_contains ''/ignition-pxe?'' (full_path (boot_request 1000000))"
    by (simp add: full_path_def boot_request_def sample_request_def)
  have "list_all2 (\<lambda>rq' r. boots_ignition rq' \<and> \<not> str_contains ''/ignition-pxe?'' (full_path rq') \<longrightarrow>
      (case sv_http sample_server (CHR ''h'' # ''ttp://m:8080'' @ ''/ignition?'' @ rq_query rq') of
         Inr reply \<Rightarrow> r = plain (rp_content reply) (rp_status reply)
       | Inl x \<Rightarrow> status r = (if x = ConnectionError \<or> x = RequestException then 502 else 500)))
    [boot_request 1000000]
    (fst (run sample_server [boot_request 1000000] (snd (serve sample_server (notify_request 5) (sample_state empty_db)))))"
    by (rule ignition_served_after_sync [where n = 60, OF _ _ _ _ n(1)]) (simp_all add: boot_request_boots n second_def)
  with p show ?thesis by (simp add: run_step boot_request_boots sample_reply_def del: run.simps(2))
qed

end
