(* ===== verification/Schedule_Facts.thy ===== *)
theory Schedule_Facts
  imports Machine_Schedule Samples
begin

text \<open>
  What the schedule repository promises: a request adds exactly the missing roles of one machine or
  nothing at all, repeating it changes nothing, and the queries agree with the table.
\<close>

section \<open>Adding roles\<close>

lemma set_m_schedules [simp]:
  "engine_ok E \<Longrightarrow> set (m_schedules E d m) = {s \<in> set (schedules d). s_machine s = m_id m}"
  by (simp add: m_schedules_def)

lemma add_role_cases:
  assumes "add_role E now mid already d role = Inr d'"
  obtains "role \<in> JStr ` set already" "d' = d"
    | s where "role \<notin> JStr ` set already" "role = JStr (s_role s)" "s_role s \<in> set ScheduleRoles_roles"
      "s_machine s = mid" "s_id s = new_id E (map s_id (schedules d))"
      "d' = d\<lparr>schedules := schedules d @ [s]\<rparr>"
proof (cases "role \<in> JStr ` set already")
  case True
  with assms have "d' = d" by (simp add: add_role_def)
  with True show thesis by (rule that(1))
next
  case False
  with assms obtain r where r: "role = JStr r" "r \<in> set ScheduleRoles_roles" and d': "d' = d\<lparr>schedules :=
      schedules d @ [\<lparr>s_id = new_id E (map s_id (schedules d)), s_created = now, s_machine = mid, s_role = r\<rparr>]\<rparr>"
    unfolding add_role_def by (auto simp only: if_False bindE_eq_Inr validate_role_Inr sum.inject)
  from False r show thesis by (intro that(2) [OF _ _ _ _ _ d']) simp_all
qed

lemma add_roles_Inr:
  assumes "foldE (add_role E now mid already) d roles = Inr d'"
  shows "\<exists>new. d' = d\<lparr>schedules := schedules d @ new\<rparr> \<and> (\<forall>s\<in>set new. s_machine s = mid) \<and>
    map (\<lambda>s. JStr (s_role s)) new = [r \<leftarrow> roles. r \<notin> JStr ` set already]"
  using assms
proof (induction roles arbitrary: d)
  case Nil
  then show ?case by (auto intro!: exI [of _ "[]"])
next
  case (Cons role roles)
  then obtain d1 where a: "add_role E now mid already d role = Inr d1"
    and rest: "foldE (add_role E now mid already) d1 roles = Inr d'"
    by (auto simp: bindE_eq_Inr)
  from Cons.IH [OF rest] obtain new where new: "d' = d1\<lparr>schedules := schedules d1 @ new\<rparr>"
    "\<forall>s\<in>set new. s_machine s = mid" "map (\<lambda>s. JStr (s_role s)) new = [r \<leftarrow> roles. r \<notin> JStr ` set already]"
    by auto
  from a show ?case
  proof (cases rule: add_role_cases)
    case 1
    with new show ?thesis by (intro exI [of _ new]) simp
  next
    case (2 s)
    with new show ?thesis by (intro exI [of _ "s # new"]) simp
  qed
qed

lemma add_roles_db_ok:
  assumes E: "engine_ok E" and r: "foldE (add_role E now mid already) d roles = Inr d'"
    and d: "db_ok d" "mid \<in> m_id ` set (machines d)"
  shows "db_ok d'"
proof -
  have "db_ok d' \<and> mid \<in> m_id ` set (machines d')"
  proof (rule foldE_invariant [OF r])
    show "db_ok d \<and> mid \<in> m_id ` set (machines d)" using d by simp
  next
    fix s x s'
    assume s: "db_ok s \<and> mid \<in> m_id ` set (machines s)" and a: "add_role E now mid already s x = Inr s'"
    from a show "db_ok s' \<and> mid \<in> m_id ` set (machines s')"
    proof (cases rule: add_role_cases)
      case (2 t)
      have "s_id t \<notin> s_id ` set (schedules s)" unfolding 2(5) by (rule new_id_image [OF E])
      then have "db_ok (s\<lparr>schedules := schedules s @ [t]\<rparr>)"
        by (rule db_ok_add_schedule [OF conjunct1 [OF s]]) (use 2 s in simp_all)
      with 2 s show ?thesis by simp
    qed (use s in simp)
  qed
  then show ?thesis ..
qed

lemma add_roles_total:
  "set roles \<subseteq> set ScheduleRoles_roles \<Longrightarrow> is_ok (foldE (add_role E now mid already) d (map JStr roles))"
proof (induction roles arbitrary: d)
  case (Cons r rs)
  then have "is_ok (add_role E now mid already d (JStr r))" by (simp add: add_role_def)
  then obtain d1 where "add_role E now mid already d (JStr r) = Inr d1" by (auto simp: is_ok_iff)
  with Cons show ?case by simp
qed simp

lemma add_roles_invalid:
  assumes "role \<in> set roles" "role \<notin> JStr ` set ScheduleRoles_roles" "set already \<subseteq> set ScheduleRoles_roles"
  shows "foldE (add_role E now mid already) d roles = Inl LookupError"
  using assms(1)
proof (induction roles arbitrary: d)
  case (Cons r rs)
  show ?case
  proof (cases "is_ok (add_role E now mid already d r)")
    case True
    then obtain d1 where d1: "add_role E now mid already d r = Inr d1" by (auto simp: is_ok_iff)
    then have "r \<noteq> role" using assms(2,3)
      by (auto simp: add_role_def bindE_eq_Inr validate_role_Inr split: if_splits)
    with Cons d1 show ?thesis by simp
  next
    case False
    then have "add_role E now mid already d r = Inl LookupError"
      by (cases r) (auto simp: add_role_def split: if_splits)
    then show ?thesis by simp
  qed
qed simp

section \<open>A request\<close>

lemma find_by_mac_str [simp]:
  "engine_ok E \<Longrightarrow> find_by_mac E (JStr mac) d = Inr (machine_by_mac E d mac)"
  by (simp add: find_by_mac_def)

lemma find_by_mac_in: "engine_ok E \<Longrightarrow> find_by_mac E j d = Inr (Some m) \<Longrightarrow> m \<in> set (machines d)"
  by (auto simp: find_by_mac_def bindE_eq_Inr split: if_splits dest: machine_by_mac_in)

lemma create_schedule_body_Inr:
  assumes "create_schedule_body E now sd d = Inr (u, d')"
  obtains "d' = d"
    | mac m roles where "find_by_mac E mac d = Inr (Some m)"
      "foldE (add_role E now (m_id m) (map s_role (m_schedules E d m))) d roles = Inr d'"
  using assms by (auto simp: create_schedule_body_def bindE_eq_Inr Let_def split: option.splits)

lemma create_schedule_cases:
  obtains x where "create_schedule E now sd d = (Inl x, d)"
    | u d' where "create_schedule_body E now sd d = Inr (u, d')" "create_schedule E now sd d = (Inr u, d')"
proof -
  have "lint_schedule_data sd = Inr sd' \<Longrightarrow> sd' = sd" for sd'
    by (auto simp: lint_schedule_data_def bindE_eq_Inr split: if_splits)
  then show thesis
    using that by (cases "lint_schedule_data sd"; cases "create_schedule_body E now sd d")
      (auto simp: create_schedule_def session_commit_def)
qed

lemma create_schedule_db_ok:
  assumes "engine_ok E" "db_ok d"
  shows "db_ok (snd (create_schedule E now sd d))"
proof (rule create_schedule_cases [of E now sd d])
  fix u d'
  assume b: "create_schedule_body E now sd d = Inr (u, d')" and c: "create_schedule E now sd d = (Inr u, d')"
  from b have "db_ok d'"
  proof (rule create_schedule_body_Inr)
    fix mac m roles
    assume f: "find_by_mac E mac d = Inr (Some m)"
      and a: "foldE (add_role E now (m_id m) (map s_role (m_schedules E d m))) d roles = Inr d'"
    from find_by_mac_in [OF assms(1) f] have "m_id m \<in> m_id ` set (machines d)" by simp
    from add_roles_db_ok [OF assms(1) a assms(2) this] show ?thesis .
  qed (use assms in simp)
  with c show ?thesis by simp
qed (use assms in simp)

text \<open>The body the scheduler posts.\<close>

definition schedule_request :: "string \<Rightarrow> json list \<Rightarrow> json" where
  "schedule_request mac roles =
     JObj [(''roles'', JList roles), (''selector'', JObj [(''mac'', JStr mac)])]"

lemma lint_request [simp]: "lint_schedule_data (schedule_request mac roles) = Inr (schedule_request mac roles)"
  by (simp add: lint_schedule_data_def schedule_request_def)

lemma request_fields [simp]:
  "jget (schedule_request mac roles) ''selector'' = Inr (JObj [(''mac'', JStr mac)])"
  "jget (schedule_request mac roles) ''roles'' = Inr (JList roles)"
  by (simp_all add: schedule_request_def)

lemma create_schedule_request:
  assumes "engine_ok E" "machine_by_mac E d mac = Some m"
  shows "create_schedule E now (schedule_request mac roles) d =
    (case foldE (add_role E now (m_id m) (map s_role (m_schedules E d m))) d roles of
       Inl x \<Rightarrow> (Inl x, d) | Inr d' \<Rightarrow> (Inr (), d'))"
  using assms
  by (simp add: create_schedule_def create_schedule_body_def session_commit_def Let_def split: sum.splits)

lemma already_valid:
  "engine_ok E \<Longrightarrow> db_ok d \<Longrightarrow> set (map s_role (m_schedules E d m)) \<subseteq> set ScheduleRoles_roles"
  by (auto simp: db_ok_def values_ok_def)

definition roles_of :: "db \<Rightarrow> machine \<Rightarrow> string set" where
  "roles_of d m = s_role ` {s \<in> set (schedules d). s_machine s = m_id m}"

lemma roles_of_app:
  assumes "\<forall>s\<in>set new. s_machine s = m_id m"
  shows "roles_of (d\<lparr>schedules := schedules d @ new\<rparr>) m = roles_of d m \<union> s_role ` set new"
proof -
  have "{s \<in> set (schedules d @ new). s_machine s = m_id m} =
      {s \<in> set (schedules d). s_machine s = m_id m} \<union> set new" using assms by auto
  then show ?thesis by (simp add: roles_of_def image_Un)
qed

lemma new_roles: "map s_role new = [r \<leftarrow> roles. r \<notin> R] \<Longrightarrow> s_role ` set new = set roles - R"
  by (metis image_set set_filter set_diff_eq)

lemma request_roles:
  assumes E: "engine_ok E" and m: "machine_by_mac E d mac = Some m"
    and roles: "set roles \<subseteq> set ScheduleRoles_roles"
  obtains new where
    "create_schedule E now (schedule_request mac (map JStr roles)) d =
       (Inr (), d\<lparr>schedules := schedules d @ new\<rparr>)"
    "\<forall>s\<in>set new. s_machine s = m_id m"
    "map s_role new = [r \<leftarrow> roles. r \<notin> roles_of d m]"
proof -
  let ?already = "map s_role (m_schedules E d m)"
  obtain d' where d': "foldE (add_role E now (m_id m) ?already) d (map JStr roles) = Inr d'"
    using add_roles_total [OF roles] unfolding is_ok_iff by blast
  from add_roles_Inr [OF this] obtain new where new: "d' = d\<lparr>schedules := schedules d @ new\<rparr>"
    "\<forall>s\<in>set new. s_machine s = m_id m"
    "map (\<lambda>s. JStr (s_role s)) new = [r \<leftarrow> map JStr roles. r \<notin> JStr ` set ?already]" by auto
  have "set ?already = roles_of d m" using E by (auto simp: roles_of_def)
  then have "[r \<leftarrow> map JStr roles. r \<notin> JStr ` set ?already] = map JStr [r \<leftarrow> roles. r \<notin> roles_of d m]"
    by (simp only: filter_map comp_def JStr_image_iff)
  with new(3) have "map JStr (map s_role new) = map JStr [r \<leftarrow> roles. r \<notin> roles_of d m]"
    by (simp add: comp_def)
  then have "map s_role new = [r \<leftarrow> roles. r \<notin> roles_of d m]"
    by (rule map_injective) (simp add: inj_def)
  with new d' show thesis using create_schedule_request [OF E m, of now "map JStr roles"] by (intro that) auto
qed

section \<open>The properties\<close>

lemma scheduled_machine: "machine_by_mac ref_engine scheduled_db other_mac = Some other_machine"
  by (simp add: machine_by_mac_def machines_join_ifaces_def machine_iface_rows_def scheduled_db_def
      other_db_def other_iface_def empty_db_def other_mac_def other_machine_def)

text \<open>
  C13. A schedule request for a known machine with valid roles succeeds; the machine then has the
  roles it had and the requested ones, and no other part of the database changes: the new rows
  belong to the machine, the old rows stay.
\<close>

theorem schedule_adds_roles:
  assumes "engine_ok E" and "machine_by_mac E d mac = Some m" and "set roles \<subseteq> set ScheduleRoles_roles"
  shows "\<exists>new. create_schedule E now (schedule_request mac (map JStr roles)) d =
      (Inr (), d\<lparr>schedules := schedules d @ new\<rparr>) \<and>
    (\<forall>s\<in>set new. s_machine s = m_id m) \<and>
    roles_of (d\<lparr>schedules := schedules d @ new\<rparr>) m = roles_of d m \<union> set roles"
proof -
  obtain new where new:
    "create_schedule E now (schedule_request mac (map JStr roles)) d = (Inr (), d\<lparr>schedules := schedules d @ new\<rparr>)"
    "\<forall>s\<in>set new. s_machine s = m_id m" "map s_role new = [r \<leftarrow> roles. r \<notin> roles_of d m]"
    by (rule request_roles [OF assms])
  have "roles_of (d\<lparr>schedules := schedules d @ new\<rparr>) m = roles_of d m \<union> set roles"
    using roles_of_app [OF new(2), of d] new_roles [OF new(3)] by simp
  with new show ?thesis by blast
qed

theorem schedule_adds_roles_witness:
  "\<exists>new. create_schedule ref_engine 5 (schedule_request other_mac (map JStr [kubernetes_node])) scheduled_db =
      (Inr (), scheduled_db\<lparr>schedules := schedules scheduled_db @ new\<rparr>) \<and>
    (\<forall>s\<in>set new. s_machine s = m_id other_machine) \<and>
    roles_of (scheduled_db\<lparr>schedules := schedules scheduled_db @ new\<rparr>) other_machine =
      roles_of scheduled_db other_machine \<union> set [kubernetes_node]"
  by (rule schedule_adds_roles [OF engine_ok_ref scheduled_machine]) (simp add: ScheduleRoles_roles_def)

text \<open>
  C25. Scheduling is idempotent: the same request sent a second time changes nothing.
\<close>

theorem schedule_idempotent:
  assumes "engine_ok E" and "db_ok d" and "machine_by_mac E d mac = Some m"
    and "set roles \<subseteq> set ScheduleRoles_roles"
  shows "let d' = snd (create_schedule E now (schedule_request mac (map JStr roles)) d) in
    create_schedule E later (schedule_request mac (map JStr roles)) d' = (Inr (), d')"
proof -
  obtain new where new:
    "create_schedule E now (schedule_request mac (map JStr roles)) d = (Inr (), d\<lparr>schedules := schedules d @ new\<rparr>)"
    "\<forall>s\<in>set new. s_machine s = m_id m" "map s_role new = [r \<leftarrow> roles. r \<notin> roles_of d m]"
    by (rule request_roles [OF assms(1,3,4)])
  let ?d' = "d\<lparr>schedules := schedules d @ new\<rparr>"
  have m: "machine_by_mac E ?d' mac = Some m"
    using assms(3) by (simp add: machine_by_mac_def machines_join_ifaces_def machine_iface_rows_def)
  obtain new' where new':
    "create_schedule E later (schedule_request mac (map JStr roles)) ?d' = (Inr (), ?d'\<lparr>schedules := schedules ?d' @ new'\<rparr>)"
    "map s_role new' = [r \<leftarrow> roles. r \<notin> roles_of ?d' m]"
    by (rule request_roles [OF assms(1) m assms(4)])
  have "set roles \<subseteq> roles_of ?d' m"
    using roles_of_app [OF new(2), of d] new_roles [OF new(3)] by simp
  then have "[r \<leftarrow> roles. r \<notin> roles_of ?d' m] = []" by (auto simp: filter_empty_conv)
  with new'(2) have "new' = []" by simp
  with new(1) new'(1) show ?thesis by simp
qed

theorem schedule_idempotent_witness:
  "let d' = snd (create_schedule ref_engine 5 (schedule_request other_mac (map JStr [kubernetes_node])) scheduled_db) in
    create_schedule ref_engine 6 (schedule_request other_mac (map JStr [kubernetes_node])) d' = (Inr (), d')"
  by (rule schedule_idempotent [OF engine_ok_ref scheduled_db_ok scheduled_machine])
    (simp add: ScheduleRoles_roles_def)

text \<open>
  A request with one unknown role is refused as a whole with a LookupError: the valid roles
  before it in the list are not stored either.
\<close>

theorem schedule_invalid_role:
  assumes "engine_ok E" and "db_ok d" and "machine_by_mac E d mac = Some m"
    and "role \<in> set roles" and "role \<notin> JStr ` set ScheduleRoles_roles"
  shows "create_schedule E now (schedule_request mac roles) d = (Inl LookupError, d)"
  using add_roles_invalid [OF assms(4,5) already_valid [OF assms(1,2)]]
  by (simp add: create_schedule_request [OF assms(1,3)])

theorem schedule_invalid_role_witness:
  "create_schedule ref_engine 5 (schedule_request other_mac [JStr kubernetes_node, JInt 3]) scheduled_db =
    (Inl LookupError, scheduled_db)"
  by (rule schedule_invalid_role [OF engine_ok_ref scheduled_db_ok scheduled_machine, of "JInt 3"]) auto

section \<open>The pool of available machines\<close>

lemma m_schedules_empty: "engine_ok E \<Longrightarrow> m_schedules E d m = [] \<longleftrightarrow> roles_of d m = {}"
  by (auto simp: m_schedules_def query_where_def roles_of_def filter_empty_conv)

lemma set_available_machines:
  "engine_ok E \<Longrightarrow> set (available_machines E d) =
    {m \<in> set (machines d). (\<exists>i\<in>set (ifaces d). i_machine i = m_id m \<and> i_as_boot i) \<and> roles_of d m = {}}"
  by (auto simp: available_machines_def set_machines_join_ifaces m_schedules_empty)

lemma m_interfaces_nonempty:
  "engine_ok E \<Longrightarrow> i \<in> set (ifaces d) \<Longrightarrow> i_machine i = m_id m \<Longrightarrow> m_interfaces E d m \<noteq> []"
  by (auto simp: m_interfaces_def query_where_def filter_empty_conv)

lemma available_dict_total:
  assumes "m_interfaces E d m \<noteq> []"
  shows "is_ok (available_dict E d m)"
  using assms by (cases "m_interfaces E d m") (simp_all add: available_dict_def)

lemma mapE_is_ok: "(\<And>x. x \<in> set xs \<Longrightarrow> is_ok (f x)) \<Longrightarrow> is_ok (mapE f xs)"
proof (induction xs)
  case (Cons x xs)
  then obtain y ys where "f x = Inr y" "mapE f xs = Inr ys" by (metis is_ok_iff list.set_intros)
  then show ?case by simp
qed simp

text \<open>
  C26. The available machines are listed without error, one entry each, and they are exactly the
  machines that booted through a known interface and have no role.
\<close>

theorem available_exact:
  assumes "engine_ok E"
  shows "(\<exists>js. get_available_machines E d = Inr js \<and> length js = length (available_machines E d)) \<and>
    distinct (available_machines E d) \<and>
    set (available_machines E d) =
      {m \<in> set (machines d). (\<exists>i\<in>set (ifaces d). i_machine i = m_id m \<and> i_as_boot i) \<and> roles_of d m = {}}"
proof (intro conjI)
  have "is_ok (get_available_machines E d)"
    unfolding get_available_machines_def using set_available_machines [OF assms] m_interfaces_nonempty [OF assms]
    by (intro mapE_is_ok available_dict_total) blast
  then obtain js where js: "get_available_machines E d = Inr js" by (auto simp: is_ok_iff)
  then have "length js = length (available_machines E d)"
    unfolding get_available_machines_def by (rule mapE_length)
  with js show "\<exists>js. get_available_machines E d = Inr js \<and> length js = length (available_machines E d)" by blast
  show "distinct (available_machines E d)"
    by (simp add: available_machines_def distinct_machines_join_ifaces)
qed (rule set_available_machines [OF assms])

theorem available_exact_witness:
  "set (available_machines ref_engine scheduled_db) =
    {m \<in> set (machines scheduled_db). (\<exists>i\<in>set (ifaces scheduled_db). i_machine i = m_id m \<and> i_as_boot i) \<and>
      roles_of scheduled_db m = {}}"
  using available_exact [OF engine_ok_ref, of scheduled_db] by blast

lemma roles_of_other:
  assumes "\<forall>s\<in>set new. s_machine s = k" "m_id m \<noteq> k"
  shows "roles_of (d\<lparr>schedules := schedules d @ new\<rparr>) m = roles_of d m"
proof -
  have "{s \<in> set (schedules d @ new). s_machine s = m_id m} = {s \<in> set (schedules d). s_machine s = m_id m}"
    using assms by auto
  then show ?thesis by (simp add: roles_of_def)
qed

text \<open>
  Scheduling a machine takes it, and no other, out of the pool of available machines.
\<close>

theorem schedule_leaves_pool:
  assumes E: "engine_ok E" and d: "db_ok d" and m: "machine_by_mac E d mac = Some m"
    and roles: "set roles \<subseteq> set ScheduleRoles_roles" "roles \<noteq> []"
  shows "set (available_machines E (snd (create_schedule E now (schedule_request mac (map JStr roles)) d))) =
    set (available_machines E d) - {m}"
proof -
  obtain new where new:
    "create_schedule E now (schedule_request mac (map JStr roles)) d = (Inr (), d\<lparr>schedules := schedules d @ new\<rparr>)"
    "\<forall>s\<in>set new. s_machine s = m_id m" "map s_role new = [r \<leftarrow> roles. r \<notin> roles_of d m]"
    by (rule request_roles [OF E m roles(1)])
  let ?d' = "d\<lparr>schedules := schedules d @ new\<rparr>"
  have ne: "roles_of ?d' m \<noteq> {}"
    using roles_of_app [OF new(2), of d] new_roles [OF new(3)] roles(2) by (cases roles) auto
  have m': "m \<in> set (machines d)" using machine_by_mac_in [OF E m] .
  have same: "roles_of ?d' x = roles_of d x" if x: "x \<in> set (machines d)" "x \<noteq> m" for x
  proof -
    have "m_id x \<noteq> m_id m" using x m' d unfolding db_ok_def keys_ok_def by (metis distinct_map_inj_set)
    with new(2) show ?thesis by (rule roles_of_other)
  qed
  have "set (available_machines E ?d') = {x \<in> set (machines d).
      (\<exists>i\<in>set (ifaces d). i_machine i = m_id x \<and> i_as_boot i) \<and> roles_of ?d' x = {}}"
    by (simp add: set_available_machines [OF E])
  also have "\<dots> = set (available_machines E d) - {m}"
    unfolding set_available_machines [OF E] using ne same by auto
  finally show ?thesis using new(1) by simp
qed

theorem schedule_leaves_pool_witness:
  "set (available_machines ref_engine (snd (create_schedule ref_engine 5
      (schedule_request other_mac (map JStr [kubernetes_node])) scheduled_db))) =
    set (available_machines ref_engine scheduled_db) - {other_machine}"
  by (rule schedule_leaves_pool [OF engine_ok_ref scheduled_db_ok scheduled_machine])
    (simp_all add: ScheduleRoles_roles_def)



end
