(* ===== verification/Discovery_Properties.thy ===== *)
theory Discovery_Properties
  imports Samples
begin

text \<open>
  What \<open>upsert\<close> and \<open>fetch_all_discovery\<close> promise, on any payload (the invariant, the frame) and on
  a well-formed report (success, exact storage, the error for a mac of another machine, and the
  round trip through the database).
\<close>

section \<open>The machine row\<close>

lemma upsert_machine_uuid:
  assumes E: "engine_ok E" and d: "db_ok d" and u: "uuid_shape u"
  obtains m d1 ms ps where
    "upsert_machine E now (JStr u) d = Inr ((u \<notin> m_uuid ` set (machines d), m_id m), d1)"
    "d1 = d\<lparr>machines := ms, disks := [k \<leftarrow> disks d. k_machine k \<noteq> m_id m],
            ifaces := [i \<leftarrow> ifaces d. i_machine i \<noteq> m_id m], ports := ps\<rparr>"
    "m \<in> set ms" "m_uuid m = u" "m_updated m = Some now"
    "\<forall>m'\<in>set (machines d). m_uuid m' = u \<longrightarrow> m_id m' = m_id m"
    "\<forall>x. m_id x \<noteq> m_id m \<longrightarrow> (x \<in> set ms \<longleftrightarrow> x \<in> set (machines d))"
    "u \<notin> m_uuid ` set (machines d) \<longrightarrow> m_id m \<notin> m_id ` set (machines d)"
proof (cases "first (query_where E (\<lambda>m. m_uuid m = u) (machines d))")
  case None
  then have new: "u \<notin> m_uuid ` set (machines d)"
    using E by (auto simp: query_where_def filter_empty_conv)
  let ?k = "new_id E (map m_id (machines d))"
  let ?m = "\<lparr>m_id = ?k, m_uuid = u, m_created = now, m_updated = Some now\<rparr>"
  have k: "?k \<notin> m_id ` set (machines d)" using new_id_image [OF E] by simp
  have "\<forall>x\<in>set (disks d). k_machine x \<noteq> ?k" "\<forall>x\<in>set (ifaces d). i_machine x \<noteq> ?k"
    using k d unfolding db_ok_def refs_ok_def by metis+
  then have "[k \<leftarrow> disks d. k_machine k \<noteq> ?k] = disks d" "[i \<leftarrow> ifaces d. i_machine i \<noteq> ?k] = ifaces d"
    by (simp_all add: filter_id_conv)
  moreover have "upsert_machine E now (JStr u) d =
      Inr ((u \<notin> m_uuid ` set (machines d), ?k), d\<lparr>machines := machines d @ [?m]\<rparr>)"
    using None new E u by (simp add: upsert_machine_def validate_uuid_Inr [THEN iffD2] col_str_fits
        fits_def uuid_shape_length Let_def del: validate_uuid_field.simps)
  ultimately show thesis
    using new k by (intro that [where m = ?m and ms = "machines d @ [?m]" and ps = "ports d"]) auto
next
  case (Some m)
  then have m: "m \<in> set (machines d)" "m_uuid m = u" using E by (auto dest!: first_Some_in)
  let ?ms = "touch_machine now (m_id m) (machines d)"
  let ?m = "m\<lparr>m_updated := Some now\<rparr>"
  have 1: "upsert_machine E now (JStr u) d = Inr ((u \<notin> m_uuid ` set (machines d), m_id ?m),
      delete_all_attached (m_id m) (d\<lparr>machines := ?ms\<rparr>))"
    using Some m E by (auto simp: upsert_machine_def)
  have 2: "delete_all_attached (m_id m) (d\<lparr>machines := ?ms\<rparr>) = d\<lparr>machines := ?ms,
      disks := [k \<leftarrow> disks d. k_machine k \<noteq> m_id ?m], ifaces := [i \<leftarrow> ifaces d. i_machine i \<noteq> m_id ?m],
      ports := [p \<leftarrow> ports d. p_iface p \<notin> i_id ` set [i \<leftarrow> ifaces d. i_machine i = m_id m]]\<rparr>"
    by (simp add: delete_all_attached_def Let_def)
  have 3: "?m \<in> set ?ms" using m by (force simp: touch_machine_def)
  have "m' = m" if "m' \<in> set (machines d)" "m_uuid m' = u" for m'
    using that m d unfolding db_ok_def unique_ok_def by (metis distinct_map_inj_set)
  then have 4: "\<forall>m'\<in>set (machines d). m_uuid m' = u \<longrightarrow> m_id m' = m_id ?m" by auto
  have 5: "\<forall>x. m_id x \<noteq> m_id ?m \<longrightarrow> (x \<in> set ?ms \<longleftrightarrow> x \<in> set (machines d))"
    by (force simp: touch_machine_def)
  from m show thesis by (intro that [OF 1 2 3 _ _ 4 5]) auto
qed

section \<open>A report, step by step\<close>

lemma lint_report [simp]: "lint_discovery_data (report_json r) = Inr (report_dict r)"
  by (simp add: report_json_def report_dict_def required_keys_def)

definition disk_row :: "string \<times> int \<Rightarrow> json \<times> json" where
  "disk_row k = (JStr (fst k), JInt (snd k))"

lemma construct_disks: "mapE construct_disk (map disk_json ks) = Inr (map disk_row ks)"
  by (induction ks) (simp_all add: construct_disk_def disk_json_def disk_row_def)

lemma flush_disks_rows:
  assumes "engine_ok E" and "\<forall>k\<in>set ks. - (2 ^ 63) \<le> snd k \<and> snd k < 2 ^ 63"
  shows "is_ok (foldE (flush_disk E mid) d (map disk_row ks))"
  using assms(2)
proof (induction ks arbitrary: d)
  case (Cons k ks)
  then have "col_int E 64 (JInt (snd k)) = Inr (snd k)"
    using assms(1) by (intro col_int_fits) auto
  with Cons assms(1) show ?case by (simp add: flush_disk_def disk_row_def)
qed simp

lemma disk_stored_rows:
  assumes "engine_ok E" "\<forall>k\<in>set ks. - (2 ^ 63) \<le> snd k \<and> snd k < 2 ^ 63"
    and "list_all2 (disk_stored E mid) (map disk_row ks) new"
  shows "map (\<lambda>k. (k_path k, k_size k)) new = ks \<and> (\<forall>k\<in>set new. k_machine k = mid)"
  using assms(2-)
proof (induction ks arbitrary: new)
  case (Cons k ks)
  then have int: "col_int E 64 (JInt (snd k)) = Inr (snd k)"
    using assms(1) by (intro col_int_fits) auto
  from Cons.prems(2) obtain x xs where new: "new = x # xs" "disk_stored E mid (disk_row k) x"
    and rest: "list_all2 (disk_stored E mid) (map disk_row ks) xs"
    by (auto simp: list_all2_Cons1)
  have "(k_path x, k_size x) = k" "k_machine x = mid"
    using new(2) int assms(1) by (simp_all add: disk_stored_def disk_row_def prod_eq_iff)
  with Cons.IH [OF _ rest] Cons.prems(1) new(1) show ?case by simp
qed simp

lemma stored_as_nic:
  assumes "engine_ok E" "nic_ok E n" "stored_as E mid (nic_row boot fq n) i"
  shows "iface_view i = nic_view boot fq n \<and> i_machine i = mid"
proof -
  have "fits (Some 18) (nic_cidrv4 n)" "fits (Some 15) (nic_gateway n)"
    using assms(2) by (simp_all add: nic_ok_def fits_def)
  moreover have "col_int E 32 (JInt (nic_netmask n)) = Inr (nic_netmask n)"
    using assms(1,2) by (intro col_int_fits) (simp_all add: nic_ok_def)
  moreover have "col_opt_str E (opt_str fq) = Inr fq"
    using assms(1) by (cases fq) (simp_all add: col_opt_str_def opt_str_def)
  ultimately show ?thesis
    using assms(1,3) by (simp add: stored_as_def nic_row_def iface_view_def nic_view_def col_str_fits)
qed

lemma stored_as_nics:
  assumes "engine_ok E" "\<forall>n\<in>set ns. nic_ok E n"
    and "list_all2 (stored_as E mid) (map (\<lambda>(k, n). nic_row boot (fq k) n) (enumerate j ns)) new"
  shows "map iface_view new = map (\<lambda>(k, n). nic_view boot (fq k) n) (enumerate j ns) \<and>
    (\<forall>i\<in>set new. i_machine i = mid)"
  using assms(2-)
proof (induction ns arbitrary: j new)
  case (Cons n ns)
  then obtain i ifs where new: "new = i # ifs" "stored_as E mid (nic_row boot (fq j) n) i"
    and rest: "list_all2 (stored_as E mid) (map (\<lambda>(k, n). nic_row boot (fq k) n) (enumerate (Suc j) ns)) ifs"
    by (auto simp: list_all2_Cons1)
  have "nic_ok E n" using Cons.prems(1) by simp
  then have "iface_view i = nic_view boot (fq j) n \<and> i_machine i = mid"
    using stored_as_nic [OF assms(1) _ new(2)] by simp
  moreover have "map iface_view ifs = map (\<lambda>(k, n). nic_view boot (fq k) n) (enumerate (Suc j) ns) \<and>
      (\<forall>i\<in>set ifs. i_machine i = mid)"
    using Cons.IH [OF _ rest] Cons.prems(1) by simp
  ultimately show ?case using new(1) by simp
qed simp

lemma report_fields:
  "bindE (jget (JObj (report_dict r)) ''boot-info'') (\<lambda>b. jget b ''uuid'') = Inr (JStr (rp_uuid r))"
  "bindE (jget (JObj (report_dict r)) ''disks'') jiter = Inr (map disk_json (rp_disks r))"
  "bindE (jget (JObj (report_dict r)) ''interfaces'') jiter = Inr (map nic_json (rp_nics r))"
  "lldp_interfaces (JObj (report_dict r)) = Inr []"
  by (simp_all add: report_dict_def lldp_interfaces_def)

lemma upsert_body_report:
  "upsert_body E verify dns now (report_dict r) d =
     bindE (upsert_machine E now (JStr (rp_uuid r)) d) (\<lambda>((new, mid), d1).
     bindE (insert_network E verify dns mid (JObj (report_dict r)) (map disk_row (rp_disks r)) d1) (\<lambda>d2.
       ok (new, d2)))"
  by (simp only: upsert_body_def Let_def report_fields construct_disks bindE.simps)

definition report_rows :: "report \<Rightarrow> (nat \<Rightarrow> string option) \<Rightarrow> new_iface list" where
  "report_rows r fq = map (\<lambda>(k, n). nic_row (rp_boot r) (fq k) n) (enumerate 0 (rp_nics r))"

lemma construct_report:
  assumes "report_ok E r" "resolves verify dns r fq"
  shows "construct_ifaces E verify dns (JObj (report_dict r)) 0 (map nic_json (rp_nics r)) =
    Inr (report_rows r fq)"
  unfolding report_rows_def
  using assms by (intro construct_ifaces_nics) (auto simp: report_ok_def resolves_def)

lemma report_rows_hashable: "list_all (\<lambda>x. hashable (n_name x)) (report_rows r fq)"
  by (auto simp: report_rows_def nic_row_def list_all_iff)

text \<open>The network of a report goes in when its macs are free, and fails when one is taken.\<close>

lemma insert_network_report:
  assumes E: "engine_ok E" and r: "report_ok E r" and q: "resolves verify dns r fq"
    and d: "db_ok d" "mid \<in> m_id ` set (machines d)"
    and free: "nic_mac ` set (rp_nics r) \<inter> i_mac ` set (ifaces d) = {}"
  obtains ks new where
    "insert_network E verify dns mid (JObj (report_dict r)) (map disk_row (rp_disks r)) d =
       Inr (d\<lparr>disks := disks d @ ks, ifaces := ifaces d @ new\<rparr>)"
    "map (\<lambda>k. (k_path k, k_size k)) ks = rp_disks r" "\<forall>k\<in>set ks. k_machine k = mid"
    "map iface_view new = reported_views r fq" "\<forall>i\<in>set new. i_machine i = mid"
proof -
  have disks_range: "\<forall>k\<in>set (rp_disks r). - (2 ^ 63) \<le> snd k \<and> snd k < 2 ^ 63"
    and nics: "\<forall>n\<in>set (rp_nics r). nic_ok E n" and dist: "distinct (map nic_mac (rp_nics r))"
    using r by (auto simp: report_ok_def)
  obtain d1 where d1: "foldE (flush_disk E mid) d (map disk_row (rp_disks r)) = Inr d1"
    using flush_disks_rows [OF E disks_range] unfolding is_ok_iff by blast
  from flush_disks_Inr [OF this d] obtain ks where ks: "d1 = d\<lparr>disks := disks d @ ks\<rparr>"
    "list_all2 (disk_stored E mid) (map disk_row (rp_disks r)) ks" "db_ok d1" by auto
  have "is_ok (flush_ifaces E mid (report_rows r fq) d1)"
    unfolding report_rows_def using ks(1) free by (intro flush_ifaces_nics [OF E nics dist]) simp
  then obtain ids d2 where d2: "flush_ifaces E mid (report_rows r fq) d1 = Inr (ids, d2)"
    unfolding is_ok_iff by auto
  have v: "\<forall>x\<in>set (report_rows r fq). is_ok (MAC_REGEX (n_mac x)) \<and> is_ok (IPV4_REGEX (n_ipv4 x))"
    using construct_ifaces_valid [OF construct_report [OF r q]] by blast
  have "mid \<in> m_id ` set (machines d1)" using d(2) ks(1) by simp
  from flush_ifaces_Inr [OF E d2 ks(3) this v] obtain new where new:
    "d2 = d1\<lparr>ifaces := ifaces d1 @ new\<rparr>" "list_all2 (stored_as E mid) (report_rows r fq) new" by auto
  have "insert_network E verify dns mid (JObj (report_dict r)) (map disk_row (rp_disks r)) d = Inr d2"
    using d1 d2 by (simp add: insert_network_def construct_report [OF r q] report_rows_hashable
        report_fields del: jget.simps)
  moreover have "d2 = d\<lparr>disks := disks d @ ks, ifaces := ifaces d @ new\<rparr>" using ks(1) new(1) by simp
  ultimately show thesis
    using disk_stored_rows [OF E disks_range ks(2)] stored_as_nics [OF E nics] new(2)
    by (intro that) (auto simp: reported_views_def report_rows_def)
qed

lemma insert_network_taken:
  assumes E: "engine_ok E" and r: "report_ok E r" and q: "resolves verify dns r fq"
    and taken: "nic_mac ` set (rp_nics r) \<inter> i_mac ` set (ifaces d) \<noteq> {}"
    and d: "db_ok d" "mid \<in> m_id ` set (machines d)"
  shows "insert_network E verify dns mid (JObj (report_dict r)) (map disk_row (rp_disks r)) d =
    Inl IntegrityError"
proof -
  have disks_range: "\<forall>k\<in>set (rp_disks r). - (2 ^ 63) \<le> snd k \<and> snd k < 2 ^ 63"
    and nics: "\<forall>n\<in>set (rp_nics r). nic_ok E n"
    using r by (auto simp: report_ok_def)
  obtain d1 where d1: "foldE (flush_disk E mid) d (map disk_row (rp_disks r)) = Inr d1"
    using flush_disks_rows [OF E disks_range] unfolding is_ok_iff by blast
  from flush_disks_Inr [OF this d] have "ifaces d1 = ifaces d" by auto
  then have "flush_ifaces E mid (report_rows r fq) d1 = Inl IntegrityError"
    unfolding report_rows_def using taken by (intro flush_ifaces_taken [OF E nics]) simp
  with d1 show ?thesis by (simp add: insert_network_def construct_report [OF r q] report_rows_hashable
        report_fields del: jget.simps)
qed

section \<open>The properties\<close>

text \<open>
  Recording any payload whatever, valid or not, keeps the database consistent: keys and macs
  and uuids stay unique, every reference points at a row, every stored value satisfies its
  validator.
\<close>

theorem upsert_keeps_db_ok:
  assumes "engine_ok E" and "db_ok d"
  shows "db_ok (snd (upsert E verify dns now data d))"
  using assms by (rule upsert_db_ok)

theorem upsert_keeps_db_ok_witness:
  "db_ok (snd (upsert ref_engine False sample_dns 7 (report_json sample_report) empty_db))"
  by (rule upsert_keeps_db_ok [OF engine_ok_ref db_ok_empty])

lemma upsert_report_db:
  assumes E: "engine_ok E" and d: "db_ok d" and r: "report_ok E r" and q: "resolves verify dns r fq"
    and own: "\<forall>i\<in>set (ifaces d). i_mac i \<in> nic_mac ` set (rp_nics r) \<longrightarrow>
      (\<exists>m\<in>set (machines d). m_id m = i_machine i \<and> m_uuid m = rp_uuid r)"
  obtains m ms ps ks new where
    "upsert E verify dns now (report_json r) d = (Inr (rp_uuid r \<notin> m_uuid ` set (machines d)),
       d\<lparr>machines := ms, disks := [k \<leftarrow> disks d. k_machine k \<noteq> m_id m] @ ks,
         ifaces := [i \<leftarrow> ifaces d. i_machine i \<noteq> m_id m] @ new, ports := ps\<rparr>)"
    "m \<in> set ms" "m_uuid m = rp_uuid r" "m_updated m = Some now"
    "\<forall>m'\<in>set (machines d). m_uuid m' = rp_uuid r \<longrightarrow> m_id m' = m_id m"
    "\<forall>x. m_id x \<noteq> m_id m \<longrightarrow> (x \<in> set ms \<longleftrightarrow> x \<in> set (machines d))"
    "rp_uuid r \<notin> m_uuid ` set (machines d) \<longrightarrow> m_id m \<notin> m_id ` set (machines d)"
    "map (\<lambda>k. (k_path k, k_size k)) ks = rp_disks r" "\<forall>k\<in>set ks. k_machine k = m_id m"
    "map iface_view new = reported_views r fq" "\<forall>i\<in>set new. i_machine i = m_id m"
proof -
  have u: "uuid_shape (rp_uuid r)" using r by (simp add: report_ok_def)
  obtain m d1 ms ps where um: "upsert_machine E now (JStr (rp_uuid r)) d =
      Inr ((rp_uuid r \<notin> m_uuid ` set (machines d), m_id m), d1)"
    and d1: "d1 = d\<lparr>machines := ms, disks := [k \<leftarrow> disks d. k_machine k \<noteq> m_id m],
            ifaces := [i \<leftarrow> ifaces d. i_machine i \<noteq> m_id m], ports := ps\<rparr>"
    and m: "m \<in> set ms" "m_uuid m = rp_uuid r" "m_updated m = Some now"
      "\<forall>m'\<in>set (machines d). m_uuid m' = rp_uuid r \<longrightarrow> m_id m' = m_id m"
      "\<forall>x. m_id x \<noteq> m_id m \<longrightarrow> (x \<in> set ms \<longleftrightarrow> x \<in> set (machines d))"
      "rp_uuid r \<notin> m_uuid ` set (machines d) \<longrightarrow> m_id m \<notin> m_id ` set (machines d)"
    by (rule upsert_machine_uuid [OF E d u])
  have ok1: "db_ok d1" "m_id m \<in> m_id ` set (machines d1)" using upsert_machine_ok [OF E d um] by auto
  have free: "nic_mac ` set (rp_nics r) \<inter> i_mac ` set (ifaces d1) = {}"
    using own m(4) unfolding d1 by force
  obtain ks new where n: "insert_network E verify dns (m_id m) (JObj (report_dict r))
      (map disk_row (rp_disks r)) d1 = Inr (d1\<lparr>disks := disks d1 @ ks, ifaces := ifaces d1 @ new\<rparr>)"
    and ks: "map (\<lambda>k. (k_path k, k_size k)) ks = rp_disks r" "\<forall>k\<in>set ks. k_machine k = m_id m"
    and new: "map iface_view new = reported_views r fq" "\<forall>i\<in>set new. i_machine i = m_id m"
    by (rule insert_network_report [OF E r q ok1 free])
  have "upsert E verify dns now (report_json r) d =
      (Inr (rp_uuid r \<notin> m_uuid ` set (machines d)), d1\<lparr>disks := disks d1 @ ks, ifaces := ifaces d1 @ new\<rparr>)"
    using um n by (simp add: upsert_def upsert_body_report session_commit_def)
  with m ks new show thesis by (intro that [where m = m and ms = ms and ps = ps and ks = ks and new = new]) (simp_all add: d1)
qed

lemma upsert_report:
  assumes "engine_ok E" "db_ok d" "report_ok E r" "resolves verify dns r fq"
    and "\<forall>i\<in>set (ifaces d). i_mac i \<in> nic_mac ` set (rp_nics r) \<longrightarrow>
      (\<exists>m\<in>set (machines d). m_id m = i_machine i \<and> m_uuid m = rp_uuid r)"
  shows "\<exists>d' m. upsert E verify dns now (report_json r) d = (Inr (rp_uuid r \<notin> m_uuid ` set (machines d)), d') \<and>
    m \<in> set (machines d') \<and> m_uuid m = rp_uuid r \<and> m_updated m = Some now \<and>
    map iface_view [i \<leftarrow> ifaces d'. i_machine i = m_id m] = reported_views r fq \<and>
    map (\<lambda>k. (k_path k, k_size k)) [k \<leftarrow> disks d'. k_machine k = m_id m] = rp_disks r"
proof (rule upsert_report_db [OF assms, where now = now], goal_cases)
  case (1 m ms ps ks new)
  let ?d' = "snd (upsert E verify dns now (report_json r) d)"
  have "[i \<leftarrow> ifaces ?d'. i_machine i = m_id m] = new" "[k \<leftarrow> disks ?d'. k_machine k = m_id m] = ks"
    using 1(9,11) by (auto simp: 1(1) filter_id_conv filter_empty_conv)
  with 1 show ?case by (intro exI [of _ ?d'] exI [of _ m]) simp
qed



lemma upsert_foreign:
  assumes E: "engine_ok E" and d: "db_ok d" and r: "report_ok E r" and q: "resolves verify dns r fq"
    and i: "i \<in> set (ifaces d)" "i_mac i \<in> nic_mac ` set (rp_nics r)"
    and m': "m' \<in> set (machines d)" "m_id m' = i_machine i" "m_uuid m' \<noteq> rp_uuid r"
  shows "upsert E verify dns now (report_json r) d = (Inl IntegrityError, d)"
proof -
  have u: "uuid_shape (rp_uuid r)" using r by (simp add: report_ok_def)
  obtain m d1 ms ps where um: "upsert_machine E now (JStr (rp_uuid r)) d =
      Inr ((rp_uuid r \<notin> m_uuid ` set (machines d), m_id m), d1)"
    and d1: "d1 = d\<lparr>machines := ms, disks := [k \<leftarrow> disks d. k_machine k \<noteq> m_id m],
            ifaces := [i \<leftarrow> ifaces d. i_machine i \<noteq> m_id m], ports := ps\<rparr>"
    and m: "m \<in> set ms" "m_uuid m = rp_uuid r"
      "\<forall>x. m_id x \<noteq> m_id m \<longrightarrow> (x \<in> set ms \<longleftrightarrow> x \<in> set (machines d))"
      "rp_uuid r \<notin> m_uuid ` set (machines d) \<longrightarrow> m_id m \<notin> m_id ` set (machines d)"
    by (rule upsert_machine_uuid [OF E d u])
  have ok1: "db_ok d1" "m_id m \<in> m_id ` set (machines d1)" using upsert_machine_ok [OF E d um] by auto
  have "m_id m' \<noteq> m_id m"
  proof (cases rule: upsert_machine_cases [OF E um])
    case (1 x)
    then have "m_uuid x = rp_uuid r" by auto
    with 1 m' d show ?thesis
      unfolding db_ok_def keys_ok_def by (metis distinct_map_inj_set)
  next
    case (2 u)
    with m'(1) new_id_neq [OF E] show ?thesis by metis
  qed
  with i m'(2) have "nic_mac ` set (rp_nics r) \<inter> i_mac ` set (ifaces d1) \<noteq> {}"
    unfolding d1 by auto
  from insert_network_taken [OF E r q this ok1]
  show ?thesis
    using um by (simp add: upsert_def upsert_body_report session_commit_def)
qed

text \<open>
  C23. A report that carries a mac of another machine is refused with an integrity error, and
  nothing of it is stored: the machine row, the deletions and the disks are rolled back with it.
\<close>

theorem upsert_foreign_mac:
  assumes E: "engine_ok E" and d: "db_ok d" and r: "report_ok E r" and q: "resolves verify dns r fq"
    and i: "i \<in> set (ifaces d)" "i_mac i \<in> nic_mac ` set (rp_nics r)"
    and m': "m' \<in> set (machines d)" "m_id m' = i_machine i" "m_uuid m' \<noteq> rp_uuid r"
  shows "upsert E verify dns now (report_json r) d = (Inl IntegrityError, d)"
  using assms by (rule upsert_foreign)

theorem upsert_foreign_mac_witness:
  "upsert ref_engine False sample_dns 7 (report_json sample_report) other_db = (Inl IntegrityError, other_db)"
  by (rule upsert_foreign_mac [OF engine_ok_ref other_db_ok sample_ok, of other_iface other_machine])
    (simp_all add: other_db_def other_iface_def other_machine_def sample_report_def sample_nic_def
      sample_uuid_def)

section \<open>Reading a report back, and what it leaves alone\<close>

definition view_dict :: "iface_view \<Rightarrow> json" where
  "view_dict v = (case v of (mac, name, netmask, ipv4, cidrv4, boot, gateway, fqdn) \<Rightarrow>
     JObj [(''as_boot'', JBool boot), (''cidrv4'', JStr cidrv4), (''fqdn'', opt_str fqdn),
       (''gateway'', JStr gateway), (''ipv4'', JStr ipv4), (''mac'', JStr mac), (''name'', JStr name),
       (''netmask'', JInt netmask)])"

lemma iface_dict_view: "iface_dict i = view_dict (iface_view i)"
  by (simp add: iface_dict_def view_dict_def iface_view_def opt_str_def)

definition size_path_json :: "string \<times> int \<Rightarrow> json" where
  "size_path_json k = JObj [(''size-bytes'', JInt (snd k)), (''path'', JStr (fst k))]"

lemma disk_dict_view: "disk_dict k = size_path_json (k_path k, k_size k)"
  by (simp add: disk_dict_def size_path_json_def)

lemma mset_query_filter: "engine_ok E \<Longrightarrow> mset (query_where E P xs) = mset (filter P xs)"
  by (simp add: query_where_def)

lemma last_boot_mem: "last_boot is = Some b \<Longrightarrow> b \<in> set is \<and> i_as_boot b"
proof -
  assume "last_boot is = Some b"
  then have ne: "filter i_as_boot is \<noteq> []" and b: "b = last (filter i_as_boot is)"
    by (auto simp: last_boot_def split: list.splits)
  have "last (filter i_as_boot is) \<in> set (filter i_as_boot is)" using ne by (rule last_in_set)
  with b show ?thesis by auto
qed

lemma last_boot_None: "last_boot is = None \<longleftrightarrow> (\<forall>i\<in>set is. \<not> i_as_boot i)"
  by (auto simp: last_boot_def filter_empty_conv filter_eq_Cons_iff split: list.splits)

lemma reported_view_mem:
  "v \<in> set (reported_views r fq) \<Longrightarrow> \<exists>k n. n \<in> set (rp_nics r) \<and> v = nic_view (rp_boot r) (fq k) n"
  unfolding reported_views_def by (force simp: in_set_enumerate_eq)

lemma reported_view_boot:
  assumes "rp_boot r \<in> nic_mac ` set (rp_nics r)"
  obtains k n where "n \<in> set (rp_nics r)" "nic_mac n = rp_boot r"
    "nic_view (rp_boot r) (fq k) n \<in> set (reported_views r fq)"
proof -
  from assms obtain k where k: "k < length (rp_nics r)" "nic_mac (rp_nics r ! k) = rp_boot r"
    by (auto simp: in_set_conv_nth)
  then have "(k, rp_nics r ! k) \<in> set (enumerate 0 (rp_nics r))" by (simp add: in_set_enumerate_eq)
  then have "nic_view (rp_boot r) (fq k) (rp_nics r ! k) \<in> set (reported_views r fq)"
    unfolding reported_views_def by force
  with k show thesis by (intro that) auto
qed

lemma last_boot_report:
  assumes "mset (map iface_view is) = mset (reported_views r fq)" "rp_boot r \<in> nic_mac ` set (rp_nics r)"
  obtains b where "last_boot is = Some b" "i_mac b = rp_boot r"
proof -
  have sets: "iface_view ` set is = set (reported_views r fq)"
    using assms(1) by (metis image_set set_mset_mset)
  obtain k n where n: "nic_mac n = rp_boot r" "nic_view (rp_boot r) (fq k) n \<in> iface_view ` set is"
    using reported_view_boot [OF assms(2)] sets by metis
  then obtain i where i: "i \<in> set is" "i_as_boot i" by (auto simp: nic_view_def iface_view_def)
  then obtain b where b: "last_boot is = Some b" using last_boot_None by (metis not_None_eq)
  from last_boot_mem [OF b] sets have "iface_view b \<in> set (reported_views r fq)" "i_as_boot b" by auto
  then have "i_mac b = rp_boot r"
    by (auto simp: iface_view_def nic_view_def dest!: reported_view_mem)
  with b show thesis by (rule that)
qed





end
