(* ===== verification/Api_Invariant.thy ===== *)
theory Api_Invariant
  imports Routes_Facts Lifecycle_Facts Schedule_Facts Discovery_Properties
begin

text \<open>
  What holds of the database behind the API whatever requests arrive. The locale \<open>db_side_writes\<close>
  states that a property of the database survives every write except the recording of a discovery,
  \<open>db_writes\<close> that it survives that one too; inside them it survives every request. Interpreted for
  the consistency of the database and for the part of it that \<open>/discovery\<close> shows.
\<close>

section \<open>Properties of the database across an action\<close>

named_theorems keeps_db_intros \<open>actions that keep a property of the database\<close>

definition keeps_db :: "(db \<Rightarrow> bool) \<Rightarrow> ('c api, 'a) act \<Rightarrow> bool" where
  "keeps_db Q m \<longleftrightarrow> (\<forall>s. Q (a_db s) \<longrightarrow> Q (a_db (snd (m s))))"

lemma keeps_db_basic [keeps_db_intros]:
  "keeps_db Q (ret a)" "keeps_db Q (raiseA x)" "keeps_db Q (liftA r)" "keeps_db Q (read_db g)"
  "keeps_db Q (on_world h)" "keeps_db Q (cache_lookup S now j)" "keeps_db Q (cache_store S now j v n)"
  "keeps_db Q (cache_drop S j)"
  by (simp_all add: keeps_db_def act_simps)

lemma keeps_db_with: "(\<And>d. Q d \<Longrightarrow> Q (snd (f d))) \<Longrightarrow> keeps_db Q (with_db f)"
  by (simp add: keeps_db_def act_simps)

lemma keeps_db_bind [keeps_db_intros]:
  "keeps_db Q m \<Longrightarrow> (\<And>a. keeps_db Q (f a)) \<Longrightarrow> keeps_db Q (bindA m f)"
  unfolding keeps_db_def bindA_run by (fastforce split: prod.splits sum.splits)

lemma keeps_db_try [keeps_db_intros]:
  "keeps_db Q m \<Longrightarrow> (\<And>x g. h x = Some g \<Longrightarrow> keeps_db Q g) \<Longrightarrow> keeps_db Q (tryA m h)"
  unfolding keeps_db_def tryA_run by (fastforce split: prod.splits sum.splits option.splits)

lemma keeps_db_cases [keeps_db_intros]:
  "(b \<Longrightarrow> keeps_db Q m) \<Longrightarrow> (\<not> b \<Longrightarrow> keeps_db Q m') \<Longrightarrow> keeps_db Q (if b then m else m')"
  "(r = None \<Longrightarrow> keeps_db Q m) \<Longrightarrow> (\<And>a. r = Some a \<Longrightarrow> keeps_db Q (f a)) \<Longrightarrow> keeps_db Q (case r of None \<Rightarrow> m | Some a \<Rightarrow> f a)"
  by (auto split: option.splits)

lemma keeps_db_for [keeps_db_intros]: "(\<And>x. keeps_db Q (f x)) \<Longrightarrow> keeps_db Q (forA f xs)"
  by (induction xs) (auto intro!: keeps_db_intros)

lemma keeps_db_pid [keeps_db_intros]: "keeps_db Q (pid_or_none p)"
  unfolding pid_or_none_def by (auto intro!: keeps_db_intros split: if_splits)

lemma keeps_db_collect [keeps_db_intros]: "keeps_db Q (collect_pids ps)"
  by (induction ps) (auto intro!: keeps_db_intros)

lemma keeps_db_commit:
  "(\<And>d a d'. Q d \<Longrightarrow> body d = Inr (a, d') \<Longrightarrow> Q d') \<Longrightarrow> keeps_db Q (with_db (session_commit body))"
  by (rule keeps_db_with) (rule session_commit_invariant)

lemma fetch_all_discovery_db: "snd (fetch_all_discovery E d) = d"
  by (auto simp: fetch_all_discovery_def session_commit_def bindE_eq_Inr split: sum.splits prod.splits)

text \<open>The routes that only read.\<close>

lemma keeps_db_readers [keeps_db_intros]:
  "keeps_db Q (get_discovery_data S rq)" "keeps_db Q (scheduler_get S rq)"
  "keeps_db Q (report_ignition_version S rq f)" "keeps_db Q (sync_notify S rq)"
  "keeps_db Q (get_schedule_by_role S r)" "keeps_db Q (get_available_machine S)" "keeps_db Q (get_schedule_role_ip_list S r)"
  "keeps_db Q (lifecycle_get_coreos_install_status S)" "keeps_db Q (lifecycle_get_ignition_status S)"
  "keeps_db Q (lifecycle_rolling_all S)" "keeps_db Q (assets S p)" "keeps_db Q (boot_ipxe S)"
  "keeps_db Q (ignition_route S rq)" "keeps_db Q (get_ignition_versions S rq)" "keeps_db Q (metadata S rq)"
  "keeps_db Q (sync_notify_status S rq)" "keeps_db Q (api_mapper S)" "keeps_db Q (backup_as_export S)"
  "keeps_db Q (configs_route S)" "keeps_db Q (shutdown_route S)"
  "keeps_db Q (user_interface S)" "keeps_db Q (user_view_machine S)" "keeps_db Q (user_view_machine_statuses S rq)"
  unfolding handler_defs Let_def report_ignition_version_def sync_notify_def
  by (auto intro!: keeps_db_intros keeps_db_with simp: fetch_all_discovery_db split: if_splits)

lemma keeps_db_rolling_report [keeps_db_intros]: "keeps_db Q (report_lifecycle_rolling S q)"
  unfolding report_lifecycle_rolling_def by (auto intro!: keeps_db_intros split: sum.splits exn.splits)

section \<open>The contract of the writes\<close>

locale db_side_writes =
  fixes P :: "engine \<Rightarrow> db \<Rightarrow> bool"
  assumes P_state: "engine_ok E \<Longrightarrow> P E d \<Longrightarrow> P E (snd (update_state E now mac st d))"
    and P_schedule: "engine_ok E \<Longrightarrow> P E d \<Longrightarrow> P E (snd (create_schedule E now sd d))"
    and P_ignition: "engine_ok E \<Longrightarrow> P E d \<Longrightarrow> m \<in> set (machines d) \<Longrightarrow>
      refresh_lifecycle_ignition E now (m_id m) up d = Inr d' \<Longrightarrow> P E d'"
    and P_install: "engine_ok E \<Longrightarrow> P E d \<Longrightarrow> m \<in> set (machines d) \<Longrightarrow>
      refresh_lifecycle_coreos_install E now (m_id m) up d = Inr d' \<Longrightarrow> P E d'"
    and P_rolling: "engine_ok E \<Longrightarrow> P E d \<Longrightarrow> m \<in> set (machines d) \<Longrightarrow>
      apply_lifecycle_rolling E now (m_id m) v d = Inr d' \<Longrightarrow> P E d'"
    and P_health: "engine_ok E \<Longrightarrow> P E d \<Longrightarrow> health_check E now who d = Inr (b, d') \<Longrightarrow> P E d'"
begin

lemma keeps_state: "engine_ok (sv_engine S) \<Longrightarrow> keeps_db (P (sv_engine S)) (put_machine_state S now mac st)"
  unfolding put_machine_state_def by (rule keeps_db_with) (rule P_state)

lemma inject_in: "engine_ok E \<Longrightarrow> inject_machine E q d = Inr m \<Longrightarrow> m \<in> set (machines d)"
  by (auto simp: inject_machine_def bindE_eq_Inr split: option.splits dest: machine_by_mac_in)

lemma keeps_writers_db:
  assumes E: "engine_ok (sv_engine S)"
  shows "keeps_db (P (sv_engine S)) (scheduler_post S rq)"
    and "keeps_db (P (sv_engine S)) (require_install_authorization S rq q)"
    and "keeps_db (P (sv_engine S)) (report_lifecycle_coreos_install S rq t q)"
    and "keeps_db (P (sv_engine S)) (submit_lifecycle_ignition S rq q)"
    and "keeps_db (P (sv_engine S)) (change_lifecycle_rolling S rq q)"
    and "keeps_db (P (sv_engine S)) (lifecycle_rolling_delete S rq q)"
    and "keeps_db (P (sv_engine S)) (healthz_route S rq)"
    and "keeps_db (P (sv_engine S)) (ipxe S rq)"
proof -
  have i: "keeps_db (P (sv_engine S)) (with_db (session_commit (\<lambda>d. bindE (inject_machine (sv_engine S) q d) (\<lambda>m.
      bindE (refresh_lifecycle_coreos_install (sv_engine S) (rq_now rq) (m_id m) up d) (\<lambda>d'. ok ((), d'))))))" for up
    by (rule keeps_db_commit) (auto simp: bindE_eq_Inr intro: P_install [OF E _ inject_in [OF E]])
  have g: "keeps_db (P (sv_engine S)) (with_db (session_commit (\<lambda>d. bindE (inject_machine (sv_engine S) q d) (\<lambda>m.
      bindE (refresh_lifecycle_ignition (sv_engine S) (rq_now rq) (m_id m) up d) (\<lambda>d'. ok ((), d'))))))" for up
    by (rule keeps_db_commit) (auto simp: bindE_eq_Inr intro: P_ignition [OF E _ inject_in [OF E]])
  have r: "keeps_db (P (sv_engine S)) (apply_rolling S now q en st)" for now en st
    unfolding apply_rolling_def Let_def
    by (rule keeps_db_commit) (auto simp: bindE_eq_Inr intro: P_rolling [OF E _ inject_in [OF E]])
  have z: "keeps_db (P (sv_engine S)) (with_db (session_commit (health_check (sv_engine S) now who)))" for now who
    by (rule keeps_db_commit) (rule P_health [OF E])
  have c: "keeps_db (P (sv_engine S)) (with_db (create_schedule (sv_engine S) now sd))" for now sd
    by (rule keeps_db_with) (rule P_schedule [OF E])
  note intros = keeps_db_intros keeps_state [OF E] i g r z c
  show "keeps_db (P (sv_engine S)) (scheduler_post S rq)"
    unfolding scheduler_post_def by (auto intro!: intros)
  show "keeps_db (P (sv_engine S)) (require_install_authorization S rq q)"
    unfolding require_install_authorization_def grant_install_def deny_install_def by (auto intro!: intros)
  show "keeps_db (P (sv_engine S)) (report_lifecycle_coreos_install S rq t q)"
    unfolding report_lifecycle_coreos_install_def Let_def by (auto intro!: intros)
  show "keeps_db (P (sv_engine S)) (submit_lifecycle_ignition S rq q)"
    unfolding submit_lifecycle_ignition_def Let_def by (auto intro!: intros split: if_splits)
  show "keeps_db (P (sv_engine S)) (change_lifecycle_rolling S rq q)" "keeps_db (P (sv_engine S)) (lifecycle_rolling_delete S rq q)"
    unfolding change_lifecycle_rolling_def lifecycle_rolling_delete_def by (auto intro!: intros split: if_splits)
  show "keeps_db (P (sv_engine S)) (healthz_route S rq)"
    unfolding healthz_route_def ops_healthz_def Let_def by (auto intro!: intros)
  show "keeps_db (P (sv_engine S)) (ipxe S rq)"
    unfolding ipxe_def by (auto intro!: intros split: option.splits list.splits if_splits)
qed

lemma routes_1_db:
  assumes "engine_ok (sv_engine S)"
  shows "all_entries (\<lambda>m h. keeps_db (P (sv_engine S)) h \<or> (m = ''POST'' \<and> a = ''discovery'' \<and> h = record_discovery_data S rq))
    (routes_of_1 S rq a)"
  unfolding routes_of_1_def
  by (intro all_entries_intros; (rule disjI1, rule keeps_db_readers keeps_writers_db [OF assms] | simp))

lemma routes_2_db:
  assumes "engine_ok (sv_engine S)"
  shows "all_entries (\<lambda>m h. keeps_db (P (sv_engine S)) h) (routes_of_2 S rq a b)"
  unfolding routes_of_2_def
  by (intro all_entries_intros; rule keeps_db_readers keeps_writers_db [OF assms])

lemma routes_3_db:
  assumes "engine_ok (sv_engine S)"
  shows "all_entries (\<lambda>m h. keeps_db (P (sv_engine S)) h) (routes_of_3 S rq a b c)"
  unfolding routes_of_3_def
  by (intro all_entries_intros; rule keeps_db_readers keeps_db_rolling_report keeps_writers_db [OF assms])

lemma routes_side:
  assumes E: "engine_ok (sv_engine S)"
  shows "all_entries (\<lambda>m h. keeps_db (P (sv_engine S)) h \<or>
      (m = ''POST'' \<and> rq_path rq = ''/discovery'' \<and> h = record_discovery_data S rq)) (routes_of S rq)"
proof (cases rule: routes_of_parts [of S rq])
  case (one a)
  from path_segments [OF one(1)] have p: "rq_path rq = CHR ''/'' # a" by simp
  from routes_1_db [OF E, of a rq] show ?thesis unfolding one(2) p by (auto simp: all_entries_def)
next
  case (two a b)
  from routes_2_db [OF E, of rq a b] show ?thesis unfolding two by (auto simp: all_entries_def)
next
  case (three a b c)
  from routes_3_db [OF E, of rq a b c] show ?thesis unfolding three by (auto simp: all_entries_def)
next
  case (four c e)
  with keeps_writers_db(3) [OF E] show ?thesis by (simp add: all_entries_def)
qed (simp_all add: all_entries_def keeps_db_readers)

lemma serve_side:
  assumes E: "engine_ok (sv_engine S)" and s: "P (sv_engine S) (a_db s)"
    and "\<not> (rq_method rq = ''POST'' \<and> rq_path rq = ''/discovery'')"
  shows "P (sv_engine S) (a_db (snd (serve S rq s)))"
proof -
  have "keeps_db (P (sv_engine S)) h \<Longrightarrow> P (sv_engine S) (a_db (snd (h s)))" for h :: "'a handler"
    using s by (simp add: keeps_db_def)
  with serve_runs [OF routes_side [OF E, of rq], of s] assms(3) s show ?thesis by metis
qed

end

locale db_writes = db_side_writes P for P :: "engine \<Rightarrow> db \<Rightarrow> bool" +
  assumes P_discovery: "engine_ok E \<Longrightarrow> P E d \<Longrightarrow> P E (snd (upsert E verify dns now data d))"
begin

lemma keeps_discovery:
  assumes E: "engine_ok (sv_engine S)"
  shows "keeps_db (P (sv_engine S)) (record_discovery_data S rq)"
  unfolding record_discovery_data_def
  by (auto intro!: keeps_db_intros keeps_state [OF E] keeps_db_with P_discovery [OF E] split: if_splits)

lemma serve_all:
  assumes E: "engine_ok (sv_engine S)" and s: "P (sv_engine S) (a_db s)"
  shows "P (sv_engine S) (a_db (snd (serve S rq s)))"
proof -
  have "keeps_db (P (sv_engine S)) h \<Longrightarrow> P (sv_engine S) (a_db (snd (h s)))" for h :: "'a handler"
    using s by (simp add: keeps_db_def)
  with serve_runs [OF routes_side [OF E, of rq], of s] keeps_discovery [OF E, of rq] s show ?thesis by metis
qed

lemma run_all:
  assumes E: "engine_ok (sv_engine S)" and s: "P (sv_engine S) (a_db s)"
  shows "P (sv_engine S) (a_db (snd (run S rqs s)))"
  using s by (induction rqs arbitrary: s) (simp_all add: run_step serve_all [OF E] del: run.simps(2))

end

section \<open>Consistency\<close>

lemma health_check_db:
  "health_check E now who d = Inr (b, d') \<Longrightarrow> \<exists>zs. d' = d\<lparr>healthz := zs\<rparr>"
  by (auto simp: health_check_def split: option.splits)

lemma db_ok_healthz: "db_ok (d\<lparr>healthz := zs\<rparr>) = db_ok d"
  by (simp add: db_ok_defs)

interpretation inv: db_writes "\<lambda>E d. db_ok d"
proof
  fix E now d m up v d' b who
  assume E: "engine_ok E" and d: "db_ok d"
  show "refresh_lifecycle_ignition E now (m_id m) up d = Inr d' \<Longrightarrow> m \<in> set (machines d) \<Longrightarrow> db_ok d'"
    by (rule ign.put_ok [OF E d]) (simp_all add: machine_known_def)
  show "refresh_lifecycle_coreos_install E now (m_id m) up d = Inr d' \<Longrightarrow> m \<in> set (machines d) \<Longrightarrow> db_ok d'"
    by (rule ins.put_ok [OF E d]) (simp_all add: machine_known_def)
  show "apply_lifecycle_rolling E now (m_id m) v d = Inr d' \<Longrightarrow> m \<in> set (machines d) \<Longrightarrow> db_ok d'"
    by (rule rol.put_ok [OF E d]) (simp_all add: machine_known_def)
  show "health_check E now who d = Inr (b, d') \<Longrightarrow> db_ok d'"
    using d by (auto dest: health_check_db simp: db_ok_healthz)
qed (rule update_state_db_ok create_schedule_db_ok upsert_db_ok; assumption)+

text \<open>
  C2. Whatever requests arrive, in whatever order and with whatever content, the database behind
  the API stays consistent: unique keys, macs and uuids, references that point at rows, validated
  values, one lifecycle row per machine and table.
\<close>

theorem api_keeps_db_ok:
  assumes "engine_ok (sv_engine S)" "db_ok (a_db s)"
  shows "db_ok (a_db (snd (run S rqs s)))"
  by (rule inv.run_all [OF assms])

theorem api_keeps_db_ok_witness:
  "db_ok (a_db (snd (run sample_server [install_request 0, install_request 10000000] (sample_state other_db))))"
  by (rule api_keeps_db_ok) (simp_all add: engine_ok_ref sample_state_def other_db_ok)

section \<open>The cached discovery view\<close>

definition discovery_part :: "db \<Rightarrow> machine list \<times> iface list \<times> disk list" where
  "discovery_part d = (machines d, ifaces d, disks d)"

lemma update_state_part: "discovery_part (snd (update_state E now mac st d)) = discovery_part d"
proof -
  have "discovery_part d' = discovery_part d" if "update_state_body E now mac st d = Inr (u, d')" for u d'
    using that by (auto simp: update_state_body_def bindE_eq_Inr Let_def discovery_part_def split: option.splits if_splits)
  then show ?thesis unfolding update_state_def session_commit_def by (auto split: sum.splits prod.splits)
qed

lemma add_role_part: "add_role E now k al d role = Inr d' \<Longrightarrow> discovery_part d' = discovery_part d"
  by (auto simp: add_role_def bindE_eq_Inr discovery_part_def split: if_splits)

lemma create_schedule_part: "discovery_part (snd (create_schedule E now sd d)) = discovery_part d"
proof (rule create_schedule_cases [of E now sd d])
  fix u d'
  assume b: "create_schedule_body E now sd d = Inr (u, d')" and c: "create_schedule E now sd d = (Inr u, d')"
  from b have "discovery_part d' = discovery_part d"
  proof (rule create_schedule_body_Inr)
    fix mac m roles
    assume a: "foldE (add_role E now (m_id m) (map s_role (m_schedules E d m))) d roles = Inr d'"
    show ?thesis
      by (rule foldE_invariant [OF a, of "\<lambda>e. discovery_part e = discovery_part d"]) (simp_all add: add_role_part)
  qed simp
  with c show ?thesis by simp
qed simp

lemma lifecycle_part:
  "refresh_lifecycle_ignition E now k up d = Inr d' \<Longrightarrow> discovery_part d' = discovery_part d"
  "refresh_lifecycle_coreos_install E now k up d = Inr d' \<Longrightarrow> discovery_part d' = discovery_part d"
  "apply_lifecycle_rolling E now k v d = Inr d' \<Longrightarrow> discovery_part d' = discovery_part d"
proof -
  show "refresh_lifecycle_ignition E now k up d = Inr d' \<Longrightarrow> discovery_part d' = discovery_part d"
    by (auto simp: refresh_lifecycle_ignition_def Let_def discovery_part_def split: option.splits)
  show "refresh_lifecycle_coreos_install E now k up d = Inr d' \<Longrightarrow> discovery_part d' = discovery_part d"
    by (auto simp: refresh_lifecycle_coreos_install_def discovery_part_def split: option.splits)
  show "apply_lifecycle_rolling E now k v d = Inr d' \<Longrightarrow> discovery_part d' = discovery_part d"
    by (cases "first (query_where E (\<lambda>r. r_machine r = k) (rollings d))")
      (auto simp: apply_lifecycle_rolling_def bindE_eq_Inr discovery_part_def)
qed

interpretation part: db_side_writes "\<lambda>E d. discovery_part d = c" for c
  by unfold_locales
    (simp_all add: update_state_part create_schedule_part lifecycle_part, auto dest!: health_check_db simp: discovery_part_def)

lemma fetch_part:
  assumes "discovery_part d' = discovery_part d"
  shows "fst (fetch_all_discovery E d') = fst (fetch_all_discovery E d)"
proof -
  have p: "machines d' = machines d" "ifaces d' = ifaces d" "disks d' = disks d"
    using assms by (simp_all add: discovery_part_def)
  have "m_interfaces E d' = m_interfaces E d" "m_disks E d' = m_disks E d"
    by (simp_all add: fun_eq_iff m_interfaces_def m_disks_def p)
  then have "fetch_discovery E d' = fetch_discovery E d"
    by (intro ext) (simp add: fetch_discovery_def Let_def split: option.split)
  moreover have "machines_join_ifaces E Q d' = machines_join_ifaces E Q d" for Q
    by (simp add: machines_join_ifaces_def machine_iface_rows_def p)
  ultimately show ?thesis
    by (simp add: fetch_all_discovery_def session_commit_def split: sum.splits prod.splits)
      (auto simp: bindE_eq_Inr bindE_eq_Inl)
qed

definition posts_discovery :: "request \<Rightarrow> bool" where
  "posts_discovery rq \<longleftrightarrow> rq_method rq = ''POST'' \<and> rq_path rq = ''/discovery''"

definition reads_discovery :: "request \<Rightarrow> bool" where
  "reads_discovery rq \<longleftrightarrow> rq_method rq = ''GET'' \<and> rq_path rq = ''/discovery''"

lemma serve_discovery:
  "posts_discovery rq \<Longrightarrow> serve S rq s =
     (case record_discovery_data S rq s of (Inl _, s') \<Rightarrow> (server_error, s') | (Inr r, s') \<Rightarrow> (r, s'))"
  "reads_discovery rq \<Longrightarrow> serve S rq s =
     (case get_discovery_data S rq s of (Inl _, s') \<Rightarrow> (server_error, s') | (Inr r, s') \<Rightarrow> (r, s'))"
  by (simp_all add: posts_discovery_def reads_discovery_def serve_def routes_of_def routes_of_1_def)

text \<open>What an uncached read answers, and when the cached entry agrees with it.\<close>

definition fresh_discovery :: "'c server \<Rightarrow> db \<Rightarrow> response" where
  "fresh_discovery S d =
     (case fst (fetch_all_discovery (sv_engine S) d) of Inl _ \<Rightarrow> server_error | Inr js \<Rightarrow> jsonify (JList js) 200)"

definition coherent :: "'c server \<Rightarrow> 'c api \<Rightarrow> bool" where
  "coherent S s \<longleftrightarrow> (\<forall>u v. cache_get (sv_cache S) u ''/discovery'' (a_cache s) = Some v \<longrightarrow>
     fst (fetch_all_discovery (sv_engine S) (a_db s)) = ok (case v of JList js \<Rightarrow> js | _ \<Rightarrow> []) \<and> v \<in> range JList)"

lemma get_discovery_run:
  assumes S: "cache_ok (sv_cache S)" and rq: "rq_path rq = ''/discovery''"
    and s: "\<And>v. cache_get (sv_cache S) (rq_now rq) ''/discovery'' (a_cache s) = Some v \<Longrightarrow> truthy v \<Longrightarrow>
      fst (fetch_all_discovery (sv_engine S) (a_db s)) = ok (case v of JList js \<Rightarrow> js | _ \<Rightarrow> []) \<and> v \<in> range JList"
  shows "(case get_discovery_data S rq s of (Inl _, s') \<Rightarrow> server_error | (Inr r, s') \<Rightarrow> r) = fresh_discovery S (a_db s)"
    and "a_db (snd (get_discovery_data S rq s)) = a_db s"
    and "a_cache (snd (get_discovery_data S rq s)) = a_cache s \<or>
      (\<exists>js. fst (fetch_all_discovery (sv_engine S) (a_db s)) = ok js \<and>
        a_cache (snd (get_discovery_data S rq s)) = cache_set (sv_cache S) (rq_now rq) ''/discovery'' (JList js) 30 (a_cache s))"
proof -
  let ?f = "fetch_all_discovery (sv_engine S) (a_db s)"
  obtain r where f: "?f = (r, a_db s)" by (metis fetch_all_discovery_db prod.collapse)
  define miss where "miss = bindA (with_db (fetch_all_discovery (sv_engine S))) (\<lambda>js.
    bindA (cache_store S (rq_now rq) ''/discovery'' (JList js) 30) (\<lambda>_. ret (jsonify (JList js) 200)))"
  have m: "(case miss s of (Inl _, s') \<Rightarrow> server_error | (Inr r, s') \<Rightarrow> r) = fresh_discovery S (a_db s)"
    "a_db (snd (miss s)) = a_db s"
    "a_cache (snd (miss s)) = a_cache s \<or> (\<exists>js. r = ok js \<and>
        a_cache (snd (miss s)) = cache_set (sv_cache S) (rq_now rq) ''/discovery'' (JList js) 30 (a_cache s))"
    unfolding miss_def by (cases r; simp add: act_simps f fresh_discovery_def)+
  have g: "get_discovery_data S rq s = (case cache_get (sv_cache S) (rq_now rq) ''/discovery'' (a_cache s) of
      Some v \<Rightarrow> if truthy v then (ok (jsonify v 200), s) else miss s | None \<Rightarrow> miss s)"
    by (simp add: get_discovery_data_def act_simps rq miss_def split: option.split)
  show "(case get_discovery_data S rq s of (Inl _, s') \<Rightarrow> server_error | (Inr r, s') \<Rightarrow> r) = fresh_discovery S (a_db s)"
    "a_db (snd (get_discovery_data S rq s)) = a_db s"
    "a_cache (snd (get_discovery_data S rq s)) = a_cache s \<or> (\<exists>js. fst ?f = ok js \<and>
        a_cache (snd (get_discovery_data S rq s)) = cache_set (sv_cache S) (rq_now rq) ''/discovery'' (JList js) 30 (a_cache s))"
    unfolding g using m s
    by (auto simp: f fresh_discovery_def split: option.splits)
qed

lemma post_discovery_run:
  assumes rq: "posts_discovery rq" and ok: "status (fst (serve S rq s)) = 200"
  shows "\<exists>c. a_cache (snd (serve S rq s)) = cache_delete (sv_cache S) ''/discovery'' c"
proof -
  have p: "rq_path rq = ''/discovery''" using rq by (simp add: posts_discovery_def)
  obtain data where d: "rq_body rq = Some data"
    using ok by (cases "rq_body rq") (simp_all add: serve_discovery(1) [OF rq] record_discovery_data_def act_simps
        discovery_error_def jsonify_def)
  define m :: "'a handler" where "m = bindA (with_db (upsert (sv_engine S) (verify_fqdn S) (sv_dns S) (rq_now rq) data)) (\<lambda>new.
     bindA (liftA (bindE (jget data ''boot-info'') (\<lambda>b. jget b ''mac''))) (\<lambda>mac.
     bindA (put_machine_state S (rq_now rq) mac st_discovery) (\<lambda>_.
     bindA (cache_drop S ''/discovery'') (\<lambda>_. ret (jsonify (JObj [(''new-discovery'', JBool new)]) 200)))))"
  have r: "record_discovery_data S rq = tryA m (\<lambda>x. if x = TypeError then Some (ret discovery_error) else None)"
    by (simp add: record_discovery_data_def d m_def p)
  show ?thesis
  proof (cases "m s")
    case (Pair res s1)
    show ?thesis
    proof (cases res)
      case (Inl x)
      with ok Pair show ?thesis
        by (simp add: serve_discovery(1) [OF rq] r tryA_run ret_run discovery_error_def jsonify_def server_error_def plain_def
            split: if_splits)
    next
      case (Inr resp)
      with Pair have "m s = (Inr resp, s1)" by simp
      then obtain s0 where "s1 = snd (cache_drop S ''/discovery'' s0)"
        unfolding m_def bindA_Inr by (auto simp: ret_run cache_drop_def)
      with Inr Pair show ?thesis
        by (auto simp: serve_discovery(1) [OF rq] r tryA_run cache_drop_def)
    qed
  qed
qed

lemma coherent_step:
  assumes S: "cache_ok (sv_cache S)" "engine_ok (sv_engine S)" and s: "coherent S s"
    and post: "posts_discovery rq \<Longrightarrow> status (fst (serve S rq s)) = 200"
  shows "coherent S (snd (serve S rq s))"
proof (cases "rq_path rq = ''/discovery''")
  case False
  have "cache_get (sv_cache S) u ''/discovery'' (a_cache (snd (serve S rq s))) =
      cache_get (sv_cache S) u ''/discovery'' (a_cache s)" for u
    by (rule serve_keep [OF S(1)]) (use False in auto)
  moreover have "discovery_part (a_db (snd (serve S rq s))) = discovery_part (a_db s)"
    by (rule part.serve_side [OF S(2)]) (use False in auto)
  from fetch_part [OF this] have "fst (fetch_all_discovery (sv_engine S) (a_db (snd (serve S rq s)))) =
      fst (fetch_all_discovery (sv_engine S) (a_db s))" .
  ultimately show ?thesis using s by (simp only: coherent_def)
next
  case path: True
  consider "posts_discovery rq" | "reads_discovery rq" | "rq_method rq \<noteq> ''POST''" "rq_method rq \<noteq> ''GET''"
    using path by (auto simp: posts_discovery_def reads_discovery_def)
  then show ?thesis
  proof cases
    case 1
    from post_discovery_run [OF 1 post [OF 1]] cache_laws(6) [OF S(1)] show ?thesis
      by (auto simp: coherent_def)
  next
    case 2
    have "snd (serve S rq s) = snd (get_discovery_data S rq s)"
      unfolding serve_discovery(2) [OF 2] by (auto split: prod.splits sum.splits)
    moreover have "coherent S (snd (get_discovery_data S rq s))"
    proof -
      have h: "fst (fetch_all_discovery (sv_engine S) (a_db s)) = ok (case v of JList js \<Rightarrow> js | _ \<Rightarrow> []) \<and> v \<in> range JList"
        if "cache_get (sv_cache S) (rq_now rq) ''/discovery'' (a_cache s) = Some v" "truthy v" for v
        using s that by (simp add: coherent_def)
      note g = get_discovery_run(2,3) [OF S(1) path h]
      from g(2) show ?thesis
      proof
        assume "a_cache (snd (get_discovery_data S rq s)) = a_cache s"
        with s g(1) show ?thesis by (simp add: coherent_def)
      next
        assume "\<exists>js. fst (fetch_all_discovery (sv_engine S) (a_db s)) = ok js \<and> a_cache (snd (get_discovery_data S rq s)) =
          cache_set (sv_cache S) (rq_now rq) ''/discovery'' (JList js) 30 (a_cache s)"
        then obtain js where js: "fst (fetch_all_discovery (sv_engine S) (a_db s)) = ok js" "a_cache (snd (get_discovery_data S rq s)) =
          cache_set (sv_cache S) (rq_now rq) ''/discovery'' (JList js) 30 (a_cache s)" by blast
        have v: "v = JList js" if "cache_get (sv_cache S) u ''/discovery'' (a_cache (snd (get_discovery_data S rq s))) = Some v" for u v
          using that cache_laws(4) [OF S(1), of u "''/discovery''" "rq_now rq" "JList js" 30 "a_cache s"] by (simp add: js)
        show ?thesis unfolding coherent_def by (intro allI impI, drule v) (use g(1) js(1) in simp)
      qed
    qed
    ultimately show ?thesis by simp
  next
    case 3
    then have "snd (serve S rq s) = s"
      using path by (simp add: serve_def routes_of_def routes_of_1_def)
    with s show ?thesis by simp
  qed
qed

text \<open>
  C9. A cached \<open>/discovery\<close> is never stale: after any run of requests that starts with a cold cache
  and in which every posted discovery was answered 200, reading \<open>/discovery\<close> answers what reading
  the database answers. (A post that ends in an error after the discovery was stored leaves the old
  entry in the cache.)
\<close>

theorem discovery_never_stale:
  assumes S: "cache_ok (sv_cache S)" "engine_ok (sv_engine S)"
    and cold: "\<forall>u. cache_get (sv_cache S) u ''/discovery'' (a_cache s) = None"
    and posts: "list_all2 (\<lambda>rq r. posts_discovery rq \<longrightarrow> status r = 200) rqs (fst (run S rqs s))"
    and read: "reads_discovery rq"
  shows "fst (serve S rq (snd (run S rqs s))) = fresh_discovery S (a_db (snd (run S rqs s)))"
proof -
  have "coherent S (snd (run S rqs s))" if "coherent S s" "list_all2 (\<lambda>rq r. posts_discovery rq \<longrightarrow> status r = 200) rqs (fst (run S rqs s))" for s
    using that
  proof (induction rqs arbitrary: s)
    case (Cons rq rqs)
    then have "posts_discovery rq \<Longrightarrow> status (fst (serve S rq s)) = 200"
      and "list_all2 (\<lambda>rq r. posts_discovery rq \<longrightarrow> status r = 200) rqs (fst (run S rqs (snd (serve S rq s))))"
      by (simp_all add: run_step del: run.simps(2))
    with coherent_step [OF S Cons.prems(1)] Cons.IH show ?case by (simp add: run_step del: run.simps(2))
  qed simp
  moreover have "coherent S s" using cold by (simp add: coherent_def)
  ultimately have c: "coherent S (snd (run S rqs s))" using posts by blast
  have path: "rq_path rq = ''/discovery''" using read by (simp add: reads_discovery_def)
  have "(case get_discovery_data S rq (snd (run S rqs s)) of (Inl _, s') \<Rightarrow> server_error | (Inr r, s') \<Rightarrow> r) =
      fresh_discovery S (a_db (snd (run S rqs s)))"
    by (rule get_discovery_run(1) [OF S(1) path]) (use c in \<open>simp add: coherent_def\<close>)
  then show ?thesis unfolding serve_discovery(2) [OF read] by (auto split: prod.splits sum.splits)
qed

definition read_request :: "nat \<Rightarrow> request" where
  "read_request now = sample_request ''GET'' ''/discovery'' None now"

theorem discovery_never_stale_witness:
  "fst (serve sample_server (read_request 9) (snd (run sample_server [read_request 5] (sample_state other_db)))) =
   fresh_discovery sample_server (a_db (snd (run sample_server [read_request 5] (sample_state other_db))))"
proof (rule discovery_never_stale)
  have r: "reads_discovery (read_request n)" "\<not> posts_discovery (read_request n)" for n
    by (simp_all add: reads_discovery_def posts_discovery_def read_request_def sample_request_def)
  show "list_all2 (\<lambda>rq r. posts_discovery rq \<longrightarrow> status r = 200) [read_request 5]
      (fst (run sample_server [read_request 5] (sample_state other_db)))"
    using r by (simp add: run_step del: run.simps(2))
  show "reads_discovery (read_request 9)" by (rule r)
qed (simp_all add: engine_ok_ref, simp add: sample_state_def ref_cache_ops_def ref_get_def)

end
