(* ===== verification/Net.thy ===== *)
theory Net
  imports Api_Invariant Scheduler_Facts Json_Text
begin

text \<open>
  The plan and the API together: the API model as the host the scheduler talks to, and the contract
  of the scheduler discharged on it. The state is the clock, the API, the files and the query cache of the plan; a
  call of the client is one request served.
\<close>

section \<open>The API as a host\<close>

text \<open>The query cache is werkzeug's \<open>SimpleCache\<close> in the memory of the plan: key, expiry date, value.\<close>

type_synonym simple_cache = "(string \<times> int \<times> json) list"

definition simple_get :: "nat \<Rightarrow> string \<Rightarrow> simple_cache \<Rightarrow> json option" where
  "simple_get now k c = (case map_of c k of Some (x, v) \<Rightarrow> if x = 0 \<or> int now < x then Some v else None | None \<Rightarrow> None)"

definition simple_set :: "nat \<Rightarrow> string \<Rightarrow> json \<Rightarrow> int \<Rightarrow> simple_cache \<Rightarrow> simple_cache" where
  "simple_set now k v n c = (k, int now + n * int second, v) # filter (\<lambda>e. fst e \<noteq> k) c"

record 'c net =
  clock :: nat
  net_api :: "'c api"
  net_fs :: fs
  net_queries :: simple_cache

text \<open>What the client receives; a text that is a number is JSON too.\<close>

definition reply_of :: "response \<Rightarrow> reply" where
  "reply_of r =
     (case payload r of
        Body j \<Rightarrow> \<lparr>rp_status = status r, rp_content = dumps_sorted j, rp_text = ok (dumps_sorted j), rp_json = Some j\<rparr>
      | Plain t \<Rightarrow> \<lparr>rp_status = status r, rp_content = t, rp_text = ok t,
          rp_json = (if t \<noteq> [] \<and> list_all is_digit t then Some (JInt (int (read_nat t))) else None)\<rparr>)"

definition net_request :: "string \<Rightarrow> string \<Rightarrow> json option \<Rightarrow> nat \<Rightarrow> request" where
  "net_request verb path body now = \<lparr>rq_method = verb, rq_path = path, rq_query = '''', rq_args = [], rq_body = body,
     rq_remote = ''127.0.0.1'', rq_now = now\<rparr>"

definition net_call :: "'c server \<Rightarrow> string \<Rightarrow> string \<Rightarrow> string \<Rightarrow> json option \<Rightarrow> 'c net \<Rightarrow> reply result \<times> 'c net" where
  "net_call S base verb url body st =
     (if starts_with base url then
        case serve S (net_request verb (drop (length base) url) body (clock st)) (net_api st) of
          (r, a) \<Rightarrow> (ok (reply_of r), st\<lparr>net_api := a\<rparr>)
      else (raise ConnectionError, st))"

definition net_host :: "'c server \<Rightarrow> string \<Rightarrow> 'c net host" where
  "net_host S base = \<lparr>h_get = (\<lambda>url. net_call S base ''GET'' url None),
     h_post = (\<lambda>url body. net_call S base ''POST'' url body),
     h_sleep = (\<lambda>n st. st\<lparr>clock := clock st + nat n * 1000\<rparr>), h_fs = net_fs, h_set_fs = (\<lambda>f st. st\<lparr>net_fs := f\<rparr>),
     h_cached = (\<lambda>k st. simple_get (clock st) k (net_queries st)),
     h_cache = (\<lambda>n k v st. st\<lparr>net_queries := simple_set (clock st) k v n (net_queries st)\<rparr>)\<rparr>"

lemma net_get:
  "h_get (net_host S base) (base @ path) st =
     (case serve S (net_request ''GET'' path None (clock st)) (net_api st) of (r, a) \<Rightarrow> (Inr (reply_of r), st\<lparr>net_api := a\<rparr>))"
  by (simp add: net_host_def net_call_def)

lemma net_post:
  "h_post (net_host S base) (base @ path) body st =
     (case serve S (net_request ''POST'' path body (clock st)) (net_api st) of
        (r, a) \<Rightarrow> (Inr (reply_of r), st\<lparr>net_api := a\<rparr>))"
  by (simp add: net_host_def net_call_def)

section \<open>The abstract view of the database\<close>

definition schedulable :: "db \<Rightarrow> bool" where
  "schedulable d \<longleftrightarrow> (\<forall>m\<in>set (machines d). roles_of d m \<noteq> {} \<longrightarrow>
     (\<exists>i\<in>set (ifaces d). i_machine i = m_id m \<and> i_as_boot i))"

definition ident :: "engine \<Rightarrow> db \<Rightarrow> machine \<Rightarrow> string" where
  "ident E d m = i_mac (hd (m_interfaces E d m))"

definition holds_roles :: "string list \<Rightarrow> string set \<Rightarrow> bool" where
  "holds_roles roles R = (case roles of [r] \<Rightarrow> r \<in> R | _ \<Rightarrow> R = set roles)"

definition db_idents :: "engine \<Rightarrow> db \<Rightarrow> string set" where
  "db_idents E d = ident E d ` {m \<in> set (machines d). m_interfaces E d m \<noteq> []}"

definition db_avail :: "engine \<Rightarrow> db \<Rightarrow> string list" where
  "db_avail E d = map (ident E d) (available_machines E d)"

definition db_holders :: "db \<Rightarrow> string list \<Rightarrow> nat" where
  "db_holders d roles = card {m \<in> set (machines d). holds_roles roles (roles_of d m)}"

definition db_roles_at :: "engine \<Rightarrow> db \<Rightarrow> string \<Rightarrow> string set" where
  "db_roles_at E d mac = (case machine_by_mac E d mac of None \<Rightarrow> {} | Some m \<Rightarrow> roles_of d m)"

lemma ident_machine:
  assumes E: "engine_ok E" and d: "db_ok d" and m: "m \<in> set (machines d)" "m_interfaces E d m \<noteq> []"
  shows "machine_by_mac E d (ident E d m) = Some m"
proof -
  have "hd (m_interfaces E d m) \<in> set (m_interfaces E d m)" using m(2) by simp
  then have "hd (m_interfaces E d m) \<in> set (ifaces d)" "i_machine (hd (m_interfaces E d m)) = m_id m"
    using E by (simp_all add: m_interfaces_def)
  with m(1) d show ?thesis unfolding ident_def
    using machine_by_mac_Some [OF E, of d] by (auto simp: db_ok_def)
qed

lemma ident_inj:
  assumes "engine_ok E" "db_ok d" "m \<in> set (machines d)" "m_interfaces E d m \<noteq> []" "x \<in> set (machines d)" "m_interfaces E d x \<noteq> []"
  shows "ident E d m = ident E d x \<longleftrightarrow> m = x"
  using ident_machine [OF assms(1,2)] assms(3-6) by (metis option.inject)

lemma available_in:
  assumes "engine_ok E" "m \<in> set (available_machines E d)"
  shows "m \<in> set (machines d)" "m_interfaces E d m \<noteq> []" "roles_of d m = {}"
    and "\<exists>i\<in>set (ifaces d). i_machine i = m_id m \<and> i_as_boot i"
  using assms m_interfaces_nonempty [OF assms(1)] by (auto simp: set_available_machines)

lemma db_avail_distinct:
  assumes E: "engine_ok E" and d: "db_ok d"
  shows "distinct (db_avail E d)" "set (db_avail E d) \<subseteq> db_idents E d"
proof -
  have "inj_on (ident E d) (set (available_machines E d))"
    using ident_inj [OF E d] available_in(1,2) [OF E] by (auto intro!: inj_onI)
  then show "distinct (db_avail E d)"
    by (simp add: db_avail_def distinct_map available_machines_def distinct_machines_join_ifaces)
  show "set (db_avail E d) \<subseteq> db_idents E d"
    using available_in(1,2) [OF E] by (auto simp: db_avail_def db_idents_def)
qed

section \<open>What the listings answer\<close>

lemma available_listing:
  assumes E: "engine_ok E"
  shows "\<exists>js. get_available_machines E d = ok js \<and> macs_are (db_avail E d) js"
proof -
  have f: "\<exists>j. available_dict E d m = ok j \<and> mac_key j = ok (JStr (ident E d m))" if "m \<in> set (available_machines E d)" for m
    using available_in(2) [OF E that] by (cases "m_interfaces E d m") (auto simp: available_dict_def mac_key_def ident_def)
  have "\<exists>js. mapE (available_dict E d) ms = ok js \<and> macs_are (map (ident E d) ms) js"
    if ms: "set ms \<subseteq> set (available_machines E d)" for ms
    using ms
  proof (induction ms)
    case (Cons m ms)
    with f [of m] show ?case by (fastforce simp: macs_are_def)
  qed (simp add: macs_are_def)
  then show ?thesis by (simp add: get_available_machines_def db_avail_def)
qed

lemma construct_total:
  assumes E: "engine_ok E" and d: "schedulable d" and m: "m \<in> set (machines d)" "roles_of d m \<noteq> {}"
  shows "is_ok (construct_machine_dict E d role m)"
proof -
  obtain i where "i \<in> set (ifaces d)" "i_machine i = m_id m \<and> i_as_boot i" using d m unfolding schedulable_def by blast
  then have "query_where E (\<lambda>i. i_machine i = m_id m \<and> i_as_boot i) (ifaces d) \<noteq> []"
    using E by (auto simp: query_where_def filter_empty_conv)
  then have "m_boot_interface E d m \<noteq> None" by (simp add: m_boot_interface_def)
  then show ?thesis by (auto simp: construct_machine_dict_def)
qed

lemma set_machines_with_role:
  "engine_ok E \<Longrightarrow> set (machines_with_role E role d) = {m \<in> set (machines d). role \<in> roles_of d m}"
  by (auto simp: machines_with_role_def roles_of_def image_iff)

lemma set_machines_with_roles:
  "engine_ok E \<Longrightarrow> set (machines_with_roles E roles d) = {m \<in> set (machines d). roles_of d m = set roles}"
  by (simp add: machines_with_roles_def all_machines_def roles_of_def)

lemma roles_listing_of:
  assumes E: "engine_ok E" and d: "schedulable d" "db_ok d" and r: "plan_roles roles"
  obtains ms j js where "get_machines_by_roles E roles d = ok js" "list_all2 (\<lambda>m x. construct_machine_dict E d j m = ok x) ms js"
    "set ms = {m \<in> set (machines d). holds_roles roles (roles_of d m)}" "length js = db_holders d roles" "json_ok j"
proof -
  define ms where "ms = (case roles of [r] \<Rightarrow> machines_with_role E r d | _ \<Rightarrow> machines_with_roles E roles d)"
  define j where "j = (case roles of [r] \<Rightarrow> JStr r | _ \<Rightarrow> JList (map JStr roles))"
  have g: "get_machines_by_roles E roles d = mapE (construct_machine_dict E d j) ms"
    using r by (auto simp: get_machines_by_roles_def get_machines_by_role_def ms_def j_def plan_roles_def)
  have set_ms: "set ms = {m \<in> set (machines d). holds_roles roles (roles_of d m)}"
    using r by (auto simp: ms_def plan_roles_def holds_roles_def set_machines_with_role [OF E] set_machines_with_roles [OF E])
  have "distinct (machines d)" using d(2) by (auto simp: db_ok_def keys_ok_def distinct_map)
  then have "distinct (all_machines E d)"
    using distinct_map_arrange [OF E, of id "machines d"] by (simp add: all_machines_def query_where_def)
  then have "distinct ms" using r by (auto simp: ms_def plan_roles_def machines_with_role_def machines_with_roles_def)
  then have "length ms = db_holders d roles" using distinct_card set_ms by (metis db_holders_def)
  moreover have "is_ok (mapE (construct_machine_dict E d j) ms)"
  proof (rule mapE_is_ok)
    fix m assume "m \<in> set ms"
    then have "m \<in> set (machines d)" "roles_of d m \<noteq> {}"
      using set_ms r by (auto simp: holds_roles_def plan_roles_def)
    then show "is_ok (construct_machine_dict E d j m)" by (rule construct_total [OF E d(1)])
  qed
  then obtain js where js: "mapE (construct_machine_dict E d j) ms = ok js" by (auto simp: is_ok_iff)
  moreover have "json_ok j" using r by (auto simp: j_def plan_roles_def)
  ultimately show thesis using that [of js j ms] g set_ms mapE_length [OF js] by (simp add: mapE_Inr_iff)
qed

lemma roles_listing:
  assumes "engine_ok E" "schedulable d" "db_ok d" "plan_roles roles"
  shows "\<exists>js. get_machines_by_roles E roles d = ok js \<and> length js = db_holders d roles"
  by (rule roles_listing_of [OF assms]) blast

section \<open>What a posted schedule changes\<close>

lemma posted:
  assumes E: "engine_ok E" and d: "db_ok d" "schedulable d" and r: "plan_roles roles" and mac: "mac \<in> set (db_avail E d)"
  shows "\<exists>d'. create_schedule E now (role_body roles (JStr mac)) d = (Inr (), d') \<and> db_ok d' \<and> schedulable d' \<and>
    db_idents E d' = db_idents E d \<and> set (db_avail E d') = set (db_avail E d) - {mac} \<and>
    (\<forall>m\<in>db_idents E d. db_roles_at E d' m = (if m = mac then set roles else db_roles_at E d m)) \<and>
    db_holders d' roles = Suc (db_holders d roles) \<and>
    (\<forall>rs. plan_roles rs \<and> rs \<noteq> roles \<longrightarrow> db_holders d' rs = db_holders d rs)"
proof -
  obtain m where m: "m \<in> set (available_machines E d)" "mac = ident E d m" using mac by (auto simp: db_avail_def)
  note mi = available_in [OF E m(1)]
  have own: "machine_by_mac E d mac = Some m" using ident_machine [OF E d(1) mi(1,2)] m(2) by simp
  have valid: "set roles \<subseteq> set ScheduleRoles_roles" using r by (auto simp: plan_roles_def ScheduleRoles_roles_def)
  obtain new where new: "create_schedule E now (schedule_request mac (map JStr roles)) d = (Inr (), d\<lparr>schedules := schedules d @ new\<rparr>)"
    "\<forall>s\<in>set new. s_machine s = m_id m" "map s_role new = [r \<leftarrow> roles. r \<notin> roles_of d m]"
    by (rule request_roles [OF E own valid])
  define d' where "d' = d\<lparr>schedules := schedules d @ new\<rparr>"
  have c: "create_schedule E now (role_body roles (JStr mac)) d = (Inr (), d')"
    using new(1) by (simp add: role_body_def schedule_request_def strs_def d'_def)
  have tabs: "machines d' = machines d" "ifaces d' = ifaces d" by (simp_all add: d'_def)
  have mifs: "m_interfaces E d' = m_interfaces E d" by (simp add: fun_eq_iff m_interfaces_def tabs)
  have idents: "ident E d' = ident E d" by (simp add: fun_eq_iff ident_def mifs)
  have bymac: "machine_by_mac E d' = machine_by_mac E d"
    by (simp add: fun_eq_iff machine_by_mac_def machines_join_ifaces_def machine_iface_rows_def tabs)
  have rm: "roles_of d' m = set roles" using roles_of_app [OF new(2), of d] new_roles [OF new(3)] mi(3) by (simp add: d'_def)
  have rx: "roles_of d' x = roles_of d x" if x: "x \<in> set (machines d)" "x \<noteq> m" for x
  proof -
    have "m_id x \<noteq> m_id m" using x mi(1) d(1) unfolding db_ok_def keys_ok_def by (metis distinct_map_inj_set)
    with new(2) show ?thesis unfolding d'_def by (rule roles_of_other)
  qed
  have ne: "set roles \<noteq> {}" using r by (auto simp: plan_roles_def)
  have "db_ok d'" using create_schedule_db_ok [OF E d(1), of now "role_body roles (JStr mac)"] c by simp
  moreover have "schedulable d'" using d(2) rx mi(4) unfolding schedulable_def tabs by metis
  moreover have "db_idents E d' = db_idents E d" by (simp add: db_idents_def idents mifs tabs)
  moreover have "set (db_avail E d') = set (db_avail E d) - {mac}"
  proof -
    have "set (available_machines E d') = set (available_machines E d) - {m}"
    proof -
      have "roles_of d' x = {} \<longleftrightarrow> x \<noteq> m \<and> roles_of d x = {}" if "x \<in> set (machines d)" for x
        using rm ne rx [OF that] by (cases "x = m") simp_all
      then show ?thesis unfolding set_available_machines [OF E] tabs by auto
    qed
    moreover have "ident E d ` (set (available_machines E d) - {m}) = ident E d ` set (available_machines E d) - {ident E d m}"
      using ident_inj [OF E d(1) mi(1,2)] available_in(1,2) [OF E] by blast
    ultimately show ?thesis by (simp add: db_avail_def idents m(2))
  qed
  moreover have "db_roles_at E d' k = (if k = mac then set roles else db_roles_at E d k)" if k: "k \<in> db_idents E d" for k
  proof -
    obtain x where x: "x \<in> set (machines d)" "m_interfaces E d x \<noteq> []" "k = ident E d x" using k by (auto simp: db_idents_def)
    have "machine_by_mac E d k = Some x" using ident_machine [OF E d(1) x(1,2)] x(3) by simp
    moreover have "k = mac \<longleftrightarrow> x = m" using ident_inj [OF E d(1) x(1,2) mi(1,2)] x(3) m(2) by simp
    ultimately show ?thesis using rm rx [OF x(1)] by (simp add: db_roles_at_def bymac)
  qed
  moreover have "db_holders d' roles = Suc (db_holders d roles)"
  proof -
    have h: "holds_roles roles (set roles)" "\<not> holds_roles roles {}" using r by (auto simp: plan_roles_def holds_roles_def)
    have "{x \<in> set (machines d'). holds_roles roles (roles_of d' x)} =
        insert m {x \<in> set (machines d). holds_roles roles (roles_of d x)}"
    proof -
      have "holds_roles roles (roles_of d' x) \<longleftrightarrow> x = m \<or> holds_roles roles (roles_of d x)" if "x \<in> set (machines d)" for x
        using rm h(1) rx [OF that] by (cases "x = m") simp_all
      then show ?thesis unfolding tabs using mi(1) by auto
    qed
    moreover have "m \<notin> {x \<in> set (machines d). holds_roles roles (roles_of d x)}" using h(2) mi(3) by simp
    ultimately show ?thesis by (simp add: db_holders_def)
  qed
  moreover have "db_holders d' rs = db_holders d rs" if rs: "plan_roles rs" "rs \<noteq> roles" for rs
  proof -
    have "\<not> holds_roles rs (set roles)" "\<not> holds_roles rs {}"
      using r rs by (auto simp: plan_roles_def holds_roles_def role_defs)
    then have "holds_roles rs (roles_of d' x) \<longleftrightarrow> holds_roles rs (roles_of d x)" if "x \<in> set (machines d)" for x
      using rm mi(3) rx [OF that] by (cases "x = m") simp_all
    then have "{x \<in> set (machines d'). holds_roles rs (roles_of d' x)} = {x \<in> set (machines d). holds_roles rs (roles_of d x)}"
      unfolding tabs by blast
    then show ?thesis by (simp add: db_holders_def)
  qed
  ultimately show ?thesis using c by blast
qed

section \<open>The contract discharged\<close>

definition net_good :: "'c server \<Rightarrow> 'c net \<Rightarrow> bool" where
  "net_good S st \<longleftrightarrow> engine_ok (sv_engine S) \<and> db_ok (a_db (net_api st)) \<and> schedulable (a_db (net_api st))"

definition net_idents :: "'c server \<Rightarrow> 'c net \<Rightarrow> string set" where
  "net_idents S st = db_idents (sv_engine S) (a_db (net_api st))"

definition net_avail :: "'c server \<Rightarrow> 'c net \<Rightarrow> string list" where
  "net_avail S st = db_avail (sv_engine S) (a_db (net_api st))"

definition net_holders :: "'c net \<Rightarrow> string list \<Rightarrow> nat" where
  "net_holders st roles = db_holders (a_db (net_api st)) roles"

definition net_roles_at :: "'c server \<Rightarrow> 'c net \<Rightarrow> string \<Rightarrow> string set" where
  "net_roles_at S st mac = db_roles_at (sv_engine S) (a_db (net_api st)) mac"

lemmas net_views = net_good_def net_idents_def net_avail_def net_holders_def net_roles_at_def

lemma serve_available:
  "serve S (net_request ''GET'' ''/scheduler/available'' None now) a =
     (case get_available_machine S a of (Inl _, a') \<Rightarrow> (server_error, a') | (Inr r, a') \<Rightarrow> (r, a'))"
  by (simp add: serve_def routes_of_def routes_of_2_def net_request_def)

lemma serve_roles:
  assumes "plan_roles roles"
  shows "serve S (net_request ''GET'' (''/scheduler/'' @ join_with ''&'' roles) None now) a =
     (case get_schedule_by_role S (join_with ''&'' roles) a of (Inl _, a') \<Rightarrow> (server_error, a') | (Inr r, a') \<Rightarrow> (r, a'))"
    and "split_on CHR ''&'' (join_with ''&'' roles) = roles"
  using assms by (auto simp: plan_roles_def role_defs serve_def routes_of_def routes_of_2_def net_request_def)

lemma serve_post:
  "serve S (net_request ''POST'' ''/scheduler'' (Some body) now) a =
     (case scheduler_post S (net_request ''POST'' ''/scheduler'' (Some body) now) a of
        (Inl _, a') \<Rightarrow> (server_error, a') | (Inr r, a') \<Rightarrow> (r, a'))"
  by (simp add: serve_def routes_of_def routes_of_1_def net_request_def)

lemma load_body: "load_reply (reply_of (jsonify j n)) = ok j"
  by (simp add: load_reply_def reply_of_def jsonify_def)

interpretation net: schedule_service "net_host S base" base "net_good S" "net_idents S" "net_avail S" net_holders "net_roles_at S"
  for S :: "'c server" and base :: string
proof
  fix st :: "'c net" and roles mac
  assume good: "net_good S st"
  note g = good [unfolded net_good_def]
  show "distinct (net_avail S st) \<and> set (net_avail S st) \<subseteq> net_idents S st"
    using g db_avail_distinct by (simp add: net_views)
  obtain js where js: "get_available_machines (sv_engine S) (a_db (net_api st)) = ok js"
      "macs_are (db_avail (sv_engine S) (a_db (net_api st))) js"
    using available_listing g by blast
  then show "\<exists>r xs. h_get (net_host S base) (base @ ''/scheduler/available'') st = (Inr r, st) \<and> load_reply r = ok (JList xs) \<and>
      macs_are (net_avail S st) xs"
    by (intro exI [of _ "reply_of (jsonify (JList js) 200)"])
      (simp add: net_get serve_available get_available_machine_def act_simps load_body net_avail_def)
  assume roles: "plan_roles roles"
  obtain ks where ks: "get_machines_by_roles (sv_engine S) roles (a_db (net_api st)) = ok ks" "length ks = db_holders (a_db (net_api st)) roles"
    using roles_listing roles g by blast
  then show "\<exists>r xs. h_get (net_host S base) (base @ ''/scheduler/'' @ join_with ''&'' roles) st = (Inr r, st) \<and>
      load_reply r = ok (JList xs) \<and> length xs = net_holders st roles"
    unfolding net_get serve_roles [OF roles] get_schedule_by_role_def
    by (intro exI [of _ "reply_of (jsonify (JList ks) 200)"])
      (simp add: act_simps load_body net_holders_def serve_roles(2) [OF roles])
  assume mac: "mac \<in> set (net_avail S st)"
  obtain d' where c: "create_schedule (sv_engine S) (clock st) (role_body roles (JStr mac)) (a_db (net_api st)) = (Inr (), d')"
    and d': "db_ok d'" "schedulable d'" "db_idents (sv_engine S) d' = db_idents (sv_engine S) (a_db (net_api st))"
      "set (db_avail (sv_engine S) d') = set (db_avail (sv_engine S) (a_db (net_api st))) - {mac}"
      "\<forall>m\<in>db_idents (sv_engine S) (a_db (net_api st)). db_roles_at (sv_engine S) d' m =
         (if m = mac then set roles else db_roles_at (sv_engine S) (a_db (net_api st)) m)"
      "db_holders d' roles = Suc (db_holders (a_db (net_api st)) roles)"
      "\<forall>rs. plan_roles rs \<and> rs \<noteq> roles \<longrightarrow> db_holders d' rs = db_holders (a_db (net_api st)) rs"
    using posted [of "sv_engine S" "a_db (net_api st)" roles mac "clock st"] g roles mac by (auto simp: net_avail_def)
  show "\<exists>r s'. h_post (net_host S base) (base @ ''/scheduler'') (Some (role_body roles (JStr mac))) st = (Inr r, s') \<and> net_good S s' \<and>
      net_idents S s' = net_idents S st \<and> set (net_avail S s') = set (net_avail S st) - {mac} \<and>
      (\<forall>m\<in>net_idents S st. net_roles_at S s' m = (if m = mac then set roles else net_roles_at S st m)) \<and>
      net_holders s' roles = Suc (net_holders st roles) \<and>
      (\<forall>rs. plan_roles rs \<and> rs \<noteq> roles \<longrightarrow> net_holders s' rs = net_holders st rs)"
    unfolding net_post serve_post scheduler_post_def
    using c d' g by (auto simp: act_simps net_views net_request_def)
qed

section \<open>Scheduling rounds against the API\<close>

lemma scheduler_roles:
  "sort [etcd_member, kubernetes_control_plane] = [etcd_member, kubernetes_control_plane]"
  "sort [kubernetes_node] = [kubernetes_node]"
  "plan_roles (sort [etcd_member, kubernetes_control_plane])" "plan_roles (sort [kubernetes_node])"
  by (simp_all add: plan_roles_def role_defs less_char_def less_eq_char_def)

text \<open>
  C6. A round of the control-plane scheduler against the API: with as many holders of the roles as
  expected it changes nothing; with fewer available machines than expected it answers False and
  changes nothing; otherwise exactly the expected number of available machines, those with the
  lowest macs, get exactly the two roles and leave the pool, and every other machine keeps its
  roles. The holders there were before are not counted in, so a round that starts with some of them
  ends with more than expected.
\<close>

theorem budget_schedules_lowest:
  assumes E: "engine_ok (sv_engine S)" and d: "db_ok (a_db (net_api st))" "schedulable (a_db (net_api st))"
    and C: "EtcdMemberKubernetesControlPlane ec base = ok C" "expected_nb C = int n"
  shows "let roles = [etcd_member, kubernetes_control_plane]; held = net_holders st roles; free = net_avail S st;
      chosen = take n (sort free) in
    if n \<le> held then apply_budget (net_host S base) C st = (Inr True, st)
    else if length free < n then apply_budget (net_host S base) C st = (Inr False, st)
    else \<exists>st'. apply_budget (net_host S base) C st = (Inr True, st') \<and> db_ok (a_db (net_api st')) \<and>
      set (net_avail S st') = set free - set chosen \<and> length chosen = n \<and> distinct chosen \<and>
      (\<forall>mac\<in>net_idents S st. net_roles_at S st' mac = (if mac \<in> set chosen then set roles else net_roles_at S st mac)) \<and>
      net_holders st' roles = held + n"
proof -
  have good: "net_good S st" using E d by (simp add: net_good_def)
  have r: "sched_roles C = [etcd_member, kubernetes_control_plane]" "api_uri C = base"
    using C(1) scheduler_roles(1) by (auto simp: EtcdMemberKubernetesControlPlane_def bindE_eq_Inr)
  have p: "plan_roles (sched_roles C)" using scheduler_roles(1,3) r(1) by simp
  have "distinct (take n (sort (net_avail S st)))" using net.avail_distinct [OF good] by simp
  with net.budget_outcome [OF good p r(2) C(2)] show ?thesis
    by (auto simp: r(1) net.scheduled_def net_good_def Let_def)
qed

definition sample_net :: "ref_cache net" where
  "sample_net = \<lparr>clock = 0, net_api = sample_state other_db, net_fs = \<lparr>f_dirs = [], f_files = []\<rparr>, net_queries = []\<rparr>"

definition sample_plan_ec :: config where
  "sample_plan_ec = \<lparr>from_yaml = JObj [], from_env = [], default_values = [], attrs = [
     (''apply_deps_tries'', JInt 15), (''apply_deps_delay'', JInt 60),
     (''etcd_member_kubernetes_control_plane_expected_nb'', JInt 1)]\<rparr>"

lemma sample_net_ok:
  "db_ok (a_db (net_api sample_net))" "schedulable (a_db (net_api sample_net))" "net_avail sample_server sample_net = [other_mac]"
  "net_holders sample_net [etcd_member, kubernetes_control_plane] = 0"
  using other_db_ok
  by (simp_all add: sample_net_def sample_state_def schedulable_def roles_of_def other_db_def empty_db_def net_avail_def
      db_avail_def available_machines_def machines_join_ifaces_def machine_iface_rows_def m_schedules_def query_where_def
      ident_def m_interfaces_def other_iface_def other_machine_def other_mac_def net_holders_def db_holders_def holds_roles_def)

theorem budget_schedules_lowest_witness:
  "\<exists>C st'. EtcdMemberKubernetesControlPlane sample_plan_ec ''http://api'' = ok C \<and>
     apply_budget (net_host sample_server ''http://api'') C sample_net = (Inr True, st') \<and>
     net_holders st' [etcd_member, kubernetes_control_plane] = 1 \<and> net_avail sample_server st' = []"
proof -
  obtain C where C: "EtcdMemberKubernetesControlPlane sample_plan_ec ''http://api'' = ok C" "expected_nb C = int 1"
    by (simp add: EtcdMemberKubernetesControlPlane_def sample_plan_ec_def attr_def)
  have "engine_ok (sv_engine sample_server)" by (simp add: engine_ok_ref)
  from budget_schedules_lowest [OF this sample_net_ok(1,2) C] sample_net_ok(3,4) C(1) show ?thesis
    by (auto simp: Let_def)
qed

text \<open>
  A round of the node scheduler gives the node role to every available machine, empties the
  pool, leaves the roles of all others alone and returns the number of nodes.
\<close>

theorem nodes_take_everything:
  assumes E: "engine_ok (sv_engine S)" and d: "db_ok (a_db (net_api st))" "schedulable (a_db (net_api st))"
  shows "\<exists>st'. apply_everything (net_host S base) (node_scheduler base tries delay) st =
      (Inr (net_holders st [kubernetes_node] + length (net_avail S st)), st') \<and>
    db_ok (a_db (net_api st')) \<and> net_avail S st' = [] \<and>
    net_holders st' [kubernetes_node] = net_holders st [kubernetes_node] + length (net_avail S st) \<and>
    (\<forall>mac\<in>net_idents S st. net_roles_at S st' mac =
       (if mac \<in> set (net_avail S st) then {kubernetes_node} else net_roles_at S st mac))"
proof -
  have good: "net_good S st" using E d by (simp add: net_good_def)
  let ?C = "node_scheduler base tries delay"
  have r: "sched_roles ?C = [kubernetes_node]" "api_uri ?C = base" by (simp_all add: node_scheduler_def)
  have p: "plan_roles (sched_roles ?C)" by (simp add: r plan_roles_def)
  from net.everything_outcome [OF good p r(2)] show ?thesis
    by (auto simp: r(1) net.scheduled_def net_good_def)
qed

theorem nodes_take_everything_witness:
  "\<exists>st'. apply_everything (net_host sample_server ''http://api'') (node_scheduler ''http://api'' 15 60) sample_net =
     (Inr (net_holders sample_net [kubernetes_node] + 1), st') \<and> net_avail sample_server st' = []"
proof -
  have "engine_ok (sv_engine sample_server)" by (simp add: engine_ok_ref)
  from nodes_take_everything [OF this sample_net_ok(1,2), of "''http://api''" 15 60] sample_net_ok(3) show ?thesis
    by auto
qed

end
