(* ===== verification/Plan_Net.thy ===== *)
theory Plan_Net
  imports Plan_Facts Net
begin

text \<open>
  The plan against the API model: the files of the plan are written only by the synchronisation, its
  reads leave the API alone, and a round of the plan schedules every machine and writes the group of
  every scheduled one.
\<close>

section \<open>The contracts of the synchronisation discharged\<close>

interpretation net_files: file_host "net_host S base" for S :: "'c server" and base :: string
  by unfold_locales (auto simp: net_host_def net_call_def split: prod.split)

lemma serve_ip_list:
  "serve S (net_request ''GET'' (''/scheduler/ip-list/'' @ etcd_member) None now) a =
     (case get_schedule_role_ip_list S etcd_member a of (Inl _, a') \<Rightarrow> (server_error, a') | (Inr r, a') \<Rightarrow> (r, a'))"
  by (simp add: role_defs serve_def routes_of_def routes_of_3_def net_request_def)

lemma plan_roles_sync: "plan_roles cp_roles" "plan_roles node_roles"
  using scheduler_roles(3,4) by (simp_all add: cp_roles_def node_roles_def)

section \<open>The machines the synchronisation reads\<close>

lemma sort_by_mac_mset: "sort_by_mac (JList xs) = ok ys \<Longrightarrow> mset ys = mset xs"
proof -
  assume s: "sort_by_mac (JList xs) = ok ys"
  show ?thesis
  proof (cases "length xs \<le> 1")
    case True
    with s show ?thesis by (auto simp: bindE_eq_Inr)
  next
    case False
    with s obtain ks ms where k: "mapE mac_key xs = ok ks" "mapE as_str ks = ok ms" "ys = map snd (sort_key fst (zip ms xs))"
      by (auto simp: bindE_eq_Inr)
    have "length ms = length xs" using mapE_length [OF k(1)] mapE_length [OF k(2)] by simp
    moreover have "mset (map snd (sort_key fst (zip ms xs))) = mset (map snd (zip ms xs))" by (simp only: mset_map mset_sort)
    ultimately show ?thesis by (simp add: k(3) del: mset_map)
  qed
qed

lemma construct_fields:
  assumes "construct_machine_dict E d j m = ok v" "json_ok j"
  obtains b where "m_boot_interface E d m = Some b" "jget v ''mac'' = ok (JStr (i_mac b))" "jget v ''ipv4'' = ok (JStr (i_ipv4 b))" "json_ok v"
proof -
  obtain b where b: "m_boot_interface E d m = Some b" using assms(1) by (auto simp: construct_machine_dict_def split: option.splits)
  have k: "json_ok (disk_json_path_size k)" for k by (simp add: disk_json_path_size_def json_ok_dict)
  have o: "json_ok (opt_str x)" for x by (cases x) (simp_all add: opt_str_def)
  show thesis
    using that [OF b] assms b k o by (auto simp: construct_machine_dict_def json_ok_dict)
qed

text \<open>The list covers the machines that hold the roles, each entry is one of a known machine.\<close>

definition entry_of_machine :: "engine \<Rightarrow> db \<Rightarrow> json \<Rightarrow> bool" where
  "entry_of_machine E d v \<longleftrightarrow> (\<exists>x\<in>set (machines d). \<exists>j. construct_machine_dict E d j x = ok v)"

definition lists_holders :: "engine \<Rightarrow> db \<Rightarrow> string list \<Rightarrow> json list \<Rightarrow> bool" where
  "lists_holders E d roles ms \<longleftrightarrow> (\<forall>m\<in>set ms. json_ok m \<and> entry_of_machine E d m) \<and> length ms = db_holders d roles \<and>
     (\<forall>x\<in>set (machines d). holds_roles roles (roles_of d x) \<longrightarrow>
        (\<exists>b. m_boot_interface E d x = Some b \<and>
          (\<exists>m\<in>set ms. jget m ''mac'' = ok (JStr (i_mac b)) \<and> jget m ''ipv4'' = ok (JStr (i_ipv4 b)))))"

lemma list_all2_sides:
  assumes "list_all2 P xs ys"
  shows "y \<in> set ys \<Longrightarrow> \<exists>x\<in>set xs. P x y" "x \<in> set xs \<Longrightarrow> \<exists>y\<in>set ys. P x y"
  using assms by (induction xs ys rule: list_all2_induct) auto

lemma net_fresh_roles:
  assumes good: "net_good S st" and r: "plan_roles roles"
    and none: "cached_query (net_host S (sy_api_uri Y)) Y (''/scheduler/'' @ join_with ''&'' roles) st = None"
  obtains ms where "query_roles (net_host S (sy_api_uri Y)) Y roles st =
      (Inr ms, snd (keep_query (net_host S (sy_api_uri Y)) Y (''/scheduler/'' @ join_with ''&'' roles) (JList ms) st))"
    "lists_holders (sv_engine S) (a_db (net_api st)) roles ms"
proof -
  have g: "engine_ok (sv_engine S)" "schedulable (a_db (net_api st))" "db_ok (a_db (net_api st))"
    using good by (simp_all add: net_good_def)
  obtain xs j js where js: "get_machines_by_roles (sv_engine S) roles (a_db (net_api st)) = ok js"
      "list_all2 (\<lambda>m x. construct_machine_dict (sv_engine S) (a_db (net_api st)) j m = ok x) xs js"
      "set xs = {m \<in> set (machines (a_db (net_api st))). holds_roles roles (roles_of (a_db (net_api st)) m)}"
      "length js = db_holders (a_db (net_api st)) roles" "json_ok j"
    by (rule roles_listing_of [OF g r])
  have c: "\<exists>b. m_boot_interface (sv_engine S) (a_db (net_api st)) x = Some b \<and> jget v ''mac'' = ok (JStr (i_mac b)) \<and>
      jget v ''ipv4'' = ok (JStr (i_ipv4 b)) \<and> json_ok v"
    if "construct_machine_dict (sv_engine S) (a_db (net_api st)) j x = ok v" for x v
    using construct_fields [OF that js(5)] by metis
  have "\<exists>ms. macs_are ms js"
  proof -
    have "\<forall>v\<in>set js. \<exists>w. mac_key v = ok (JStr w)"
      using list_all2_sides(1) [OF js(2)] c unfolding mac_key_def by blast
    then obtain f where "\<forall>v\<in>set js. mac_key v = ok (JStr (f v))" by (rule bchoice [THEN exE])
    then have "macs_are (map f js) js" by (simp add: macs_are_def)
    then show ?thesis ..
  qed
  then obtain ys where ys: "sort_by_mac (JList js) = ok ys" using sort_by_mac_ok by blast
  have set_ys: "mset ys = mset js" by (rule sort_by_mac_mset [OF ys])
  have eq_ys: "set ys = set js" using set_ys by (metis set_mset_mset)
  have "lists_holders (sv_engine S) (a_db (net_api st)) roles ys"
    unfolding lists_holders_def
  proof (intro conjI ballI impI)
    fix v assume "v \<in> set ys"
    then have "v \<in> set js" using eq_ys by simp
    then obtain x where x: "x \<in> set xs" "construct_machine_dict (sv_engine S) (a_db (net_api st)) j x = ok v"
      using list_all2_sides(1) [OF js(2)] by blast
    then show "json_ok v" "entry_of_machine (sv_engine S) (a_db (net_api st)) v"
      using c [OF x(2)] by (auto simp: js(3) entry_of_machine_def)
  next
    show "length ys = db_holders (a_db (net_api st)) roles" using set_ys js(4) by (metis size_mset)
  next
    fix x assume "x \<in> set (machines (a_db (net_api st)))" "holds_roles roles (roles_of (a_db (net_api st)) x)"
    then have "x \<in> set xs" by (simp add: js(3))
    then obtain v where "v \<in> set js" "construct_machine_dict (sv_engine S) (a_db (net_api st)) j x = ok v"
      using list_all2_sides(2) [OF js(2)] by blast
    with c [OF this(2)] eq_ys show "\<exists>b. m_boot_interface (sv_engine S) (a_db (net_api st)) x = Some b \<and>
        (\<exists>m\<in>set ys. jget m ''mac'' = ok (JStr (i_mac b)) \<and> jget m ''ipv4'' = ok (JStr (i_ipv4 b)))"
      by blast
  qed
  moreover have "query_roles (net_host S (sy_api_uri Y)) Y roles st =
      (Inr ys, snd (keep_query (net_host S (sy_api_uri Y)) Y (''/scheduler/'' @ join_with ''&'' roles) (JList ys) st))"
  proof -
    define u where "u = ''/scheduler/'' @ join_with ''&'' roles"
    have "h_get (net_host S (sy_api_uri Y)) (sy_api_uri Y @ u) st = (Inr (reply_of (jsonify (JList js) 200)), st)"
      unfolding u_def net_get serve_roles(1) [OF r] get_schedule_by_role_def
      by (simp add: act_simps serve_roles(2) [OF r] js(1))
    then have "query (net_host S (sy_api_uri Y)) Y sort_by_mac u st =
        (Inr ys, snd (keep_query (net_host S (sy_api_uri Y)) Y u (JList ys) st))"
      using ys none [folded u_def] by (simp add: query_def act_simps load_body keep_query_def del: sort_by_mac.simps)
    then show ?thesis by (simp only: query_roles_def u_def)
  qed
  ultimately show thesis using that by blast
qed

text \<open>
  What the query cache may hold: entries that expire within the time to live, and for the lists of
  roles and for the addresses of the members the ones the API would answer now.
\<close>

definition roles_path :: "string list \<Rightarrow> string" where
  "roles_path roles = ''/scheduler/'' @ join_with ''&'' roles"

definition members_path :: string where
  "members_path = ''/scheduler/ip-list/'' @ etcd_member"

definition expires_within :: "int \<Rightarrow> 'c net \<Rightarrow> bool" where
  "expires_within n st \<longleftrightarrow> (\<forall>e\<in>set (net_queries st). 0 < fst (snd e) \<and> fst (snd e) \<le> int (clock st) + n * int second)"

definition queries_true :: "'c server \<Rightarrow> synchroniser \<Rightarrow> 'c net \<Rightarrow> bool" where
  "queries_true S Y st \<longleftrightarrow> (\<forall>n. sy_ttl Y = Some n \<longrightarrow> 0 < n \<and> expires_within n st \<and>
     (\<forall>roles\<in>{cp_roles, node_roles}. \<forall>v. simple_get (clock st) (roles_path roles) (net_queries st) = Some v \<longrightarrow>
        (\<exists>js. v = JList js \<and> lists_holders (sv_engine S) (a_db (net_api st)) roles js)) \<and>
     (\<forall>v. simple_get (clock st) members_path (net_queries st) = Some v \<longrightarrow>
        (\<exists>ips. get_role_ip_list (sv_engine S) etcd_member (a_db (net_api st)) = ok ips \<and> v = strs (sort ips))))"

lemma roles_path_neq:
  "roles_path cp_roles \<noteq> roles_path node_roles" "roles_path cp_roles \<noteq> members_path" "roles_path node_roles \<noteq> members_path"
  by (simp_all add: roles_path_def members_path_def cp_roles_def node_roles_def role_defs)

lemma simple_get_set:
  "simple_get u k (simple_set t j v n c) = (if k = j then (if int t + n * int second = 0 \<or> int u < int t + n * int second then Some v else None)
     else simple_get u k c)"
  by (simp add: simple_get_def simple_set_def map_of_other)

lemma keep_query_net:
  "snd (keep_query (net_host S base) Y k v st) = st \<or>
   (\<exists>n. sy_ttl Y = Some n \<and> snd (keep_query (net_host S base) Y k v st) = st\<lparr>net_queries := simple_set (clock st) k v n (net_queries st)\<rparr>)"
  by (simp add: keep_query_def net_host_def split: option.split)

lemma kept_true:
  assumes "queries_true S Y st"
    and "\<And>roles. roles \<in> {cp_roles, node_roles} \<Longrightarrow> k = roles_path roles \<Longrightarrow>
      lists_holders (sv_engine S) (a_db (net_api st)) roles js"
    and "k = members_path \<Longrightarrow> \<exists>ips. get_role_ip_list (sv_engine S) etcd_member (a_db (net_api st)) = ok ips \<and> JList js = strs (sort ips)"
  shows "queries_true S Y (snd (keep_query (net_host S base) Y k (JList js) st))"
  using keep_query_net [of S base Y k "JList js" st]
proof (elim disjE exE conjE)
  fix n
  assume n: "sy_ttl Y = Some n" and st': "snd (keep_query (net_host S base) Y k (JList js) st) =
    st\<lparr>net_queries := simple_set (clock st) k (JList js) n (net_queries st)\<rparr>"
  have "0 < n" "expires_within n st" using assms(1) n by (simp_all add: queries_true_def)
  then have "expires_within n (st\<lparr>net_queries := simple_set (clock st) k (JList js) n (net_queries st)\<rparr>)"
    by (auto simp: expires_within_def simple_set_def second_def)
  with assms \<open>0 < n\<close> show ?thesis by (auto simp: queries_true_def st' n simple_get_set)
qed (use assms(1) in simp)

text \<open>The state of a synchronisation that has not notified yet.\<close>

definition syncing :: "'c server \<Rightarrow> synchroniser \<Rightarrow> 'c api \<times> nat \<Rightarrow> 'c net \<Rightarrow> bool" where
  "syncing S Y a st \<longleftrightarrow> (net_api st, clock st) = a \<and> net_good S st \<and> queries_true S Y st"

lemma net_query_roles:
  assumes s: "syncing S Y a st" and r: "roles \<in> {cp_roles, node_roles}"
  obtains ms st' where "query_roles (net_host S (sy_api_uri Y)) Y roles st = (Inr ms, st')"
    "lists_holders (sv_engine S) (a_db (net_api st)) roles ms" "syncing S Y a st'" "net_fs st' = net_fs st"
proof (cases "cached_query (net_host S (sy_api_uri Y)) Y (roles_path roles) st")
  case None
  have pr: "plan_roles roles" using r plan_roles_sync by auto
  have good: "net_good S st" using s by (simp add: syncing_def)
  obtain ms where ms: "query_roles (net_host S (sy_api_uri Y)) Y roles st =
      (Inr ms, snd (keep_query (net_host S (sy_api_uri Y)) Y (roles_path roles) (JList ms) st))"
    "lists_holders (sv_engine S) (a_db (net_api st)) roles ms"
    using net_fresh_roles [OF good pr None [unfolded roles_path_def]] unfolding roles_path_def by blast
  have "queries_true S Y (snd (keep_query (net_host S (sy_api_uri Y)) Y (roles_path roles) (JList ms) st))"
    using s r ms(2) roles_path_neq by (intro kept_true) (auto simp: syncing_def dest: sym)
  then have "syncing S Y a (snd (keep_query (net_host S (sy_api_uri Y)) Y (roles_path roles) (JList ms) st))"
    "net_fs (snd (keep_query (net_host S (sy_api_uri Y)) Y (roles_path roles) (JList ms) st)) = net_fs st"
    using s keep_query_net [of S "sy_api_uri Y" Y "roles_path roles" "JList ms" st] by (auto simp: syncing_def net_good_def)
  with ms that show thesis by blast
next
  case (Some v)
  then obtain n where n: "sy_ttl Y = Some n" "simple_get (clock st) (roles_path roles) (net_queries st) = Some v"
    by (auto simp: cached_query_def net_host_def split: option.splits)
  then obtain js where js: "v = JList js" "lists_holders (sv_engine S) (a_db (net_api st)) roles js"
    using s r unfolding syncing_def queries_true_def by blast
  have "query_roles (net_host S (sy_api_uri Y)) Y roles st = (Inr js, st)"
    using Some js(1) by (simp add: query_roles_def query_def roles_path_def)
  with js(2) s that show thesis by blast
qed

lemma members_listing:
  assumes E: "engine_ok E"
  shows "is_ok (get_role_ip_list E role d)"
  unfolding get_role_ip_list_def
proof (rule mapE_is_ok)
  fix m assume "m \<in> set (uniq_first (map fst (arrange E [(m, i, s). m \<leftarrow> machines d, i \<leftarrow> ifaces d, s \<leftarrow> schedules d,
      i_machine i = m_id m \<and> s_machine s = m_id m \<and> s_role s = role \<and> i_as_boot i])))"
  then have "m_interfaces E d m \<noteq> []"
    using m_interfaces_nonempty [OF E] by (auto simp: E)
  then show "is_ok (bindE (item0 (m_interfaces E d m)) (\<lambda>i. ok (i_ipv4 i)))" by (cases "m_interfaces E d m") simp_all
qed

lemma sort_strings_strs [simp]: "sort_strings (strs ws) = ok (map JStr (sort ws))"
  by (simp add: strs_def)

lemma net_members:
  assumes s: "syncing S Y a st"
  obtains ips st' where "etcd_member_ip_list (net_host S (sy_api_uri Y)) Y st = (Inr (sort ips), st')"
    "get_role_ip_list (sv_engine S) etcd_member (a_db (net_api st)) = ok ips" "syncing S Y a st'" "net_fs st' = net_fs st"
proof -
  let ?H = "net_host S (sy_api_uri Y)"
  have "engine_ok (sv_engine S)" using s by (simp add: syncing_def net_good_def)
  then obtain ips where ips: "get_role_ip_list (sv_engine S) etcd_member (a_db (net_api st)) = ok ips"
    using members_listing unfolding is_ok_iff by blast
  have run: "etcd_member_ip_list ?H Y st = (case query ?H Y sort_strings members_path st of
      (Inl x, t) \<Rightarrow> (Inl x, t) | (Inr js, t) \<Rightarrow> (mapE as_str js, t))"
    unfolding etcd_member_ip_list_def query_ip_list_def members_path_def [symmetric] bindA_run
    by (simp only: ret_run)
  show thesis
  proof (cases "cached_query ?H Y members_path st")
    case (Some v)
    then have "v = strs (sort ips)"
      using s ips by (auto simp: cached_query_def net_host_def syncing_def queries_true_def split: option.splits)
    with Some have "query ?H Y sort_strings members_path st = (Inr (map JStr (sort ips)), st)"
      by (simp add: query_def strs_def)
    with that [OF _ ips s refl] show thesis by (simp add: run)
  next
    case None
    define u where "u = members_path"
    define t where "t = snd (keep_query ?H Y u (JList (map JStr (sort ips))) st)"
    have "h_get ?H (sy_api_uri Y @ u) st = (Inr (reply_of (jsonify (strs ips) 200)), st)"
      unfolding u_def members_path_def net_get serve_ip_list get_schedule_role_ip_list_def
      using ips by (simp add: act_simps)
    then have "query ?H Y sort_strings u st = (Inr (map JStr (sort ips)), t)"
      using None by (simp add: query_def act_simps load_body keep_query_def t_def u_def)
    then have e: "etcd_member_ip_list ?H Y st = (Inr (sort ips), t)" by (simp add: run u_def)
    have "queries_true S Y t"
      unfolding t_def using s roles_path_neq ips by (intro kept_true) (auto simp: syncing_def u_def strs_def)
    then have "syncing S Y a t" "net_fs t = net_fs st"
      using s keep_query_net [of S "sy_api_uri Y" Y u "JList (map JStr (sort ips))" st]
      by (auto simp: syncing_def net_good_def t_def)
    with e ips that show thesis by blast
  qed
qed

interpretation net_sync: sync_writes "net_host S (sy_api_uri Y)" Y "syncing S Y a" for S :: "'c server" and Y a
proof
  fix roles assume r: "roles \<in> {cp_roles, node_roles}"
  show "kept (syncing S Y a) (query_roles (net_host S (sy_api_uri Y)) Y roles)"
    unfolding kept_def using net_query_roles [OF _ r] by (metis snd_conv)
next
  show "kept (syncing S Y a) (etcd_member_ip_list (net_host S (sy_api_uri Y)) Y)"
    unfolding kept_def using net_members by (metis snd_conv)
next
  fix st f assume "syncing S Y a st"
  then show "syncing S Y a (h_set_fs (net_host S (sy_api_uri Y)) f st)"
    by (auto simp: syncing_def net_good_def net_host_def queries_true_def expires_within_def)
qed

section \<open>A round of the synchronisation\<close>

text \<open>Every machine that holds the roles has its group on disk.\<close>

definition covered :: "engine \<Rightarrow> db \<Rightarrow> fs \<Rightarrow> synchroniser \<Rightarrow> string \<Rightarrow> string list \<Rightarrow> bool" where
  "covered E d f Y marker roles \<longleftrightarrow>
     (\<forall>x\<in>set (machines d). holds_roles roles (roles_of d x) \<longrightarrow>
        (\<exists>b i. m_boot_interface E d x = Some b \<and> i < db_holders d roles \<and>
           group_on_disk f (sy_path Y) (group_id marker i) marker [(''etcd_name'', JStr (i_ipv4 b))] (i_mac b)))"

lemma covered_by:
  assumes l: "lists_holders E d roles ms" and s: "all_synced f Y marker ms"
  shows "covered E d f Y marker roles"
  unfolding covered_def
proof (intro ballI impI)
  fix x assume x: "x \<in> set (machines d)" "holds_roles roles (roles_of d x)"
  obtain b v where b: "m_boot_interface E d x = Some b" "v \<in> set ms" "jget v ''mac'' = ok (JStr (i_mac b))"
    "jget v ''ipv4'' = ok (JStr (i_ipv4 b))"
    using l x unfolding lists_holders_def by blast
  obtain i where i: "i < length ms" "ms ! i = v" using b(2) by (metis in_set_conv_nth)
  have "synced f Y marker (i, v)" using s i unfolding all_synced_def by blast
  then have "group_on_disk f (sy_path Y) (group_id marker i) marker [(''etcd_name'', JStr (i_ipv4 b))] (i_mac b)"
    using b(3,4) by (auto simp: synced_def)
  moreover have "i < db_holders d roles" using i(1) l by (simp add: lists_holders_def)
  ultimately show "\<exists>b i. m_boot_interface E d x = Some b \<and> i < db_holders d roles \<and>
      group_on_disk f (sy_path Y) (group_id marker i) marker [(''etcd_name'', JStr (i_ipv4 b))] (i_mac b)"
    using b(1) by blast
qed

definition notified :: "'c server \<Rightarrow> nat \<Rightarrow> 'c api \<Rightarrow> 'c api" where
  "notified S now a = snd (serve S (net_request ''POST'' ''/sync-notify'' None now) a)"

lemma notify_served:
  "serve S (net_request ''POST'' ''/sync-notify'' None now) a =
     (case sync_notify S (net_request ''POST'' ''/sync-notify'' None now) a of
        (Inl _, a') \<Rightarrow> (server_error, a') | (Inr r, a') \<Rightarrow> (r, a'))"
  by (simp add: serve_def routes_of_def routes_of_1_def net_request_def)

lemma notified_db [simp]: "a_db (notified S now a) = a_db a"
  by (simp add: notified_def notify_served sync_notify_def act_simps split: sum.split)

lemma round_net:
  fixes S :: "'c server"
  assumes D: "differ_ok D" and ec: "ec_ok ec" "extra_ok Y" and good: "net_good S st" "queries_true S Y st"
    and run: "sync_round D (net_host S (sy_api_uri Y)) ec Y st = (Inr n, st')"
  shows "n = net_holders st cp_roles + net_holders st node_roles" "net_api st' = notified S (clock st) (net_api st)"
    "covered (sv_engine S) (a_db (net_api st)) (net_fs st') Y cp_marker cp_roles"
    "covered (sv_engine S) (a_db (net_api st)) (net_fs st') Y node_marker node_roles"
    "clock st' = clock st" "sy_ttl Y = Some k \<Longrightarrow> 0 < k \<and> expires_within k st'"
proof -
  let ?H = "net_host S (sy_api_uri Y)"
  let ?E = "sv_engine S" and ?d = "a_db (net_api st)"
  let ?K = "syncing S Y (net_api st, clock st)"
  obtain cps s1 s2 nodes s3 s4 r where q: "query_roles ?H Y cp_roles st = (Inr cps, s1)" "query_roles ?H Y node_roles s2 = (Inr nodes, s3)"
    and n: "n = length cps + length nodes"
    and cp: "forA (sync_machine D ?H ec Y cp_marker ''cp-'' (control_plane_update ?H ec Y (length cps))) (List.enumerate 0 cps) s1 = (Inr (), s2)"
    and no: "forA (sync_machine D ?H ec Y node_marker ''no-'' (ret [(''roles'', JStr (join_with '','' node_roles))])) (List.enumerate 0 nodes) s3 = (Inr (), s4)"
    and post: "h_post ?H (sy_api_uri Y @ ''/sync-notify'') None s4 = (Inr r, st')"
    and all: "(\<forall>m\<in>set cps \<union> set nodes. json_ok m) \<Longrightarrow>
      all_synced (h_fs ?H st') Y cp_marker cps \<and> all_synced (h_fs ?H st') Y node_marker nodes"
    by (rule net_files.round_run [OF D ec(1,2) run]) blast
  have k: "?K st" using good by (simp add: syncing_def)
  have k1: "?K s1" and l1: "lists_holders ?E ?d cp_roles cps"
  proof -
    obtain ms s' where "query_roles ?H Y cp_roles st = (Inr ms, s')" "lists_holders ?E ?d cp_roles ms" "?K s'"
      by (rule net_query_roles [OF k, of cp_roles]) simp
    with q(1) show "?K s1" "lists_holders ?E ?d cp_roles cps" by simp_all
  qed
  have k2: "?K s2" by (rule kept_run [OF kept_forA [OF net_sync.kept_machine [OF net_sync.kept_update]] k1 cp])
  have k3: "?K s3" and l2: "lists_holders ?E ?d node_roles nodes"
  proof -
    obtain ms s' where "query_roles ?H Y node_roles s2 = (Inr ms, s')" "lists_holders ?E (a_db (net_api s2)) node_roles ms" "?K s'"
      by (rule net_query_roles [OF k2, of node_roles]) simp
    with q(2) k2 show "?K s3" "lists_holders ?E ?d node_roles nodes" by (simp_all add: syncing_def)
  qed
  have k4: "?K s4" by (rule kept_run [OF kept_forA [OF net_sync.kept_machine [OF kept_basic(1)]] k3 no])
  show "n = net_holders st cp_roles + net_holders st node_roles"
    using l1 l2 by (simp add: n lists_holders_def net_holders_def)
  obtain x where st': "st' = s4\<lparr>net_api := x\<rparr>" "x = notified S (clock s4) (net_api s4)"
    using post by (auto simp: net_post notified_def split: prod.splits)
  with k4 show "net_api st' = notified S (clock st) (net_api st)" "clock st' = clock st" by (simp_all add: syncing_def)
  show "sy_ttl Y = Some k \<Longrightarrow> 0 < k \<and> expires_within k st'"
    using k4 by (auto simp: st'(1) syncing_def queries_true_def expires_within_def)
  have "\<forall>m\<in>set cps \<union> set nodes. json_ok m" using l1 l2 by (auto simp: lists_holders_def)
  note a = all [OF this]
  have fs: "h_fs ?H st' = net_fs st'" by (simp add: net_host_def)
  show "covered ?E ?d (net_fs st') Y cp_marker cp_roles" "covered ?E ?d (net_fs st') Y node_marker node_roles"
    using covered_by [OF l1] covered_by [OF l2] a by (simp_all add: fs)
qed

lemma notify_net:
  "notify (net_host S (sy_api_uri Y)) Y st = (Inr (), st\<lparr>net_api := notified S (clock st) (net_api st)\<rparr>)"
  by (cases "serve S (net_request ''POST'' ''/sync-notify'' None (clock st)) (net_api st)")
    (simp add: notify_def bindA_def net_post notified_def act_simps)

lemma round_fails:
  assumes "net_good S st" "queries_true S Y st"
    and "sync_round D (net_host S (sy_api_uri Y)) ec Y st = (Inl x, st')"
  shows "syncing S Y (net_api st, clock st) st'"
proof (rule net_sync.round_cases [where a = "(net_api st, clock st)" and s = st and S = S and Y = Y and D = D and ec = ec])
  fix n t assume "sync_round D (net_host S (sy_api_uri Y)) ec Y st = bindA (notify (net_host S (sy_api_uri Y)) Y) (\<lambda>_. ret n) t"
  with assms show ?thesis by (simp add: bindA_def notify_net act_simps)
qed (use assms in \<open>auto simp: syncing_def\<close>)

text \<open>Entries that have all expired are no hindrance to whatever the API has become.\<close>

definition queries_dead :: "synchroniser \<Rightarrow> 'c net \<Rightarrow> bool" where
  "queries_dead Y st \<longleftrightarrow> (\<forall>n. sy_ttl Y = Some n \<longrightarrow> 0 < n \<and>
     (\<forall>e\<in>set (net_queries st). 0 < fst (snd e) \<and> fst (snd e) \<le> int (clock st)))"

lemma dead_true: "queries_dead Y st \<Longrightarrow> queries_true S Y st"
proof -
  assume d: "queries_dead Y st"
  have "simple_get (clock st) k (net_queries st) = None" if "sy_ttl Y = Some n" for n k
  proof (cases "map_of (net_queries st) k")
    case (Some e)
    then have "(k, e) \<in> set (net_queries st)" by (rule map_of_SomeD)
    with d that have "0 < fst e \<and> fst e \<le> int (clock st)" unfolding queries_dead_def by fastforce
    with Some show ?thesis by (cases e) (simp add: simple_get_def)
  qed (simp add: simple_get_def)
  moreover have "0 < n \<and> expires_within n st" if "sy_ttl Y = Some n" for n
    using d that by (fastforce simp: queries_dead_def expires_within_def second_def)
  ultimately show ?thesis by (simp add: queries_true_def)
qed

lemma dead_later: "queries_dead Y st \<Longrightarrow> net_queries t = net_queries st \<Longrightarrow> clock st \<le> clock t \<Longrightarrow> queries_dead Y t"
  by (fastforce simp: queries_dead_def)

text \<open>A sleep that outlasts the time to live.\<close>

lemma dead_after:
  assumes "\<And>n. sy_ttl Y = Some n \<Longrightarrow> 0 < n \<and> expires_within n st" and "\<And>n. sy_ttl Y = Some n \<Longrightarrow> 1000 * n \<le> ms"
  shows "queries_dead Y (h_sleep (net_host S base) ms st)"
  unfolding queries_dead_def
proof (intro allI impI conjI ballI)
  fix n e assume n: "sy_ttl Y = Some n"
  show "0 < n" using assms(1) [OF n] by simp
  assume "e \<in> set (net_queries (h_sleep (net_host S base) ms st))"
  then have e: "e \<in> set (net_queries st)" by (simp add: net_host_def)
  then show "0 < fst (snd e)" using assms(1) [OF n] by (simp add: expires_within_def)
  have "fst (snd e) \<le> int (clock st) + n * int second" using assms(1) [OF n] e by (simp add: expires_within_def)
  moreover have "n * int second \<le> int (nat ms * 1000)" using assms(1) [OF n] assms(2) [OF n] by (simp add: second_def)
  ultimately show "fst (snd e) \<le> int (clock (h_sleep (net_host S base) ms st))" by (simp add: net_host_def)
qed

lemma true_later:
  assumes "queries_true S Y st" and "net_queries t = net_queries st" "net_api t = net_api st" "clock st \<le> clock t"
  shows "queries_true S Y t"
proof -
  have "simple_get (clock st) k (net_queries st) = Some v" if "simple_get (clock t) k (net_queries t) = Some v" for k v
    using that assms(2,4) by (auto simp: simple_get_def split: option.splits if_splits)
  moreover have "expires_within n t" if "expires_within n st" for n
    using that assms(2,4) by (fastforce simp: expires_within_def)
  ultimately show ?thesis using assms(1,3) by (fastforce simp: queries_true_def)
qed

text \<open>
  C7. A round of the synchronisation against the API that fails leaves the API as it was: no
  notification, so the gate before /ignition does not open. One that succeeds returns the number of
  machines that hold the roles of the two kinds, has notified the API once and changed nothing of its
  database, and leaves for every such machine a group file whose selector is the mac of its boot
  interface and whose metadata holds its address. The query cache of the plan may hold answers, as
  long as they are those the API would give now.
\<close>

theorem sync_covers_schedules:
  fixes S :: "'c server"
  assumes D: "differ_ok D" and ec: "ec_ok ec" "extra_ok Y" and q: "queries_true S Y st"
    and E: "engine_ok (sv_engine S)" and d: "db_ok (a_db (net_api st))" "schedulable (a_db (net_api st))"
  shows "case sync_round D (net_host S (sy_api_uri Y)) ec Y st of
      (Inl _, st') \<Rightarrow> net_api st' = net_api st
    | (Inr n, st') \<Rightarrow> n = net_holders st cp_roles + net_holders st node_roles \<and>
        net_api st' = notified S (clock st) (net_api st) \<and> a_db (net_api st') = a_db (net_api st) \<and>
        covered (sv_engine S) (a_db (net_api st)) (net_fs st') Y cp_marker cp_roles \<and>
        covered (sv_engine S) (a_db (net_api st)) (net_fs st') Y node_marker node_roles"
proof -
  have good: "net_good S st" using E d by (simp add: net_good_def)
  obtain r st' where run: "sync_round D (net_host S (sy_api_uri Y)) ec Y st = (r, st')" by fastforce
  show ?thesis
  proof (cases r)
    case (Inr n)
    with round_net [OF D ec good q, of n st'] run show ?thesis by simp
  next
    case (Inl x)
    with round_fails [OF good q, of D ec x st'] run show ?thesis by (simp add: syncing_def)
  qed
qed

definition sample_sync :: synchroniser where
  "sample_sync = \<lparr>sy_api_uri = ''http://api'', sy_path = ''/m'', sy_ignition = [(''kubernetes_nodes'', JStr ''k8s-node'')],
     sy_extra = JObj [(''os'', JStr ''installed'')], sy_ttl = Some 5\<rparr>"

lemma sample_sync_ok: "ec_ok sample_plan_ec" "extra_ok sample_sync" "queries_dead sample_sync sample_net" "sy_api_uri sample_sync = ''http://api''"
  by (simp_all add: ec_ok_def sample_plan_ec_def extra_ok_def sample_sync_def json_ok_dict queries_dead_def sample_net_def)

theorem sync_covers_schedules_witness:
  "case sync_round json_differ (net_host sample_server ''http://api'') sample_plan_ec sample_sync sample_net of
     (Inl _, st') \<Rightarrow> net_api st' = net_api sample_net
   | (Inr n, st') \<Rightarrow> n = net_holders sample_net cp_roles + net_holders sample_net node_roles \<and>
       a_db (net_api st') = a_db (net_api sample_net)"
proof -
  have "engine_ok (sv_engine sample_server)" by (simp add: engine_ok_ref)
  from sync_covers_schedules [OF differ_ok_json_differ sample_sync_ok(1,2) dead_true [OF sample_sync_ok(3)] this sample_net_ok(1,2)]
  show ?thesis by (auto simp: sample_sync_ok(4) split: prod.splits sum.splits)
qed

section \<open>A round of the plan\<close>

text \<open>A plan for the API at \<open>base\<close> that expects \<open>n\<close> members of the control plane.\<close>

definition plan_for :: "config \<Rightarrow> string \<Rightarrow> nat \<Rightarrow> plan \<Rightarrow> bool" where
  "plan_for ec base n P \<longleftrightarrow> EtcdMemberKubernetesControlPlane ec base = ok (sch_control_plane P) \<and>
     expected_nb (sch_control_plane P) = int n \<and> (\<exists>t w. sch_node P = node_scheduler base t w) \<and>
     sy_api_uri (k_sync P) = base \<and> extra_ok (k_sync P) \<and> ec_ok ec"

lemma net_good_api: "net_api s = net_api t \<Longrightarrow> net_good S s \<longleftrightarrow> net_good S t"
  by (simp add: net_good_def)

lemma net_views_api:
  "net_api s = net_api t \<Longrightarrow> net_avail S s = net_avail S t" "net_api s = net_api t \<Longrightarrow> net_holders s = net_holders t"
  by (simp_all add: net_views fun_eq_iff)

lemma scheduler_of:
  assumes "EtcdMemberKubernetesControlPlane ec base = ok C"
  shows "sched_roles C = cp_roles" "api_uri C = base"
  using assms by (auto simp: EtcdMemberKubernetesControlPlane_def cp_roles_def bindE_eq_Inr)

lemma control_plane_net:
  assumes good: "net_good S st" and C: "EtcdMemberKubernetesControlPlane ec base = ok C" "expected_nb C = int n"
  shows "if net_holders st cp_roles < n \<and> length (net_avail S st) < n
    then control_plane_apply (net_host S base) C 5 1 st = (Inr (Some False), st)
    else \<exists>st'. control_plane_apply (net_host S base) C 5 1 st = (Inr (Some True), st') \<and> net_good S st' \<and>
      net_holders st' cp_roles \<ge> n"
proof -
  note r = scheduler_of [OF C(1)]
  have p: "plan_roles (sched_roles C)" using plan_roles_sync(1) r(1) by simp
  have b: "\<exists>v st'. apply_budget (net_host S base) C st = (Inr v, st') \<and>
      (if net_holders st cp_roles < n \<and> length (net_avail S st) < n then v = False \<and> st' = st
       else v \<and> net_good S st' \<and> net_holders st' cp_roles \<ge> n)"
    using net.budget_outcome [OF good p r(2) C(2)] good
    by (auto simp: r(1) net.scheduled_def split: if_splits)
  then obtain v st' where v: "apply_budget (net_host S base) C st = (Inr v, st')"
    "if net_holders st cp_roles < n \<and> length (net_avail S st) < n then v = False \<and> st' = st
       else v \<and> net_good S st' \<and> net_holders st' cp_roles \<ge> n" by blast
  have "control_plane_apply (net_host S base) C 5 1 st = (Inr (Some v), st')"
    unfolding control_plane_apply_def by (rule retry_first [where f = "apply_budget (net_host S base) C"]) (simp_all add: v(1))
  with v(2) show ?thesis by (auto split: if_splits)
qed

lemma net_sleep: "h_sleep (net_host S base) ms st = st\<lparr>clock := clock st + nat ms * 1000\<rparr>"
  by (simp add: net_host_def)

lemma wait_forever:
  assumes "net_good S st" "EtcdMemberKubernetesControlPlane ec base = ok C" "expected_nb C = int n"
    and few: "net_holders st cp_roles < n" "length (net_avail S st) < n"
  shows "wait_until (net_host S base) ms (control_plane_apply (net_host S base) C 5 1) st = None"
proof -
  let ?m = "control_plane_apply (net_host S base) C 5 1"
  have f: "?m t = (Inr (Some False), t)" if t: "net_api t = net_api st" for t
  proof -
    have "net_good S t" "net_holders t cp_roles < n" "length (net_avail S t) < n"
      using assms(1) few net_good_api [OF t] net_views_api [OF t] by simp_all
    with control_plane_net [OF _ assms(2,3), of S t] show ?thesis by simp
  qed
  have "answers_false (net_host S base) ms ?m t i" if "net_api t = net_api st" for i t
    using that
  proof (induction i arbitrary: t)
    case 0
    with f show ?case by (simp add: answers_false_def)
  next
    case (Suc i)
    have "net_api (h_sleep (net_host S base) ms (snd (?m t))) = net_api st" using Suc.prems f by (simp add: net_sleep)
    from Suc.IH [OF this] show ?case by (simp add: answers_false_def)
  qed
  then have a: "answers_false (net_host S base) ms ?m st i" for i by simp
  show ?thesis
  proof (rule ccontr)
    assume "wait_until (net_host S base) ms ?m st \<noteq> None"
    then obtain r where "wait_until (net_host S base) ms ?m st = Some r" by auto
    from wait_until_returned [OF this] a show False by blast
  qed
qed

lemma wait_at_once:
  assumes "net_good S st" "EtcdMemberKubernetesControlPlane ec base = ok C" "expected_nb C = int n"
    and enough: "\<not> (net_holders st cp_roles < n \<and> length (net_avail S st) < n)"
  obtains st' where "wait_until (net_host S base) ms (control_plane_apply (net_host S base) C 5 1) st = Some (Inr (), st')"
    "control_plane_apply (net_host S base) C 5 1 st = (Inr (Some True), st')" "net_good S st'" "net_holders st' cp_roles \<ge> n"
proof -
  obtain st' where st': "control_plane_apply (net_host S base) C 5 1 st = (Inr (Some True), st')" "net_good S st'"
    "net_holders st' cp_roles \<ge> n"
    using control_plane_net [OF assms(1-3)] enough by auto
  have "wait_until (net_host S base) ms (control_plane_apply (net_host S base) C 5 1) st = Some (Inr (), st')"
    by (subst wait_until.simps) (simp add: st'(1))
  with st' that show thesis by blast
qed

lemma node_net:
  assumes good: "net_good S st" and C: "C = node_scheduler base t w"
  obtains k st' where "node_apply (net_host S base) C 5 1 st = (Inr (Some k), st')" "net_good S st'" "net_avail S st' = []"
    "net_holders st' cp_roles = net_holders st cp_roles"
proof -
  have r: "sched_roles C = [kubernetes_node]" "api_uri C = base" by (simp_all add: C node_scheduler_def)
  have p: "plan_roles (sched_roles C)" by (simp add: r plan_roles_def)
  have other: "plan_roles cp_roles" "cp_roles \<noteq> sched_roles C" by (simp_all add: r plan_roles_sync(1)) (simp add: cp_roles_def)
  obtain k st' where e: "apply_everything (net_host S base) C st = (Inr k, st')" "net_good S st'" "set (net_avail S st') = {}"
    "net_holders st' cp_roles = net_holders st cp_roles"
    using net.everything_outcome [OF good p r(2)] other by (auto simp: net.scheduled_def)
  have "node_apply (net_host S base) C 5 1 st = (Inr (Some k), st')"
    unfolding node_apply_def by (rule retry_first [where f = "apply_everything (net_host S base) C"]) (simp_all add: e(1))
  with e that show thesis by simp
qed

lemma sync_apply_net:
  fixes S :: "'c server"
  assumes D: "differ_ok D" and ec: "ec_ok ec" "extra_ok Y" and good: "net_good S st" "queries_true S Y st"
    and run: "sync_apply D (net_host S (sy_api_uri Y)) ec Y 10 t st = (r, st')"
  obtains st0 where "net_api st0 = net_api st" "queries_true S Y st0" "sync_round D (net_host S (sy_api_uri Y)) ec Y st0 = (r, st')"
proof -
  let ?r = "sync_round D (net_host S (sy_api_uri Y)) ec Y"
  let ?P = "\<lambda>s. net_api s = net_api st \<and> queries_true S Y s"
  have fails: "?P s'" if "?P s" "?r s = (Inl x, s')" for s x s'
  proof -
    have "net_good S s" using good(1) that(1) net_good_api [of s st S] by simp
    from round_fails [OF this _ that(2)] that(1) show ?thesis by (simp add: syncing_def)
  qed
  have tries: "sync_tries (net_host S (sy_api_uri Y)) ?r (Suc 9) t st = (r, st')"
    using run unfolding sync_apply_def eval_nat_numeral by simp
  have slept: "?P (h_sleep (net_host S (sy_api_uri Y)) n s)" if "?P s" for n s
    using that by (auto simp: net_sleep intro: true_later)
  have "\<exists>s0. ?P s0 \<and> ?r s0 = (r, st')"
    by (rule sync_tries_round [of ?P ?r, OF fails slept _ tries]) (use good(2) in auto)
  with that show thesis by blast
qed

section \<open>What the schedulers leave alone\<close>

lemma kept_tryA:
  "kept Q m \<Longrightarrow> (\<And>x g. h x = Some g \<Longrightarrow> kept Q g) \<Longrightarrow> kept Q (tryA m h)"
  unfolding kept_def tryA_run by (fastforce split: prod.splits sum.splits option.splits)

lemma kept_retry: "kept Q m \<Longrightarrow> (\<And>n. kept Q (sleep H n)) \<Longrightarrow> kept Q (apply_with_retry H m k w)"
  by (induction k) (auto intro!: kept_intros kept_tryA split: if_splits)

text \<open>They post no discovery, use no query cache, write no file, and time does not run backwards.\<close>

definition frames :: "'c net \<Rightarrow> 'c net \<Rightarrow> bool" where
  "frames st t \<longleftrightarrow> discovery_part (a_db (net_api t)) = discovery_part (a_db (net_api st)) \<and>
     net_queries t = net_queries st \<and> net_fs t = net_fs st \<and> clock st \<le> clock t"

lemma kept_call:
  assumes E: "engine_ok (sv_engine S)" and "verb \<noteq> ''POST'' \<or> url = base @ ''/scheduler''"
  shows "kept (frames st) (net_call S base verb url body)"
proof -
  have "frames st (snd (net_call S base verb url body s))" if f: "frames st s" for s
  proof -
    obtain r a where sv: "serve S (net_request verb (drop (length base) url) body (clock s)) (net_api s) = (r, a)" by fastforce
    have "discovery_part (a_db (snd (serve S (net_request verb (drop (length base) url) body (clock s)) (net_api s)))) =
        discovery_part (a_db (net_api s))"
      by (rule part.serve_side [OF E refl]) (use assms(2) in \<open>auto simp: net_request_def\<close>)
    with f sv show ?thesis by (simp add: net_call_def frames_def)
  qed
  then show ?thesis by (simp add: kept_def)
qed

lemma kept_scheduler:
  assumes E: "engine_ok (sv_engine S)" and C: "api_uri C = base"
  shows "kept (frames st) (apply_budget (net_host S base) C)" "kept (frames st) (apply_everything (net_host S base) C)"
    and "kept (frames st) (sleep (net_host S base) n)"
proof -
  let ?H = "net_host S base"
  have g: "kept (frames st) (h_get ?H url)" for url
    using kept_call [OF E, of "''GET''"] by (simp add: net_host_def)
  have p: "kept (frames st) (h_post ?H (api_uri C @ ''/scheduler'') body)" for body
    using kept_call [OF E, of "''POST''"] by (simp add: net_host_def C)
  have f: "kept (frames st) (fetch_available ?H (api_uri C))"
    unfolding fetch_available_def by (intro kept_tryA kept_intros g) (auto intro!: kept_intros split: if_splits)
  have a: "kept (frames st) (affect ?H C x)" for x
    unfolding affect_def by (intro kept_intros p)
  have s: "kept (frames st) (sum_affects ?H C k xs)" for k xs
    by (induction xs arbitrary: k) (auto intro!: kept_intros a)
  have b: "kept (frames st) (apply_available_budget ?H C)"
    unfolding apply_available_budget_def
    by (intro kept_intros f) (auto intro!: kept_intros kept_forA a)
  show "kept (frames st) (apply_budget ?H C)"
    unfolding apply_budget_def by (intro kept_tryA kept_intros g) (auto intro!: kept_intros b split: if_splits)
  show "kept (frames st) (apply_everything ?H C)"
    unfolding apply_everything_def by (intro kept_tryA kept_intros g f s) (auto intro!: kept_intros split: if_splits)
  show "kept (frames st) (sleep ?H n)" by (simp add: kept_def sleep_def net_host_def frames_def)
qed

lemma frames_apply:
  assumes E: "engine_ok (sv_engine S)" and C: "api_uri C = base"
  shows "control_plane_apply (net_host S base) C k w st = (r, st') \<Longrightarrow> frames st st'"
    and "node_apply (net_host S base) C k w st = (r', st') \<Longrightarrow> frames st st'"
proof -
  have r: "frames st st" by (simp add: frames_def)
  have "kept (frames st) (control_plane_apply (net_host S base) C k w)" "kept (frames st) (node_apply (net_host S base) C k w)"
    unfolding control_plane_apply_def node_apply_def by (intro kept_retry kept_scheduler [OF E C])+
  from this [THEN kept_run, OF r]
  show "control_plane_apply (net_host S base) C k w st = (r, st') \<Longrightarrow> frames st st'"
    "node_apply (net_host S base) C k w st = (r', st') \<Longrightarrow> frames st st'" by blast+
qed

text \<open>With enough machines the round gets to its synchronisation, with every machine scheduled.\<close>

lemma plan_schedules:
  fixes S :: "'c server"
  assumes P: "plan_for ec base n P" and good: "net_good S st"
    and enough: "\<not> (net_holders st cp_roles < n \<and> length (net_avail S st) < n)"
  obtains s2 where "plan_apply D (net_host S base) ec P st = Some (sync_apply D (net_host S base) ec (k_sync P) 10 2 s2)"
    "net_good S s2" "net_avail S s2 = []" "net_holders s2 cp_roles \<ge> n" "frames st s2"
proof -
  let ?H = "net_host S base"
  obtain t w where p: "EtcdMemberKubernetesControlPlane ec base = ok (sch_control_plane P)" "expected_nb (sch_control_plane P) = int n"
    "sch_node P = node_scheduler base t w"
    using P unfolding plan_for_def by blast
  have E: "engine_ok (sv_engine S)" using good by (simp add: net_good_def)
  obtain s1 where s1: "wait_until ?H plan_poll (control_plane_apply ?H (sch_control_plane P) 5 1) st = Some (Inr (), s1)"
    "control_plane_apply ?H (sch_control_plane P) 5 1 st = (Inr (Some True), s1)" "net_good S s1"
    "net_holders s1 cp_roles \<ge> n"
    by (rule wait_at_once [OF good p(1,2) enough])
  obtain k s2 where s2: "node_apply ?H (sch_node P) 5 1 s1 = (Inr (Some k), s2)" "net_good S s2" "net_avail S s2 = []"
    "net_holders s2 cp_roles = net_holders s1 cp_roles"
    by (rule node_net [OF s1(3) p(3)])
  have "frames st s1" "frames s1 s2"
    using frames_apply(1) [OF E scheduler_of(2) [OF p(1)] s1(2)] frames_apply(2) [OF E _ s2(1)] p(3) by (simp_all add: node_scheduler_def)
  then have "frames st s2" by (simp add: frames_def)
  moreover have "plan_apply D ?H ec P st = Some (sync_apply D ?H ec (k_sync P) 10 2 s2)"
    using s1(1) s2(1) by (simp add: plan_apply_def act_simps)
  ultimately show thesis using that s1(4) s2(2-4) by simp
qed

lemma plan_round:
  fixes S :: "'c server"
  assumes D: "differ_ok D" and P: "plan_for ec base n P" and good: "net_good S st" and dead: "queries_dead (k_sync P) st"
  shows "if net_holders st cp_roles < n \<and> length (net_avail S st) < n then plan_apply D (net_host S base) ec P st = None
    else \<exists>r st'. plan_apply D (net_host S base) ec P st = Some (r, st') \<and> net_good S st' \<and>
      net_avail S st' = [] \<and> net_holders st' cp_roles \<ge> n \<and> (\<forall>k. r = Inr k \<longrightarrow>
        k = net_holders st' cp_roles + net_holders st' node_roles \<and>
        covered (sv_engine S) (a_db (net_api st')) (net_fs st') (k_sync P) cp_marker cp_roles \<and>
        covered (sv_engine S) (a_db (net_api st')) (net_fs st') (k_sync P) node_marker node_roles \<and>
        (\<forall>n. sy_ttl (k_sync P) = Some n \<longrightarrow> 0 < n \<and> expires_within n st'))"
proof -
  let ?H = "net_host S base" and ?Y = "k_sync P"
  obtain t w where p: "EtcdMemberKubernetesControlPlane ec base = ok (sch_control_plane P)" "expected_nb (sch_control_plane P) = int n"
    "sch_node P = node_scheduler base t w" "sy_api_uri ?Y = base" "extra_ok ?Y" "ec_ok ec"
    using P unfolding plan_for_def by blast
  have E: "engine_ok (sv_engine S)" using good by (simp add: net_good_def)
  show ?thesis
  proof (cases "net_holders st cp_roles < n \<and> length (net_avail S st) < n")
    case True
    with wait_forever [OF good p(1,2)] show ?thesis by (simp add: plan_apply_def)
  next
    case False
    obtain s2 where s2: "plan_apply D ?H ec P st = Some (sync_apply D ?H ec ?Y 10 2 s2)" "net_good S s2" "net_avail S s2 = []"
      "net_holders s2 cp_roles \<ge> n" "frames st s2"
      by (rule plan_schedules [OF P good False])
    then have "queries_dead ?Y s2" using dead by (auto simp: frames_def intro: dead_later)
    then have true2: "queries_true S ?Y s2" by (rule dead_true)
    obtain r st' where s3: "sync_apply D (net_host S (sy_api_uri ?Y)) ec ?Y 10 2 s2 = (r, st')" by fastforce
    obtain s0 where s0: "net_api s0 = net_api s2" "queries_true S ?Y s0" "sync_round D (net_host S (sy_api_uri ?Y)) ec ?Y s0 = (r, st')"
      by (rule sync_apply_net [OF D p(6,5) s2(2) true2 s3])
    have good0: "net_good S s0" using s2(2) net_good_api [OF s0(1)] by simp
    have plan: "plan_apply D ?H ec P st = Some (r, st')"
      using s2(1) s3 by (simp add: p(4))
    have api: "a_db (net_api st') = a_db (net_api s2)"
    proof (cases r)
      case (Inr n)
      with round_net(2) [OF D p(6,5) good0 s0(2), of n st'] s0 show ?thesis by simp
    next
      case (Inl x)
      with round_fails [OF good0 s0(2), of D ec x st'] s0 show ?thesis by (simp add: syncing_def)
    qed
    have same: "net_avail S st' = net_avail S s2" "net_holders st' = net_holders s2" "net_holders s0 = net_holders s2"
      using api s0(1) by (simp_all add: net_views fun_eq_iff)
    have "k = net_holders st' cp_roles + net_holders st' node_roles \<and>
        covered (sv_engine S) (a_db (net_api st')) (net_fs st') ?Y cp_marker cp_roles \<and>
        covered (sv_engine S) (a_db (net_api st')) (net_fs st') ?Y node_marker node_roles \<and>
        (\<forall>n. sy_ttl ?Y = Some n \<longrightarrow> 0 < n \<and> expires_within n st')" if "r = Inr k" for k
      using round_net [OF D p(6,5) good0 s0(2), of k st'] s0 that by (simp add: same api)
    with plan s2(2-4) False show ?thesis by (simp add: same net_good_def api)
  qed
qed


definition sample_plan :: plan where
  "sample_plan = \<lparr>sch_control_plane = \<lparr>api_uri = ''http://api'', sched_roles = cp_roles, expected_nb = 1,
       apply_deps_tries = 15, apply_deps_delay = 60\<rparr>,
     sch_node = node_scheduler ''http://api'' 15 60, k_sync = sample_sync\<rparr>"

lemma sample_plan_for: "plan_for sample_plan_ec ''http://api'' 1 sample_plan"
  using sample_sync_ok
  by (auto simp: plan_for_def sample_plan_def EtcdMemberKubernetesControlPlane_def cp_roles_def sample_plan_ec_def attr_def)


text \<open>
  Along the endless loop of the plan, at every state at its head, the database behind the API is
  consistent and every scheduled machine still has a boot interface; after the first round no known
  machine is without a role, and every scheduled machine has its group on disk.
\<close>

theorem plan_runs_safe:
  fixes S :: "'c server"
  assumes D: "differ_ok D" and P: "plan_for ec base n P"
    and E: "engine_ok (sv_engine S)" and d: "db_ok (a_db (net_api st))" "schedulable (a_db (net_api st))"
    and q: "queries_dead (k_sync P) st" "\<forall>n. sy_ttl (k_sync P) = Some n \<longrightarrow> 1000 * n \<le> ms"
    and run: "plan_runs D (net_host S base) ec P ms st t"
  shows "db_ok (a_db (net_api t)) \<and> schedulable (a_db (net_api t)) \<and>
    (t = st \<or> net_avail S t = [] \<and>
       covered (sv_engine S) (a_db (net_api t)) (net_fs t) (k_sync P) cp_marker cp_roles \<and>
       covered (sv_engine S) (a_db (net_api t)) (net_fs t) (k_sync P) node_marker node_roles)"
proof -
  have "net_good S t \<and> queries_dead (k_sync P) t \<and> (t = st \<or> net_avail S t = [] \<and>
       covered (sv_engine S) (a_db (net_api t)) (net_fs t) (k_sync P) cp_marker cp_roles \<and>
       covered (sv_engine S) (a_db (net_api t)) (net_fs t) (k_sync P) node_marker node_roles)"
    using run
  proof (induction rule: plan_runs.induct)
    case runs_start
    then show ?case using E d q(1) by (simp add: net_good_def)
  next
    case (runs_round t k t')
    let ?u = "h_sleep (net_host S base) ms t'"
    have u: "net_api ?u = net_api t'" "net_fs ?u = net_fs t'" by (simp_all add: net_sleep)
    have r: "net_good S t'" "net_avail S t' = []"
      "covered (sv_engine S) (a_db (net_api t')) (net_fs t') (k_sync P) cp_marker cp_roles"
      "covered (sv_engine S) (a_db (net_api t')) (net_fs t') (k_sync P) node_marker node_roles"
      "\<And>n. sy_ttl (k_sync P) = Some n \<Longrightarrow> 0 < n \<and> expires_within n t'"
      using plan_round [OF D P, of S t] runs_round.IH runs_round.hyps(2) by (auto split: if_splits)
    have "queries_dead (k_sync P) ?u" using r(5) q(2) by (intro dead_after) auto
    with u r(1-4) show ?case using net_good_api [OF u(1)] net_views_api(1) [OF u(1)] by simp
  qed
  then show ?thesis by (auto simp: net_good_def)
qed

theorem plan_runs_safe_witness:
  "plan_runs json_differ (net_host sample_server ''http://api'') sample_plan_ec sample_plan 10000 sample_net sample_net \<and>
   db_ok (a_db (net_api sample_net))"
proof -
  have E: "engine_ok (sv_engine sample_server)" by (simp add: engine_ok_ref)
  have q: "queries_dead (k_sync sample_plan) sample_net" "\<forall>n. sy_ttl (k_sync sample_plan) = Some n \<longrightarrow> 1000 * n \<le> 10000"
    using sample_sync_ok(3) by (simp_all add: sample_plan_def) (simp add: sample_sync_def)
  from plan_runs_safe [OF differ_ok_json_differ sample_plan_for E sample_net_ok(1,2) q runs_start]
  show ?thesis by (simp add: runs_start)
qed

end
