(* ===== verification/Cluster.thy ===== *)
theory Cluster
  imports Plan_Net
begin

text \<open>
  The plan and the rest of the world: the loop of \<open>k8s_2t.py\<close> in its stages, with the requests of the
  machines and of other clients served between them and time passing. A posted discovery is a
  well-formed report with the boot interface in it; any other request is arbitrary.
\<close>

section \<open>The stages of the loop\<close>

datatype stage = Polling | Scheduling | Syncing | Ended

definition pause :: "'s host \<Rightarrow> int \<Rightarrow> ('s, unit) act" where
  "pause H ms s = (ok (), h_sleep H ms s)"

text \<open>Each stage is one call of the loop, with the sleep that follows it.\<close>

fun stage_step :: "(json \<Rightarrow> json \<Rightarrow> bool) \<Rightarrow> 's host \<Rightarrow> config \<Rightarrow> plan \<Rightarrow> int \<Rightarrow> stage \<Rightarrow> ('s, stage) act" where
  "stage_step differ H ec P ms Polling =
     bindA (control_plane_apply H (sch_control_plane P) 5 1) (\<lambda>r.
       if r = Some False then bindA (pause H plan_poll) (\<lambda>_. ret Polling) else ret Scheduling)"
| "stage_step differ H ec P ms Scheduling = bindA (node_apply H (sch_node P) 5 1) (\<lambda>_. ret Syncing)"
| "stage_step differ H ec P ms Syncing =
     bindA (sync_apply differ H ec (k_sync P) 10 2) (\<lambda>_. bindA (pause H ms) (\<lambda>_. ret Polling))"
| "stage_step differ H ec P ms Ended = ret Ended"

definition polls :: "'s host \<Rightarrow> plan \<Rightarrow> 's \<Rightarrow> 's \<Rightarrow> bool" where
  "polls H P s t \<longleftrightarrow> (\<exists>u. control_plane_apply H (sch_control_plane P) 5 1 s = (Inr (Some False), u) \<and> t = h_sleep H plan_poll u)"

lemma polls_step: "polls H P s t \<longleftrightarrow> stage_step differ H ec P ms Polling s = (Inr Polling, t)"
  by (auto simp: polls_def bindA_Inr pause_def ret_def split: if_splits)

lemma wait_polls:
  assumes "wait_until H ms m s = Some (Inr (), v)"
  shows "\<exists>u r. (\<lambda>a b. \<exists>c. m a = (Inr (Some False), c) \<and> b = h_sleep H ms c)\<^sup>*\<^sup>* s u \<and> m u = (Inr r, v) \<and> r \<noteq> Some False"
proof -
  define Q where "Q = (\<lambda>(H :: 'a host) ms (m :: ('a, bool option) act) s (x :: unit result \<times> 'a). \<forall>v. x = (Inr (), v) \<longrightarrow>
    (\<exists>u r. (\<lambda>a b. \<exists>c. m a = (Inr (Some False), c) \<and> b = h_sleep H ms c)\<^sup>*\<^sup>* s u \<and> m u = (Inr r, v) \<and> r \<noteq> Some False))"
  have "Q H ms m s (Inr (), v)"
  proof (rule wait_until.raw_induct [where P = Q, OF _ assms])
    fix w and H :: "'a host" and ms m s x
    assume IH: "\<And>H ms m s x. w H ms m s = Some x \<Longrightarrow> Q H ms m s x"
      and eq: "(case m s of (Inl y, s') \<Rightarrow> Some (raise y, s')
         | (Inr r, s') \<Rightarrow> if r = Some False then w H ms m (h_sleep H ms s') else Some (ok (), s')) = Some x"
    obtain r s' where m: "m s = (r, s')" by fastforce
    show "Q H ms m s x"
      unfolding Q_def
    proof (intro allI impI)
      fix v assume x: "x = (Inr (), v)"
      show "\<exists>u r. (\<lambda>a b. \<exists>c. m a = (Inr (Some False), c) \<and> b = h_sleep H ms c)\<^sup>*\<^sup>* s u \<and> m u = (Inr r, v) \<and> r \<noteq> Some False"
      proof (cases "r = Inr (Some False)")
        case True
        with eq m have "w H ms m (h_sleep H ms s') = Some x" by simp
        from IH [OF this] x obtain u r' where u: "(\<lambda>a b. \<exists>c. m a = (Inr (Some False), c) \<and> b = h_sleep H ms c)\<^sup>*\<^sup>* (h_sleep H ms s') u"
          "m u = (Inr r', v)" "r' \<noteq> Some False" unfolding Q_def by blast
        have "(\<lambda>a b. \<exists>c. m a = (Inr (Some False), c) \<and> b = h_sleep H ms c) s (h_sleep H ms s')" using m True by simp
        from converse_rtranclp_into_rtranclp [OF this u(1)] u(2,3) show ?thesis by blast
      next
        case False
        with eq m x have "m s = (Inr (case r of Inr y \<Rightarrow> y), v)" "(case r of Inr y \<Rightarrow> y) \<noteq> Some False" "r = Inr (case r of Inr y \<Rightarrow> y)"
          by (auto split: sum.splits)
        then show ?thesis by blast
      qed
    qed
  qed
  then show ?thesis unfolding Q_def by simp
qed

text \<open>A round of the plan is its stages, one after the other.\<close>

lemma round_is_stages:
  "plan_apply D H ec P s = Some (Inr k, t) \<longleftrightarrow>
     (\<exists>u v w. (polls H P)\<^sup>*\<^sup>* s u \<and> stage_step D H ec P ms Polling u = (Inr Scheduling, v) \<and>
        stage_step D H ec P ms Scheduling v = (Inr Syncing, w) \<and> sync_apply D H ec (k_sync P) 10 2 w = (Inr k, t))"
proof
  let ?m = "control_plane_apply H (sch_control_plane P) 5 1"
  assume a: "plan_apply D H ec P s = Some (Inr k, t)"
  obtain v where w: "wait_until H plan_poll ?m s = Some (Inr (), v)"
    and b: "bindA (node_apply H (sch_node P) 5 1) (\<lambda>_. sync_apply D H ec (k_sync P) 10 2) v = (Inr k, t)"
    using a by (auto simp: plan_apply_def split: option.splits sum.splits)
  obtain u r where u: "(polls H P)\<^sup>*\<^sup>* s u" "?m u = (Inr r, v)" "r \<noteq> Some False"
    using wait_polls [OF w] unfolding polls_def [abs_def] by blast
  obtain n w where w: "node_apply H (sch_node P) 5 1 v = (Inr n, w)" "sync_apply D H ec (k_sync P) 10 2 w = (Inr k, t)"
    using b by (auto simp: bindA_Inr)
  have "stage_step D H ec P ms Polling u = (Inr Scheduling, v)" using u(2,3) by (simp add: bindA_Inr ret_def)
  moreover have "stage_step D H ec P ms Scheduling v = (Inr Syncing, w)" using w(1) by (simp add: bindA_Inr ret_def)
  ultimately show "\<exists>u v w. (polls H P)\<^sup>*\<^sup>* s u \<and> stage_step D H ec P ms Polling u = (Inr Scheduling, v) \<and>
        stage_step D H ec P ms Scheduling v = (Inr Syncing, w) \<and> sync_apply D H ec (k_sync P) 10 2 w = (Inr k, t)"
    using u(1) w(2) by blast
next
  let ?m = "control_plane_apply H (sch_control_plane P) 5 1"
  assume "\<exists>u v w. (polls H P)\<^sup>*\<^sup>* s u \<and> stage_step D H ec P ms Polling u = (Inr Scheduling, v) \<and>
        stage_step D H ec P ms Scheduling v = (Inr Syncing, w) \<and> sync_apply D H ec (k_sync P) 10 2 w = (Inr k, t)"
  then obtain u v w where u: "(polls H P)\<^sup>*\<^sup>* s u" "stage_step D H ec P ms Polling u = (Inr Scheduling, v)"
    "stage_step D H ec P ms Scheduling v = (Inr Syncing, w)" "sync_apply D H ec (k_sync P) 10 2 w = (Inr k, t)" by blast
  obtain r where r: "?m u = (Inr r, v)" "r \<noteq> Some False"
    using u(2) by (auto simp: bindA_Inr ret_def split: if_splits)
  obtain n where n: "node_apply H (sch_node P) 5 1 v = (Inr n, w)" using u(3) by (auto simp: bindA_Inr ret_def)
  have "wait_until H plan_poll ?m s = Some (Inr (), v)"
    using u(1)
  proof (induction rule: converse_rtranclp_induct)
    case base
    then show ?case by (subst wait_until.simps) (simp add: r)
  next
    case (step a b)
    then show ?case by (subst wait_until.simps) (auto simp: polls_def)
  qed
  then show "plan_apply D H ec P s = Some (Inr k, t)" using n u(4) by (simp add: plan_apply_def bindA_Inr)
qed

section \<open>Machines with a boot interface\<close>

definition all_boot :: "db \<Rightarrow> bool" where
  "all_boot d \<longleftrightarrow> (\<forall>m\<in>set (machines d). \<exists>i\<in>set (ifaces d). i_machine i = m_id m \<and> i_as_boot i)"

lemma all_boot_part: "discovery_part d' = discovery_part d \<Longrightarrow> all_boot d' = all_boot d"
  by (simp add: all_boot_def discovery_part_def)

lemma all_boot_schedulable: "all_boot d \<Longrightarrow> schedulable d"
  by (auto simp: all_boot_def schedulable_def)

text \<open>A request a machine or another client sends.\<close>

definition well_posed :: "'c server \<Rightarrow> request \<Rightarrow> bool" where
  "well_posed S rq \<longleftrightarrow> (posts_discovery rq \<longrightarrow>
     (\<exists>r fq. rq_body rq = Some (report_json r) \<and> report_ok (sv_engine S) r \<and> rp_boot r \<in> nic_mac ` set (rp_nics r) \<and>
        resolves (verify_fqdn S) (sv_dns S) r fq))"

lemma upsert_all_boot:
  assumes E: "engine_ok E" and d: "db_ok d" "all_boot d" and r: "report_ok E r" and b: "rp_boot r \<in> nic_mac ` set (rp_nics r)"
    and q: "resolves verify dns r fq"
  shows "all_boot (snd (upsert E verify dns now (report_json r) d))"
proof (cases "\<forall>i\<in>set (ifaces d). i_mac i \<in> nic_mac ` set (rp_nics r) \<longrightarrow>
      (\<exists>m\<in>set (machines d). m_id m = i_machine i \<and> m_uuid m = rp_uuid r)")
  case own: True
  show ?thesis
  proof (rule upsert_report_db [OF E d(1) r q own, of now])
    fix m ms ps ks new
    assume u: "upsert E verify dns now (report_json r) d = (Inr (rp_uuid r \<notin> m_uuid ` set (machines d)),
       d\<lparr>machines := ms, disks := [k \<leftarrow> disks d. k_machine k \<noteq> m_id m] @ ks,
         ifaces := [i \<leftarrow> ifaces d. i_machine i \<noteq> m_id m] @ new, ports := ps\<rparr>)"
      and ms: "\<forall>x. m_id x \<noteq> m_id m \<longrightarrow> (x \<in> set ms \<longleftrightarrow> x \<in> set (machines d))"
      and new: "map iface_view new = reported_views r fq" "\<forall>i\<in>set new. i_machine i = m_id m"
    obtain k n where n: "nic_mac n = rp_boot r" "nic_view (rp_boot r) (fq k) n \<in> set (reported_views r fq)"
      by (rule reported_view_boot [OF b])
    have "nic_view (rp_boot r) (fq k) n \<in> iface_view ` set new" using n(2) new(1) by (metis set_map)
    then obtain i where i: "i \<in> set new" "i_as_boot i" using n(1) by (auto simp: nic_view_def iface_view_def)
    show ?thesis
      unfolding u all_boot_def
    proof (simp, rule ballI)
      fix x assume x: "x \<in> set ms"
      show "\<exists>i\<in>{i \<in> set (ifaces d). i_machine i \<noteq> m_id m} \<union> set new. i_machine i = m_id x \<and> i_as_boot i"
      proof (cases "m_id x = m_id m")
        case True
        with i new(2) show ?thesis by auto
      next
        case False
        with ms x d(2) show ?thesis by (fastforce simp: all_boot_def)
      qed
    qed
  qed
next
  case False
  then obtain i where i: "i \<in> set (ifaces d)" "i_mac i \<in> nic_mac ` set (rp_nics r)"
    "\<forall>m\<in>set (machines d). m_id m = i_machine i \<longrightarrow> m_uuid m \<noteq> rp_uuid r" by blast
  have "i_machine i \<in> m_id ` set (machines d)" using d(1) i(1) by (simp add: db_ok_defs)
  then obtain m where "m \<in> set (machines d)" "m_id m = i_machine i" by auto
  with upsert_foreign [OF E d(1) r q i(1,2)] i(3) d(2) show ?thesis by simp
qed

lemma serve_all_boot:
  fixes S :: "'c server"
  assumes E: "engine_ok (sv_engine S)" and s: "db_ok (a_db s)" "all_boot (a_db s)" and rq: "well_posed S rq"
  shows "all_boot (a_db (snd (serve S rq s)))"
proof (cases "posts_discovery rq")
  case False
  have "discovery_part (a_db (snd (serve S rq s))) = discovery_part (a_db s)"
    by (rule part.serve_side [OF E refl]) (use False in \<open>simp add: posts_discovery_def\<close>)
  from all_boot_part [OF this] s(2) show ?thesis by simp
next
  case True
  then obtain r fq where r: "rq_body rq = Some (report_json r)" "report_ok (sv_engine S) r" "rp_boot r \<in> nic_mac ` set (rp_nics r)"
    "resolves (verify_fqdn S) (sv_dns S) r fq" using rq unfolding well_posed_def by blast
  let ?Q = "\<lambda>d. db_ok d \<and> all_boot d"
  have u: "?Q (snd (upsert (sv_engine S) (verify_fqdn S) (sv_dns S) now (report_json r) d))" if "?Q d" for now d
    using upsert_all_boot [OF E _ _ r(2-4)] upsert_db_ok [OF E] that by blast
  have st: "?Q (snd (update_state (sv_engine S) now mac x d))" if "?Q d" for now mac x d
    using that inv.P_state [OF E] all_boot_part [OF update_state_part] by blast
  have "keeps_db ?Q (record_discovery_data S rq)"
    unfolding record_discovery_data_def r(1) option.case put_machine_state_def
    by (intro keeps_db_intros keeps_db_with u st) (auto simp: discovery_error_def intro!: keeps_db_intros split: if_splits)
  with s have "all_boot (a_db (snd (record_discovery_data S rq s)))" by (simp add: keeps_db_def)
  then show ?thesis by (cases "record_discovery_data S rq s") (simp add: serve_discovery(1) [OF True] split: sum.split)
qed

section \<open>What a stage does\<close>

lemma polling_stage:
  assumes good: "net_good S st" and P: "plan_for ec base n P"
  shows "if net_holders st cp_roles < n \<and> length (net_avail S st) < n
    then stage_step D (net_host S base) ec P ms Polling st = (Inr Polling, st\<lparr>clock := clock st + nat plan_poll * 1000\<rparr>)
    else \<exists>t. stage_step D (net_host S base) ec P ms Polling st = (Inr Scheduling, t) \<and> net_good S t \<and> net_holders t cp_roles \<ge> n \<and> frames st t"
proof -
  let ?H = "net_host S base" and ?C = "sch_control_plane P"
  have C: "EtcdMemberKubernetesControlPlane ec base = ok ?C" "expected_nb ?C = int n" using P by (simp_all add: plan_for_def)
  have E: "engine_ok (sv_engine S)" using good by (simp add: net_good_def)
  note k = frames_apply(1) [OF E scheduler_of(2) [OF C(1)], of 5 1 st]
  from control_plane_net [OF good C] show ?thesis
  proof (simp only: if_split [of "\<lambda>b. b"] , elim conjE, intro conjI impI, goal_cases)
    case 1
    then show ?case by (simp add: bindA_def pause_def ret_def net_sleep)
  next
    case 2
    then obtain t where "control_plane_apply ?H ?C 5 1 st = (Inr (Some True), t)" "net_good S t" "net_holders t cp_roles \<ge> n"
      by auto
    then show ?case using k [of "Inr (Some True)" t] by (intro exI [of _ t]) (simp add: bindA_def ret_def)
  qed
qed

lemma scheduling_stage:
  assumes good: "net_good S st" and P: "plan_for ec base n P"
  shows "\<exists>t. stage_step D (net_host S base) ec P ms Scheduling st = (Inr Syncing, t) \<and> net_good S t \<and> net_avail S t = [] \<and>
    frames st t"
proof -
  let ?H = "net_host S base" and ?C = "sch_node P"
  obtain a w where C: "?C = node_scheduler base a w" using P by (auto simp: plan_for_def)
  have E: "engine_ok (sv_engine S)" using good by (simp add: net_good_def)
  obtain x t where t: "node_apply ?H ?C 5 1 st = (Inr (Some x), t)" "net_good S t" "net_avail S t = []"
    by (rule node_net [OF good C])
  moreover have "frames st t" by (rule frames_apply(2) [OF E _ t(1)]) (simp add: C node_scheduler_def)
  ultimately show ?thesis by (intro exI [of _ t]) (simp add: bindA_def ret_def)
qed

lemma syncing_stage:
  fixes S :: "'c server"
  assumes D: "differ_ok D" and good: "net_good S st" and P: "plan_for ec base n P" and dead: "queries_dead (k_sync P) st"
    and ttl: "\<forall>n. sy_ttl (k_sync P) = Some n \<longrightarrow> 1000 * n \<le> ms"
    and step: "stage_step D (net_host S base) ec P ms Syncing st = (r, t)"
  shows "case r of Inl _ \<Rightarrow> net_api t = net_api st
    | Inr g \<Rightarrow> g = Polling \<and> queries_dead (k_sync P) t \<and> (\<exists>now. net_api t = notified S now (net_api st)) \<and>
        covered (sv_engine S) (a_db (net_api st)) (net_fs t) (k_sync P) cp_marker cp_roles \<and>
        covered (sv_engine S) (a_db (net_api st)) (net_fs t) (k_sync P) node_marker node_roles"
proof -
  let ?H = "net_host S base" and ?Y = "k_sync P"
  have p: "sy_api_uri ?Y = base" "extra_ok ?Y" "ec_ok ec" using P by (simp_all add: plan_for_def)
  obtain q u where q: "sync_apply D ?H ec ?Y 10 2 st = (q, u)" by fastforce
  then have q': "sync_apply D (net_host S (sy_api_uri ?Y)) ec ?Y 10 2 st = (q, u)" by (simp only: p(1))
  obtain s0 where s0: "net_api s0 = net_api st" "queries_true S ?Y s0" "sync_round D (net_host S (sy_api_uri ?Y)) ec ?Y s0 = (q, u)"
    by (rule sync_apply_net [OF D p(3,2) good dead_true [OF dead] q'])
  have good0: "net_good S s0" using good net_good_api [OF s0(1)] by simp
  show ?thesis
  proof (cases q)
    case (Inl x)
    have "net_api u = net_api st" using round_fails [OF good0 s0(2), of D ec x u] s0 Inl by (simp add: syncing_def)
    moreover have "r = Inl x" "t = u" using step q Inl by (simp_all add: bindA_def)
    ultimately show ?thesis by simp
  next
    case (Inr k)
    note r = round_net [OF D p(3,2) good0 s0(2), of k u]
    have t: "r = Inr Polling" "t = h_sleep ?H ms u" using step q Inr by (simp_all add: bindA_def pause_def ret_def)
    have "queries_dead ?Y t" unfolding t(2) by (rule dead_after) (use r s0 Inr ttl in auto)
    with t r s0 Inr show ?thesis by (auto simp: net_sleep)
  qed
qed

section \<open>Runs\<close>

record 'c cluster =
  c_stage :: stage
  c_net :: "'c net"

text \<open>
  The plan takes a step, or ends with an exception; a request of anybody is served; time passes.
\<close>

inductive cluster_run ::
  "(json \<Rightarrow> json \<Rightarrow> bool) \<Rightarrow> 'c server \<Rightarrow> string \<Rightarrow> config \<Rightarrow> plan \<Rightarrow> int \<Rightarrow> 'c cluster \<Rightarrow> 'c cluster \<Rightarrow> bool"
  for differ S base ec P ms c where
  quiet: "cluster_run differ S base ec P ms c c"
| plan_step: "cluster_run differ S base ec P ms c d \<Longrightarrow>
    stage_step differ (net_host S base) ec P ms (c_stage d) (c_net d) = (Inr g, t) \<Longrightarrow>
    cluster_run differ S base ec P ms c \<lparr>c_stage = g, c_net = t\<rparr>"
| plan_raises: "cluster_run differ S base ec P ms c d \<Longrightarrow>
    stage_step differ (net_host S base) ec P ms (c_stage d) (c_net d) = (Inl x, t) \<Longrightarrow>
    cluster_run differ S base ec P ms c \<lparr>c_stage = Ended, c_net = t\<rparr>"
| request: "cluster_run differ S base ec P ms c d \<Longrightarrow> well_posed S rq \<Longrightarrow>
    cluster_run differ S base ec P ms c (d\<lparr>c_net := (c_net d)\<lparr>net_api := snd (serve S rq (net_api (c_net d)))\<rparr>\<rparr>)"
| time: "cluster_run differ S base ec P ms c d \<Longrightarrow> clock (c_net d) \<le> u \<Longrightarrow>
    cluster_run differ S base ec P ms c (d\<lparr>c_net := (c_net d)\<lparr>clock := u\<rparr>\<rparr>)"

definition cluster_db :: "'c cluster \<Rightarrow> db" where
  "cluster_db c = a_db (net_api (c_net c))"

lemma cluster_invariant:
  fixes S :: "'c server"
  assumes D: "differ_ok D" and P: "plan_for ec base n P" and E: "engine_ok (sv_engine S)"
    and c: "db_ok (cluster_db c)" "all_boot (cluster_db c)" and q: "queries_dead (k_sync P) (c_net c)"
    and ttl: "\<forall>n. sy_ttl (k_sync P) = Some n \<longrightarrow> 1000 * n \<le> ms" and run: "cluster_run D S base ec P ms c d"
  shows "db_ok (cluster_db d) \<and> all_boot (cluster_db d) \<and> (c_stage d \<noteq> Ended \<longrightarrow> queries_dead (k_sync P) (c_net d))"
  using run
proof (induction rule: cluster_run.induct)
  case quiet
  with c q show ?case by simp
next
  case (request d rq)
  then show ?case using serve_all_boot [OF E _ _ request.hyps(2)] inv.serve_all [OF E]
    by (auto simp: cluster_db_def intro: dead_later)
next
  case (time d u)
  then show ?case by (auto simp: cluster_db_def intro: dead_later)
next
  case (plan_step d g t)
  let ?st = "c_net d"
  have good: "net_good S ?st"
    using plan_step.IH E all_boot_schedulable by (auto simp: net_good_def cluster_db_def)
  have "net_good S t \<and> discovery_part (a_db (net_api t)) = discovery_part (a_db (net_api ?st)) \<and>
    (g \<noteq> Ended \<longrightarrow> queries_dead (k_sync P) t)"
  proof (cases "c_stage d")
    case Polling
    then have dead: "queries_dead (k_sync P) ?st" using plan_step.IH by simp
    show ?thesis
    proof (cases "net_holders ?st cp_roles < n \<and> length (net_avail S ?st) < n")
      case True
      with polling_stage [OF good P, of D ms] plan_step.hyps(2) Polling have "t = ?st\<lparr>clock := clock ?st + nat plan_poll * 1000\<rparr>"
        by simp
      with good dead show ?thesis by (auto simp: net_good_def intro: dead_later)
    next
      case False
      with polling_stage [OF good P, of D ms] plan_step.hyps(2) Polling have "net_good S t" "frames ?st t" by auto
      with dead show ?thesis by (auto simp: frames_def intro: dead_later)
    qed
  next
    case Scheduling
    then have dead: "queries_dead (k_sync P) ?st" using plan_step.IH by simp
    have "net_good S t" "frames ?st t" using scheduling_stage [OF good P, of D ms] plan_step.hyps(2) Scheduling by auto
    with dead show ?thesis by (auto simp: frames_def intro: dead_later)
  next
    case Syncing
    then have dead: "queries_dead (k_sync P) ?st" using plan_step.IH by simp
    from syncing_stage [OF D good P dead ttl plan_step.hyps(2) [unfolded Syncing]] good show ?thesis by (auto simp: net_good_def)
  next
    case Ended
    with plan_step.hyps(2) good show ?thesis by (simp add: ret_def)
  qed
  with plan_step.IH all_boot_part [of "a_db (net_api t)" "a_db (net_api ?st)"] show ?case by (simp add: cluster_db_def net_good_def)
next
  case (plan_raises d x t)
  let ?st = "c_net d"
  have good: "net_good S ?st"
    using plan_raises.IH E all_boot_schedulable by (auto simp: net_good_def cluster_db_def)
  have "a_db (net_api t) = a_db (net_api ?st)"
  proof (cases "c_stage d")
    case Polling
    with polling_stage [OF good P, of D ms] plan_raises.hyps(2) show ?thesis by (auto split: if_splits)
  next
    case Scheduling
    with scheduling_stage [OF good P, of D ms] plan_raises.hyps(2) show ?thesis by auto
  next
    case Syncing
    then have dead: "queries_dead (k_sync P) ?st" using plan_raises.IH by simp
    from syncing_stage [OF D good P dead ttl plan_raises.hyps(2) [unfolded Syncing]] show ?thesis by simp
  next
    case Ended
    with plan_raises.hyps(2) show ?thesis by (simp add: ret_def)
  qed
  with plan_raises.IH show ?case by (simp add: cluster_db_def)
qed

text \<open>The loop of the plan by itself is such a run.\<close>

lemma plan_runs_cluster:
  assumes "plan_runs D (net_host S base) ec P ms s t"
  shows "cluster_run D S base ec P ms \<lparr>c_stage = Polling, c_net = s\<rparr> \<lparr>c_stage = Polling, c_net = t\<rparr>"
  using assms
proof (induction rule: plan_runs.induct)
  case runs_start
  show ?case by (rule quiet)
next
  case (runs_round t k t')
  let ?run = "cluster_run D S base ec P ms \<lparr>c_stage = Polling, c_net = s\<rparr>" and ?H = "net_host S base"
  obtain u v w where u: "(polls ?H P)\<^sup>*\<^sup>* t u" "stage_step D ?H ec P ms Polling u = (Inr Scheduling, v)"
    "stage_step D ?H ec P ms Scheduling v = (Inr Syncing, w)" "sync_apply D ?H ec (k_sync P) 10 2 w = (Inr k, t')"
    using runs_round.hyps(2) unfolding round_is_stages [where ms = ms] by blast
  have "?run \<lparr>c_stage = Polling, c_net = u\<rparr>" using u(1)
  proof (induction rule: rtranclp_induct)
    case base
    show ?case by (rule runs_round.IH)
  next
    case (step a b)
    from step(2) have "stage_step D ?H ec P ms Polling a = (Inr Polling, b)" by (simp only: polls_step [symmetric])
    with plan_step [OF step(3), of Polling b] show ?case by simp
  qed
  from plan_step [OF this, of Scheduling v] u(2) have "?run \<lparr>c_stage = Scheduling, c_net = v\<rparr>" by simp
  from plan_step [OF this, of Syncing w] u(3) have "?run \<lparr>c_stage = Syncing, c_net = w\<rparr>" by simp
  moreover have "stage_step D ?H ec P ms Syncing w = (Inr Polling, h_sleep ?H ms t')" using u(4) by (simp add: bindA_def pause_def ret_def)
  ultimately show ?case using plan_step [of D S base ec P ms "\<lparr>c_stage = Polling, c_net = s\<rparr>" "\<lparr>c_stage = Syncing, c_net = w\<rparr>" Polling] by simp
qed

section \<open>The property\<close>


text \<open>A machine that reports a mac of another one is refused; the plan then finds that other one.\<close>

definition sample_cluster :: "ref_cache cluster" where
  "sample_cluster = \<lparr>c_stage = Polling, c_net = sample_net\<rparr>"

definition sample_discovery :: request where
  "sample_discovery = sample_request ''POST'' ''/discovery'' (Some (report_json sample_report)) 7"

lemma sample_discovery_served:
  "well_posed sample_server sample_discovery" "snd (serve sample_server sample_discovery (sample_state other_db)) = sample_state other_db"
proof -
  have p: "posts_discovery sample_discovery" by (simp add: posts_discovery_def sample_discovery_def sample_request_def)
  have v: "verify_fqdn sample_server = False" by (simp add: verify_fqdn_def attr_def sample_server_def sample_ec_def)
  have n: "sv_dns sample_server = sample_dns" by (simp add: sample_server_def)
  have "rp_boot sample_report \<in> nic_mac ` set (rp_nics sample_report)" by (simp add: sample_report_def sample_nic_def)
  moreover have body: "rq_body sample_discovery = Some (report_json sample_report)" "rq_now sample_discovery = 7"
    by (simp_all add: sample_discovery_def sample_request_def)
  ultimately show "well_posed sample_server sample_discovery"
    using sample_ok unfolding well_posed_def v n sample_server_parts by blast
  have u: "upsert ref_engine False sample_dns 7 (report_json sample_report) other_db = (Inl IntegrityError, other_db)"
    by (rule upsert_foreign [OF engine_ok_ref other_db_ok sample_ok, of other_iface other_machine])
      (simp_all add: other_db_def other_iface_def other_machine_def sample_report_def sample_nic_def sample_uuid_def)
  show "snd (serve sample_server sample_discovery (sample_state other_db)) = sample_state other_db"
    using u by (simp add: serve_discovery(1) [OF p] record_discovery_data_def body act_simps v n sample_state_def)
qed


end
