(* ===== verification/Sync_Facts.thy ===== *)
theory Sync_Facts
  imports Sync_Attr
begin

text \<open>
  What the static methods of \<open>ConfigSyncSchedules\<close> compute: addresses print and parse back, a host
  name is its short name and its domain, member lists do not depend on the order of the members,
  and the pod ranges of two hosts of one network are disjoint exactly when their last octets differ.
\<close>

section \<open>Digits\<close>

lemma digit_not_dot [simp]: "\<not> is_digit CHR ''.''" "\<not> is_digit CHR ''/''" "\<not> is_digit CHR '':''"
  by (simp_all add: is_digit_def)

lemma show_nat_length: "n < 10 ^ k \<Longrightarrow> 0 < k \<Longrightarrow> length (show_nat n) \<le> k"
proof (induction k arbitrary: n)
  case 0
  then show ?case by simp
next
  case (Suc k)
  show ?case
  proof (cases "n < 10")
    case True
    then show ?thesis by (subst show_nat.simps) simp
  next
    case False
    with Suc.prems have "n div 10 < 10 ^ k" "0 < k" by (auto intro: gr0I)
    with Suc.IH False show ?thesis by (subst show_nat.simps) simp
  qed
qed

section \<open>Addresses\<close>

lemma parse_show_octet: "n < 256 \<Longrightarrow> parse_octet (show_nat n) = ok n"
proof -
  assume n: "n < 256"
  then have "length (show_nat n) \<le> 3" by (intro show_nat_length) auto
  moreover have "list_all is_digit (show_nat n)" by (simp add: list_all_iff show_nat_digits)
  ultimately show ?thesis using n hd_show_nat [of n] by (auto simp: parse_octet_def read_show_nat Let_def)
qed

lemma split_show_ip: "split_on CHR ''.'' (show_ip n) = map show_nat (octets n)"
  unfolding show_ip_def
  by (rule split_join) (auto simp: octets_def dest: show_nat_digits)

lemma ip_of_octets_octets: "n < 2 ^ 32 \<Longrightarrow> ip_of_octets (octets n) = n"
proof -
  assume n: "n < 2 ^ 32"
  have "n div 2 ^ 24 mod 256 = n div 2 ^ 24" using n by simp
  moreover have "n div 2 ^ 24 = n div 256 div 256 div 256" "n div 2 ^ 16 = n div 256 div 256"
    by (simp_all add: div_mult2_eq [symmetric])
  ultimately show ?thesis unfolding ip_of_octets_def octets_def by (simp add: ac_simps)
qed

lemma mapE_parse_octets: "\<forall>k\<in>set ks. k < 256 \<Longrightarrow> mapE parse_octet (map show_nat ks) = ok ks"
  by (induction ks) (auto simp: parse_show_octet)

lemma octets_small: "k \<in> set (octets n) \<Longrightarrow> k < 256"
  by (auto simp: octets_def)

lemma parse_show: "n < 2 ^ 32 \<Longrightarrow> parse_ip (show_ip n) = ok n"
  by (simp add: parse_ip_def split_show_ip Let_def mapE_parse_octets octets_small ip_of_octets_octets)
    (simp add: octets_def)

lemma last_field_mod: "last_field n = n mod 256"
  by (simp add: last_field_def split_show_ip) (simp add: octets_def read_show_nat)

text \<open>
  An address below \<open>2 ^ 32\<close> printed in dotted form is parsed back, by the parser that the
  interface of a machine goes through, to that address with the prefix length it was printed with.
\<close>

theorem address_roundtrip:
  assumes "n < 2 ^ 32" and "p \<le> 32"
  shows "ipv4_interface (show_ip n @ ''/'' @ show_nat p) = ok (n, p) \<and> ipv4_interface (show_ip n) = ok (n, 32)"
proof -
  have "CHR ''/'' \<notin> set (show_ip n)"
    by (auto simp: show_ip_def octets_def dest: show_nat_digits)
  then have "split_on CHR ''/'' (show_ip n @ ''/'' @ show_nat p) = [show_ip n, show_nat p]"
    and "split_on CHR ''/'' (show_ip n) = [show_ip n]"
    by (auto simp: split_on_append split_on_no_sep show_nat_no_char)
  moreover have "parse_prefix (show_nat p) = ok p"
    using assms(2) by (simp add: parse_prefix_def read_show_nat list_all_iff show_nat_digits)
  ultimately show ?thesis by (simp add: ipv4_interface_def parse_show [OF assms(1)])
qed

theorem address_roundtrip_witness:
  "ipv4_interface (show_ip 168500997 @ ''/'' @ show_nat 19) = ok (168500997, 19) \<and>
   ipv4_interface (show_ip 168500997) = ok (168500997, 32)"
  by (rule address_roundtrip) simp_all

section \<open>Pod ranges\<close>

lemma ip_add_Inr: "ip_add n k = ok m \<longleftrightarrow> int m = int n + k \<and> m < 2 ^ 32"
  by (auto simp: ip_add_def max_ipv4_def Let_def)

lemma pod_range_Inr:
  assumes "0 < sub_ips C"
  shows "pod_range C ip p = ok (s, e) \<Longrightarrow>
    int s = int (network_address ip p) + int (ip mod 256) * sub_ips C + skip_ips C \<and>
    int e = int s + range_nb_ips C \<and> s < 2 ^ 32 \<and> e < 2 ^ 32"
  using assms by (auto simp: pod_range_def bindE_eq_Inr ip_add_Inr last_field_mod)

lemma blocks_apart:
  fixes a b k r :: int
  assumes "a < b" and "0 < k" and "r < k"
  shows "a * k + r < b * k"
proof -
  have "(a + 1) * k \<le> b * k" using assms by (intro mult_right_mono) auto
  with assms(3) show ?thesis by (simp add: algebra_simps)
qed

text \<open>
  C33. For two hosts of one network, with more addresses per host than the range takes: the pod
  ranges are disjoint when the last octets of the hosts differ, and are the same range when the
  last octets agree. In a network larger than a /24 two hosts can therefore share a range.
\<close>

theorem pod_ranges_apart:
  assumes "0 < sub_ips C" and "0 \<le> range_nb_ips C" and "range_nb_ips C < sub_ips C"
    and "network_address ip p = network_address ip' p"
    and "pod_range C ip p = ok (s, e)" and "pod_range C ip' p = ok (s', e')"
  shows "({s..e} \<inter> {s'..e'} = {} \<longleftrightarrow> ip mod 256 \<noteq> ip' mod 256) \<and>
         (ip mod 256 = ip' mod 256 \<longrightarrow> (s, e) = (s', e'))"
proof -
  note r = pod_range_Inr [OF assms(1) assms(5)] pod_range_Inr [OF assms(1) assms(6)]
  have same: "s = s' \<and> e = e'" if "ip mod 256 = ip' mod 256"
    using r that assms(4) by auto
  have "s \<le> e" using r assms(2) by linarith
  moreover have "e < s'" if "ip mod 256 < ip' mod 256"
    using r blocks_apart [of "int (ip mod 256)" "int (ip' mod 256)" "sub_ips C" "range_nb_ips C"] that assms(1-4)
    by linarith
  moreover have "e' < s" if "ip' mod 256 < ip mod 256"
    using r blocks_apart [of "int (ip' mod 256)" "int (ip mod 256)" "sub_ips C" "range_nb_ips C"] that assms(1-4)
    by linarith
  ultimately show ?thesis using same by (cases "ip mod 256" "ip' mod 256" rule: linorder_cases) auto
qed

definition sync_config_default :: sync_config where
  "sync_config_default = \<lparr>sub_ips = 256, range_nb_ips = 253, skip_ips = 1, perennial_ip = ''172.31.255.255''\<rparr>"

theorem pod_ranges_apart_witness:
  "pod_range sync_config_default 168500997 19 = ok (168494337, 168494590) \<and>
   pod_range sync_config_default 168500741 19 = ok (168494337, 168494590) \<and>
   {168494337..168494590::nat} \<inter> {168494337..168494590} \<noteq> {}"
proof -
  have *: "pod_range sync_config_default 168500997 19 = ok (168494337, 168494590)"
    and **: "pod_range sync_config_default 168500741 19 = ok (168494337, 168494590)"
    by (simp_all add: pod_range_def last_field_mod ip_add_def max_ipv4_def network_address_def sync_config_default_def Let_def)
  show ?thesis
    using pod_ranges_apart [OF _ _ _ _ * **] * **
    by (simp add: sync_config_default_def network_address_def)
qed

section \<open>Host names, member lists and disks\<close>

text \<open>
  The attributes of a host name always hold the five keys, and the short name and the domain
  put the name together again: the name is the short name, followed by a dot and the domain when it
  has a dot; rack and position are digits.
\<close>

theorem dns_attr_of_fqdn:
  "map fst (get_dns_attr fqdn) = [''shortname'', ''dc'', ''domain'', ''rack'', ''pos''] \<and>
   (\<exists>short dc domain rack pos.
      map snd (get_dns_attr fqdn) = [JStr short, JStr dc, JStr domain, JStr rack, JStr pos] \<and>
      CHR ''.'' \<notin> set short \<and> list_all is_digit (rack @ pos) \<and>
      fqdn = (if CHR ''.'' \<in> set fqdn then short @ ''.'' @ domain else short) \<and>
      (CHR ''.'' \<notin> set fqdn \<longrightarrow> dc = [] \<and> domain = [] \<and> rack = [] \<and> pos = []))"
proof (cases "split_on CHR ''.'' fqdn")
  case Nil
  then show ?thesis by simp
next
  case (Cons w ws)
  have w: "CHR ''.'' \<notin> set w" using split_on_parts [of w "CHR ''.''" fqdn] Cons by simp
  have j: "join_with ''.'' (w # ws) = fqdn" using join_split [of "CHR ''.''" fqdn] Cons by simp
  show ?thesis
  proof (cases ws)
    case Nil
    with j w Cons show ?thesis by (auto simp: get_dns_attr_def)
  next
    case (Cons dc rest)
    with j have "fqdn = w @ ''.'' @ join_with ''.'' (dc # rest)" by simp
    moreover from this have "CHR ''.'' \<in> set fqdn" by simp
    ultimately show ?thesis
      using w Cons \<open>split_on CHR ''.'' fqdn = w # ws\<close>
      by (auto simp: get_dns_attr_def only_digits_def list_all_iff Let_def split: list.splits)
  qed
qed

theorem dns_attr_of_fqdn_witness:
  "\<exists>short dc domain rack pos.
     map snd (get_dns_attr ''host'') = [JStr short, JStr dc, JStr domain, JStr rack, JStr pos] \<and>
     CHR ''.'' \<notin> set short \<and> dc = [] \<and> domain = [] \<and> rack = [] \<and> pos = []"
proof -
  have "CHR ''.'' \<notin> set ''host''" by simp
  with dns_attr_of_fqdn [of "''host''"] show ?thesis by auto
qed

text \<open>
  The member lists handed to etcd do not depend on the order in which the API returns the
  members, and name every member once, in ascending order.
\<close>

theorem member_lists_canonical:
  "(mset ips = mset ips' \<longrightarrow>
      order_http_uri ips port secure = order_http_uri ips' port secure \<and>
      order_etcd_named ips port secure = order_etcd_named ips' port secure) \<and>
   mset (order_http_uri ips port secure) = image_mset (uri_of secure port) (mset ips) \<and>
   order_etcd_named ips port secure =
     join_with '','' (map2 (\<lambda>k u. k @ ''='' @ u) (sort ips) (order_http_uri ips port secure))"
proof -
  have "sort ips = sort ips'" if "mset ips = mset ips'"
    using that by (metis sort_key_mset_eq properties_for_sort mset_sort sorted_sort)
  then show ?thesis
    by (auto simp: order_http_uri_def order_etcd_named_def zip_map2 map_zip_map2 comp_def zip_same_conv_map)
qed

theorem member_lists_canonical_witness:
  "order_etcd_named [''10.0.0.2'', ''10.0.0.1''] 2380 True = order_etcd_named [''10.0.0.1'', ''10.0.0.2''] 2380 True"
  using member_lists_canonical [of "[''10.0.0.2'', ''10.0.0.1'']" "[''10.0.0.1'', ''10.0.0.2'']" 2380 True] by simp

lemma sorted_le_last: "xs \<noteq> [] \<Longrightarrow> sorted (map f xs) \<Longrightarrow> \<forall>x\<in>set xs. f x \<le> f (last xs)"
  by (induction xs) auto

lemma find_sorted_first:
  "sorted (map f xs) \<Longrightarrow> List.find P xs = Some x \<Longrightarrow> P x \<and> x \<in> set xs \<and> (\<forall>y\<in>set xs. P y \<longrightarrow> f x \<le> f y)"
  by (induction xs) (auto split: if_splits)

text \<open>
  C34. The disk profile of a machine with disks is the lowest rung of the ladder above its total
  size in GiB, the highest rung when none is above it; an empty ladder is an IndexError, and a
  machine without disks is inMemory.
\<close>

theorem disk_profile:
  "case compute_disks_size ladder sizes of
     Inl e \<Rightarrow> e = IndexError \<and> ladder = [] \<and> sizes \<noteq> []
   | Inr k \<Rightarrow> if sizes = [] then k = ''inMemory''
       else \<exists>v. (k, v) \<in> set ladder \<and>
         (let gb = (\<Sum>b\<leftarrow>sizes. b div 2 ^ 30) in
          if \<exists>kv\<in>set ladder. gb < snd kv
          then gb < v \<and> (\<forall>kv\<in>set ladder. gb < snd kv \<longrightarrow> v \<le> snd kv)
          else \<forall>kv\<in>set ladder. snd kv \<le> v)"
proof (cases "sizes = []")
  case True
  then show ?thesis by (simp add: compute_disks_size_def)
next
  case nonempty: False
  define gb where "gb = (\<Sum>b\<leftarrow>sizes. b div 2 ^ 30)"
  define rungs where "rungs = sort_key snd ladder"
  have rungs: "set rungs = set ladder" "sorted (map snd rungs)" by (simp_all add: rungs_def)
  have empty: "rungs = [] \<longleftrightarrow> ladder = []" using rungs(1) by (metis set_empty)
  have gb: "(\<Sum>b\<leftarrow>sizes. drop_bit 30 b) = gb" by (simp add: gb_def drop_bit_eq_div)
  have result: "compute_disks_size ladder sizes =
      (case List.find (\<lambda>kv. gb < snd kv) rungs of
         Some kv \<Rightarrow> ok (fst kv) | None \<Rightarrow> if ladder = [] then raise IndexError else ok (fst (last rungs)))"
    using nonempty
    unfolding compute_disks_size_def first_rung_def Let_def gb rungs_def [symmetric] empty
    by (simp split: option.splits)
  show ?thesis
  proof (cases "List.find (\<lambda>kv. gb < snd kv) rungs")
    case (Some kv)
    from find_sorted_first [OF rungs(2) this]
    have k: "gb < snd kv" "kv \<in> set ladder" "\<forall>y\<in>set ladder. gb < snd y \<longrightarrow> snd kv \<le> snd y"
      unfolding rungs(1) by blast+
    then have ex: "(\<exists>kv\<in>set ladder. gb < snd kv) = True" by blast
    show ?thesis
      unfolding result Some gb_def [symmetric] Let_def ex option.case sum.case if_True
      using nonempty k(1,2,3) by (simp only: if_False) (rule exI [of _ "snd kv"], simp)
  next
    case None
    then have none: "\<not> (\<exists>kv\<in>set ladder. gb < snd kv)" by (auto simp: find_None_iff rungs(1))
    show ?thesis
    proof (cases "ladder = []")
      case True
      with nonempty show ?thesis unfolding result None by simp
    next
      case False
      then have ne: "rungs \<noteq> []" using rungs(1) by auto
      then have l: "(fst (last rungs), snd (last rungs)) \<in> set ladder" using rungs(1) by (metis last_in_set prod.collapse)
      have "\<forall>kv\<in>set ladder. snd kv \<le> snd (last rungs)"
        using rungs sorted_le_last [OF ne rungs(2)] by simp
      with l False nonempty none show ?thesis
        unfolding result None gb_def [symmetric] Let_def option.case
        by (simp only: if_False sum.case) (rule exI [of _ "snd (last rungs)"], simp)
    qed
  qed
qed

theorem disk_profile_witness:
  "compute_disks_size [(''S'', 5), (''M'', 20)] [3221225472, 4294967296] = ok ''M'' \<and>
   (\<exists>v. (''M'', v) \<in> set [(''S'', 5), (''M'', 20::int)] \<and> 7 < v)"
proof -
  have *: "compute_disks_size [(''S'', 5), (''M'', 20)] [3221225472, 4294967296] = ok ''M''"
    by (simp add: compute_disks_size_def first_rung_def Let_def)
  show ?thesis using disk_profile [of "[(''S'', 5), (''M'', 20)]" "[3221225472, 4294967296]"] * by simp
qed

end
