(* ===== verification/Sync_Ready.thy ===== *)
theory Sync_Ready
  imports Plan_Net Sync_Facts
begin

text \<open>
  When the synchronisation succeeds: with a configuration the constructor built, a matchbox directory
  that is laid out, and machines whose pod range fits, no exception is raised on any machine, so a
  round of the plan ends with every scheduled machine on disk and the gate of \<open>/ignition\<close> open.
  \<open>always\<close> states that an action returns and keeps a predicate; its rules follow the structure of the
  action, in the locale \<open>ready_host\<close> for any host that answers the queries and stores files.
\<close>

section \<open>Actions that return\<close>

definition always :: "('s \<Rightarrow> bool) \<Rightarrow> ('a \<Rightarrow> bool) \<Rightarrow> ('s, 'a) act \<Rightarrow> bool" where
  "always P Q m \<longleftrightarrow> (\<forall>s. P s \<longrightarrow> (\<exists>a s'. m s = (Inr a, s') \<and> Q a \<and> P s'))"

named_theorems always_intros \<open>actions that return\<close>

abbreviation returns :: "('s \<Rightarrow> bool) \<Rightarrow> ('s, 'a) act \<Rightarrow> bool" where
  "returns P \<equiv> always P (\<lambda>_. True)"

lemma alwaysD:
  assumes "always P Q m" "P s"
  obtains a s' where "m s = (Inr a, s')" "Q a" "P s'"
  using assms unfolding always_def by blast

lemma always_ret [always_intros]: "Q a \<Longrightarrow> always P Q (ret a)"
  by (simp add: always_def act_simps)

lemma always_liftA: "r = Inr a \<Longrightarrow> Q a \<Longrightarrow> always P Q (liftA r)"
  by (simp add: always_def act_simps)

lemma returns_liftA [always_intros]: "is_ok r \<Longrightarrow> returns P (liftA r)"
  by (auto simp: is_ok_iff intro: always_liftA)

lemma always_bindA:
  assumes "always P R m" "\<And>a. R a \<Longrightarrow> always P Q (f a)"
  shows "always P Q (bindA m f)"
  unfolding always_def
proof (intro allI impI)
  fix s assume "P s"
  then obtain a s' where m: "m s = (Inr a, s')" "R a" "P s'" by (rule alwaysD [OF assms(1)])
  obtain b t where "f a s' = (Inr b, t)" "Q b" "P t" by (rule alwaysD [OF assms(2) [OF m(2)] m(3)])
  with m(1) show "\<exists>a s'. bindA m f s = (Inr a, s') \<and> Q a \<and> P s'" by (simp add: act_simps)
qed

lemma returns_bindA [always_intros]: "returns P m \<Longrightarrow> (\<And>a. always P Q (f a)) \<Longrightarrow> always P Q (bindA m f)"
  by (rule always_bindA)

lemma always_mono: "always P R m \<Longrightarrow> (\<And>a. R a \<Longrightarrow> Q a) \<Longrightarrow> always P Q m"
  unfolding always_def by blast

lemma returns_forA: "(\<And>x. x \<in> set xs \<Longrightarrow> returns P (f x)) \<Longrightarrow> returns P (forA f xs)"
  by (induction xs) (simp_all add: always_intros)

lemma returns_dictA: "(\<And>kv. kv \<in> set kvs \<Longrightarrow> returns P (snd kv)) \<Longrightarrow> returns P (dictA kvs)"
  by (induction kvs) (auto intro!: always_intros)

section \<open>What the configuration must hold\<close>

text \<open>The attributes the synchronisation takes as they are.\<close>

definition value_keys :: "string list" where
  "value_keys = [''kubernetes_etcd_data_dir'', ''vault_etcd_data_dir'', ''fleet_etcd_data_dir'',
     ''kubernetes_service_cluster_ip_range'', ''hyperkube_image_url'', ''cephtools_image_url'', ''perennial_local_host_ip'',
     ''sync_replace_ip_by_fqdn'', ''vault_polling_sec'', ''lifecycle_update_polling_sec'',
     ''kubernetes_apiserver_insecure_bind_address'', ''assets_server_uri'', ''kernel'', ''initrd'']"

text \<open>Those it iterates over or joins, and the ladder of disk profiles.\<close>

definition texts_ok :: "config \<Rightarrow> bool" where
  "texts_ok ec \<longleftrightarrow> is_ok (bindE (attr ec ''etc_hosts'') jiter) \<and>
     (\<forall>k\<in>{''nameservers'', ''ntp'', ''fallbackntp''}. is_ok (bindE (attr ec k) (str_join '' ''))) \<and>
     (\<exists>l. bindE (attr ec ''disks_ladder_gb'') ladder_of = ok l \<and> l \<noteq> [])"

definition config_ready :: "config \<Rightarrow> bool" where
  "config_ready ec \<longleftrightarrow> (\<forall>k\<in>set value_keys. is_ok (attr ec k)) \<and> (\<forall>k\<in>set number_keys. \<exists>i. attr ec k = ok (JInt i)) \<and> texts_ok ec"

lemma value_keys_set: "set value_keys \<subseteq> fst ` set (all_settings env here)"
  by (simp add: value_keys_def all_settings_def main_settings_def settings_storage_def settings_numbers_def
      settings_profiles_def settings_hosts_def)

lemma config_ready_init:
  assumes C: "EnjoliverConfig_init env here (ok y) = ok ec" and t: "texts_ok ec"
  shows "config_ready ec"
proof -
  have "is_ok (attr ec k)" if "k \<in> set value_keys" for k
    using that value_keys_set [of env here] init_values [OF C] by (fastforce simp: is_ok_iff)
  moreover have "\<exists>i. attr ec k = ok (JInt i)" if k: "k \<in> set number_keys" for k
  proof -
    obtain dflt where "(k, AsInt, dflt) \<in> set settings_numbers" using k by (auto simp: number_keys_def)
    then have "(k, AsInt, dflt) \<in> set (all_settings env here)" by (simp add: all_settings_def main_settings_def)
    from init_values [OF C this] show ?thesis by (auto simp: bindE_eq_Inr)
  qed
  ultimately show ?thesis using t by (simp add: config_ready_def)
qed

lemma number_keys_list:
  "number_keys = map fst [s \<leftarrow> settings_numbers. fst (snd s) = AsInt]"
  by (simp add: number_keys_def)

lemma port_ready: "config_ready ec \<Longrightarrow> k \<in> set number_keys \<Longrightarrow> is_ok (port_of ec k) \<and> is_ok (attr ec k)"
  by (fastforce simp: config_ready_def port_of_def)

lemma ports_are_numbers:
  "{''sub_ips'', ''range_nb_ips'', ''skip_ips'', ''kubernetes_apiserver_insecure_port'', ''kubelet_healthz_port'', ''vault_port'',
    ''kubernetes_etcd_client_port'', ''kubernetes_etcd_peer_port'', ''fleet_etcd_client_port'', ''fleet_etcd_peer_port'',
    ''vault_etcd_client_port'', ''vault_etcd_peer_port''} \<subseteq> set number_keys"
  by (simp add: number_keys_def settings_numbers_def)

lemma ladder_total: "l \<noteq> [] \<Longrightarrow> is_ok (compute_disks_size l ks)"
proof -
  assume "l \<noteq> []"
  then have "sort_key snd l \<noteq> []" by (metis length_0_conv length_sort)
  then show ?thesis by (auto simp: compute_disks_size_def Let_def split: option.split)
qed

section \<open>What the entry of a machine must hold\<close>

definition ipam_of :: "config \<Rightarrow> string \<Rightarrow> json \<Rightarrow> dict result" where
  "ipam_of ec cidr gw = bindE (sync_config_of ec) (\<lambda>C. cni_ipam C cidr gw)"

definition entry_ready :: "config \<Rightarrow> json \<Rightarrow> bool" where
  "entry_ready ec m \<longleftrightarrow> json_ok m \<and>
     (\<exists>w. jget m ''mac'' = ok (JStr w) \<and> re_match selector_mac_rx (to_lower w)) \<and>
     (\<exists>ip. jget m ''ipv4'' = ok (JStr ip)) \<and>
     (\<exists>c gw. jget m ''cidrv4'' = ok (JStr c) \<and> jget m ''gateway'' = ok gw \<and> is_ok (ipam_of ec c gw)) \<and>
     (\<exists>v. jget m ''fqdn'' = ok v \<and> v \<in> insert JNull (range JStr)) \<and>
     (\<exists>ds. jget m ''disks'' = ok (JList (map disk_json_path_size ds)))"

lemma is_ok_bindE: "is_ok r \<Longrightarrow> (\<And>a. r = ok a \<Longrightarrow> is_ok (f a)) \<Longrightarrow> is_ok (bindE r f)"
  by (auto simp: is_ok_iff)

lemma cni_has_subnet: "cni_ipam C c gw = ok d \<Longrightarrow> is_ok (dict_get d ''subnet'')"
  by (auto simp: cni_ipam_def bindE_eq_Inr split: prod.splits if_splits)

lemma dns_has_shortname: "is_ok (dict_get (get_dns_attr fqdn) ''shortname'')"
  by (simp add: get_dns_attr_def Let_def split: list.split)

lemma name_total:
  assumes "entry_ready ec m"
  shows "\<exists>w. name_of m name = ok (JStr w)"
  using assms by (auto simp: entry_ready_def name_of_def)

lemma disk_profile_total:
  assumes "config_ready ec"
  shows "is_ok (disk_profile_of ec (JList (map disk_json_path_size ds)))"
proof -
  obtain l where l: "bindE (attr ec ''disks_ladder_gb'') ladder_of = ok l" "l \<noteq> []"
    using assms by (auto simp: config_ready_def texts_ok_def)
  have "mapE (\<lambda>d. bindE (jget d ''size-bytes'') shiftable) (map disk_json_path_size ds) = ok (map k_size ds)"
    by (induction ds) (simp_all add: disk_json_path_size_def)
  with l show ?thesis by (auto simp: disk_profile_of_def intro!: is_ok_bindE ladder_total)
qed

lemma sync_config_total:
  assumes "config_ready ec"
  shows "is_ok (sync_config_of ec)"
proof -
  have "is_ok (port_of ec k)" if "k \<in> {''sub_ips'', ''range_nb_ips'', ''skip_ips''}" for k
    using that port_ready [OF assms] ports_are_numbers by blast
  moreover have "is_ok (attr ec ''perennial_local_host_ip'')" using assms by (simp add: config_ready_def value_keys_def)
  ultimately show ?thesis unfolding sync_config_of_def by (intro is_ok_bindE) simp_all
qed

section \<open>The directory of matchbox\<close>

definition profile_file :: "string \<Rightarrow> string \<Rightarrow> string" where
  "profile_file mp prof = mp @ ''/profiles'' @ ''/'' @ prof @ ''.json''"

definition matchbox_ready :: "synchroniser \<Rightarrow> fs \<Rightarrow> bool" where
  "matchbox_ready Y f \<longleftrightarrow>
     {sy_path Y, sy_path Y @ ''/ignition'', sy_path Y @ ''/profiles'', sy_path Y @ ''/groups''} \<subseteq> set (f_dirs f) \<and>
     (\<forall>marker\<in>{cp_marker, node_marker}.
        (\<exists>v. dict_get (sy_ignition Y) marker = ok v \<and> is_file f (sy_path Y @ ''/ignition/'' @ py_str v @ ''.yaml'')) \<and>
        \<not> is_dir f (profile_file (sy_path Y) marker) \<and> (\<forall>i. \<not> is_dir f (group_file (sy_path Y) (group_id marker i)))) \<and>
     (\<forall>k\<in>set (listdir f (sy_path Y @ ''/ssh_authorized_keys'')). is_file f (sy_path Y @ ''/ssh_authorized_keys/'' @ k))"

lemma in_listdir:
  "n \<in> set (listdir f d) \<longleftrightarrow> n \<noteq> [] \<and> CHR ''/'' \<notin> set n \<and> (is_dir f (d @ ''/'' @ n) \<or> is_file f (d @ ''/'' @ n))"
proof -
  define ps where "ps = f_dirs f @ map fst (f_files f)"
  have e: "starts_with (d @ ''/'') p \<and> n = drop (Suc (length d)) p \<longleftrightarrow> p = d @ ''/'' @ n" for p
  proof
    assume "starts_with (d @ ''/'') p \<and> n = drop (Suc (length d)) p"
    then have "take (Suc (length d)) p = d @ ''/''" "n = drop (Suc (length d)) p" by (simp_all add: starts_with_iff)
    then show "p = d @ ''/'' @ n" by (metis append.assoc append_take_drop_id)
  qed (simp add: starts_with_iff)
  have "n \<in> set (listdir f d) \<longleftrightarrow> n \<noteq> [] \<and> CHR ''/'' \<notin> set n \<and>
      (\<exists>p\<in>set ps. starts_with (d @ ''/'') p \<and> n = drop (Suc (length d)) p)"
    unfolding listdir_def ps_def [symmetric] by (induction ps) (simp, fastforce)
  then have "n \<in> set (listdir f d) \<longleftrightarrow> n \<noteq> [] \<and> CHR ''/'' \<notin> set n \<and> d @ ''/'' @ n \<in> set ps" unfolding e by simp
  then show ?thesis by (auto simp: ps_def is_dir_def is_file_def)
qed

lemma matchbox_kept:
  assumes m: "matchbox_ready Y f" and dirs: "f_dirs f' = f_dirs f" and files: "\<And>p. is_file f p \<Longrightarrow> is_file f' p"
  shows "matchbox_ready Y f'"
proof -
  let ?keys = "sy_path Y @ ''/ssh_authorized_keys''"
  have d: "is_dir f' p = is_dir f p" for p by (simp add: is_dir_def dirs)
  have "is_file f' (?keys @ ''/'' @ k)" if k: "k \<in> set (listdir f' ?keys)" for k
  proof (cases "is_dir f (?keys @ ''/'' @ k)")
    case True
    then have "k \<in> set (listdir f ?keys)" using k by (simp add: in_listdir)
    then show ?thesis using m files by (simp add: matchbox_ready_def)
  next
    case False
    with k show ?thesis by (simp add: in_listdir d)
  qed
  moreover have "\<exists>v. dict_get (sy_ignition Y) marker = ok v \<and> is_file f' (sy_path Y @ ''/ignition/'' @ py_str v @ ''.yaml'')"
    if "marker \<in> {cp_marker, node_marker}" for marker
    using m that files unfolding matchbox_ready_def by blast
  ultimately show ?thesis using m by (simp add: matchbox_ready_def d dirs)
qed

lemma dump_total:
  assumes "target_file path data = ok p" "is_ok (gen f)" "is_dir f (dirname p)" "\<not> is_dir f p"
  shows "\<exists>b f'. dump D path data gen f = (ok b, f')"
  using assms by (auto simp: dump_def write_file_def is_ok_iff)

lemma dump_ready:
  assumes "matchbox_ready Y f" "target_file path data = ok p" "is_ok (gen f)" "is_dir f (dirname p)" "\<not> is_dir f p"
  obtains b f' where "dump D path data gen f = (ok b, f')" "matchbox_ready Y f'" "f_dirs f' = f_dirs f"
proof -
  obtain b f' where d: "dump D path data gen f = (ok b, f')" using dump_total [of path data p gen f D] assms(2-5) by blast
  with matchbox_kept [OF assms(1)] dump_frame(1,3) [OF d] that show thesis by blast
qed

lemma keys_total: "matchbox_ready Y f \<Longrightarrow> is_ok (ssh_authorized_keys f (sy_path Y @ ''/ssh_authorized_keys''))"
proof -
  assume m: "matchbox_ready Y f"
  have "is_ok (read_file f (sy_path Y @ ''/ssh_authorized_keys/'' @ k))"
    if k: "k \<in> set (listdir f (sy_path Y @ ''/ssh_authorized_keys''))" for k
  proof -
    have "is_file f (sy_path Y @ ''/ssh_authorized_keys/'' @ k)" using m k unfolding matchbox_ready_def by blast
    then have "map_of (f_files f) (sy_path Y @ ''/ssh_authorized_keys/'' @ k) \<noteq> None"
      by (simp add: is_file_def map_of_eq_None_iff)
    then show ?thesis by (auto simp: read_file_def)
  qed
  then show ?thesis by (auto simp: ssh_authorized_keys_def intro!: is_ok_bindE mapE_is_ok)
qed

lemma marker_names: "marker \<in> {cp_marker, node_marker} \<Longrightarrow> CHR ''/'' \<notin> set marker \<and> marker \<noteq> []"
  by (auto simp: cp_marker_def node_marker_def)

lemma target_dirs:
  assumes "marker \<in> {cp_marker, node_marker}"
  shows "dirname (profile_file mp marker) = mp @ ''/profiles''" "dirname (group_file mp (group_id marker i)) = mp @ ''/groups''"
proof -
  have "CHR ''/'' \<notin> set (marker @ ''.json'')" "CHR ''/'' \<notin> set (group_id marker i @ ''.json'')"
    using marker_names [OF assms] by (auto simp: group_id_def dest: show_nat_digits)
  from this [THEN dirname_child] show "dirname (profile_file mp marker) = mp @ ''/profiles''"
    "dirname (group_file mp (group_id marker i)) = mp @ ''/groups''"
    unfolding profile_file_def group_file_def by (metis append.assoc)+
qed

lemma generator_total:
  assumes m: "matchbox_ready Y f" and mk: "marker \<in> {cp_marker, node_marker}" and ec: "config_ready ec"
    and v: "dict_get (sy_ignition Y) marker = ok v" and sel: "is_ok (selector_of sel)"
  shows "\<exists>f'. bindA (liftA (Generator f uri marker marker (py_str v @ ''.yaml'') (sy_path Y) sel (Some (marker @ ''-'' @ show_nat i)) md False))
      (generator_dumps D ec) f = (ok (), f') \<and> matchbox_ready Y f'"
proof -
  let ?mp = "sy_path Y"
  obtain c cs where mc: "marker = c # cs" using marker_names [OF mk] by (cases marker) auto
  have dirs: "is_dir f ?mp" "is_dir f (?mp @ ''/ignition'')" "is_dir f (?mp @ ''/profiles'')" "is_dir f (?mp @ ''/groups'')"
    using m by (simp_all add: matchbox_ready_def is_dir_def)
  have ign: "is_file f (?mp @ ''/ignition/'' @ py_str v @ ''.yaml'')"
    and nd: "\<not> is_dir f (profile_file ?mp marker)" "\<not> is_dir f (group_file ?mp (group_id marker i))"
    using m mk v unfolding matchbox_ready_def by fastforce+
  obtain P where P: "GenerateProfile f uri marker marker (py_str v @ ''.yaml'') ?mp False = ok P"
    using dirs ign by (simp add: GenerateProfile_def ensure_directory_def ensure_file_def)
  obtain G where G: "GenerateGroup f uri (group_id marker i) marker marker ?mp sel md = ok G"
    using dirs by (simp add: GenerateGroup_def ensure_directory_def)
  have N: "Generator f uri marker marker (py_str v @ ''.yaml'') ?mp sel (Some (marker @ ''-'' @ show_nat i)) md False = ok \<lparr>profile = P, group = G\<rparr>"
    using P G mc by (simp add: Generator_def group_id_def)
  note tp = GenerateProfile_fields [OF P, folded profile_file_def]
  have "is_ok (profile_generate ec P)"
    using ec by (auto simp: profile_generate_def profile_boot_def config_ready_def value_keys_def intro!: is_ok_bindE)
  moreover have "is_dir f (dirname (profile_file ?mp marker))" using dirs by (simp add: target_dirs [OF mk])
  ultimately obtain b f1 where d1: "dump D (pr_path P) (pr_data P) (\<lambda>_. profile_generate ec P) f = (ok b, f1)" "matchbox_ready Y f1" "f_dirs f1 = f_dirs f"
    using dump_ready [OF m tp _ _ nd(1), of "\<lambda>_. profile_generate ec P" D] by blast
  note F = GenerateGroup_fields [OF G]
  have tg: "target_file (gr_path G) (gr_data G) = ok (group_file ?mp (group_id marker i))"
    by (simp add: F target_file_def group_file_def)
  have "is_ok (group_generate G f1)"
    using keys_total [OF d1(2)] sel
    by (auto simp: group_generate_def group_metadata_def group_selector_def F Let_def intro!: is_ok_bindE)
  moreover have "is_dir f1 (dirname (group_file ?mp (group_id marker i)))" "\<not> is_dir f1 (group_file ?mp (group_id marker i))"
    using dirs nd(2) d1(3) by (simp_all add: target_dirs [OF mk] is_dir_def)
  ultimately obtain b2 f2 where d2: "dump D (gr_path G) (gr_data G) (group_generate G) f1 = (ok b2, f2)" "matchbox_ready Y f2"
    using dump_ready [OF d1(2) tg, of "group_generate G" D] by blast
  have "generator_dumps D ec \<lparr>profile = P, group = G\<rparr> f = (ok (), f2)"
    using d1(1) d2(1) by (simp add: generator_dumps_def act_simps)
  with N d2(2) show ?thesis by (simp add: act_simps)
qed

section \<open>A host that is ready\<close>

locale ready_host =
  fixes H :: "'s host" and Y :: synchroniser and P :: "'s \<Rightarrow> bool" and entry :: "json \<Rightarrow> bool"
  assumes members: "returns P (etcd_member_ip_list H Y)"
    and lists: "roles \<in> {cp_roles, node_roles} \<Longrightarrow> always P (\<lambda>ms. \<forall>m\<in>set ms. entry m) (query_roles H Y roles)"
    and files: "P s \<Longrightarrow> matchbox_ready Y (h_fs H s)"
    and stored: "P s \<Longrightarrow> matchbox_ready Y f \<Longrightarrow> P (h_set_fs H f s)"
begin

lemma returns_port: "config_ready ec \<Longrightarrow> k \<in> set number_keys \<Longrightarrow> returns P (liftA (port_of ec k))"
  using port_ready by (simp add: returns_liftA)

lemma returns_value: "config_ready ec \<Longrightarrow> k \<in> set value_keys \<union> set number_keys \<Longrightarrow> returns P (ec_value ec k)"
  using port_ready by (auto simp: config_ready_def ec_value_def returns_liftA)

lemma returns_field: "entry_ready ec m \<Longrightarrow> k \<in> {''mac'', ''ipv4'', ''cidrv4'', ''gateway'', ''fqdn'', ''disks''} \<Longrightarrow> returns P (field m k)"
  by (auto simp: entry_ready_def field_def intro!: returns_liftA)

lemma returns_lists:
  assumes ec: "config_ready ec"
  shows "k \<in> set number_keys \<Longrightarrow> returns P (initial_cluster H ec Y k)"
    and "k \<in> set number_keys \<Longrightarrow> returns P (member_uri_list H ec Y k)"
    and "k \<in> set number_keys \<Longrightarrow> entry_ready ec m \<Longrightarrow> returns P (member_url ec m k)"
    and "returns P (joined sep (etcd_member_ip_list H Y))"
  unfolding initial_cluster_def member_uri_list_def member_url_def joined_def
  by (intro always_intros members returns_port [OF ec] returns_field; simp)+

lemma returns_etcd: "config_ready ec \<Longrightarrow> entry_ready ec m \<Longrightarrow> kv \<in> set (etcd_metadata H ec Y m) \<Longrightarrow> returns P (snd kv)"
  using ports_are_numbers
  by (auto simp: etcd_metadata_def value_keys_def intro!: returns_lists returns_value returns_field)

lemma returns_kubernetes: "config_ready ec \<Longrightarrow> entry_ready ec m \<Longrightarrow> kv \<in> set (kubernetes_metadata H ec Y m fqdn name) \<Longrightarrow> returns P (snd kv)"
  using ports_are_numbers
  by (auto simp: kubernetes_metadata_def value_keys_def intro!: always_intros members returns_lists(4) returns_value returns_field)

lemma returns_network:
  assumes "config_ready ec" "entry_ready ec m" "is_ok (dict_get cni ''subnet'')"
  shows "returns P (network_metadata ec m fqdn cni)"
  unfolding network_metadata_def
  using assms
  by (intro always_intros returns_dictA)
    (auto simp: value_keys_def simp del: dict_get.simps intro!: always_intros returns_value returns_field)

lemma returns_host:
  assumes config: "config_ready ec" and m: "entry_ready ec m"
    and "is_ok (dict_get cni ''subnet'')" "is_ok (dict_get dns ''shortname'')"
    and kv: "kv \<in> set (host_metadata ec m fqdn dns cni)"
  shows "returns P (snd kv)"
proof -
  have t: "is_ok (bindE (attr ec k) (\<lambda>v. bindE (str_join '' '' v) (\<lambda>w. ok (JStr w))))"
    if "k \<in> {''nameservers'', ''ntp'', ''fallbackntp''}" for k
  proof -
    have "is_ok (bindE (attr ec k) (str_join '' ''))" using config that unfolding config_ready_def texts_ok_def by blast
    then show ?thesis by (auto simp: is_ok_iff bindE_eq_Inr)
  qed
  obtain ds where "jget m ''disks'' = ok (JList (map disk_json_path_size ds))" using m unfolding entry_ready_def by blast
  then have d: "returns P (bindA (field m ''disks'') (\<lambda>v. liftA (disk_profile_of ec v)))"
    using disk_profile_total [OF config, of ds]
    unfolding field_def by (intro always_bindA [OF always_liftA [where Q = "\<lambda>v. v = JList (map disk_json_path_size ds)"]]) (auto intro: returns_liftA)
  from kv assms(3,4) show ?thesis
    by (auto simp: host_metadata_def value_keys_def simp del: dict_get.simps
        intro!: returns_network [OF config m] t d returns_value [OF config] always_ret returns_liftA)
qed

lemma returns_metadata:
  assumes config: "config_ready ec" and m: "entry_ready ec m"
  shows "returns P (machine_metadata H ec Y m name)"
proof -
  obtain w where w: "name_of m name = ok (JStr w)" using name_total [OF m] by blast
  obtain hosts where hosts: "bindE (attr ec ''etc_hosts'') jiter = ok hosts"
    using config unfolding config_ready_def texts_ok_def is_ok_iff by blast
  obtain short where short: "dict_get (get_dns_attr w) ''shortname'' = ok short" using dns_has_shortname unfolding is_ok_iff by blast
  obtain c gw where g: "jget m ''cidrv4'' = ok (JStr c)" "jget m ''gateway'' = ok gw" "is_ok (ipam_of ec c gw)"
    using m unfolding entry_ready_def by blast
  then obtain cni where cni: "bindE (sync_config_of ec) (\<lambda>C. cni_ipam C c gw) = ok cni" by (auto simp: ipam_of_def is_ok_iff)
  then have sub: "is_ok (dict_get cni ''subnet'')" using cni_has_subnet by (auto simp: bindE_eq_Inr)
  let ?E = "metadata_entries H ec Y m w name (hosts @ [JStr (''127.0.1.1 '' @ w @ '' '' @ py_str short)]) (get_dns_attr w) cni"
  have "returns P (dictA ?E)"
  proof (rule returns_dictA)
    fix kv assume "kv \<in> set ?E"
    then show "returns P (snd kv)"
      by (auto simp: metadata_entries_def always_ret
          intro: returns_etcd [OF config m] returns_kubernetes [OF config m] returns_host [OF config m sub dns_has_shortname])
  qed
  then show ?thesis
    using w hosts short g cni
    by (simp add: machine_metadata_def metadata_entries_def Let_def always_def act_simps del: dict_get.simps dictA.simps)
qed

lemma returns_update: "config_ready ec \<Longrightarrow> returns P (control_plane_update H ec Y n)"
  unfolding control_plane_update_def
  using ports_are_numbers
  by (intro returns_dictA) (auto simp: value_keys_def intro!: returns_lists returns_value always_ret)

lemma returns_produce:
  assumes config: "config_ready ec" and extra: "extra_ok Y" "is_ok (get_extra_selectors (sy_extra Y))"
    and m: "entry_ready ec m" and mk: "marker \<in> {cp_marker, node_marker}"
  shows "returns P (produce_matchbox_data D H ec Y marker i m name md)"
proof -
  obtain w where w: "jget m ''mac'' = ok (JStr w)" "re_match selector_mac_rx (to_lower w)" and j: "json_ok m"
    using m unfolding entry_ready_def by blast
  obtain sel where sel: "selector_for Y m = ok sel" using extra(2) w(1) by (auto simp: selector_for_def is_ok_iff)
  have "map_of sel ''mac'' = Some (JStr w)"
    using selector_for_ok [OF extra(1) j sel] w(1) by (metis sum.inject(2))
  then have s: "is_ok (selector_of sel)" using w(2) by (simp add: selector_of_def)
  have "\<exists>s'. produce_matchbox_data D H ec Y marker i m name md st = (Inr (), s') \<and> P s'" if st: "P st" for st
  proof -
    obtain x t where t: "machine_metadata H ec Y m name st = (Inr x, t)" "P t" by (rule alwaysD [OF returns_metadata [OF config m] st])
    obtain v where v: "dict_get (sy_ignition Y) marker = ok v" using files [OF t(2)] mk unfolding matchbox_ready_def by blast
    obtain f' where "bindA (liftA (Generator (h_fs H t) (sy_api_uri Y) marker marker (py_str v @ ''.yaml'') (sy_path Y) sel
        (Some (marker @ ''-'' @ show_nat i)) (dict_update x md) False)) (generator_dumps D ec) (h_fs H t) = (ok (), f')" "matchbox_ready Y f'"
      using generator_total [OF files [OF t(2)] mk config v s] by blast
    with t v sel stored [OF t(2)] show ?thesis
      by (simp add: produce_matchbox_data_def act_simps on_fs_def del: dict_get.simps)
  qed
  then show ?thesis by (simp add: always_def)
qed

lemma returns_machines:
  assumes config: "config_ready ec" and extra: "extra_ok Y" "is_ok (get_extra_selectors (sy_extra Y))"
    and ms: "\<forall>m\<in>set ms. entry_ready ec m" and upd: "returns P upd" and mk: "marker \<in> {cp_marker, node_marker}"
  shows "returns P (forA (sync_machine D H ec Y marker prefix upd) (List.enumerate 0 ms))"
proof (rule returns_forA)
  fix im assume "im \<in> set (List.enumerate 0 ms)"
  then have "snd im \<in> set ms" using nth_mem [of "fst im" ms] by (simp add: in_set_enumerate_eq)
  then have m: "entry_ready ec (snd im)" using ms by blast
  then have "is_ok (automatic_name_of prefix (fst im) (snd im))" by (auto simp: entry_ready_def automatic_name_of_def)
  then show "returns P (sync_machine D H ec Y marker prefix upd im)"
    unfolding sync_machine_def by (intro always_intros upd returns_produce [OF config extra m mk])
qed

lemma returns_round:
  assumes config: "config_ready ec" and extra: "extra_ok Y" "is_ok (get_extra_selectors (sy_extra Y))"
    and entries: "\<And>m. entry m \<Longrightarrow> entry_ready ec m"
  shows "returns P (sync_control_plane D H ec Y)" "returns P (kubernetes_nodes D H ec Y)"
proof -
  have c: "returns P (bindA (forA (sync_machine D H ec Y cp_marker ''cp-'' (control_plane_update H ec Y (length ms))) (List.enumerate 0 ms))
      (\<lambda>_. ret (length ms)))"
    and n: "returns P (bindA (forA (sync_machine D H ec Y node_marker ''no-'' (ret [(''roles'', JStr (join_with '','' node_roles))]))
      (List.enumerate 0 ms)) (\<lambda>_. ret (length ms)))" if "\<forall>m\<in>set ms. entry m" for ms
    using that entries by (auto intro!: always_intros returns_machines [OF config extra] returns_update [OF config])
  show "returns P (sync_control_plane D H ec Y)" "returns P (kubernetes_nodes D H ec Y)"
    unfolding sync_control_plane_def kubernetes_nodes_def
    by (rule always_bindA [OF lists c]; simp) (rule always_bindA [OF lists n]; simp)
qed

end

section \<open>The API and its files\<close>

lemma rx_lang_word: "rx_lang (rx_rep n (rx_chars P)) {w. length w = n \<and> (\<forall>c\<in>set w. P c)}"
proof (induction n)
  case (Suc n)
  have "{v @ w | v w. v \<in> {[c] | c. P c} \<and> w \<in> {w. length w = n \<and> (\<forall>c\<in>set w. P c)}} =
      {w. length w = Suc n \<and> (\<forall>c\<in>set w. P c)}" (is "?A = ?B")
  proof
    show "?B \<subseteq> ?A"
    proof
      fix w assume "w \<in> ?B"
      then obtain c v where "w = [c] @ v" "length v = n" "\<forall>c\<in>set (c # v). P c" by (cases w) auto
      then show "w \<in> ?A" by (intro CollectI exI [of _ "[c]"] exI [of _ v]) simp
    qed
  qed auto
  with rx_lang_seq [OF rx_lang_chars [of P] Suc] show ?case by (simp only: rx_rep.simps)
qed (auto simp: rx_lang_def)

lemma lower_hex: "is_hex c \<Longrightarrow> is_lower_hex (hd (to_lower [c]))"
  by (auto simp: is_hex_def is_lower_hex_def is_digit_def to_lower_def Let_def of_char_of)

lemma to_lower_app: "to_lower (s @ t) = to_lower s @ to_lower t" "to_lower [] = []" "length (to_lower s) = length s"
  by (simp_all add: to_lower_def)

lemma to_lower_Cons: "to_lower (c # s) = hd (to_lower [c]) # to_lower s"
  by (simp add: to_lower_def)

lemma to_lower_join: "to_lower (join_with '':'' ws) = join_with '':'' (map to_lower ws)"
proof (induction ws)
  case (Cons w ws)
  have "hd (to_lower '':'') = CHR '':''" by (simp add: to_lower_def)
  with Cons to_lower_Cons [of "CHR '':''"] show ?case by (cases "ws = []") (simp_all add: join_with_Cons to_lower_app)
qed (simp add: to_lower_app)

lemma selector_mac:
  assumes "MAC_REGEX m = ok w"
  shows "re_match selector_mac_rx (to_lower m)"
proof -
  obtain v where v: "mac_shape v" "m = v \<or> m = v @ [newline]" using assms by (auto simp: MAC_REGEX_Inr)
  then obtain ws where ws: "length ws = 6" "\<forall>w\<in>set ws. hex_word 2 w" "v = join_with '':'' ws" by (auto simp: mac_shape_def)
  let ?low = "\<lambda>w. length w = 2 \<and> (\<forall>c\<in>set w. is_lower_hex c)"
  have low: "?low (to_lower w)" if "w \<in> set ws" for w
  proof -
    have "is_lower_hex c" if "c \<in> set (to_lower w)" for c
    proof -
      have "c \<in> (\<lambda>d. hd (to_lower [d])) ` set w" using that by (simp add: to_lower_def)
      then obtain d where "d \<in> set w" "c = hd (to_lower [d])" by blast
      with ws(2) \<open>w \<in> set ws\<close> lower_hex [of d] show ?thesis by (auto simp: hex_word_def)
    qed
    then show ?thesis using ws(2) that by (auto simp: hex_word_def to_lower_app)
  qed
  have "rx_lang (rx_seq (rx_rep 2 (rx_chars is_lower_hex)) (rx_lit CHR '':'')) {w @ '':'' | w. ?low w}"
    using rx_lang_seq [OF rx_lang_word [of 2 is_lower_hex] rx_lang_lit [of "CHR '':''"]] by simp
  from rx_lang_sep_groups [OF this rx_lang_word [of 2 is_lower_hex], of 5]
  have L: "rx_lang selector_mac_rx {join_with '':'' (us @ [u]) | us u. length us = 5 \<and> (\<forall>x\<in>set us. ?low x) \<and> ?low u}"
    by (simp add: selector_mac_rx_def)
  obtain us u where us: "ws = us @ [u]" "length us = 5"
    using ws(1) length_Suc_conv_rev [of ws 5] by auto
  have "to_lower v = join_with '':'' (map to_lower us @ [to_lower u])"
    unfolding ws(3) us(1) to_lower_join by simp
  moreover have "to_lower m = to_lower v \<or> to_lower m = to_lower v @ [newline]"
    using v(2) by (auto simp: to_lower_app) (simp add: to_lower_def newline_def)
  moreover have "length (map to_lower us) = 5" "\<forall>x\<in>set (map to_lower us). ?low x" "?low (to_lower u)"
    using us low by auto
  ultimately show ?thesis unfolding rx_lang_match [OF L] by blast
qed

text \<open>The interface is written as an address with its prefix, and its pods stay within the address space.\<close>

definition pods_fit :: "config \<Rightarrow> iface \<Rightarrow> bool" where
  "pods_fit ec i \<longleftrightarrow> (\<exists>ip p C. ip < 2 ^ 32 \<and> p \<le> 32 \<and> i_cidrv4 i = show_ip ip @ ''/'' @ show_nat p \<and>
     sync_config_of ec = ok C \<and> valid_sub_ips (sub_ips C) \<and> is_ok (pod_range C ip p))"

lemma pods_fit_ipam: "pods_fit ec i \<Longrightarrow> is_ok (ipam_of ec (i_cidrv4 i) gw)"
  using address_roundtrip by (force simp: pods_fit_def ipam_of_def cni_ipam_def is_ok_iff)

lemma entry_of_ready:
  assumes E: "engine_ok E" and d: "db_ok d" and fit: "\<forall>i\<in>set (ifaces d). i_as_boot i \<longrightarrow> pods_fit ec i"
    and v: "json_ok v" "entry_of_machine E d v"
  shows "entry_ready ec v"
proof -
  obtain x j where c: "construct_machine_dict E d j x = ok v" using v(2) by (auto simp: entry_of_machine_def)
  then obtain b where b: "m_boot_interface E d x = Some b" by (auto simp: construct_machine_dict_def split: option.splits)
  have "b \<in> set (ifaces d)" "i_as_boot b" using b first_Some_in E by (fastforce simp: m_boot_interface_def query_where_def)+
  then have "is_ok (MAC_REGEX (i_mac b))" "pods_fit ec b" using d fit by (auto simp: db_ok_defs)
  then show ?thesis
    using v(1) c b selector_mac pods_fit_ipam [of ec b]
    by (auto simp: entry_ready_def construct_machine_dict_def is_ok_iff opt_str_def split: option.split)
qed

definition ready_net :: "'c server \<Rightarrow> synchroniser \<Rightarrow> 'c api \<times> nat \<Rightarrow> 'c net \<Rightarrow> bool" where
  "ready_net S Y a st \<longleftrightarrow> syncing S Y a st \<and> matchbox_ready Y (net_fs st)"

interpretation net_ready: ready_host "net_host S (sy_api_uri Y)" Y "ready_net S Y a"
    "\<lambda>m. json_ok m \<and> entry_of_machine (sv_engine S) (a_db (fst a)) m"
  for S :: "'c server" and Y a
proof
  show "returns (ready_net S Y a) (etcd_member_ip_list (net_host S (sy_api_uri Y)) Y)"
    unfolding always_def ready_net_def using net_members by (metis (no_types, lifting))
next
  fix roles assume r: "roles \<in> {cp_roles, node_roles}"
  have "\<exists>ms st'. query_roles (net_host S (sy_api_uri Y)) Y roles st = (Inr ms, st') \<and>
      (\<forall>m\<in>set ms. json_ok m \<and> entry_of_machine (sv_engine S) (a_db (fst a)) m) \<and> ready_net S Y a st'" if st: "ready_net S Y a st" for st
  proof -
    have s: "syncing S Y a st" "matchbox_ready Y (net_fs st)" using st by (simp_all add: ready_net_def)
    obtain ms st' where q: "query_roles (net_host S (sy_api_uri Y)) Y roles st = (Inr ms, st')"
      "lists_holders (sv_engine S) (a_db (net_api st)) roles ms" "syncing S Y a st'" "net_fs st' = net_fs st"
      by (rule net_query_roles [OF s(1) r])
    moreover have "a_db (net_api st) = a_db (fst a)" using s(1) by (auto simp: syncing_def)
    ultimately show ?thesis using s(2) by (simp add: ready_net_def lists_holders_def)
  qed
  then show "always (ready_net S Y a) (\<lambda>ms. \<forall>m\<in>set ms. json_ok m \<and> entry_of_machine (sv_engine S) (a_db (fst a)) m)
      (query_roles (net_host S (sy_api_uri Y)) Y roles)"
    by (simp add: always_def)
next
  fix st f assume s: "ready_net S Y a st"
  then show "matchbox_ready Y (h_fs (net_host S (sy_api_uri Y)) st)" by (simp add: ready_net_def net_host_def)
  assume "matchbox_ready Y f"
  with s net_sync.set_kept [of S Y a st f] show "ready_net S Y a (h_set_fs (net_host S (sy_api_uri Y)) f st)"
    by (simp add: ready_net_def net_host_def)
qed

lemma round_returns:
  fixes S :: "'c server"
  assumes ec: "config_ready ec" and Y: "extra_ok Y" "is_ok (get_extra_selectors (sy_extra Y))"
    and good: "net_good S st" "queries_true S Y st" and files: "matchbox_ready Y (net_fs st)"
    and fit: "\<forall>i\<in>set (ifaces (a_db (net_api st))). i_as_boot i \<longrightarrow> pods_fit ec i"
  obtains k st' where "sync_round D (net_host S (sy_api_uri Y)) ec Y st = (Inr k, st')"
proof -
  let ?H = "net_host S (sy_api_uri Y)" and ?a = "(net_api st, clock st)"
  let ?R = "ready_net S Y ?a"
  have "?R st" using good files by (simp add: ready_net_def syncing_def)
  have entries: "entry_ready ec m" if "json_ok m \<and> entry_of_machine (sv_engine S) (a_db (fst ?a)) m" for m
    using entry_of_ready [of "sv_engine S" "a_db (net_api st)" ec m] good(1) fit that by (simp add: net_good_def)
  note r = net_ready.returns_round [OF ec Y entries]
  obtain i s1 where 1: "sync_control_plane D ?H ec Y st = (Inr i, s1)" "?R s1"
    by (rule alwaysD [OF r(1) \<open>?R st\<close>])
  obtain j s2 where 2: "kubernetes_nodes D ?H ec Y s1 = (Inr j, s2)" "?R s2"
    by (rule alwaysD [OF r(2) 1(2)])
  have "sync_round D ?H ec Y st = (Inr (i + j), s2\<lparr>net_api := notified S (clock s2) (net_api s2)\<rparr>)"
    using 1(1) 2(1) by (simp add: sync_round_def act_simps notify_net)
  with that show thesis by blast
qed

section \<open>A round of the plan that succeeds\<close>

lemma sync_tries_first: "r s = (Inr k, s') \<Longrightarrow> 0 < n \<Longrightarrow> sync_tries H r n w s = (Inr k, s')"
  by (cases n) (simp_all add: act_simps)

text \<open>Within the time to live of the mark set at \<open>from\<close> the API passes requests for \<open>/ignition\<close> on.\<close>

definition gate_open :: "'c server \<Rightarrow> 'c api \<Rightarrow> nat \<Rightarrow> int \<Rightarrow> bool" where
  "gate_open S a since ttl \<longleftrightarrow> (\<forall>u. since \<le> u \<and> int u + int second \<le> int since + ttl * int second \<longrightarrow>
     cache_get (sv_cache S) u ''sync-notify'' (a_cache a) \<noteq> None)"

lemma notified_gate:
  assumes "cache_ok (sv_cache S)" "attr (sv_ec S) ''sync_notify_ttl'' = ok (JInt l)" "0 < l"
  shows "gate_open S (notified S now a) now l"
proof -
  have "a_cache (notified S now a) = cache_set (sv_cache S) now ''sync-notify'' (date now) l (a_cache a)"
    unfolding notified_def notify_served sync_notify_def using assms(2) by (simp add: act_simps net_request_def)
  then show ?thesis unfolding gate_open_def using cache_laws(1) [OF assms(1,3)] by simp
qed

text \<open>
  C3. On a machine that is set up, a round of the plan succeeds. With a configuration the constructor
  built, whose lists are lists of texts and whose ladder is not empty, the directory of matchbox laid
  out with both ignition files, every boot interface written as an address with its prefix whose pods
  fit, and enough machines for the control plane: the round returns, every known machine has a role,
  the control plane has at least the expected number of members, every scheduled machine has its
  group on disk, the result is their number, and the API lets requests for /ignition through until
  the mark expires.
\<close>

theorem plan_completes:
  fixes S :: "'c server"
  assumes D: "differ_ok D" and P: "plan_for ec base n P" and q: "queries_dead (k_sync P) st"
    and E: "engine_ok (sv_engine S)" and d: "db_ok (a_db (net_api st))" "schedulable (a_db (net_api st))"
    and ec: "EnjoliverConfig_init env here (ok y) = ok ec" "texts_ok ec"
    and files: "matchbox_ready (k_sync P) (net_fs st)" "is_ok (get_extra_selectors (sy_extra (k_sync P)))"
    and fit: "\<forall>i\<in>set (ifaces (a_db (net_api st))). i_as_boot i \<longrightarrow> pods_fit ec i"
    and enough: "n \<le> net_holders st cp_roles \<or> n \<le> length (net_avail S st)"
    and ttl: "cache_ok (sv_cache S)" "attr (sv_ec S) ''sync_notify_ttl'' = ok (JInt l)" "0 < l"
  shows "\<exists>st'. plan_apply D (net_host S base) ec P st = Some (Inr (net_holders st' cp_roles + net_holders st' node_roles), st') \<and>
    net_avail S st' = [] \<and> net_holders st' cp_roles \<ge> n \<and>
    covered (sv_engine S) (a_db (net_api st')) (net_fs st') (k_sync P) cp_marker cp_roles \<and>
    covered (sv_engine S) (a_db (net_api st')) (net_fs st') (k_sync P) node_marker node_roles \<and>
    gate_open S (net_api st') (clock st') l"
proof -
  let ?Y = "k_sync P" and ?H = "net_host S base"
  have p: "sy_api_uri ?Y = base" "extra_ok ?Y" "ec_ok ec" using P by (simp_all add: plan_for_def)
  have good: "net_good S st" using E d by (simp add: net_good_def)
  obtain s2 where s2: "plan_apply D ?H ec P st = Some (sync_apply D ?H ec ?Y 10 2 s2)" "net_good S s2" "net_avail S s2 = []"
    "net_holders s2 cp_roles \<ge> n" "frames st s2"
    by (rule plan_schedules [OF P good]) (use enough in auto)
  have true2: "queries_true S ?Y s2" using q s2(5) by (auto simp: frames_def intro: dead_true dead_later)
  have "ifaces (a_db (net_api s2)) = ifaces (a_db (net_api st))" "net_fs s2 = net_fs st"
    using s2(5) by (simp_all add: frames_def discovery_part_def)
  with files fit obtain k st' where r: "sync_round D ?H ec ?Y s2 = (Inr k, st')"
    using round_returns [OF config_ready_init [OF ec] p(2) files(2) s2(2) true2, of D] by (auto simp: p(1))
  then have "sync_apply D ?H ec ?Y 10 2 s2 = (Inr k, st')"
    unfolding sync_apply_def by (intro sync_tries_first) simp_all
  moreover note n = round_net [OF D p(3,2) s2(2) true2, unfolded p(1), OF r]
  have api: "a_db (net_api st') = a_db (net_api s2)" using n(2) by simp
  then have "net_holders st' = net_holders s2" "net_avail S st' = net_avail S s2" by (simp_all add: net_views fun_eq_iff)
  moreover have "gate_open S (net_api st') (clock st') l" using n(2,5) notified_gate [OF ttl] by simp
  ultimately show ?thesis using s2(1,3,4) n(1,3,4) by (simp add: api)
qed

section \<open>A configuration prints faithfully\<close>

lemma settings_ok: "\<forall>s\<in>set (all_settings env here). json_ok (snd (snd s))"
  by (simp add: all_settings_def settings_matchbox_def main_settings_def settings_storage_def settings_numbers_def
      settings_profiles_def settings_hosts_def json_ok_dict opt_env_def split: option.split)

lemma configured_ok: "json_ok y \<Longrightarrow> json_ok dflt \<Longrightarrow> json_ok (configured env y key dflt)"
  using jget_ok by (auto simp: configured_def split: option.split sum.split)

definition doc_ok :: "config \<Rightarrow> bool" where
  "doc_ok C \<longleftrightarrow> json_ok (from_yaml C) \<and> ec_ok C"

lemma assign_attr_doc:
  assumes "assign_attr env C s = ok C'" "doc_ok C" "json_ok (snd (snd s))"
  shows "doc_ok C'"
proof -
  obtain key conv dflt where s: "s = (key, conv, dflt)" by (cases s) auto
  obtain w where w: "convert conv (configured env (from_yaml C) key dflt) = ok w" "attrs C' = dict_set (attrs C) key w"
    using assign_attr_value(1) assms(1) s by blast
  have "json_ok (configured env (from_yaml C) key dflt)" using assms s by (simp add: configured_ok doc_ok_def)
  then have "json_ok w" using w(1) by (cases conv) (auto simp: bindE_eq_Inr)
  then show ?thesis
    using assms(2) w(2) set_dict_set [of "attrs C" key w] assign_attr_value(2) [of env C key conv dflt C'] assms(1) s
    by (auto simp: doc_ok_def ec_ok_def)
qed

lemma assign_all_doc: "foldE (assign_attr env) C ss = ok C' \<Longrightarrow> doc_ok C \<Longrightarrow> \<forall>s\<in>set ss. json_ok (snd (snd s)) \<Longrightarrow> doc_ok C'"
  by (induction ss arbitrary: C) (auto simp: bindE_eq_Inr dest: assign_attr_doc)

lemma init_ec_ok:
  assumes C: "EnjoliverConfig_init env here (ok y) = ok ec" and y: "json_ok y"
  shows "ec_ok ec"
proof -
  obtain C1 C2 C3 C4 where
    C1: "foldE (assign_attr env) \<lparr>from_yaml = y, from_env = [], default_values = [], attrs = []\<rparr> settings_matchbox = ok C1"
    and C2: "assign_matchbox_assets env C1 = ok C2"
    and C3: "foldE (assign_attr env) C2 (main_settings env here) = ok C3"
    and C4: "assign_logging env C3 = ok C4" and C: "foldE (assign_attr env) C4 (settings_hosts here) = ok ec"
    using C by (auto simp: EnjoliverConfig_init_def bindE_eq_Inr main_settings_def Let_def split: if_splits)
  have s: "\<forall>s\<in>set settings_matchbox. json_ok (snd (snd s))" "\<forall>s\<in>set (main_settings env here). json_ok (snd (snd s))"
    "\<forall>s\<in>set (settings_hosts here). json_ok (snd (snd s))"
    using settings_ok [of env here] by (auto simp: all_settings_def)
  have "doc_ok \<lparr>from_yaml = y, from_env = [], default_values = [], attrs = []\<rparr>" using y by (simp add: doc_ok_def ec_ok_def)
  then have "doc_ok C1" by (rule assign_all_doc [OF C1 _ s(1)])
  moreover obtain v where "assign_attr env C1 (''matchbox_assets'', AsIs, JStr v) = ok C2"
    using C2 by (auto simp: assign_matchbox_assets_def bindE_eq_Inr)
  ultimately have "doc_ok C2" by (auto dest: assign_attr_doc)
  then have d3: "doc_ok C3" by (rule assign_all_doc [OF C3 _ s(2)])
  have "doc_ok (C3\<lparr>attrs := dict_set (attrs C3) ''logging_formatter'' (JStr logging_formatter)\<rparr>)"
    using d3 set_dict_set [of "attrs C3" "''logging_formatter''" "JStr logging_formatter"] by (auto simp: doc_ok_def ec_ok_def)
  moreover have "assign_attr env (C3\<lparr>attrs := dict_set (attrs C3) ''logging_formatter'' (JStr logging_formatter)\<rparr>)
      (''matchbox_logging_level'', AsIs, JStr ''debug'') = ok C4"
    using C4 by (auto simp: assign_logging_def bindE_eq_Inr Let_def split: if_splits)
  ultimately have "doc_ok C4" by (auto dest: assign_attr_doc)
  then have "doc_ok ec" by (rule assign_all_doc [OF C _ s(3)])
  then show ?thesis by (simp add: doc_ok_def)
qed

section \<open>The sample\<close>

lemma sample_setting:
  assumes C: "EnjoliverConfig_init sample_env sample_location (ok sample_yaml) = ok C"
    and s: "(key, AsIs, dflt) \<in> set (all_settings sample_env sample_location)"
    and k: "to_upper key \<notin> {''CONFIG'', ''SUB_IPS''}" "key \<notin> {''api_uri'', ''sub_ips'', ''etcd_member_kubernetes_control_plane_expected_nb''}"
  shows "attr C key = ok dflt"
proof -
  have "configured sample_env sample_yaml key dflt = dflt"
    using k by (auto simp: configured_def sample_env_def sample_yaml_def)
  with init_values [OF C s] show ?thesis by simp
qed

lemma sample_texts:
  assumes C: "EnjoliverConfig_init sample_env sample_location (ok sample_yaml) = ok C"
  shows "texts_ok C"
proof -
  let ?H = "set (settings_hosts sample_location)"
  have h: "attr C key = ok dflt" if "(key, AsIs, dflt) \<in> ?H" "to_upper key \<notin> {''CONFIG'', ''SUB_IPS''}"
      "key \<notin> {''api_uri'', ''sub_ips'', ''etcd_member_kubernetes_control_plane_expected_nb''}" for key dflt
    using sample_setting [OF C _ that(2,3)] that(1) by (simp add: all_settings_def)
  have up: "to_upper ''etc_hosts'' \<notin> {''CONFIG'', ''SUB_IPS''}" "to_upper ''nameservers'' \<notin> {''CONFIG'', ''SUB_IPS''}"
    "to_upper ''ntp'' \<notin> {''CONFIG'', ''SUB_IPS''}" "to_upper ''fallbackntp'' \<notin> {''CONFIG'', ''SUB_IPS''}"
    "to_upper ''disks_ladder_gb'' \<notin> {''CONFIG'', ''SUB_IPS''}" by code_simp+
  have m: "\<exists>ws. (''etc_hosts'', AsIs, strs ws) \<in> ?H" "\<exists>ws. (''nameservers'', AsIs, strs ws) \<in> ?H"
    "\<exists>ws. (''ntp'', AsIs, strs ws) \<in> ?H" "\<exists>ws. (''fallbackntp'', AsIs, strs ws) \<in> ?H"
    "(''disks_ladder_gb'', AsIs, JObj [(''S'', JInt 10), (''M'', JInt 20), (''L'', JInt 30)]) \<in> ?H"
    by (auto simp: settings_hosts_def)
  obtain hosts names ntp fallback where "attr C ''etc_hosts'' = ok (strs hosts)" "attr C ''nameservers'' = ok (strs names)"
    "attr C ''ntp'' = ok (strs ntp)" "attr C ''fallbackntp'' = ok (strs fallback)"
    using m(1-4) h [OF _ up(1), simplified] h [OF _ up(2), simplified] h [OF _ up(3), simplified] h [OF _ up(4), simplified] by blast
  moreover have "attr C ''disks_ladder_gb'' = ok (JObj [(''S'', JInt 10), (''M'', JInt 20), (''L'', JInt 30)])"
    by (rule h [OF m(5) up(5)]) simp
  ultimately show ?thesis by (simp add: texts_ok_def strs_def)
qed

lemma sample_number:
  assumes C: "EnjoliverConfig_init sample_env sample_location (ok sample_yaml) = ok C"
    and s: "(key, conv, dflt) \<in> set settings_numbers" and v: "convert conv (configured sample_env sample_yaml key dflt) = ok v"
  shows "attr C key = ok v"
proof -
  have "(key, conv, dflt) \<in> set (all_settings sample_env sample_location)" using s by (simp add: all_settings_def main_settings_def)
  from init_values [OF C this] v show ?thesis by simp
qed

lemma sample_numbers:
  assumes C: "EnjoliverConfig_init sample_env sample_location (ok sample_yaml) = ok C"
  shows "attr C ''sub_ips'' = ok (JInt 64)" "attr C ''range_nb_ips'' = ok (JInt 253)" "attr C ''skip_ips'' = ok (JInt 1)"
    "attr C ''perennial_local_host_ip'' = ok (JStr ''172.31.255.255'')"
    "attr C ''etcd_member_kubernetes_control_plane_expected_nb'' = ok (JInt 1)"
    "attr C ''apply_deps_tries'' = ok (JInt 15)" "attr C ''apply_deps_delay'' = ok (JInt 60)"
proof -
  note n = sample_number [OF C]
  show "attr C ''sub_ips'' = ok (JInt 64)" by (rule n [of _ AsInt "JInt 256"]) (simp add: settings_numbers_def, code_simp)
  show "attr C ''range_nb_ips'' = ok (JInt 253)" by (rule n [of _ AsInt "JInt 253"]) (simp add: settings_numbers_def, code_simp)
  show "attr C ''skip_ips'' = ok (JInt 1)" by (rule n [of _ AsInt "JInt 1"]) (simp add: settings_numbers_def, code_simp)
  show "attr C ''perennial_local_host_ip'' = ok (JStr ''172.31.255.255'')"
    by (rule n [of _ AsStr "JStr ''172.31.255.255''"]) (simp add: settings_numbers_def, code_simp)
  show "attr C ''etcd_member_kubernetes_control_plane_expected_nb'' = ok (JInt 1)"
    by (rule n [of _ AsInt "JInt 3"]) (simp add: settings_numbers_def, code_simp)
  show "attr C ''apply_deps_tries'' = ok (JInt 15)" by (rule n [of _ AsInt "JInt 15"]) (simp add: settings_numbers_def, code_simp)
  show "attr C ''apply_deps_delay'' = ok (JInt 60)" by (rule n [of _ AsInt "JInt 60"]) (simp add: settings_numbers_def, code_simp)
qed

definition ready_sync :: synchroniser where
  "ready_sync = \<lparr>sy_api_uri = ''http://api'', sy_path = ''/m'',
     sy_ignition = [(''etcd_member_kubernetes_control_plane'', JStr ''cp''), (''kubernetes_nodes'', JStr ''no'')],
     sy_extra = JObj [(''os'', JStr ''installed'')], sy_ttl = Some 5\<rparr>"

definition ready_plan :: plan where
  "ready_plan = sample_plan\<lparr>k_sync := ready_sync\<rparr>"

definition ready_start :: "ref_cache net" where
  "ready_start = sample_net\<lparr>net_fs := \<lparr>f_dirs = [''/m'', ''/m/ignition'', ''/m/profiles'', ''/m/groups''],
     f_files = [(''/m/ignition/cp.yaml'', []), (''/m/ignition/no.yaml'', [])]\<rparr>\<rparr>"

lemma ready_files: "matchbox_ready ready_sync (net_fs ready_start)"
proof -
  have "profile_file ''/m'' k \<notin> {''/m'', ''/m/ignition'', ''/m/profiles'', ''/m/groups''}"
    "group_file ''/m'' k \<notin> {''/m'', ''/m/ignition'', ''/m/profiles'', ''/m/groups''}" for k
    by (simp_all add: profile_file_def group_file_def)
  then show ?thesis
    by (auto simp: matchbox_ready_def ready_sync_def ready_start_def cp_marker_def node_marker_def is_dir_def is_file_def listdir_def)
qed

lemma ready_fits:
  assumes C: "EnjoliverConfig_init sample_env sample_location (ok sample_yaml) = ok C"
  shows "pods_fit C other_iface"
proof -
  define K where "K = \<lparr>sub_ips = 64, range_nb_ips = 253, skip_ips = 1, perennial_ip = ''172.31.255.255''\<rparr>"
  have "sync_config_of C = ok K"
    using sample_numbers [OF C] by (simp add: sync_config_of_def port_of_def K_def)
  moreover have "i_cidrv4 other_iface = show_ip 2886991938 @ ''/'' @ show_nat 24"
  proof -
    have "octets 2886991938 = [172, 20, 0, 66]" by (simp add: octets_def)
    moreover have "show_nat 172 = ''172''" "show_nat 20 = ''20''" "show_nat 0 = ''0''" "show_nat 66 = ''66''" "show_nat 24 = ''24''"
      by code_simp+
    ultimately show ?thesis by (simp add: show_ip_def other_iface_def)
  qed
  moreover have "valid_sub_ips (sub_ips K)" by (simp add: valid_sub_ips_def K_def)
  moreover have "is_ok (pod_range K 2886991938 24)"
    by (simp add: pod_range_def last_field_mod ip_add_def max_ipv4_def network_address_def K_def Let_def)
  ultimately show ?thesis unfolding pods_fit_def by (intro exI [of _ 2886991938] exI [of _ 24] exI [of _ K]) simp
qed

lemma ready_plan_for:
  assumes C: "EnjoliverConfig_init sample_env sample_location (ok sample_yaml) = ok C"
  shows "plan_for C ''http://api'' 1 ready_plan"
proof -
  have "json_ok sample_yaml" by (simp add: sample_yaml_def json_ok_dict)
  with init_ec_ok [OF C] sample_numbers(5-7) [OF C] show ?thesis
    by (simp add: plan_for_def ready_plan_def sample_plan_def ready_sync_def EtcdMemberKubernetesControlPlane_def cp_roles_def
        extra_ok_def json_ok_dict) blast
qed

theorem plan_completes_witness:
  "\<exists>C k st'. EnjoliverConfig_init sample_env sample_location (ok sample_yaml) = ok C \<and>
     plan_apply json_differ (net_host sample_server ''http://api'') C ready_plan ready_start = Some (Inr k, st') \<and> 1 \<le> k \<and>
     net_avail sample_server st' = [] \<and> gate_open sample_server (net_api st') (clock st') 60"
proof -
  obtain C where C: "EnjoliverConfig_init sample_env sample_location (ok sample_yaml) = ok C"
    using sample_config unfolding is_ok_iff by blast
  have E: "engine_ok (sv_engine sample_server)" by (simp add: engine_ok_ref)
  have a: "net_api ready_start = net_api sample_net" by (simp add: ready_start_def)
  have dead: "queries_dead (k_sync ready_plan) ready_start"
    by (simp add: ready_plan_def ready_sync_def queries_dead_def ready_start_def sample_net_def)
  have files: "matchbox_ready (k_sync ready_plan) (net_fs ready_start)" "is_ok (get_extra_selectors (sy_extra (k_sync ready_plan)))"
    using ready_files by (simp_all add: ready_plan_def, simp add: ready_sync_def)
  have fit: "\<forall>i\<in>set (ifaces (a_db (net_api ready_start))). i_as_boot i \<longrightarrow> pods_fit C i"
    using ready_fits [OF C] by (simp add: a sample_net_def sample_state_def other_db_def)
  have "1 \<le> length (net_avail sample_server ready_start)"
    using sample_net_ok(3) net_views_api(1) [OF a, of sample_server] by simp
  from plan_completes [OF differ_ok_json_differ ready_plan_for [OF C] dead E sample_net_ok(1,2) [folded a] C sample_texts [OF C]
      files fit disjI2 [OF this], of 60] C
  show ?thesis by fastforce
qed

end
