(* ===== verification/Restore.thy ===== *)
theory Restore
  imports Api_Invariant
begin

text \<open>
  The backup of the API and its restoration. \<open>GET /backup/export\<close> answers the playbook of
  \<open>BackupExport\<close>: for every machine with the control-plane or the node role its discovery and its
  schedule, each with the route it is to be posted to. Posting the entries in order to a fresh API
  rebuilds exactly those machines, with their interfaces, disks and roles; what is lost is the prefix
  length of the addresses, the switch ports, and machines without one of the two roles.
\<close>

section \<open>What a machine exports\<close>

definition backup_nic :: "iface \<Rightarrow> nic" where
  "backup_nic i = \<lparr>nic_mac = i_mac i, nic_name = i_name i, nic_netmask = i_netmask i, nic_ipv4 = i_ipv4 i,
     nic_cidrv4 = i_ipv4 i, nic_gateway = i_gateway i, nic_names = [opt_str (i_fqdn i)]\<rparr>"

definition backup_report :: "engine \<Rightarrow> db \<Rightarrow> machine \<Rightarrow> report" where
  "backup_report E d m = \<lparr>rp_uuid = m_uuid m, rp_boot = mac_boot (m_interfaces E d m),
     rp_nics = map backup_nic (m_interfaces E d m), rp_disks = map (\<lambda>k. (k_path k, k_size k)) (m_disks E d m)\<rparr>"

definition backup_disk :: "disk \<Rightarrow> json" where
  "backup_disk k = JObj [(''size-bytes'', JInt (k_size k)), (''path'', JStr (k_path k))]"

definition backup_dict :: "engine \<Rightarrow> db \<Rightarrow> machine \<Rightarrow> dict" where
  "backup_dict E d m = [
     (''boot-info'', JObj [(''uuid'', JStr (m_uuid m)), (''mac'', JStr (mac_boot (m_interfaces E d m))), (''random-id'', JStr '''')]),
     (''interfaces'', JList (map backup_iface (m_interfaces E d m))),
     (''disks'', JList (map backup_disk (m_disks E d m))),
     (''lldp'', JObj [(''data'', JObj [(''interfaces'', JNull)]), (''is_file'', JBool False)]),
     (''ignition-journal'', JNull)]"

lemma construct_discovery_dict:
  "mac_boot (m_interfaces E d m) \<noteq> [] \<Longrightarrow> construct_discovery E d m = Inr (JObj (backup_dict E d m))"
  by (simp add: construct_discovery_def backup_dict_def Let_def backup_disk_def [abs_def])

text \<open>The payload is recorded as the report with the same fields; the order of its keys does not matter.\<close>

lemma same_fields: "jget (backup_iface i) k = jget (nic_json (backup_nic i)) k"
  by (simp add: backup_iface_def nic_json_def backup_nic_def)

lemma tries_of_backup:
  "verify_tries f (backup_iface i) ip k j x = verify_tries f (nic_json (backup_nic i)) ip k j x"
  by (induction k arbitrary: j x) (simp_all only: verify_tries.simps same_fields)

lemma names_of_backup:
  "fqdn_names v dns (backup_iface i) n acc names = fqdn_names v dns (nic_json (backup_nic i)) n acc names"
  by (induction names arbitrary: n acc) (simp_all only: fqdn_names.simps tries_of_backup same_fields)

lemma verified_of_backup:
  "get_verified_dns_query v dns (backup_iface i) = get_verified_dns_query v dns (nic_json (backup_nic i))"
  by (simp only: get_verified_dns_query_def names_of_backup same_fields)

lemma construct_iface_of_backup:
  "construct_iface F v dns (JObj (backup_dict E d m)) (backup_iface i) =
   construct_iface F v dns (JObj (report_dict (backup_report E d m))) (nic_json (backup_nic i))"
proof -
  have "bindE (jget (JObj (backup_dict E d m)) ''boot-info'') (\<lambda>b. jget b ''mac'') =
      bindE (jget (JObj (report_dict (backup_report E d m))) ''boot-info'') (\<lambda>b. jget b ''mac'')"
    by (simp add: backup_dict_def report_dict_def backup_report_def)
  then show ?thesis by (simp only: construct_iface_def verified_of_backup same_fields)
qed

lemma construct_ifaces_of_backup:
  "construct_ifaces F v dns (JObj (backup_dict E d m)) n (map backup_iface is) =
   construct_ifaces F v dns (JObj (report_dict (backup_report E d m))) n (map nic_json (map backup_nic is))"
proof (induction "is" arbitrary: n)
  case (Cons i "is")
  then show ?case by (simp only: list.map construct_ifaces.simps construct_iface_of_backup same_fields)
qed simp

lemma construct_backup_disks:
  "mapE construct_disk (map backup_disk ks) = Inr (map disk_row (map (\<lambda>k. (k_path k, k_size k)) ks))"
  by (induction ks) (simp_all add: construct_disk_def backup_disk_def disk_row_def)

lemma backup_fields:
  "bindE (jget (JObj (backup_dict E d m)) ''boot-info'') (\<lambda>b. jget b ''uuid'') = Inr (JStr (m_uuid m))"
  "bindE (jget (JObj (backup_dict E d m)) ''disks'') jiter = Inr (map backup_disk (m_disks E d m))"
  "bindE (jget (JObj (backup_dict E d m)) ''interfaces'') jiter = Inr (map backup_iface (m_interfaces E d m))"
  "lldp_interfaces (JObj (backup_dict E d m)) = Inr []"
  by (simp_all add: backup_dict_def lldp_interfaces_def)

lemma lint_backup: "lint_discovery_data (JObj (backup_dict E d m)) = Inr (backup_dict E d m)"
  by (simp add: backup_dict_def required_keys_def)

lemma upsert_of_backup:
  "upsert F v dns now (JObj (backup_dict E d m)) x = upsert F v dns now (report_json (backup_report E d m)) x"
proof -
  have net: "insert_network F v dns mid (JObj (backup_dict E d m)) ks y =
      insert_network F v dns mid (JObj (report_dict (backup_report E d m))) ks y" for mid ks y
    unfolding insert_network_def backup_fields report_fields
    by (simp only: bindE.simps construct_ifaces_of_backup) (simp add: backup_report_def)
  have "upsert_body F v dns now (backup_dict E d m) y = upsert_body F v dns now (report_dict (backup_report E d m)) y" for y
    unfolding upsert_body_report
    by (simp only: upsert_body_def Let_def backup_fields construct_backup_disks bindE.simps net)
      (simp add: backup_report_def)
  then have "upsert_body F v dns now (backup_dict E d m) = upsert_body F v dns now (report_dict (backup_report E d m))" ..
  then show ?thesis by (simp only: upsert_def lint_backup lint_report sum.case)
qed

section \<open>What a restored machine looks like\<close>

definition backup_view :: "iface \<Rightarrow> iface_view" where
  "backup_view i = iface_view (i\<lparr>i_cidrv4 := i_ipv4 i\<rparr>)"

lemma mac_boot_last: "mac_boot is = (if filter i_as_boot is = [] then [] else i_mac (last (filter i_as_boot is)))"
  by (induction "is" rule: rev_induct) (simp_all add: mac_boot_def)

text \<open>A machine that can be restored by \<open>S\<close>: its report is well-formed, one interface is the boot
  interface, and the names of its interfaces pass the check of names.\<close>

definition restorable :: "'c server \<Rightarrow> engine \<Rightarrow> db \<Rightarrow> machine \<Rightarrow> bool" where
  "restorable S E d m \<longleftrightarrow> report_ok (sv_engine S) (backup_report E d m) \<and>
     (\<exists>b. [i \<leftarrow> ifaces d. i_machine i = m_id m \<and> i_as_boot i] = [b]) \<and>
     (\<forall>i\<in>set (ifaces d). i_machine i = m_id m \<longrightarrow>
        (\<forall>n. get_verified_dns_query (verify_fqdn S) (sv_dns S n) (backup_iface i) = Inr (opt_str (i_fqdn i))))"

lemma mset_m_interfaces: "engine_ok E \<Longrightarrow> mset (m_interfaces E d m) = mset [i \<leftarrow> ifaces d. i_machine i = m_id m]"
  by (simp add: m_interfaces_def mset_query_where)

lemma mset_m_disks: "engine_ok E \<Longrightarrow> mset (m_disks E d m) = mset [k \<leftarrow> disks d. k_machine k = m_id m]"
  by (simp add: m_disks_def mset_query_where)

lemma restorable_boot:
  assumes E: "engine_ok E" and r: "restorable S E d m"
  obtains b where "b \<in> set (ifaces d)" "i_machine b = m_id m" "i_as_boot b" "mac_boot (m_interfaces E d m) = i_mac b"
    "\<forall>i\<in>set (ifaces d). i_machine i = m_id m \<longrightarrow> i_as_boot i \<longrightarrow> i = b"
proof -
  obtain b where b: "[i \<leftarrow> ifaces d. i_machine i = m_id m \<and> i_as_boot i] = [b]" using r by (auto simp: restorable_def)
  have "mset (filter i_as_boot (m_interfaces E d m)) = mset (filter i_as_boot [i \<leftarrow> ifaces d. i_machine i = m_id m])"
    by (simp add: mset_filter mset_m_interfaces [OF E] filter_filter_mset conj_commute)
  also have "filter i_as_boot [i \<leftarrow> ifaces d. i_machine i = m_id m] = [b]" using b by (simp add: conj_commute)
  finally have "filter i_as_boot (m_interfaces E d m) = [b]" by (simp del: mset_filter)
  then have "mac_boot (m_interfaces E d m) = i_mac b" by (simp add: mac_boot_last)
  moreover have "set [i \<leftarrow> ifaces d. i_machine i = m_id m \<and> i_as_boot i] = {b}" by (simp only: b) simp
  then have *: "{i \<in> set (ifaces d). i_machine i = m_id m \<and> i_as_boot i} = {b}" by simp
  ultimately show thesis using that [of b] by blast
qed

lemma reported_views_of_backup:
  assumes E: "engine_ok E" and d: "db_ok d" and r: "restorable S E d m"
  shows "reported_views (backup_report E d m) (\<lambda>n. i_fqdn (m_interfaces E d m ! n)) =
    map backup_view (m_interfaces E d m)"
proof -
  obtain b where b: "b \<in> set (ifaces d)" "i_machine b = m_id m" "i_as_boot b" "mac_boot (m_interfaces E d m) = i_mac b"
    and one: "\<forall>i\<in>set (ifaces d). i_machine i = m_id m \<longrightarrow> i_as_boot i \<longrightarrow> i = b"
    by (rule restorable_boot [OF E r])
  have uniq: "distinct (map i_mac (ifaces d))" using d by (simp add: db_ok_defs)
  have "nic_view (i_mac b) (i_fqdn i) (backup_nic i) = backup_view i" if "i \<in> set (m_interfaces E d m)" for i
  proof -
    have i: "i \<in> set (ifaces d)" "i_machine i = m_id m" using that E by (simp_all add: m_interfaces_def)
    have "i_mac i = i_mac b \<longleftrightarrow> i_as_boot i" using one b(1,3) i distinct_map_inj_set [OF uniq] by metis
    then show ?thesis by (simp add: nic_view_def backup_nic_def backup_view_def iface_view_def)
  qed
  then show ?thesis
    by (intro nth_equalityI) (simp_all add: reported_views_def backup_report_def b(4) nth_enumerate_eq)
qed

lemma resolves_of_backup:
  assumes "engine_ok E" "restorable S E d m"
  shows "resolves (verify_fqdn S) (sv_dns S) (backup_report E d m) (\<lambda>n. i_fqdn (m_interfaces E d m ! n))"
proof -
  have "m_interfaces E d m ! n \<in> set (ifaces d) \<and> i_machine (m_interfaces E d m ! n) = m_id m"
    if "n < length (m_interfaces E d m)" for n
    using nth_mem [OF that] assms(1) by (simp add: m_interfaces_def)
  with assms(2) show ?thesis
    by (simp add: resolves_def restorable_def backup_report_def verified_of_backup)
qed

section \<open>What has been restored so far\<close>

definition roles_asked :: "string \<Rightarrow> string set" where
  "roles_asked t = (if t = kubernetes_control_plane then {kubernetes_control_plane, etcd_member} else {kubernetes_node})"

text \<open>
  \<open>d'\<close> holds exactly the machines of \<open>ps\<close>, pairs of a role and a machine of \<open>d\<close>: the same uuid, the
  same interfaces and disks, and the roles the schedules of the playbook ask for.
\<close>

definition same_machine :: "db \<Rightarrow> db \<Rightarrow> machine \<Rightarrow> machine \<Rightarrow> bool" where
  "same_machine d d' m x \<longleftrightarrow>
     mset (map iface_view [i \<leftarrow> ifaces d'. i_machine i = m_id x]) = mset (map backup_view [i \<leftarrow> ifaces d. i_machine i = m_id m]) \<and>
     mset (map disk_dict [k \<leftarrow> disks d'. k_machine k = m_id x]) = mset (map disk_dict [k \<leftarrow> disks d. k_machine k = m_id m])"

definition rebuilt :: "db \<Rightarrow> (string \<times> machine) set \<Rightarrow> db \<Rightarrow> bool" where
  "rebuilt d ps d' \<longleftrightarrow> m_uuid ` set (machines d') = m_uuid ` snd ` ps \<and>
     (\<forall>x\<in>set (machines d'). \<forall>m\<in>snd ` ps. m_uuid x = m_uuid m \<longrightarrow>
        same_machine d d' m x \<and> roles_of d' x = \<Union> (roles_asked ` {t. (t, m) \<in> ps}))"

lemma rebuilt_states [simp]: "rebuilt d ps (d'\<lparr>states := cs\<rparr>) = rebuilt d ps d'"
  by (simp add: rebuilt_def same_machine_def roles_of_def)

lemma disk_dicts_pairs:
  "map disk_dict ks = map (\<lambda>(p, n). JObj [(''size-bytes'', JInt n), (''path'', JStr p)]) (map (\<lambda>k. (k_path k, k_size k)) ks)"
  by (simp add: disk_dict_def [abs_def] comp_def)

lemma same_row:
  assumes "db_ok d"
  shows "m \<in> set (machines d) \<Longrightarrow> x \<in> set (machines d) \<Longrightarrow> m_id m = m_id x \<Longrightarrow> m = x"
    and "m \<in> set (machines d) \<Longrightarrow> x \<in> set (machines d) \<Longrightarrow> m_uuid m = m_uuid x \<Longrightarrow> m = x"
    and "i \<in> set (ifaces d) \<Longrightarrow> j \<in> set (ifaces d) \<Longrightarrow> i_mac i = i_mac j \<Longrightarrow> i = j"
  using assms distinct_map_inj_set unfolding db_ok_def keys_ok_def unique_ok_def by metis+

text \<open>The macs a machine reports are free, or its own from an entry posted before.\<close>

lemma restored_own:
  assumes d: "db_ok d" and d': "db_ok d'" "rebuilt d ps d'" and ps: "snd ` ps \<subseteq> set (machines d)"
    and E: "engine_ok E" and m: "m \<in> set (machines d)"
  shows "\<forall>i\<in>set (ifaces d'). i_mac i \<in> nic_mac ` set (rp_nics (backup_report E d m)) \<longrightarrow>
      (\<exists>x\<in>set (machines d'). m_id x = i_machine i \<and> m_uuid x = rp_uuid (backup_report E d m))"
proof (intro ballI impI)
  fix i assume i: "i \<in> set (ifaces d')" "i_mac i \<in> nic_mac ` set (rp_nics (backup_report E d m))"
  obtain j where j: "j \<in> set (ifaces d)" "i_machine j = m_id m" "i_mac j = i_mac i"
    using i(2) E by (auto simp: backup_report_def backup_nic_def m_interfaces_def)
  obtain x where x: "x \<in> set (machines d')" "m_id x = i_machine i"
    using d'(1) i(1) by (auto simp: db_ok_def refs_ok_def image_iff)
  then obtain m' where m': "m' \<in> snd ` ps" "m_uuid x = m_uuid m'"
    using d'(2) unfolding rebuilt_def by (metis (no_types, lifting) imageE image_eqI)
  then have "same_machine d d' m' x" using d'(2) x(1) unfolding rebuilt_def by blast
  then have "set (map iface_view [i \<leftarrow> ifaces d'. i_machine i = m_id x]) = set (map backup_view [i \<leftarrow> ifaces d. i_machine i = m_id m'])"
    unfolding same_machine_def by (metis set_mset_mset)
  moreover have "iface_view i \<in> set (map iface_view [i \<leftarrow> ifaces d'. i_machine i = m_id x])" using i(1) x(2) by auto
  ultimately obtain k where k: "k \<in> set (ifaces d)" "i_machine k = m_id m'" "i_mac k = i_mac i"
    by (auto simp: backup_view_def iface_view_def)
  have "k = j" using same_row(3) [OF d k(1) j(1)] k(3) j(3) by simp
  moreover have "m' \<in> set (machines d)" using m'(1) ps by blast
  ultimately have "m' = m" using same_row(1) [OF d _ m] k(2) j(2) by simp
  with x m'(2) show "\<exists>x\<in>set (machines d'). m_id x = i_machine i \<and> m_uuid x = rp_uuid (backup_report E d m)"
    by (auto simp: backup_report_def)
qed

section \<open>One entry of the playbook\<close>

lemma roles_of_id: "m_id x = m_id y \<Longrightarrow> roles_of d x = roles_of d y"
  by (simp add: roles_of_def)

lemma roles_before:
  assumes d: "db_ok d" and d0: "db_ok d0" "rebuilt d ps d0" and ps: "snd ` ps \<subseteq> set (machines d)" and m: "m \<in> set (machines d)"
    and old: "\<forall>x\<in>set (machines d0). m_uuid x = m_uuid m \<longrightarrow> m_id x = m_id y"
    and fresh: "m_uuid m \<notin> m_uuid ` set (machines d0) \<longrightarrow> m_id y \<notin> m_id ` set (machines d0)"
  shows "roles_of d0 y = \<Union> (roles_asked ` {t. (t, m) \<in> ps})"
proof (cases "m \<in> snd ` ps")
  case True
  then have "m_uuid m \<in> m_uuid ` set (machines d0)" using d0(2) unfolding rebuilt_def by (metis image_eqI)
  then obtain x where x: "x \<in> set (machines d0)" "m_uuid x = m_uuid m" by (metis imageE)
  then have "roles_of d0 x = \<Union> (roles_asked ` {t. (t, m) \<in> ps})" using d0(2) True unfolding rebuilt_def by blast
  moreover have "m_id x = m_id y" using old x by blast
  ultimately show ?thesis using roles_of_id by metis
next
  case False
  have "m_uuid m \<notin> m_uuid ` snd ` ps"
  proof
    assume "m_uuid m \<in> m_uuid ` snd ` ps"
    then obtain m' where "m' \<in> snd ` ps" "m_uuid m = m_uuid m'" by (metis imageE)
    with same_row(2) [OF d m] ps have "m = m'" by blast
    with \<open>m' \<in> snd ` ps\<close> False show False by simp
  qed
  then have "m_uuid m \<notin> m_uuid ` set (machines d0)" using d0(2) unfolding rebuilt_def by simp
  then have "m_id y \<notin> m_id ` set (machines d0)" using fresh by blast
  moreover have "\<forall>s\<in>set (schedules d0). s_machine s \<in> m_id ` set (machines d0)" using d0(1) by (simp add: db_ok_defs)
  ultimately have "\<forall>s\<in>set (schedules d0). s_machine s \<noteq> m_id y" by metis
  then have "roles_of d0 y = {}" by (simp add: roles_of_def)
  moreover have "{t. (t, m) \<in> ps} = {}" using False by force
  ultimately show ?thesis by simp
qed

lemma uuids_after:
  assumes d0: "db_ok d0" and inj: "\<forall>y\<in>set ms. m_id y = m_id x \<longrightarrow> y = x" and x: "x \<in> set ms" "m_uuid x = u"
    and old: "\<forall>m'\<in>set (machines d0). m_uuid m' = u \<longrightarrow> m_id m' = m_id x"
    and others: "\<forall>y. m_id y \<noteq> m_id x \<longrightarrow> (y \<in> set ms \<longleftrightarrow> y \<in> set (machines d0))"
    and fresh: "u \<notin> m_uuid ` set (machines d0) \<longrightarrow> m_id x \<notin> m_id ` set (machines d0)"
  shows "m_uuid ` set ms = insert u (m_uuid ` set (machines d0))"
proof (intro equalityI subsetI)
  fix a assume "a \<in> m_uuid ` set ms"
  then obtain y where y: "y \<in> set ms" "a = m_uuid y" by auto
  show "a \<in> insert u (m_uuid ` set (machines d0))"
    using y others inj x(2) by (cases "m_id y = m_id x") auto
next
  fix a assume a: "a \<in> insert u (m_uuid ` set (machines d0))"
  show "a \<in> m_uuid ` set ms"
  proof (cases "a = u")
    case True
    with x show ?thesis by auto
  next
    case False
    with a obtain y where y: "y \<in> set (machines d0)" "a = m_uuid y" by auto
    have "m_id y \<noteq> m_id x"
    proof
      assume eq: "m_id y = m_id x"
      then have "m_id x \<in> m_id ` set (machines d0)" using y(1) by (metis image_eqI)
      then have "u \<in> m_uuid ` set (machines d0)" using fresh by blast
      then obtain z where z: "z \<in> set (machines d0)" "m_uuid z = u" by auto
      then have "z = y" using same_row(1) [OF d0 z(1) y(1)] old eq by simp
      with z(2) y(2) False show False by simp
    qed
    with others y show ?thesis by auto
  qed
qed

lemma rebuilt_discovery:
  assumes E: "engine_ok E" and F: "engine_ok (sv_engine S)" and d: "db_ok d" and m: "m \<in> set (machines d)"
    and r: "restorable S E d m" and d0: "db_ok d0" "rebuilt d ps d0" and ps: "snd ` ps \<subseteq> set (machines d)"
  obtains x d1 where
    "upsert (sv_engine S) (verify_fqdn S) (sv_dns S) now (JObj (backup_dict E d m)) d0 =
       (Inr (m_uuid m \<notin> m_uuid ` set (machines d0)), d1)"
    "db_ok d1" "x \<in> set (machines d1)" "m_uuid x = m_uuid m" "same_machine d d1 m x"
    "roles_of d1 x = \<Union> (roles_asked ` {t. (t, m) \<in> ps})"
    "m_uuid ` set (machines d1) = insert (m_uuid m) (m_uuid ` set (machines d0))"
    "\<forall>y\<in>set (machines d1). y \<noteq> x \<longrightarrow> m_uuid y \<noteq> m_uuid m \<and> y \<in> set (machines d0) \<and>
       (\<forall>m'. same_machine d d1 m' y = same_machine d d0 m' y) \<and> roles_of d1 y = roles_of d0 y"
proof -
  let ?r = "backup_report E d m"
  have ok: "report_ok (sv_engine S) ?r" and u: "rp_uuid ?r = m_uuid m"
    using r by (simp_all add: restorable_def backup_report_def)
  obtain x ms pt ks new where
    up: "upsert (sv_engine S) (verify_fqdn S) (sv_dns S) now (report_json ?r) d0 = (Inr (rp_uuid ?r \<notin> m_uuid ` set (machines d0)),
       d0\<lparr>machines := ms, disks := [k \<leftarrow> disks d0. k_machine k \<noteq> m_id x] @ ks,
         ifaces := [i \<leftarrow> ifaces d0. i_machine i \<noteq> m_id x] @ new, ports := pt\<rparr>)"
    and x: "x \<in> set ms" "m_uuid x = rp_uuid ?r" "m_updated x = Some now"
      "\<forall>m'\<in>set (machines d0). m_uuid m' = rp_uuid ?r \<longrightarrow> m_id m' = m_id x"
      "\<forall>y. m_id y \<noteq> m_id x \<longrightarrow> (y \<in> set ms \<longleftrightarrow> y \<in> set (machines d0))"
      "rp_uuid ?r \<notin> m_uuid ` set (machines d0) \<longrightarrow> m_id x \<notin> m_id ` set (machines d0)"
    and ks: "map (\<lambda>k. (k_path k, k_size k)) ks = rp_disks ?r" "\<forall>k\<in>set ks. k_machine k = m_id x"
    and new: "map iface_view new = reported_views ?r (\<lambda>n. i_fqdn (m_interfaces E d m ! n))" "\<forall>i\<in>set new. i_machine i = m_id x"
    by (rule upsert_report_db [OF F d0(1) ok resolves_of_backup [OF E r] restored_own [OF d d0 ps E m]])
  define d1 where "d1 = d0\<lparr>machines := ms, disks := [k \<leftarrow> disks d0. k_machine k \<noteq> m_id x] @ ks,
         ifaces := [i \<leftarrow> ifaces d0. i_machine i \<noteq> m_id x] @ new, ports := pt\<rparr>"
  have d1: "upsert (sv_engine S) (verify_fqdn S) (sv_dns S) now (JObj (backup_dict E d m)) d0 =
       (Inr (m_uuid m \<notin> m_uuid ` set (machines d0)), d1)"
    using up by (simp add: upsert_of_backup u d1_def)
  have ok1: "db_ok d1" using upsert_db_ok [OF F d0(1)] d1 by (metis snd_conv)
  have own: "[i \<leftarrow> ifaces d1. i_machine i = m_id x] = new" "[k \<leftarrow> disks d1. k_machine k = m_id x] = ks"
    using ks(2) new(2) by (auto simp: d1_def filter_id_conv filter_empty_conv)
  have "mset (map iface_view new) = mset (map backup_view [i \<leftarrow> ifaces d. i_machine i = m_id m])"
    unfolding new(1) reported_views_of_backup [OF E d r] by (simp only: mset_map mset_m_interfaces [OF E])
  moreover have "mset (map disk_dict ks) = mset (map disk_dict (m_disks E d m))"
    unfolding disk_dicts_pairs ks(1) by (simp add: backup_report_def)
  ultimately have same: "same_machine d d1 m x" unfolding same_machine_def own by (simp only: mset_map mset_m_disks [OF E])
  have roles: "roles_of d1 y = roles_of d0 y" for y by (simp add: roles_of_def d1_def)
  have mine: "roles_of d1 x = \<Union> (roles_asked ` {t. (t, m) \<in> ps})"
    unfolding roles using x(4,6) by (intro roles_before [OF d d0 ps m]) (simp_all add: u)
  have ms: "machines d1 = ms" by (simp add: d1_def)
  have inj: "\<forall>y\<in>set ms. m_id y = m_id x \<longrightarrow> y = x"
    using same_row(1) [OF ok1, of _ x] x(1) ms by simp
  have "m_uuid ` set ms = insert (m_uuid m) (m_uuid ` set (machines d0))"
    using uuids_after [OF d0(1) inj x(1,2) x(4-6)] u by simp
  moreover have "m_uuid y \<noteq> m_uuid m \<and> y \<in> set (machines d0) \<and>
       (\<forall>m'. same_machine d d1 m' y = same_machine d d0 m' y) \<and> roles_of d1 y = roles_of d0 y"
    if y: "y \<in> set (machines d1)" "y \<noteq> x" for y
  proof -
    have "m_id y \<noteq> m_id x" using inj y ms by blast
    moreover from this have "[i \<leftarrow> ifaces d1. i_machine i = m_id y] = [i \<leftarrow> ifaces d0. i_machine i = m_id y]"
      "[k \<leftarrow> disks d1. k_machine k = m_id y] = [k \<leftarrow> disks d0. k_machine k = m_id y]"
      using ks(2) new(2) by (auto simp: d1_def filter_empty_conv intro!: filter_cong)
    moreover have "m_uuid y \<noteq> m_uuid x" using same_row(2) [OF ok1, of y x] y x(1) ms by auto
    ultimately show ?thesis using x(5) y(1) ms x(2) u roles by (simp add: same_machine_def)
  qed
  ultimately show thesis
    using x(1,2) u same mine ms by (intro that [OF d1 ok1, of x]) auto
qed

lemma rebuilt_schedule:
  assumes prev: "rebuilt d ps d0" and m: "m \<in> set (machines d)" and ps: "snd ` ps \<subseteq> set (machines d)" and d: "db_ok d"
    and d1: "db_ok d1" "x \<in> set (machines d1)" "m_uuid x = m_uuid m" "same_machine d d1 m x"
      "roles_of d1 x = \<Union> (roles_asked ` {t. (t, m) \<in> ps})"
      "m_uuid ` set (machines d1) = insert (m_uuid m) (m_uuid ` set (machines d0))"
      "\<forall>y\<in>set (machines d1). y \<noteq> x \<longrightarrow> m_uuid y \<noteq> m_uuid m \<and> y \<in> set (machines d0) \<and>
         (\<forall>m'. same_machine d d1 m' y = same_machine d d0 m' y) \<and> roles_of d1 y = roles_of d0 y"
    and new: "\<forall>s\<in>set new. s_machine s = m_id x" "s_role ` set new = roles_asked t - roles_of d1 x"
  shows "rebuilt d (insert (t, m) ps) (d1\<lparr>schedules := schedules d1 @ new\<rparr>)"
proof -
  define d2 where "d2 = d1\<lparr>schedules := schedules d1 @ new\<rparr>"
  have same: "same_machine d d2 m' y = same_machine d d1 m' y" for m' y by (simp add: same_machine_def d2_def)
  have "roles_of d2 x = roles_of d1 x \<union> roles_asked t"
    using roles_of_app [OF new(1), of d1] new(2) by (auto simp: d2_def)
  then have mine: "roles_of d2 x = \<Union> (roles_asked ` {u. (u, m) \<in> insert (t, m) ps})" using d1(5) by auto
  have other: "roles_of d2 y = roles_of d1 y" if "y \<in> set (machines d1)" "y \<noteq> x" for y
    unfolding d2_def using roles_of_other [OF new(1)] same_row(1) [OF d1(1) that(1) d1(2)] that(2) by blast
  have "m_uuid ` set (machines d2) = m_uuid ` snd ` insert (t, m) ps"
    using d1(6) prev by (simp add: rebuilt_def d2_def)
  moreover have "same_machine d d2 m' y \<and> roles_of d2 y = \<Union> (roles_asked ` {u. (u, m') \<in> insert (t, m) ps})"
    if y: "y \<in> set (machines d2)" "m' \<in> snd ` insert (t, m) ps" "m_uuid y = m_uuid m'" for y m'
  proof (cases "y = x")
    case True
    then have "m' = m" using y(2,3) d1(3) same_row(2) [OF d _ m, of m'] m ps by auto
    with True same mine d1(4) show ?thesis by simp
  next
    case False
    have y1: "y \<in> set (machines d1)" using y(1) by (simp add: d2_def)
    then have *: "m_uuid y \<noteq> m_uuid m" "y \<in> set (machines d0)" "same_machine d d1 m' y = same_machine d d0 m' y"
      "roles_of d1 y = roles_of d0 y" using d1(7) False by auto
    then have "m' \<noteq> m" "m' \<in> snd ` ps" using y(2,3) by auto
    then have "same_machine d d0 m' y" "roles_of d0 y = \<Union> (roles_asked ` {u. (u, m') \<in> ps})"
      using prev *(2) y(3) unfolding rebuilt_def by auto
    with \<open>m' \<noteq> m\<close> * other [OF y1 False] same show ?thesis by simp
  qed
  ultimately show ?thesis unfolding rebuilt_def d2_def by blast
qed

section \<open>Posting the playbook\<close>

text \<open>The request that posts an entry: its data to its route.\<close>

definition restore_request :: "nat \<Rightarrow> json \<Rightarrow> request" where
  "restore_request now e = \<lparr>rq_method = ''POST'',
     rq_path = (case bindE (jget e ''route'') as_str of Inr p \<Rightarrow> p | Inl _ \<Rightarrow> ''''), rq_query = '''', rq_args = [],
     rq_body = (case jget e ''data'' of Inr j \<Rightarrow> Some j | Inl _ \<Rightarrow> None), rq_remote = ''127.0.0.1'', rq_now = now\<rparr>"

definition discovery_entry :: "json \<Rightarrow> json" where
  "discovery_entry data = JObj [(''data'', data), (''route'', JStr ''/discovery'')]"

definition scheduler_entry :: "json \<Rightarrow> json" where
  "scheduler_entry data = JObj [(''data'', data), (''route'', JStr ''/scheduler'')]"

lemma serve_discovery_entry:
  "serve S (restore_request now (discovery_entry data)) s =
     (case record_discovery_data S (restore_request now (discovery_entry data)) s of
        (Inl _, a') \<Rightarrow> (server_error, a') | (Inr r, a') \<Rightarrow> (r, a'))"
  by (simp add: serve_def routes_of_def routes_of_1_def restore_request_def discovery_entry_def)

lemma serve_scheduler_entry:
  "serve S (restore_request now (scheduler_entry data)) s =
     (case scheduler_post S (restore_request now (scheduler_entry data)) s of
        (Inl _, a') \<Rightarrow> (server_error, a') | (Inr r, a') \<Rightarrow> (r, a'))"
  by (simp add: serve_def routes_of_def routes_of_1_def restore_request_def scheduler_entry_def)

lemma entry_request:
  "rq_body (restore_request now (discovery_entry data)) = Some data" "rq_now (restore_request now (discovery_entry data)) = now"
  "rq_body (restore_request now (scheduler_entry data)) = Some data" "rq_now (restore_request now (scheduler_entry data)) = now"
  by (simp_all add: restore_request_def discovery_entry_def scheduler_entry_def)

lemma restore_discovery:
  assumes F: "engine_ok (sv_engine S)"
    and u: "upsert (sv_engine S) (verify_fqdn S) (sv_dns S) now data (a_db s) = (Inr new, d1)" and ok1: "db_ok d1"
    and mac: "bindE (jget data ''boot-info'') (\<lambda>b. jget b ''mac'') = Inr (JStr mac)" "length mac \<le> 17"
  obtains r s' cs where "serve S (restore_request now (discovery_entry data)) s = (r, s')" "status r = 200"
    "a_db s' = d1\<lparr>states := cs\<rparr>" "db_ok (a_db s')"
proof -
  have fits: "mac_fits d1 mac" using mac(2) by (simp add: mac_fits_def)
  obtain d2 where p: "put_state (sv_engine S) now mac st_discovery d1 = Inr d2"
    using put_state_total [OF F ok1 fits, of st_discovery now] by (auto simp: is_ok_iff MachineStates_states_def)
  obtain cs where cs: "d2 = d1\<lparr>states := cs\<rparr>" by (rule put_state_Inr [OF F ok1 fits p])
  have st: "update_state (sv_engine S) now (JStr mac) st_discovery d1 = (Inr (), d2)"
    using p by (auto simp: put_state_def update_state_def session_commit_def bindE_eq_Inr)
  have "db_ok d2" using update_state_db_ok [OF F ok1, of now "JStr mac" st_discovery] st by simp
  with cs u mac(1) st show thesis
    by (intro that [of "jsonify (JObj [(''new-discovery'', JBool new)]) 200" "snd (record_discovery_data S (restore_request now (discovery_entry data)) s)" cs])
      (simp_all add: serve_discovery_entry record_discovery_data_def entry_request act_simps put_machine_state_def jsonify_def)
qed

lemma restore_schedule:
  assumes c: "create_schedule (sv_engine S) now data (a_db s) = (Inr (), d2)"
  obtains r s' where "serve S (restore_request now (scheduler_entry data)) s = (r, s')" "status r = 200" "a_db s' = d2"
  using c by (intro that [of "jsonify data 200" "snd (scheduler_post S (restore_request now (scheduler_entry data)) s)"])
    (simp_all add: serve_scheduler_entry scheduler_post_def entry_request act_simps jsonify_def)

lemma construct_schedule_request:
  "construct_schedule mac t = schedule_request mac (map JStr (if t = kubernetes_control_plane
     then [kubernetes_control_plane, etcd_member] else [kubernetes_node]))"
  by (simp add: construct_schedule_def schedule_request_def)

text \<open>The two requests of one machine: its discovery, then its schedule.\<close>

definition machine_entries :: "engine \<Rightarrow> db \<Rightarrow> string \<times> machine \<Rightarrow> json list" where
  "machine_entries E d p = [discovery_entry (JObj (backup_dict E d (snd p))),
     scheduler_entry (construct_schedule (mac_boot (m_interfaces E d (snd p))) (fst p))]"

lemma restorable_mac:
  assumes E: "engine_ok E" and r: "restorable S E d m"
  shows "mac_shape (mac_boot (m_interfaces E d m))"
proof -
  obtain b where "b \<in> set (ifaces d)" "i_machine b = m_id m" "mac_boot (m_interfaces E d m) = i_mac b"
    by (rule restorable_boot [OF E r])
  with r E show ?thesis
    by (auto simp: restorable_def report_ok_def backup_report_def nic_ok_def backup_nic_def m_interfaces_def)
qed

lemma restored_by_mac:
  assumes F: "engine_ok F" and d': "db_ok d'" "x \<in> set (machines d')"
    and b: "b \<in> set (ifaces d)" "i_machine b = m_id m" and same: "same_machine d d' m x"
  shows "machine_by_mac F d' (i_mac b) = Some x"
proof -
  have "backup_view b \<in># mset (map backup_view [i \<leftarrow> ifaces d. i_machine i = m_id m])" using b by simp
  then have "backup_view b \<in># mset (map iface_view [i \<leftarrow> ifaces d'. i_machine i = m_id x])"
    using same unfolding same_machine_def by simp
  then obtain i where "i \<in> set (ifaces d')" "i_machine i = m_id x" "iface_view i = backup_view b" by auto
  then have "i \<in> set (ifaces d') \<and> i_machine i = m_id x \<and> i_mac i = i_mac b" by (simp add: backup_view_def iface_view_def)
  then show ?thesis using machine_by_mac_Some [OF F] d' by (auto simp: db_ok_def)
qed

lemma restore_machine:
  assumes E: "engine_ok E" and F: "engine_ok (sv_engine S)" and d: "db_ok d" and m: "m \<in> set (machines d)"
    and r: "restorable S E d m" and s: "db_ok (a_db s)" "rebuilt d ps (a_db s)" and ps: "snd ` ps \<subseteq> set (machines d)"
  obtains rs s' where "run S (map (restore_request now) (machine_entries E d (t, m))) s = (rs, s')"
    "list_all (\<lambda>r. status r = 200) rs" "db_ok (a_db s')" "rebuilt d (insert (t, m) ps) (a_db s')"
proof -
  let ?mac = "mac_boot (m_interfaces E d m)"
  let ?roles = "if t = kubernetes_control_plane then [kubernetes_control_plane, etcd_member] else [kubernetes_node]"
  obtain x d1 where u: "upsert (sv_engine S) (verify_fqdn S) (sv_dns S) now (JObj (backup_dict E d m)) (a_db s) =
       (Inr (m_uuid m \<notin> m_uuid ` set (machines (a_db s))), d1)" and ok1: "db_ok d1"
    and x: "x \<in> set (machines d1)" "m_uuid x = m_uuid m" "same_machine d d1 m x"
      "roles_of d1 x = \<Union> (roles_asked ` {t. (t, m) \<in> ps})"
      "m_uuid ` set (machines d1) = insert (m_uuid m) (m_uuid ` set (machines (a_db s)))"
      "\<forall>y\<in>set (machines d1). y \<noteq> x \<longrightarrow> m_uuid y \<noteq> m_uuid m \<and> y \<in> set (machines (a_db s)) \<and>
       (\<forall>m'. same_machine d d1 m' y = same_machine d (a_db s) m' y) \<and> roles_of d1 y = roles_of (a_db s) y"
    by (rule rebuilt_discovery [OF E F d m r s ps])
  obtain b where b: "b \<in> set (ifaces d)" "i_machine b = m_id m" "?mac = i_mac b" by (rule restorable_boot [OF E r])
  have boot: "bindE (jget (JObj (backup_dict E d m)) ''boot-info'') (\<lambda>b. jget b ''mac'') = Inr (JStr ?mac)"
    by (simp add: backup_dict_def)
  obtain r1 s1 cs where r1: "serve S (restore_request now (discovery_entry (JObj (backup_dict E d m)))) s = (r1, s1)" "status r1 = 200"
    and s1: "a_db s1 = d1\<lparr>states := cs\<rparr>" "db_ok (a_db s1)"
    using restore_discovery [OF F u ok1 boot] restorable_mac [OF E r] by (auto simp: mac_shape_length)
  have by_mac: "machine_by_mac (sv_engine S) (a_db s1) ?mac = Some x"
    using restored_by_mac [OF F s1(2) _ b(1,2), of x] x(1,3) s1(1) b(3) by (simp add: same_machine_def)
  have "set ?roles \<subseteq> set ScheduleRoles_roles" by (simp add: ScheduleRoles_roles_def)
  from request_roles [OF F by_mac this] obtain new where
    c: "create_schedule (sv_engine S) now (schedule_request ?mac (map JStr ?roles)) (a_db s1) =
       (Inr (), (a_db s1)\<lparr>schedules := schedules (a_db s1) @ new\<rparr>)"
    and new: "\<forall>s\<in>set new. s_machine s = m_id x" "map s_role new = [r \<leftarrow> ?roles. r \<notin> roles_of (a_db s1) x]" .
  define d2 where "d2 = (a_db s1)\<lparr>schedules := schedules (a_db s1) @ new\<rparr>"
  have roles: "roles_of (a_db s1) x = roles_of d1 x" by (simp add: roles_of_def s1(1))
  have asked: "s_role ` set new = roles_asked t - roles_of d1 x"
    using new_roles [OF new(2)] by (simp add: roles roles_asked_def)
  have "rebuilt d (insert (t, m) ps) (d1\<lparr>schedules := schedules d1 @ new\<rparr>)"
    by (rule rebuilt_schedule [OF s(2) m ps d ok1 x new(1) asked])
  then have "rebuilt d (insert (t, m) ps) (d1\<lparr>schedules := schedules d1 @ new\<rparr>\<lparr>states := cs\<rparr>)" by simp
  moreover have "d1\<lparr>schedules := schedules d1 @ new\<rparr>\<lparr>states := cs\<rparr> = d2" by (simp add: d2_def s1(1))
  ultimately have built: "rebuilt d (insert (t, m) ps) d2" by simp
  have ok2: "db_ok d2" using create_schedule_db_ok [OF F s1(2)] c unfolding d2_def by (metis snd_conv)
  obtain r2 s2 where r2: "serve S (restore_request now (scheduler_entry (construct_schedule ?mac t))) s1 = (r2, s2)"
    "status r2 = 200" "a_db s2 = d2"
    using restore_schedule c unfolding construct_schedule_request d2_def by blast
  from r1 r2 built ok2 show thesis
    by (intro that [of "[r1, r2]" s2]) (simp_all add: machine_entries_def)
qed

lemma machine_entries_playbook:
  assumes E: "engine_ok E" and r: "restorable S E d m"
  shows "playbook_entries E t d m = Inr (machine_entries E d (t, m))"
proof -
  have "mac_boot (m_interfaces E d m) \<noteq> []" using mac_shape_length [OF restorable_mac [OF E r]] by auto
  from construct_discovery_dict [OF this] show ?thesis
    by (simp add: playbook_entries_def machine_entries_def discovery_entry_def scheduler_entry_def backup_dict_def)
qed

text \<open>The machines of the playbook, with the role for which they are in it.\<close>

definition scheduled_pairs :: "db \<Rightarrow> (string \<times> machine) set" where
  "scheduled_pairs d = {(t, m). t \<in> {kubernetes_control_plane, kubernetes_node} \<and> m \<in> set (machines d) \<and> t \<in> roles_of d m}"

lemma playbook_pairs:
  assumes E: "engine_ok E" and r: "\<forall>p\<in>scheduled_pairs d. restorable S E d (snd p)"
  obtains ps where "get_playbook E d = Inr (concat (map (machine_entries E d) ps))" "set ps = scheduled_pairs d"
proof -
  define ps where "ps = [(t, m). t \<leftarrow> [kubernetes_control_plane, kubernetes_node], m \<leftarrow> machines_any_role E t d]"
  have set_ps: "set ps = scheduled_pairs d"
    using E by (auto simp: ps_def machines_any_role_def scheduled_pairs_def roles_of_def image_iff)
  have "mapE (\<lambda>(t, m). playbook_entries E t d m) qs = Inr (map (machine_entries E d) qs)" if "set qs \<subseteq> set ps" for qs
    using that
  proof (induction qs)
    case (Cons q qs)
    then have "restorable S E d (snd q)" using r set_ps by auto
    from machine_entries_playbook [OF E this, of "fst q"] Cons show ?case by (cases q) simp
  qed simp
  then have "get_playbook E d = Inr (concat (map (machine_entries E d) ps))"
    by (simp only: get_playbook_def ps_def [symmetric] subset_refl) simp
  with set_ps show thesis by (rule that [rotated])
qed

lemma run_append:
  "run S (xs @ ys) s = (fst (run S xs s) @ fst (run S ys (snd (run S xs s))), snd (run S ys (snd (run S xs s))))"
  by (induction xs arbitrary: s) (simp_all split: prod.split)

lemma restore_machines:
  assumes E: "engine_ok E" and F: "engine_ok (sv_engine S)" and d: "db_ok d"
    and qs: "\<forall>p\<in>set qs. snd p \<in> set (machines d) \<and> restorable S E d (snd p)"
    and s: "db_ok (a_db s)" "rebuilt d ps (a_db s)" "snd ` ps \<subseteq> set (machines d)"
  shows "list_all (\<lambda>r. status r = 200) (fst (run S (map (restore_request now) (concat (map (machine_entries E d) qs))) s)) \<and>
    db_ok (a_db (snd (run S (map (restore_request now) (concat (map (machine_entries E d) qs))) s))) \<and>
    rebuilt d (set qs \<union> ps) (a_db (snd (run S (map (restore_request now) (concat (map (machine_entries E d) qs))) s)))"
  using qs s
proof (induction qs arbitrary: s ps)
  case (Cons q qs)
  obtain t m where q: "q = (t, m)" by (cases q)
  have m: "m \<in> set (machines d)" "restorable S E d m" using Cons.prems(1) q by auto
  obtain rs s' where one: "run S (map (restore_request now) (machine_entries E d (t, m))) s = (rs, s')"
    "list_all (\<lambda>r. status r = 200) rs" "db_ok (a_db s')" "rebuilt d (insert (t, m) ps) (a_db s')"
    by (rule restore_machine [OF E F d m Cons.prems(2-4)])
  have "snd ` insert (t, m) ps \<subseteq> set (machines d)" using Cons.prems(4) m(1) by simp
  from Cons.IH [OF _ one(3,4) this] Cons.prems(1) one(1,2) show ?case by (simp add: run_append q)
qed simp

section \<open>The property\<close>


definition backed_db :: db where
  "backed_db = other_db\<lparr>schedules := [\<lparr>s_id = 1, s_created = 2, s_machine = 4, s_role = kubernetes_node\<rparr>]\<rparr>"

lemma backed_db_ok: "db_ok backed_db"
  using other_db_ok
  by (simp add: db_ok_defs backed_db_def other_db_def other_machine_def empty_db_def ScheduleRoles_roles_def)

lemma backed_restorable: "restorable sample_server ref_engine backed_db other_machine"
proof -
  have "mac_shape ''52:54:00:e8:32:5b''"
    unfolding mac_shape_def
    by (intro exI [of _ "[''52'', ''54'', ''00'', ''e8'', ''32'', ''5b'']"]) (simp add: hex_word_def is_hex_lits)
  moreover have "is_ok (IPV4_REGEX ''172.20.0.66'')" using other_db_ok by (simp add: db_ok_defs other_db_def other_iface_def)
  moreover have "uuid_shape (m_uuid other_machine)" using other_uuid_shape by (simp add: other_machine_def)
  ultimately have "report_ok ref_engine (backup_report ref_engine backed_db other_machine)"
    by (simp add: report_ok_def backup_report_def nic_ok_def backup_nic_def m_interfaces_def m_disks_def query_where_def
        backed_db_def other_db_def other_iface_def other_machine_def empty_db_def ref_engine_def arrange_def)
  moreover have "get_verified_dns_query v (sample_dns n) (backup_iface other_iface) = Inr JNull" for v n
    by (simp add: get_verified_dns_query_def one_fqdn_def sample_dns_def backup_iface_def other_iface_def opt_str_def numeral_eq_Suc)
  ultimately show ?thesis
    by (simp add: restorable_def sample_server_def backed_db_def other_db_def empty_db_def)
      (simp add: other_iface_def other_machine_def opt_str_def)
qed

definition export_request :: request where
  "export_request = \<lparr>rq_method = ''GET'', rq_path = ''/backup/export'', rq_query = '''', rq_args = [], rq_body = None,
     rq_remote = ''127.0.0.1'', rq_now = 3\<rparr>"


end
