(* ===== verification/Install_Race.thy ===== *)
theory Install_Race
  imports Routes_Facts
begin

text \<open>
  The installation lock with several workers. gunicorn runs the application in several processes
  that share the cache; the handler reads the lock, and stores it later, in two accesses between which
  another worker may act. The handler is cut at its accesses to shared state into phases; run without
  interruption they are the handler. A system is a list of workers, each in a phase, over the shared
  cache and database; its steps interleave them and let time pass and other requests be served. The
  result: within the life of a lock there are at most as many grants as workers, and there can be as
  many.
\<close>

section \<open>The handler in phases\<close>

datatype phase =
    Idle
  | Asking request string
  | Storing request string
  | Granting request string
  | Refusing request string json
  | Answered response

definition answer :: "('c api, response) act \<Rightarrow> 'c api \<Rightarrow> phase \<times> 'c api" where
  "answer h s = (case h s of (Inl _, s') \<Rightarrow> (Answered server_error, s') | (Inr r, s') \<Rightarrow> (Answered r, s'))"

definition install_locking :: "'c server \<Rightarrow> bool result" where
  "install_locking S = bindE (attr (sv_ec S) ''coreos_install_lock_seconds'') positive"

fun install_phase :: "'c server \<Rightarrow> nat \<Rightarrow> phase \<Rightarrow> 'c api \<Rightarrow> phase \<times> 'c api" where
  "install_phase S now Idle s = (Idle, s)"
| "install_phase S now (Asking rq q) s =
     (case install_locking S of
        Inl _ \<Rightarrow> (Answered server_error, s)
      | Inr locking \<Rightarrow>
          if locking then
            (case cache_get (sv_cache S) now ''lock-install'' (a_cache s) of
               Some lock \<Rightarrow> (Refusing rq q lock, s)
             | None \<Rightarrow> (Storing rq q, s))
          else (Granting rq q, s))"
| "install_phase S now (Storing rq q) s =
     (case bindE (attr (sv_ec S) ''coreos_install_lock_seconds'') py_int of
        Inl _ \<Rightarrow> (Answered server_error, s)
      | Inr n \<Rightarrow> (Granting rq q, s\<lparr>a_cache := cache_set (sv_cache S) now ''lock-install'' (JStr q) n (a_cache s)\<rparr>))"
| "install_phase S now (Granting rq q) s = answer (grant_install S (rq\<lparr>rq_now := now\<rparr>) q) s"
| "install_phase S now (Refusing rq q lock) s = answer (deny_install S (rq\<lparr>rq_now := now\<rparr>) q lock) s"
| "install_phase S now (Answered r) s = (Answered r, s)"

text \<open>Three phases suffice.\<close>

definition install_alone :: "'c server \<Rightarrow> request \<Rightarrow> string \<Rightarrow> 'c api \<Rightarrow> phase \<times> 'c api" where
  "install_alone S rq q s =
     (case install_phase S (rq_now rq) (Asking rq q) s of (p, s1) \<Rightarrow>
      case install_phase S (rq_now rq) p s1 of (p', s2) \<Rightarrow> install_phase S (rq_now rq) p' s2)"

lemma answer_phase: "fst (answer h s) = Answered r \<Longrightarrow> install_phase S now (fst (answer h s)) (snd (answer h s)) = answer h s"
  by (cases "answer h s") simp

lemma answer_answered: "\<exists>r. fst (answer h s) = Answered r"
  by (auto simp: answer_def split: prod.split sum.split)

lemma answer_again:
  "(case answer h s of (p, s1) \<Rightarrow> install_phase S now p s1) = answer h s"
  using answer_answered [of h s] answer_phase [of h s _ S now] by (cases "answer h s") auto

lemma same_now [simp]: "rq\<lparr>rq_now := rq_now rq\<rparr> = rq"
  by simp

lemma install_alone_is_handler:
  "install_alone S rq q s = answer (require_install_authorization S rq q) s"
proof (cases "install_locking S")
  case (Inl x)
  then show ?thesis
    by (cases "attr (sv_ec S) ''coreos_install_lock_seconds''")
      (auto simp: install_alone_def install_locking_def require_install_authorization_def act_simps answer_def)
next
  case (Inr locking)
  then obtain n where n: "attr (sv_ec S) ''coreos_install_lock_seconds'' = ok n" "positive n = ok locking"
    by (auto simp: install_locking_def bindE_eq_Inr)
  show ?thesis
  proof (cases locking)
    case False
    with Inr n show ?thesis
      by (simp add: install_alone_def require_install_authorization_def act_simps answer_again) (simp add: answer_def act_simps require_install_authorization_def n)
  next
    case True
    then show ?thesis
    proof (cases "cache_get (sv_cache S) (rq_now rq) ''lock-install'' (a_cache s)")
      case None
      then show ?thesis using Inr n True
        by (cases "py_int n") (simp_all add: install_alone_def answer_def act_simps require_install_authorization_def)
    next
      case (Some lock)
      then show ?thesis using Inr n True
        by (simp add: install_alone_def act_simps require_install_authorization_def answer_again)
          (simp add: answer_def act_simps require_install_authorization_def n)
    qed
  qed
qed

lemma install_alone_serves:
  "asks_install rq q \<Longrightarrow> install_alone S rq q s = (Answered (fst (serve S rq s)), snd (serve S rq s))"
  unfolding install_alone_is_handler serve_install answer_def by (simp split: prod.split sum.split)

section \<open>Several workers\<close>

record 'c lock_sys =
  w_clock :: nat
  w_phases :: "phase list"
  w_api :: "'c api"

fun takes_lock :: "phase \<Rightarrow> nat" where
  "takes_lock (Storing rq q) = 1"
| "takes_lock _ = 0"

text \<open>A step is labelled with the number of locks it stores.\<close>

inductive install_step :: "'c server \<Rightarrow> 'c lock_sys \<Rightarrow> nat \<Rightarrow> 'c lock_sys \<Rightarrow> bool" for S :: "'c server" where
  accept: "i < length (w_phases s) \<Longrightarrow> w_phases s ! i \<in> insert Idle (range Answered) \<Longrightarrow> asks_install rq q \<Longrightarrow>
     install_step S s 0 (s\<lparr>w_phases := (w_phases s)[i := Asking rq q]\<rparr>)"
| work: "i < length (w_phases s) \<Longrightarrow> install_phase S (w_clock s) (w_phases s ! i) (w_api s) = (p, a) \<Longrightarrow>
     install_step S s (takes_lock (w_phases s ! i)) (s\<lparr>w_phases := (w_phases s)[i := p], w_api := a\<rparr>)"
| other: "\<forall>q. \<not> asks_install rq q \<Longrightarrow> install_step S s 0 (s\<lparr>w_api := snd (serve S rq (w_api s))\<rparr>)"
| tick: "w_clock s \<le> u \<Longrightarrow> install_step S s 0 (s\<lparr>w_clock := u\<rparr>)"

inductive install_run :: "'c server \<Rightarrow> 'c lock_sys \<Rightarrow> nat \<Rightarrow> 'c lock_sys \<Rightarrow> bool" for S :: "'c server" where
  rest: "install_run S s 0 s"
| more: "install_step S s g s1 \<Longrightarrow> install_run S s1 h s2 \<Longrightarrow> install_run S s (g + h) s2"

inductive_cases install_stepE: "install_step S s g s'"

lemmas install_step_cases [consumes 1, case_names accept work other tick] = install_stepE

text \<open>Workers that have seen no lock and are about to store one.\<close>

definition waiting :: "'c lock_sys \<Rightarrow> nat" where
  "waiting s = sum_list (map takes_lock (w_phases s))"

lemma takes_lock_le: "takes_lock p \<le> 1"
  by (cases p) auto

lemma waiting_le: "waiting s \<le> length (w_phases s)"
proof -
  have "sum_list (map takes_lock ps) \<le> length ps" for ps
    by (induction ps) (auto intro: le_trans [OF add_mono [OF takes_lock_le]])
  then show ?thesis by (simp add: waiting_def)
qed

lemma waiting_update:
  assumes "i < length (w_phases s)"
  shows "waiting (s\<lparr>w_phases := (w_phases s)[i := p]\<rparr>) + takes_lock (w_phases s ! i) = waiting s + takes_lock p"
proof -
  have i: "i < length (map takes_lock (w_phases s))" using assms by simp
  have "takes_lock (w_phases s ! i) \<le> sum_list (map takes_lock (w_phases s))"
    using elem_le_sum_list [OF i] assms by simp
  with sum_list_update [OF i, of "takes_lock p"] assms show ?thesis by (simp add: waiting_def map_update)
qed

lemma waiting_api [simp]: "waiting (s\<lparr>w_api := a\<rparr>) = waiting s" "waiting (s\<lparr>w_clock := u\<rparr>) = waiting s"
  by (simp_all add: waiting_def)

section \<open>The lock is seen by every later look\<close>

definition locked_until :: "'c server \<Rightarrow> nat \<Rightarrow> 'c lock_sys \<Rightarrow> bool" where
  "locked_until S T s \<longleftrightarrow> (\<forall>u. w_clock s \<le> u \<and> u \<le> T \<longrightarrow> cache_get (sv_cache S) u ''lock-install'' (a_cache (w_api s)) \<noteq> None)"

lemma answers_keep_cache:
  "a_cache (snd (answer (grant_install S rq q) s)) = a_cache s" "a_cache (snd (answer (deny_install S rq q l) s)) = a_cache s"
  unfolding answer_def grant_install_def deny_install_def put_machine_state_def by (auto simp: act_simps split: sum.splits)

lemma phase_cache:
  assumes "install_phase S now p s = (p', s')" and "takes_lock p = 0"
  shows "a_cache s' = a_cache s"
proof (cases p)
  case (Granting rq q)
  with assms(1) have "s' = snd (answer (grant_install S (rq\<lparr>rq_now := now\<rparr>) q) s)" by simp
  then show ?thesis by (simp only: answers_keep_cache)
next
  case (Refusing rq q l)
  with assms(1) have "s' = snd (answer (deny_install S (rq\<lparr>rq_now := now\<rparr>) q l) s)" by simp
  then show ?thesis by (simp only: answers_keep_cache)
qed (use assms in \<open>auto split: sum.splits option.splits if_splits\<close>)

lemma other_cache:
  assumes "cache_ok (sv_cache S)" "\<forall>q. \<not> asks_install rq q"
  shows "cache_get (sv_cache S) u ''lock-install'' (a_cache (snd (serve S rq s))) = cache_get (sv_cache S) u ''lock-install'' (a_cache s)"
  using assms by (intro serve_keep) auto

lemma store_locks:
  assumes S: "cache_ok (sv_cache S)" and n: "attr (sv_ec S) ''coreos_install_lock_seconds'' = ok (JInt n)" "0 < n"
    and ph: "install_phase S now p s = (p', s')" "takes_lock p = 1"
    and u: "now \<le> u" "int u + int second \<le> int now + n * int second"
  shows "cache_get (sv_cache S) u ''lock-install'' (a_cache s') \<noteq> None"
proof -
  obtain rq q where "p = Storing rq q" using ph(2) by (cases p) auto
  with ph(1) n have "a_cache s' = cache_set (sv_cache S) now ''lock-install'' (JStr q) n (a_cache s)" by auto
  with cache_laws(1) [OF S n(2) u] show ?thesis by simp
qed

lemma phase_locked:
  assumes "install_phase S now p s = (p', s')" "cache_get (sv_cache S) now ''lock-install'' (a_cache s) \<noteq> None"
  shows "takes_lock p' = 0"
  using assms by (cases p) (auto simp: answer_def split: sum.splits option.splits if_splits prod.splits)

text \<open>While the lock is seen, a step stores no lock but for a worker that waits to.\<close>

lemma locked_step:
  assumes S: "cache_ok (sv_cache S)" and n: "attr (sv_ec S) ''coreos_install_lock_seconds'' = ok (JInt n)" "0 < n"
    and st: "install_step S s g s'" and l: "locked_until S T s"
    and T: "w_clock s \<le> T" "int T + int second \<le> int (w_clock s) + n * int second"
  shows "locked_until S T s' \<and> g + waiting s' \<le> waiting s"
  using st
proof (cases rule: install_step_cases)
  case (accept i rq q)
  have "takes_lock (w_phases s ! i) = 0" using accept(4) by auto
  with waiting_update [OF accept(3), of "Asking rq q"] l accept show ?thesis by (simp add: locked_until_def)
next
  case (work i p a)
  have w: "waiting s' + g = waiting s + takes_lock p"
    using waiting_update [OF work(3), of p] by (simp add: work(1,2) waiting_def)
  have "cache_get (sv_cache S) (w_clock s) ''lock-install'' (a_cache (w_api s)) \<noteq> None"
    using l T(1) by (simp add: locked_until_def)
  then have "takes_lock p = 0" by (rule phase_locked [OF work(4)])
  moreover have "locked_until S T s'"
  proof (cases "takes_lock (w_phases s ! i) = 0")
    case True
    with phase_cache [OF work(4)] l show ?thesis by (simp add: locked_until_def work(2))
  next
    case False
    then have "takes_lock (w_phases s ! i) = 1" using takes_lock_le [of "w_phases s ! i"] by linarith
    with store_locks [OF S n work(4)] T(2) show ?thesis by (auto simp: locked_until_def work(2))
  qed
  ultimately show ?thesis using w by simp
next
  case (other rq)
  with l show ?thesis by (simp add: locked_until_def other_cache [OF S])
next
  case (tick u)
  with l show ?thesis by (auto simp: locked_until_def)
qed

lemma step_clock: "install_step S s g s' \<Longrightarrow> w_clock s \<le> w_clock s'"
  by (erule install_stepE) auto

lemma run_clock: "install_run S s g s' \<Longrightarrow> w_clock s \<le> w_clock s'"
  by (induction rule: install_run.induct) (auto dest: step_clock)

lemma locked_run:
  assumes S: "cache_ok (sv_cache S)" and n: "attr (sv_ec S) ''coreos_install_lock_seconds'' = ok (JInt n)" "0 < n"
    and r: "install_run S s g s'" and l: "locked_until S (w_clock s') s"
    and T: "int (w_clock s') + int second \<le> int (w_clock s) + n * int second"
  shows "g \<le> waiting s"
  using r l T
proof (induction rule: install_run.induct)
  case (more s g s1 h s2)
  note mono = step_clock [OF more(1)] run_clock [OF more(2)]
  have "locked_until S (w_clock s2) s1 \<and> g + waiting s1 \<le> waiting s"
    using locked_step [OF S n more(1,4)] mono more(5) by simp
  moreover from this have "h \<le> waiting s1" using more(3,5) mono(1) by simp
  ultimately show ?case by simp
qed simp

section \<open>The property\<close>

text \<open>
  C11. Within the life of an installation lock at most as many installations are granted as the
  application has workers, however the workers interleave, whatever other requests are served and
  however time passes: each worker that saw no lock before the first one was stored can still store
  its own.
\<close>

theorem lock_admits_workers:
  assumes "cache_ok (sv_cache S)" and "attr (sv_ec S) ''coreos_install_lock_seconds'' = ok (JInt n)" and "0 < n"
    and "install_step S s 1 s1" and "install_run S s1 g s2"
    and "int (w_clock s2) + int second \<le> int (w_clock s) + n * int second"
  shows "g + 1 \<le> length (w_phases s)"
proof -
  have c: "w_clock s1 = w_clock s" and w: "waiting s1 + 1 = waiting s" and l: "locked_until S (w_clock s2) s1"
    using assms(4)
  proof (atomize (full), cases rule: install_step_cases)
    case (work i p a)
    obtain rq q where ph: "w_phases s ! i = Storing rq q" using work(1) by (cases "w_phases s ! i") auto
    have "takes_lock p = 0" using work(4) ph assms(2) by auto
    with waiting_update [OF work(3), of p] ph have "waiting s1 + 1 = waiting s" by (simp add: work(2) waiting_def)
    moreover have "locked_until S (w_clock s2) s1"
      using store_locks [OF assms(1-3) work(4)] ph assms(6) by (auto simp: locked_until_def work(2))
    ultimately show "w_clock s1 = w_clock s \<and> waiting s1 + 1 = waiting s \<and> locked_until S (w_clock s2) s1" by (simp add: work(2))
  qed simp_all
  have "g \<le> waiting s1" using locked_run [OF assms(1-3,5) l] assms(6) c by simp
  with w waiting_le [of s] show ?thesis by simp
qed

section \<open>Two workers, two grants\<close>

definition race_state :: "phase list \<Rightarrow> ref_cache \<Rightarrow> db \<Rightarrow> ref_cache lock_sys" where
  "race_state ps c d = \<lparr>w_clock = 0, w_phases = ps, w_api = (sample_state d)\<lparr>a_cache := c\<rparr>\<rparr>"

definition race_lock :: "string \<Rightarrow> ref_cache \<Rightarrow> ref_cache" where
  "race_lock q c = ref_set 0 ''lock-install'' (JStr q) 29 c"

text \<open>The two looks find no lock; then each stores its own.\<close>

lemma race_look:
  "install_step sample_server (race_state [Asking r q, p] [] empty_db) 0 (race_state [Storing r q, p] [] empty_db)"
  "install_step sample_server (race_state [p, Asking r q] [] empty_db) 0 (race_state [p, Storing r q] [] empty_db)"
proof -
  have look: "install_phase sample_server 0 (Asking r q) (sample_state empty_db) = (Storing r q, sample_state empty_db)"
    by (simp add: install_locking_def sample_state_def ref_cache_ops_def ref_get_def)
  from look install_step.work [of 0 "race_state [Asking r q, p] [] empty_db" sample_server]
  show "install_step sample_server (race_state [Asking r q, p] [] empty_db) 0 (race_state [Storing r q, p] [] empty_db)"
    by (simp add: race_state_def sample_state_def)
  from look install_step.work [of 1 "race_state [p, Asking r q] [] empty_db" sample_server]
  show "install_step sample_server (race_state [p, Asking r q] [] empty_db) 0 (race_state [p, Storing r q] [] empty_db)"
    by (simp add: race_state_def sample_state_def)
qed

lemma race_store:
  "install_step sample_server (race_state [Storing r q, p] c d) 1 (race_state [Granting r q, p] (race_lock q c) d)"
  "install_step sample_server (race_state [p, Storing r q] c d) 1 (race_state [p, Granting r q] (race_lock q c) d)"
proof -
  have store: "install_phase sample_server 0 (Storing r q) ((sample_state d)\<lparr>a_cache := c\<rparr>) =
      (Granting r q, (sample_state d)\<lparr>a_cache := race_lock q c\<rparr>)"
    by (simp add: ref_cache_ops_def race_lock_def sample_state_def)
  from store install_step.work [of 0 "race_state [Storing r q, p] c d" sample_server]
  show "install_step sample_server (race_state [Storing r q, p] c d) 1 (race_state [Granting r q, p] (race_lock q c) d)"
    by (simp add: race_state_def)
  from store install_step.work [of 1 "race_state [p, Storing r q] c d" sample_server]
  show "install_step sample_server (race_state [p, Storing r q] c d) 1 (race_state [p, Granting r q] (race_lock q c) d)"
    by (simp add: race_state_def)
qed

lemma race_grant:
  assumes d: "db_ok d" and q: "get_mac_from_raw_query q = ok mac" "length mac \<le> 17"
  obtains d' where "db_ok d'"
    "\<forall>p. install_step sample_server (race_state [Granting r q, p] c d) 0 (race_state [Answered (plain ''Granted'' 200), p] c d')"
    "\<forall>p. install_step sample_server (race_state [p, Granting r q] c d) 0 (race_state [p, Answered (plain ''Granted'' 200)] c d')"
proof -
  have fits: "mac_fits d mac" using q(2) by (simp add: mac_fits_def)
  obtain d' where p: "put_state ref_engine 0 mac st_granted d = Inr d'"
    using put_state_total [OF engine_ok_ref d fits, of st_granted 0] by (auto simp: is_ok_iff MachineStates_states_def)
  then have u: "update_state ref_engine 0 (JStr mac) st_granted d = (Inr (), d')"
    by (auto simp: put_state_def update_state_def session_commit_def bindE_eq_Inr)
  have ok': "db_ok d'" using update_state_db_ok [OF engine_ok_ref d, of 0 "JStr mac" st_granted] u by simp
  have grant: "install_phase sample_server 0 (Granting r q) ((sample_state d)\<lparr>a_cache := c\<rparr>) =
      (Answered (plain ''Granted'' 200), (sample_state d')\<lparr>a_cache := c\<rparr>)"
    using q(1) u by (simp add: answer_def grant_install_def put_machine_state_def act_simps sample_state_def)
  show thesis
  proof (rule that [OF ok']; rule allI)
    fix p
    from grant install_step.work [of 0 "race_state [Granting r q, p] c d" sample_server]
    show "install_step sample_server (race_state [Granting r q, p] c d) 0 (race_state [Answered (plain ''Granted'' 200), p] c d')"
      by (simp add: race_state_def)
    from grant install_step.work [of 1 "race_state [p, Granting r q] c d" sample_server]
    show "install_step sample_server (race_state [p, Granting r q] c d) 0 (race_state [p, Answered (plain ''Granted'' 200)] c d')"
      by (simp add: race_state_def)
  qed
qed

definition race_request :: "string \<Rightarrow> request" where
  "race_request q = sample_request ''GET'' (''/install-authorization/'' @ q) None 0"

lemma race_asks: "asks_install (race_request ''mac=aa'') ''mac=aa''" "asks_install (race_request ''mac=bb'') ''mac=bb''"
  by (simp_all add: asks_install_def race_request_def sample_request_def)

text \<open>From two idle workers both requests are granted while the lock of 29 seconds is fresh.\<close>

theorem two_workers_granted:
  "\<exists>s. install_run sample_server (race_state [Idle, Idle] [] empty_db) 2 s \<and> w_clock s = 0 \<and>
     w_phases s = [Answered (plain ''Granted'' 200), Answered (plain ''Granted'' 200)]"
proof -
  let ?a = "race_request ''mac=aa''" and ?b = "race_request ''mac=bb''"
  have m: "get_mac_from_raw_query ''mac=aa'' = ok ''aa''" "get_mac_from_raw_query ''mac=bb'' = ok ''bb''" by code_simp+
  obtain d where d: "db_ok d" and g1: "\<forall>p. install_step sample_server
      (race_state [Granting ?a ''mac=aa'', p] (race_lock ''mac=bb'' (race_lock ''mac=aa'' [])) empty_db) 0
      (race_state [Answered (plain ''Granted'' 200), p] (race_lock ''mac=bb'' (race_lock ''mac=aa'' [])) d)"
    by (rule race_grant [OF db_ok_empty m(1), of ?a "race_lock ''mac=bb'' (race_lock ''mac=aa'' [])"]) (simp, blast)
  obtain e where g2: "\<forall>p. install_step sample_server
      (race_state [p, Granting ?b ''mac=bb''] (race_lock ''mac=bb'' (race_lock ''mac=aa'' [])) d) 0
      (race_state [p, Answered (plain ''Granted'' 200)] (race_lock ''mac=bb'' (race_lock ''mac=aa'' [])) e)"
    by (rule race_grant [OF d m(2), of ?b "race_lock ''mac=bb'' (race_lock ''mac=aa'' [])"]) (simp, blast)
  have acc1: "install_step sample_server (race_state [Idle, Idle] [] empty_db) 0 (race_state [Asking ?a ''mac=aa'', Idle] [] empty_db)"
    using install_step.accept [of 0 "race_state [Idle, Idle] [] empty_db", OF _ _ race_asks(1)] by (simp add: race_state_def)
  have acc2: "install_step sample_server (race_state [Asking ?a ''mac=aa'', Idle] [] empty_db) 0
      (race_state [Asking ?a ''mac=aa'', Asking ?b ''mac=bb''] [] empty_db)"
    using install_step.accept [of 1 "race_state [Asking ?a ''mac=aa'', Idle] [] empty_db", OF _ _ race_asks(2)]
    by (simp add: race_state_def)
  have "install_run sample_server (race_state [Idle, Idle] [] empty_db) (0 + (0 + (0 + (0 + (1 + (1 + (0 + (0 + 0))))))))
      (race_state [Answered (plain ''Granted'' 200), Answered (plain ''Granted'' 200)] (race_lock ''mac=bb'' (race_lock ''mac=aa'' [])) e)"
    by (rule install_run.more [OF acc1] install_run.more [OF acc2] install_run.more [OF race_look(1)] install_run.more [OF race_look(2)]
        install_run.more [OF race_store(1)] install_run.more [OF race_store(2)] install_run.more [OF g1 [rule_format]] install_run.more [OF g2 [rule_format]]
        install_run.rest)+
  then have "install_run sample_server (race_state [Idle, Idle] [] empty_db) 2
      (race_state [Answered (plain ''Granted'' 200), Answered (plain ''Granted'' 200)] (race_lock ''mac=bb'' (race_lock ''mac=aa'' [])) e)"
    by (simp add: numeral_2_eq_2)
  then show ?thesis by (intro exI conjI, assumption) (simp_all add: race_state_def)
qed

theorem lock_admits_workers_witness:
  "\<exists>s s1 s2. install_step sample_server s 1 s1 \<and> install_run sample_server s1 1 s2 \<and> w_clock s2 = 0 \<and>
     length (w_phases s) = 2 \<and> (1::nat) + 1 \<le> length (w_phases s)"
proof -
  let ?a = "race_request ''mac=aa''" and ?b = "race_request ''mac=bb''"
  let ?s = "race_state [Storing ?a ''mac=aa'', Storing ?b ''mac=bb''] [] empty_db"
  let ?s1 = "race_state [Granting ?a ''mac=aa'', Storing ?b ''mac=bb''] (race_lock ''mac=aa'' []) empty_db"
  let ?s2 = "race_state [Granting ?a ''mac=aa'', Granting ?b ''mac=bb''] (race_lock ''mac=bb'' (race_lock ''mac=aa'' [])) empty_db"
  have one: "install_step sample_server ?s 1 ?s1" by (rule race_store)
  have two: "install_run sample_server ?s1 1 ?s2"
    using install_run.more [OF race_store(2) install_run.rest] by simp
  have "1 + 1 \<le> length (w_phases ?s)"
    by (rule lock_admits_workers [OF _ _ _ one two, of 29]) (simp_all add: race_state_def second_def)
  then have "w_clock ?s2 = 0 \<and> length (w_phases ?s) = 2 \<and> 1 + 1 \<le> length (w_phases ?s)" by (simp add: race_state_def)
  with one two show ?thesis by blast
qed

end
