(* ===== verification/Manage.thy ===== *)
theory Manage
  imports Files Ops
begin

text \<open>
  \<open>manage.py\<close>: the commands that start the API, matchbox and the plan. The machine they run on is a
  record of its files, its environment and its processes with their command lines. The configuration,
  the paths of the project and the number of a new process are arguments; so is \<open>create_all\<close>, the
  creation of the tables by SQLAlchemy. \<open>click.echo\<close> only prints. Waiting for gunicorn to end is the
  boundary between \<open>gunicorn_start\<close> and \<open>gunicorn_end\<close>; the signal handlers only pass the signal on.
  An attribute that is used as a path is a string here (\<open>str_attr\<close>); any other value raises.
\<close>

section \<open>The machine\<close>

record os =
  os_fs :: fs
  os_env :: "(string \<times> string) list"
  os_procs :: "(int \<times> string list) list"

definition with_fs :: "(fs \<Rightarrow> fs result) \<Rightarrow> (os, unit) act" where
  "with_fs f o' = (case f (os_fs o') of Inl x \<Rightarrow> (raise x, o') | Inr g \<Rightarrow> (ok (), o'\<lparr>os_fs := g\<rparr>))"

definition path_exists :: "fs \<Rightarrow> string \<Rightarrow> bool" where
  "path_exists f p = (is_dir f p \<or> is_file f p)"

text \<open>A path and the directories above it.\<close>

fun with_parents :: "string \<Rightarrow> string list \<Rightarrow> string list" where
  "with_parents p [] = []"
| "with_parents p (c # cs) = (p @ c) # with_parents (p @ c @ ''/'') cs"

definition ancestors :: "string \<Rightarrow> string list" where
  "ancestors p = filter (\<lambda>q. q \<noteq> []) (with_parents [] (split_on CHR ''/'' p))"

definition makedirs :: "string \<Rightarrow> fs \<Rightarrow> fs result" where
  "makedirs p f =
     (if p = [] \<or> path_exists f p \<or> (\<exists>q\<in>set (ancestors p). is_file f q) then raise IOError
      else ok (f\<lparr>f_dirs := f_dirs f @ filter (\<lambda>q. q \<notin> set (f_dirs f)) (ancestors p)\<rparr>))"

text \<open>\<open>os.remove\<close> of a directory is an \<open>OSError\<close> that no handler of the module catches.\<close>

definition remove_path :: "fs \<Rightarrow> string \<Rightarrow> fs result" where
  "remove_path f p =
     (if is_file f p then ok (f\<lparr>f_files := filter (\<lambda>q. fst q \<noteq> p) (f_files f)\<rparr>) else raise IOError)"

definition path_join :: "string \<Rightarrow> string \<Rightarrow> string" where
  "path_join d n =
     (if starts_with ''/'' n then n else if d = [] then n else if last d = CHR ''/'' then d @ n else d @ ''/'' @ n)"

section \<open>Preparing\<close>

text \<open>
  A directory that is missing is made; an \<open>os.listdir\<close> of a file raises. The files before one that
  cannot be removed are gone.
\<close>

definition clean_directory :: "string \<Rightarrow> (os, unit) act" where
  "clean_directory d o' =
     (if is_dir (os_fs o') d
      then forA (\<lambda>item. with_fs (\<lambda>f. remove_path f (path_join d item))) (listdir (os_fs o') d) o'
      else if is_file (os_fs o') d then (raise IOError, o')
      else with_fs (makedirs d) o')"

definition str_attr :: "config \<Rightarrow> string \<Rightarrow> string result" where
  "str_attr ec k = bindE (attr ec k) as_str"

definition fs_gunicorn_cleaning :: "config \<Rightarrow> (os, unit) act" where
  "fs_gunicorn_cleaning ec =
     bindA (liftA (attr ec ''prometheus_multiproc_dir'')) (\<lambda>a.
     bindA (liftA (attr ec ''werkzeug_fs_cache_dir'')) (\<lambda>b.
       forA (\<lambda>v. bindA (liftA (as_str v)) clean_directory) [a, b]))"

definition init_db :: "(json \<Rightarrow> unit result) \<Rightarrow> config \<Rightarrow> (os, unit) act" where
  "init_db create_all ec = liftA (bindE (attr ec ''db_uri'') create_all)"

definition init_journal_dir :: "config \<Rightarrow> (os, unit) act" where
  "init_journal_dir ec =
     bindA (liftA (str_attr ec ''ignition_journal_dir'')) (\<lambda>d.
       with_fs (\<lambda>f. if path_exists f d then ok f else makedirs d f))"

section \<open>Command lines\<close>

fun py_lower :: "json \<Rightarrow> json result" where
  "py_lower (JStr s) = ok (JStr (to_lower s))"
| "py_lower _ = raise AttributeError"

fun py_replace :: "string \<Rightarrow> string \<Rightarrow> json \<Rightarrow> json result" where
  "py_replace a b (JStr s) = ok (JStr (str_replace a b s))"
| "py_replace a b _ = raise AttributeError"

definition gunicorn_cmd :: "string \<Rightarrow> string \<Rightarrow> config \<Rightarrow> json list result" where
  "gunicorn_cmd app_path conf ec =
     bindE (attr ec ''gunicorn_worker_type'') (\<lambda>t.
     bindE (attr ec ''gunicorn_bind'') (\<lambda>b.
     bindE (bindE (attr ec ''logging_level'') py_lower) (\<lambda>l.
     bindE (attr ec ''gunicorn_workers'') (\<lambda>w.
       ok [JStr ''gunicorn'', JStr ''--chdir'', JStr app_path, JStr ''enjoliver.api:gunicorn()'',
           JStr ''--worker-class'', t, JStr ''-b'', b, JStr ''--log-level'', l,
           JStr ''-w'', JStr (py_str w), JStr ''-c'', JStr conf]))))"

definition matchbox_cmd :: "string \<Rightarrow> config \<Rightarrow> json list result" where
  "matchbox_cmd project ec =
     bindE (bindE (bindE (attr ec ''matchbox_uri'') (py_replace ''https://'' '''')) (py_replace ''http://'' '''')) (\<lambda>u.
     bindE (attr ec ''matchbox_assets'') (\<lambda>a.
     bindE (attr ec ''matchbox_path'') (\<lambda>p.
     bindE (bindE (attr ec ''matchbox_logging_level'') py_lower) (\<lambda>l.
       ok [JStr (project @ ''/runtime/matchbox/matchbox''), JStr ''-address'', u,
           JStr ''-assets-path'', JStr (py_str a), JStr ''-data-path'', JStr (py_str p), JStr ''-log-level'', l]))))"

definition plan_cmd :: "string \<Rightarrow> json list" where
  "plan_cmd app_path = [JStr ''python'', JStr (app_path @ ''/enjoliver/k8s_2t.py'')]"

definition validate_cmd :: "string \<Rightarrow> json list" where
  "validate_cmd project = [JStr ''python'', JStr (project @ ''/validate.py'')]"

section \<open>Starting\<close>

text \<open>The message joins the command line, so an argument that is no string raises here.\<close>

definition echo_cmd :: "json list \<Rightarrow> (os, string list) act" where
  "echo_cmd cmd = liftA (mapE as_str cmd)"

definition start_process :: "int \<Rightarrow> string list \<Rightarrow> (os, unit) act" where
  "start_process pid argv o' = (ok (), o'\<lparr>os_procs := (pid, argv) # filter (\<lambda>p. fst p \<noteq> pid) (os_procs o')\<rparr>)"

definition write_pid :: "config \<Rightarrow> string \<Rightarrow> int \<Rightarrow> (os, unit) act" where
  "write_pid ec key pid =
     bindA (liftA (str_attr ec key)) (\<lambda>path. with_fs (\<lambda>f. write_file f path (show_int pid)))"

definition set_multiproc_dir :: "config \<Rightarrow> (os, unit) act" where
  "set_multiproc_dir ec o' =
     (if map_of (os_env o') ''prometheus_multiproc_dir'' \<in> {None, Some ''''}
      then case str_attr ec ''prometheus_multiproc_dir'' of
          Inl x \<Rightarrow> (raise x, o')
        | Inr d \<Rightarrow> (ok (), o'\<lparr>os_env := (''prometheus_multiproc_dir'', d) # os_env o'\<rparr>)
      else (ok (), o'))"

definition gunicorn_start :: "string \<Rightarrow> string \<Rightarrow> (json \<Rightarrow> unit result) \<Rightarrow> config \<Rightarrow> int \<Rightarrow> (os, unit) act" where
  "gunicorn_start app_path conf create_all ec pid =
     bindA (init_db create_all ec) (\<lambda>_.
     bindA (init_journal_dir ec) (\<lambda>_.
     bindA (liftA (gunicorn_cmd app_path conf ec)) (\<lambda>cmd.
     bindA (set_multiproc_dir ec) (\<lambda>_.
     bindA (fs_gunicorn_cleaning ec) (\<lambda>_.
     bindA (echo_cmd cmd) (\<lambda>argv.
     bindA (start_process pid argv) (\<lambda>_.
       write_pid ec ''gunicorn_pid_file'' pid)))))))"

definition gunicorn_end :: "config \<Rightarrow> (os, unit) act" where
  "gunicorn_end ec = fs_gunicorn_cleaning ec"

text \<open>The other two write their own number and become the program, with that number.\<close>

definition exec_with_pid :: "json list \<Rightarrow> config \<Rightarrow> string \<Rightarrow> int \<Rightarrow> (os, unit) act" where
  "exec_with_pid cmd ec key pid =
     bindA (echo_cmd cmd) (\<lambda>argv. bindA (write_pid ec key pid) (\<lambda>_. start_process pid argv))"

definition matchbox_start :: "string \<Rightarrow> config \<Rightarrow> int \<Rightarrow> (os, unit) act" where
  "matchbox_start project ec pid =
     bindA (liftA (matchbox_cmd project ec)) (\<lambda>cmd. exec_with_pid cmd ec ''matchbox_pid_file'' pid)"

definition plan_start :: "string \<Rightarrow> config \<Rightarrow> int \<Rightarrow> (os, unit) act" where
  "plan_start app_path ec pid = exec_with_pid (plan_cmd app_path) ec ''plan_pid_file'' pid"

definition validate_start :: "string \<Rightarrow> int \<Rightarrow> (os, unit) act" where
  "validate_start project pid = bindA (echo_cmd (validate_cmd project)) (start_process pid)"

definition show_configs :: "config \<Rightarrow> string list" where
  "show_configs ec = map (\<lambda>(k, v). k @ ''='' @ py_str v) (config_dict ec)"

text \<open>What the API sees of the machine.\<close>

definition world_of :: "os \<Rightarrow> world" where
  "world_of o' = \<lparr>files = f_files (os_fs o'), live = map fst (os_procs o')\<rparr>"

end
