(* ===== verification/Runtime.thy ===== *)
theory Runtime
  imports Manage Json_Text_Facts
begin

text \<open>
  \<open>src/runtime\<close>: \<open>config.py\<close>, which writes the configuration of rkt, dgr and the image server, and
  \<open>run_acserver.py\<close>, which starts that server. The directory of the scripts, the path of the
  script, the user and the right to append to the table of hosts are arguments; so is running a
  command, which answers its exit status and its output, or raises when there is no such program. The
  first step of \<open>config.py\<close> is also that of the configuration of the test suite.
\<close>

section \<open>json.dump\<close>

text \<open>Without options: keys in insertion order, the separators comma and blank, colon and blank.\<close>

primrec json_dump :: "json \<Rightarrow> string" where
  "json_dump JNull = ''null''"
| "json_dump (JBool b) = (if b then ''true'' else ''false'')"
| "json_dump (JInt i) = show_int i"
| "json_dump (JReal s) = real_text s"
| "json_dump (JStr s) = quote_str s"
| "json_dump (JList xs) = ''['' @ join_with '', '' (map json_dump xs) @ '']''"
| "json_dump (JObj d) =
     ''{'' @ join_with '', '' (map (\<lambda>kv. quote_str (fst kv) @ '': '' @ snd kv) (map (map_prod id json_dump) d)) @ ''}''"

lemma text_of_dump: "json_ok j \<Longrightarrow> text_of j (json_dump j)"
proof (induction j)
  case (JList xs)
  show ?case
  proof (cases "xs = []")
    case False
    have "list_all2 text_of xs (map json_dump xs)"
      using JList by (auto simp: list_all2_map2 list_all_iff list_all2_same)
    from text_of_list [OF this, of "'' ''" "[]" "[]"] False show ?thesis by (simp add: is_ws_def)
  qed (simp add: text_of_empty)
next
  case (JObj d)
  show ?case
  proof (cases "d = []")
    case False
    have v: "text_of (snd kv) (json_dump (snd kv))" if "kv \<in> set d" for kv
    proof -
      have "json_ok (snd kv)" using JObj.prems that by (auto simp: json_ok_dict)
      with JObj.IH [OF that, of "snd kv"] show ?thesis by (simp add: snds.simps)
    qed
    have "list_all2 member_text d (map (\<lambda>kv. quote_str (fst kv) @ '': '' @ snd kv) (map (map_prod id json_dump) d))"
      using v by (auto simp: list_all2_map2 member_text_def list_all2_same)
    moreover have "distinct (map fst d)" using JObj.prems by (simp add: json_ok_dict)
    ultimately show ?thesis using text_of_dict [of d _ "'' ''" "[]" "[]"] False by (simp add: is_ws_def)
  qed (simp add: text_of_empty)
qed (simp_all add: text_of_word word_int word_float text_of_string)

lemma dump_reads: "json_ok j \<Longrightarrow> json_loads (json_dump j) = Some j"
  using text_of_read [OF text_of_dump, of j "Suc (length (json_dump j))" "[]" "[]"] by (simp add: json_loads_def)

section \<open>config.py\<close>

definition ignoring_os_error :: "(os, unit) act \<Rightarrow> (os, unit) act" where
  "ignoring_os_error m = tryA m (\<lambda>x. if x = IOError then Some (ret ()) else None)"

definition open_write :: "string \<Rightarrow> string \<Rightarrow> (os, unit) act" where
  "open_write path text = with_fs (\<lambda>f. write_file f path text)"

definition rkt_paths :: "string \<Rightarrow> json" where
  "rkt_paths path = JObj [(''rktKind'', JStr ''paths''), (''rktVersion'', JStr ''v1''), (''data'', JStr ''/tmp/rkt-data''),
     (''stage1-images'', JStr (path @ ''/rkt''))]"

definition rkt_path_d :: "string \<Rightarrow> (os, unit) act" where
  "rkt_path_d path =
     bindA (ignoring_os_error (with_fs (makedirs (path @ ''/paths.d/'')))) (\<lambda>_.
     bindA (ignoring_os_error (with_fs (makedirs ''/tmp/rkt-data''))) (\<lambda>_.
       open_write (path @ ''/paths.d/paths.json'') (json_dump (rkt_paths path))))"

text \<open>The configuration of the test suite has a directory of its own and the images of the runtime.\<close>

definition testsuite_rkt_path_d :: "string \<Rightarrow> string \<Rightarrow> (os, unit) act" where
  "testsuite_rkt_path_d test_d runtime_d =
     bindA (ignoring_os_error (with_fs (makedirs (test_d @ ''/paths.d/'')))) (\<lambda>_.
     bindA (ignoring_os_error (with_fs (makedirs ''/tmp/rkt-data''))) (\<lambda>_.
       open_write (test_d @ ''/paths.d/paths.json'') (json_dump (rkt_paths runtime_d))))"

definition rkt_stage1 :: "string \<Rightarrow> json" where
  "rkt_stage1 path = JObj [(''rktKind'', JStr ''stage1''), (''rktVersion'', JStr ''v1''),
     (''name'', JStr ''coreos.com/rkt/stage1-coreos''), (''version'', JStr ''v1.27.0''),
     (''location'', JStr (path @ ''/rkt/stage1-coreos.aci''))]"

definition rkt_stage1_d :: "string \<Rightarrow> (os, unit) act" where
  "rkt_stage1_d path =
     bindA (ignoring_os_error (with_fs (makedirs (path @ ''/stage1.d/'')))) (\<lambda>_.
       open_write (path @ ''/stage1.d/coreos.json'') (json_dump (rkt_stage1 path)))"

definition eol :: string where "eol = [CHR 0x0A]"

definition dgr_lines :: "string \<Rightarrow> string list" where
  "dgr_lines path = [''targetWorkDir: '' @ path @ ''/target'', ''rkt:'', ''  path: '' @ path @ ''/rkt/rkt'',
     ''  insecureOptions: [http, image]'', ''  dir: '' @ path @ ''/data'', ''  localConfig: '' @ path,
     ''  systemConfig: '' @ path, ''  userConfig: '' @ path, ''  trustKeysFromHttps: false'', ''  noStore: false'',
     ''  storeOnly: false'', ''push:'', ''  url: '' @ [CHR 0x22] @ ''http://enjoliver.local'' @ [CHR 0x22]]"

definition dgr_config :: "string \<Rightarrow> (os, unit) act" where
  "dgr_config path = open_write (path @ ''/config.yml'') (join_with eol (dgr_lines path) @ eol)"

definition acserver_lines :: "string \<Rightarrow> string list" where
  "acserver_lines path = [''api:'', ''  serverName: enjoliver.local'', ''  port: 80'', ''storage:'', ''  unsigned: true'',
     ''  allowOverride: true'', ''  rootPath: '' @ path @ ''/acserver.d'']"

text \<open>A name that is in the table of hosts already is not added again.\<close>

definition hosts_entry :: "string \<Rightarrow> string" where
  "hosts_entry this_file = ''172.20.0.1 enjoliver.local # added by '' @ this_file @ eol"

definition knows_host :: "string \<Rightarrow> bool" where
  "knows_host hosts = (\<exists>l\<in>set (split_on CHR 0x0A hosts). str_contains ''enjoliver.local'' l)"

definition add_host :: "bool \<Rightarrow> string \<Rightarrow> (os, unit) act" where
  "add_host may_append this_file o' =
     (case read_file (os_fs o') ''/etc/hosts'' of
        Inl x \<Rightarrow> (raise x, o')
      | Inr hosts \<Rightarrow>
          if knows_host hosts then (ok (), o')
          else ignoring_os_error
            (if may_append then open_write ''/etc/hosts'' (hosts @ hosts_entry this_file) else raiseA IOError) o')"

definition acserver_config :: "bool \<Rightarrow> string \<Rightarrow> string \<Rightarrow> (os, unit) act" where
  "acserver_config may_append this_file path =
     bindA (open_write (path @ ''/ac-config.yml'') (join_with eol (acserver_lines path) @ eol)) (\<lambda>_.
       add_host may_append this_file)"

definition config_main :: "bool \<Rightarrow> string \<Rightarrow> string \<Rightarrow> (os, unit) act" where
  "config_main may_append this_file pwd =
     bindA (rkt_path_d pwd) (\<lambda>_. bindA (rkt_stage1_d pwd) (\<lambda>_. bindA (dgr_config pwd) (\<lambda>_.
       acserver_config may_append this_file pwd)))"

section \<open>run_acserver.py\<close>

type_synonym runner = "string list \<Rightarrow> (os, nat \<times> string) act"

definition check_command_or_display_error :: "runner \<Rightarrow> string list \<Rightarrow> (os, bool) act" where
  "check_command_or_display_error run_cmd cmd = bindA (run_cmd cmd) (\<lambda>(code, _). ret (code = 0))"

definition is_alnum :: "char \<Rightarrow> bool" where
  "is_alnum c = (let n = of_char c :: nat in 48 \<le> n \<and> n \<le> 57 \<or> 65 \<le> n \<and> n \<le> 90 \<or> 97 \<le> n \<and> n \<le> 122)"

text \<open>\<open>^Running as unit: (?P<unit_name>run-[0-9a-zA-Z]+\.service)\n\<close> at the head of a text.\<close>

definition unit_name :: "string \<Rightarrow> string option" where
  "unit_name out =
     (let p = ''Running as unit: ''; r = drop (length p) out; x = drop 4 r; w = takeWhile is_alnum x in
      if starts_with p out \<and> starts_with ''run-'' r \<and> w \<noteq> [] \<and> starts_with (''.service'' @ eol) (dropWhile is_alnum x)
      then Some (''run-'' @ w @ ''.service'') else None)"

definition start_acserver_with_systemd :: "runner \<Rightarrow> string \<Rightarrow> (os, string) act" where
  "start_acserver_with_systemd run_cmd path =
     bindA (run_cmd [''systemd-run'', path @ ''/acserver/acserver'', path @ ''/ac-config.yml'']) (\<lambda>(code, out).
       if code \<noteq> 0 then raiseA CalledProcessError
       else case unit_name out of None \<Rightarrow> raiseA AttributeError | Some u \<Rightarrow> ret u)"

definition check_acserver_started :: "runner \<Rightarrow> string \<Rightarrow> (os, bool) act" where
  "check_acserver_started run_cmd name = check_command_or_display_error run_cmd [''systemctl'', ''status'', name]"

definition check_rkt_can_run :: "runner \<Rightarrow> string \<Rightarrow> (os, bool) act" where
  "check_rkt_can_run run_cmd path =
     check_command_or_display_error run_cmd [path @ ''/rkt/rkt'', ''--local-config='' @ path, ''--net=rack0'', ''run'',
       ''--insecure-options=all'', ''coreos.com/rkt/stage1-coreos'', ''--exec'', ''/bin/bash'', ''--'', ''-c'', ''exit'', ''0'']"

definition check_rack0_addr :: "runner \<Rightarrow> (os, bool) act" where
  "check_rack0_addr run_cmd = check_command_or_display_error run_cmd [''ip'', ''addr'', ''show'', ''rack0'']"

definition assertA :: "bool \<Rightarrow> ('s, unit) act" where
  "assertA b = (if b then ret () else raiseA AssertionError)"

text \<open>The entry in the table of hosts names \<open>config.py\<close>, whose function writes it.\<close>

definition acserver_main :: "runner \<Rightarrow> nat \<Rightarrow> bool \<Rightarrow> string \<Rightarrow> string \<Rightarrow> (os, unit) act" where
  "acserver_main run_cmd euid may_append config_file path =
     bindA (config_main may_append config_file path) (\<lambda>_.
     bindA (assertA (euid = 0)) (\<lambda>_.
     bindA (bindA (check_rack0_addr run_cmd) assertA) (\<lambda>_.
     bindA (bindA (check_rkt_can_run run_cmd path) assertA) (\<lambda>_.
     bindA (start_acserver_with_systemd run_cmd path) (\<lambda>name.
       bindA (check_acserver_started run_cmd name) assertA)))))"

end
