(* ===== verification/Validate.thy ===== *)
theory Validate
  imports Runtime
begin

text \<open>
  \<open>validate.py\<close>: the checks of the build products, on the files of a machine. A check that lists a
  missing directory ends in an error, which is no success. The directory of the script, the
  environment and the configuration are arguments.
\<close>

definition list_dir :: "fs \<Rightarrow> string \<Rightarrow> string list result" where
  "list_dir f d = (if is_dir f d then ok (listdir f d) else raise IOError)"

text \<open>\<open>assertIn\<close> for each name, and \<open>assertEqual(1, len(list_dir))\<close>.\<close>

definition holds_names :: "fs \<Rightarrow> string \<Rightarrow> string list \<Rightarrow> bool result" where
  "holds_names f d names = bindE (list_dir f d) (\<lambda>l. ok (set names \<subseteq> set l))"

definition holds_one :: "fs \<Rightarrow> string \<Rightarrow> bool result" where
  "holds_one f d = bindE (list_dir f d) (\<lambda>l. ok (length l = 1))"

section \<open>TestValidateMatchboxAssets\<close>

definition matchbox_dir :: "(string \<times> string) list \<Rightarrow> string \<Rightarrow> string" where
  "matchbox_dir env cwd = (case map_of env ''CHECK_MATCHBOX_PATH'' of None \<Rightarrow> cwd @ ''/matchbox'' | Some p \<Rightarrow> p)"

definition served :: "string \<Rightarrow> string \<Rightarrow> string" where
  "served assets name = assets @ ''/'' @ str_replace ''test_'' '''' name @ ''/serve''"

definition coreos_files :: "string list" where
  "coreos_files = [''coreos_production_image.bin.bz2'', ''coreos_production_image.bin.bz2.sig'',
     ''coreos_production_image_verity.txt'', ''coreos_production_pxe.vmlinuz'', ''coreos_production_pxe.vmlinuz.sig'',
     ''coreos_production_pxe_image.cpio.gz'', ''coreos_production_pxe_image.cpio.gz.sig'', ''version.txt'']"

definition TestValidateMatchboxAssets :: "string \<Rightarrow> fs \<Rightarrow> bool result list" where
  "TestValidateMatchboxAssets assets f =
     [holds_names f (served assets ''test_discoveryC'') [''discoveryC''],
      holds_names f (assets @ ''/'' @ str_replace ''_'' ''-'' (str_replace ''test_'' '''' ''test_enjoliver_agent'') @ ''/serve'')
        [''enjoliver-agent''],
      holds_names f (served assets ''test_coreos'') coreos_files]"

section \<open>TestValidateAcserverStorage\<close>

definition format_image_url :: "json \<Rightarrow> string result" where
  "format_image_url image_url =
     bindE (py_replace ''enjoliver.local/'' '''' image_url) (\<lambda>u.
     bindE (py_replace '':'' ''-'' u) (\<lambda>u. ok (py_str u @ ''-linux-amd64.aci'')))"

definition holds_image :: "config \<Rightarrow> fs \<Rightarrow> string \<Rightarrow> string \<Rightarrow> bool result" where
  "holds_image ec f d key =
     bindE (list_dir f d) (\<lambda>l. bindE (attr ec key) (\<lambda>u. bindE (format_image_url u) (\<lambda>name.
       ok (name \<in> set l \<and> length l = 1))))"

definition TestValidateAcserverStorage :: "config \<Rightarrow> string \<Rightarrow> fs \<Rightarrow> bool result list" where
  "TestValidateAcserverStorage ec acserver_d f =
     [holds_one f (path_join acserver_d ''cni''),
      holds_one f (path_join acserver_d ''etcd''),
      holds_one f (path_join acserver_d ''fleet''),
      holds_image ec f (path_join acserver_d ''hyperkube'') ''hyperkube_image_url'',
      holds_image ec f (path_join acserver_d ''lldp'') ''lldp_image_url'',
      holds_one f (path_join acserver_d ''iproute2''),
      holds_one f (path_join acserver_d ''rkt''),
      holds_one f (path_join acserver_d ''vault''),
      holds_image ec f (path_join acserver_d ''ceph-tools'') ''cephtools_image_url'',
      holds_one f (path_join acserver_d ''dnsmasq''),
      holds_one f (path_join acserver_d ''tiller''),
      holds_one f (path_join acserver_d ''heapster''),
      holds_one f (path_join acserver_d ''node-exporter''),
      holds_one f (path_join acserver_d ''kube-state-metrics''),
      holds_one f (path_join acserver_d ''prometheus''),
      holds_one f (path_join acserver_d ''haproxy''),
      holds_one f (path_join acserver_d ''socat'')]"

section \<open>TestValidateRuntime\<close>

definition test_rkt :: "string \<Rightarrow> fs \<Rightarrow> bool" where
  "test_rkt runtime_d f = (is_file f (path_join (path_join runtime_d ''rkt'') ''rkt'') \<and>
     is_file f (path_join (path_join runtime_d ''stage1.d'') ''coreos.json'') \<and>
     is_file f (path_join (path_join runtime_d ''paths.d'') ''paths.json''))"

definition TestValidateRuntime :: "string \<Rightarrow> fs \<Rightarrow> bool result list" where
  "TestValidateRuntime runtime_d f =
     [ok (test_rkt runtime_d f),
      ok (is_file f (path_join (path_join runtime_d ''helm'') ''helm'')),
      ok (is_file f (path_join (path_join runtime_d ''acserver'') ''acserver'')),
      ok (is_file f (path_join (path_join runtime_d ''matchbox'') ''matchbox''))]"

text \<open>\<open>unittest.main\<close>: success is that no check fails; the storage is skipped when the variable is set.\<close>

definition validate_main :: "(string \<times> string) list \<Rightarrow> string \<Rightarrow> config \<Rightarrow> fs \<Rightarrow> bool" where
  "validate_main env cwd ec f = list_all (\<lambda>r. r = ok True)
     (TestValidateMatchboxAssets (matchbox_dir env cwd @ ''/assets'') f @
      (if map_of env ''SKIP_ACSERVER'' \<in> {None, Some ''''}
       then TestValidateAcserverStorage ec (path_join cwd ''runtime/acserver.d/enjoliver.local'') f else []) @
      TestValidateRuntime (path_join cwd ''runtime'') f)"

end
