(* ===== verification/Manage_Facts.thy ===== *)
theory Manage_Facts
  imports Manage Routes_Facts
begin

text \<open>
  What the commands of \<open>manage.py\<close> leave on the machine, and the shutdown of the API on a machine
  where they were run: the pid files they write are the ones the shutdown reads, so that it ends
  exactly the three processes.
\<close>

section \<open>Numbers in pid files\<close>

lemma digit_not_blank: "is_digit c \<Longrightarrow> \<not> is_blank c"
  by (auto simp: is_digit_def is_blank_def Let_def)

lemma strip_digits: "list_all is_digit s \<Longrightarrow> strip s = s"
proof -
  assume s: "list_all is_digit s"
  have "dropWhile is_blank t = t" if "list_all is_digit t" for t
    using that by (cases t) (auto simp: digit_not_blank)
  with s show ?thesis by (simp add: strip_def list_all_rev)
qed

lemma pid_text: "0 \<le> pid \<Longrightarrow> int_of_str (show_int pid) = ok pid"
proof -
  assume "0 \<le> pid"
  define s where "s = show_nat (nat pid)"
  have d: "list_all is_digit s" "s \<noteq> []" by (auto simp: s_def list_all_iff dest: show_nat_digits)
  have "show_int pid = s" using \<open>0 \<le> pid\<close> by (simp add: show_int_def s_def)
  moreover have "strip s = s" using d(1) by (rule strip_digits)
  moreover have "int_signed s = int_digits s"
    using d by (cases s) (auto simp: is_digit_def)
  moreover have "int_digits s = ok (int (read_nat s))"
  proof -
    have "CHR ''_'' \<notin> set s" using d(1) by (auto simp: list_all_iff is_digit_def)
    then have "split_on CHR ''_'' s = [s]" by (rule split_on_no_sep)
    moreover have "filter is_digit s = s" using d(1) by (simp add: filter_id_conv list_all_iff)
    ultimately show ?thesis using d by (simp add: int_digits_def)
  qed
  ultimately show ?thesis using \<open>0 \<le> pid\<close> by (simp add: int_of_str_def s_def read_show_nat)
qed

section \<open>Directories\<close>

lemma last_with_parents: "cs \<noteq> [] \<Longrightarrow> last (with_parents p cs) = p @ join_with ''/'' cs"
proof (induction cs arbitrary: p)
  case (Cons c cs)
  show ?case using Cons.IH [of "p @ c @ ''/''"] by (cases cs) (auto simp: join_with_Cons split: if_splits)
qed simp

lemma self_ancestor: "p \<noteq> [] \<Longrightarrow> p \<in> set (ancestors p)"
proof -
  assume p: "p \<noteq> []"
  have ne: "split_on CHR ''/'' p \<noteq> []" by (cases p) (auto split: list.splits)
  then have "with_parents [] (split_on CHR ''/'' p) \<noteq> []" by (cases "split_on CHR ''/'' p") auto
  from last_in_set [OF this] last_with_parents [OF ne, of "[]"] p show ?thesis
    by (simp add: ancestors_def join_split)
qed

lemma makedirs_ok:
  "makedirs p f = ok f' \<Longrightarrow> is_dir f' p \<and> set (f_dirs f) \<subseteq> set (f_dirs f') \<and> f_files f' = f_files f"
  using self_ancestor [of p] by (auto simp: makedirs_def is_dir_def split: if_splits)

lemma with_fs_ok: "with_fs f o1 = (Inr u, o2) \<longleftrightarrow> (\<exists>g. f (os_fs o1) = ok g \<and> o2 = o1\<lparr>os_fs := g\<rparr>)"
  by (auto simp: with_fs_def split: sum.splits)

lemma remove_paths:
  "forA (\<lambda>item. with_fs (\<lambda>f. remove_path f (path_join d item))) ns o1 = (Inr u, o2) \<Longrightarrow>
   f_dirs (os_fs o2) = f_dirs (os_fs o1) \<and> os_procs o2 = os_procs o1 \<and>
   f_files (os_fs o2) = filter (\<lambda>q. fst q \<notin> path_join d ` set ns) (f_files (os_fs o1))"
proof (induction ns arbitrary: o1)
  case (Cons n ns)
  then obtain o' v where o': "with_fs (\<lambda>f. remove_path f (path_join d n)) o1 = (Inr v, o')"
    "forA (\<lambda>item. with_fs (\<lambda>f. remove_path f (path_join d item))) ns o' = (Inr u, o2)" by (auto simp: bindA_Inr)
  from Cons.IH [OF o'(2)] o'(1) show ?case
    by (auto simp: with_fs_ok remove_path_def split: if_splits intro: filter_cong)
qed (simp add: ret_def)

text \<open>What lies in a directory, by its path.\<close>

definition below :: "string \<Rightarrow> string \<Rightarrow> bool" where
  "below d p \<longleftrightarrow> (\<exists>n. CHR ''/'' \<notin> set n \<and> p = path_join d n)"

lemma map_of_filter_keys: "map_of (filter (\<lambda>q. fst q \<notin> A) xs) p = (if p \<in> A then None else map_of xs p)"
  by (induction xs) auto

lemma clean_directory_ok:
  assumes "clean_directory d o1 = (Inr u, o2)"
  shows "is_dir (os_fs o2) d" "set (f_dirs (os_fs o1)) \<subseteq> set (f_dirs (os_fs o2))" "os_procs o2 = os_procs o1"
    and "\<not> below d p \<Longrightarrow> map_of (f_files (os_fs o2)) p = map_of (f_files (os_fs o1)) p"
proof -
  consider "is_dir (os_fs o1) d"
      "forA (\<lambda>item. with_fs (\<lambda>f. remove_path f (path_join d item))) (listdir (os_fs o1) d) o1 = (Inr u, o2)"
    | "with_fs (makedirs d) o1 = (Inr u, o2)"
    using assms by (auto simp: clean_directory_def split: if_splits)
  then have "is_dir (os_fs o2) d \<and> set (f_dirs (os_fs o1)) \<subseteq> set (f_dirs (os_fs o2)) \<and> os_procs o2 = os_procs o1 \<and>
    (\<not> below d p \<longrightarrow> map_of (f_files (os_fs o2)) p = map_of (f_files (os_fs o1)) p)"
  proof cases
    case 1
    have "\<forall>n\<in>set (listdir (os_fs o1) d). CHR ''/'' \<notin> set n" by (auto simp: listdir_def split: if_splits)
    with remove_paths [OF 1(2)] 1(1) show ?thesis by (auto simp: is_dir_def map_of_filter_keys below_def)
  next
    case 2
    then obtain g where g: "makedirs d (os_fs o1) = ok g" "o2 = o1\<lparr>os_fs := g\<rparr>" by (auto simp: with_fs_ok)
    with makedirs_ok [OF g(1)] show ?thesis by simp
  qed
  then show "is_dir (os_fs o2) d" "set (f_dirs (os_fs o1)) \<subseteq> set (f_dirs (os_fs o2))" "os_procs o2 = os_procs o1"
    and "\<not> below d p \<Longrightarrow> map_of (f_files (os_fs o2)) p = map_of (f_files (os_fs o1)) p"
    by blast+
qed

section \<open>What a command leaves\<close>

lemma write_pid_ok:
  assumes "write_pid ec key pid o1 = (Inr u, o2)" and "str_attr ec key = ok path"
  shows "map_of (f_files (os_fs o2)) path = Some (show_int pid)"
    and "q \<noteq> path \<Longrightarrow> map_of (f_files (os_fs o2)) q = map_of (f_files (os_fs o1)) q"
    and "os_procs o2 = os_procs o1" and "f_dirs (os_fs o2) = f_dirs (os_fs o1)"
proof -
  obtain g where g: "write_file (os_fs o1) path (show_int pid) = ok g" "o2 = o1\<lparr>os_fs := g\<rparr>"
    using assms by (auto simp: write_pid_def bindA_Inr liftA_def with_fs_ok)
  show "map_of (f_files (os_fs o2)) path = Some (show_int pid)"
    and "q \<noteq> path \<Longrightarrow> map_of (f_files (os_fs o2)) q = map_of (f_files (os_fs o1)) q"
    and "f_dirs (os_fs o2) = f_dirs (os_fs o1)"
    using g by (auto simp: write_file_def map_of_other split: if_splits)
  show "os_procs o2 = os_procs o1" using g(2) by simp
qed

lemma start_process_ok:
  "start_process pid argv o1 = (Inr u, o2) \<longleftrightarrow> o2 = o1\<lparr>os_procs := (pid, argv) # filter (\<lambda>p. fst p \<noteq> pid) (os_procs o1)\<rparr>"
  by (auto simp: start_process_def)

definition pid_left :: "os \<Rightarrow> os \<Rightarrow> string \<Rightarrow> int \<Rightarrow> bool" where
  "pid_left o1 o2 path pid \<longleftrightarrow> map_of (f_files (os_fs o2)) path = Some (show_int pid) \<and>
     map fst (os_procs o2) = pid # filter (\<lambda>k. k \<noteq> pid) (map fst (os_procs o1))"

lemma procs_filter: "map fst (filter (\<lambda>p. fst p \<noteq> pid) ps) = filter (\<lambda>k. k \<noteq> pid) (map fst ps)"
  by (induction ps) auto

lemma exec_with_pid_ok:
  assumes "exec_with_pid cmd ec key pid o1 = (Inr u, o2)" and "str_attr ec key = ok path"
  shows "pid_left o1 o2 path pid" and "q \<noteq> path \<Longrightarrow> map_of (f_files (os_fs o2)) q = map_of (f_files (os_fs o1)) q"
proof -
  obtain argv v o' where o': "write_pid ec key pid o1 = (Inr v, o')"
    "o2 = o'\<lparr>os_procs := (pid, argv) # filter (\<lambda>p. fst p \<noteq> pid) (os_procs o')\<rparr>"
    using assms(1) by (auto simp: exec_with_pid_def echo_cmd_def bindA_Inr liftA_def start_process_ok)
  with write_pid_ok [OF o'(1) assms(2)]
  show "pid_left o1 o2 path pid" and "q \<noteq> path \<Longrightarrow> map_of (f_files (os_fs o2)) q = map_of (f_files (os_fs o1)) q"
    by (simp_all add: pid_left_def procs_filter)
qed

lemma matchbox_start_ok:
  assumes "matchbox_start project ec pid o1 = (Inr u, o2)" and "str_attr ec ''matchbox_pid_file'' = ok path"
  shows "pid_left o1 o2 path pid" and "q \<noteq> path \<Longrightarrow> map_of (f_files (os_fs o2)) q = map_of (f_files (os_fs o1)) q"
proof -
  obtain cmd where "exec_with_pid cmd ec ''matchbox_pid_file'' pid o1 = (Inr u, o2)"
    using assms(1) by (auto simp: matchbox_start_def bindA_Inr liftA_def)
  from exec_with_pid_ok [OF this assms(2)]
  show "pid_left o1 o2 path pid" and "q \<noteq> path \<Longrightarrow> map_of (f_files (os_fs o2)) q = map_of (f_files (os_fs o1)) q"
    by blast+
qed

text \<open>The directories gunicorn shares with its workers are the ones cleaned.\<close>

definition shared_dir :: "config \<Rightarrow> string \<Rightarrow> bool" where
  "shared_dir ec d \<longleftrightarrow> str_attr ec ''prometheus_multiproc_dir'' = ok d \<or> str_attr ec ''werkzeug_fs_cache_dir'' = ok d"

lemma cleaning_ok:
  assumes "fs_gunicorn_cleaning ec o1 = (Inr u, o2)"
  shows "os_procs o2 = os_procs o1" and "\<forall>d. shared_dir ec d \<longrightarrow> is_dir (os_fs o2) d"
    and "\<forall>d. shared_dir ec d \<longrightarrow> \<not> below d q \<Longrightarrow> map_of (f_files (os_fs o2)) q = map_of (f_files (os_fs o1)) q"
proof -
  obtain a b v o' where ab: "str_attr ec ''prometheus_multiproc_dir'' = ok a" "str_attr ec ''werkzeug_fs_cache_dir'' = ok b"
    and f: "clean_directory a o1 = (Inr v, o')" "clean_directory b o' = (Inr u, o2)"
    using assms by (auto simp: fs_gunicorn_cleaning_def str_attr_def bindA_Inr liftA_def ret_def bindE_eq_Inr)
  note x = clean_directory_ok [OF f(1)] and y = clean_directory_ok [OF f(2)]
  show "os_procs o2 = os_procs o1" using x(3) y(3) by simp
  show "\<forall>d. shared_dir ec d \<longrightarrow> is_dir (os_fs o2) d"
    using x(1) y(1,2) ab by (auto simp: shared_dir_def is_dir_def)
  show "\<forall>d. shared_dir ec d \<longrightarrow> \<not> below d q \<Longrightarrow> map_of (f_files (os_fs o2)) q = map_of (f_files (os_fs o1)) q"
    using x(4) y(4) ab by (simp add: shared_dir_def)
qed

lemma gunicorn_start_ok:
  assumes "gunicorn_start app_path conf create_all ec pid o1 = (Inr u, o2)" and "str_attr ec ''gunicorn_pid_file'' = ok path"
  shows "pid_left o1 o2 path pid" and "\<forall>d. shared_dir ec d \<longrightarrow> is_dir (os_fs o2) d"
    and "\<forall>d. shared_dir ec d \<longrightarrow> \<not> below d q \<Longrightarrow> q \<noteq> path \<Longrightarrow> map_of (f_files (os_fs o2)) q = map_of (f_files (os_fs o1)) q"
proof -
  obtain oa ob oc od argv v w x where s: "init_journal_dir ec o1 = (Inr v, oa)" "set_multiproc_dir ec oa = (Inr w, ob)"
    "fs_gunicorn_cleaning ec ob = (Inr x, oc)" "od = oc\<lparr>os_procs := (pid, argv) # filter (\<lambda>p. fst p \<noteq> pid) (os_procs oc)\<rparr>"
    "write_pid ec ''gunicorn_pid_file'' pid od = (Inr u, o2)"
    using assms(1) by (auto simp: gunicorn_start_def init_db_def echo_cmd_def bindA_Inr liftA_def start_process_ok)
  have j: "os_procs oa = os_procs o1" "map_of (f_files (os_fs oa)) q = map_of (f_files (os_fs o1)) q"
    using s(1) by (auto simp: init_journal_dir_def bindA_Inr liftA_def with_fs_ok dest: makedirs_ok split: if_splits)
  have e: "os_procs ob = os_procs oa" "os_fs ob = os_fs oa"
    using s(2) by (auto simp: set_multiproc_dir_def split: if_splits sum.splits)
  note c = cleaning_ok [OF s(3)] and p = write_pid_ok [OF s(5) assms(2)]
  show "pid_left o1 o2 path pid" using p(1,3) c(1) e(1) j(1) s(4) by (simp add: pid_left_def procs_filter)
  show "\<forall>d. shared_dir ec d \<longrightarrow> is_dir (os_fs o2) d" using c(2) p(4) s(4) by (simp add: is_dir_def)
  show "\<forall>d. shared_dir ec d \<longrightarrow> \<not> below d q \<Longrightarrow> q \<noteq> path \<Longrightarrow> map_of (f_files (os_fs o2)) q = map_of (f_files (os_fs o1)) q"
    using p(2) c(3) e(2) j(2) s(4) by simp
qed

section \<open>The shutdown\<close>

lemma pid_file_read:
  assumes "map_of (files (a_world s)) path = Some (show_int pid)" and "0 \<le> pid" and "pid \<in> set (live (a_world s))"
  shows "pid_or_none path s =
    (Inr (Some pid), s\<lparr>a_world := (a_world s)\<lparr>files := filter (\<lambda>f. fst f \<noteq> path) (files (a_world s))\<rparr>\<rparr>)"
  using assms by (simp add: pid_or_none_def process_of_file_def act_simps pid_text Let_def)

lemma terminate_live:
  "pid \<in> set (live (a_world s)) \<Longrightarrow>
   terminate pid s = (Inr (), s\<lparr>a_world := (a_world s)\<lparr>live := removeAll pid (live (a_world s))\<rparr>\<rparr>)"
  by (simp add: terminate_def act_simps)

lemma shutdown_three:
  assumes paths: "str_attr (sv_ec S) ''plan_pid_file'' = ok p" "str_attr (sv_ec S) ''matchbox_pid_file'' = ok m"
      "str_attr (sv_ec S) ''gunicorn_pid_file'' = ok g" "distinct [p, m, g]"
    and pids: "distinct [b, a, c]" "0 \<le> a" "0 \<le> b" "0 \<le> c"
    and w: "map_of (files (a_world s)) p = Some (show_int b)" "map_of (files (a_world s)) m = Some (show_int a)"
      "map_of (files (a_world s)) g = Some (show_int c)" "{a, b, c} \<subseteq> set (live (a_world s))"
  shows "ops_shutdown S s = (Inr (JList (map (\<lambda>k. JStr (sv_process S k)) [b, a, c])), s\<lparr>a_world :=
    \<lparr>files = filter (\<lambda>f. fst f \<notin> {p, m, g}) (files (a_world s)), live = filter (\<lambda>k. k \<notin> {a, b, c}) (live (a_world s))\<rparr>\<rparr>)"
proof -
  let ?w = "a_world s"
  define s1 where "s1 = s\<lparr>a_world := ?w\<lparr>files := filter (\<lambda>f. fst f \<noteq> p) (files ?w)\<rparr>\<rparr>"
  define s2 where "s2 = s1\<lparr>a_world := (a_world s1)\<lparr>files := filter (\<lambda>f. fst f \<noteq> m) (files (a_world s1))\<rparr>\<rparr>"
  define s3 where "s3 = s2\<lparr>a_world := (a_world s2)\<lparr>files := filter (\<lambda>f. fst f \<noteq> g) (files (a_world s2))\<rparr>\<rparr>"
  have r1: "pid_or_none p s = (Inr (Some b), s1)" unfolding s1_def using w pids by (intro pid_file_read) auto
  have r2: "pid_or_none m s1 = (Inr (Some a), s2)" unfolding s2_def
    using w pids paths(4) by (intro pid_file_read) (auto simp: s1_def map_of_other)
  have r3: "pid_or_none g s2 = (Inr (Some c), s3)" unfolding s3_def
    using w pids paths(4) by (intro pid_file_read) (auto simp: s1_def s2_def map_of_other simp del: filter_filter)
  have c3: "collect_pids [p, m] s = (Inr [b, a], s2)" using r1 r2 by (simp add: act_simps)
  define s4 where "s4 = s3\<lparr>a_world := (a_world s3)\<lparr>live := removeAll b (live (a_world s3))\<rparr>\<rparr>"
  define s5 where "s5 = s4\<lparr>a_world := (a_world s4)\<lparr>live := removeAll a (live (a_world s4))\<rparr>\<rparr>"
  define s6 where "s6 = s5\<lparr>a_world := (a_world s5)\<lparr>live := removeAll c (live (a_world s5))\<rparr>\<rparr>"
  have l: "live (a_world s3) = live ?w" by (simp add: s3_def s2_def s1_def)
  have t1: "terminate b s3 = (Inr (), s4)" unfolding s4_def using w(4) l by (intro terminate_live) auto
  have t2: "terminate a s4 = (Inr (), s5)" unfolding s5_def using w(4) l pids(1) by (intro terminate_live) (auto simp: s4_def)
  have t3: "terminate c s5 = (Inr (), s6)" unfolding s6_def
    using w(4) l pids(1) by (intro terminate_live) (auto simp: s4_def s5_def)
  have "ops_shutdown S s = (Inr (JList (map (\<lambda>k. JStr (sv_process S k)) [b, a, c])), s6)"
    using paths(1-3) c3 r3 t1 t2 t3 by (simp add: ops_shutdown_def str_attr_def act_simps del: collect_pids.simps)
  moreover have "removeAll c (removeAll a (removeAll b xs)) = filter (\<lambda>k. k \<notin> {a, b, c}) xs" for xs
    by (induction xs) auto
  then have "s6 = s\<lparr>a_world := \<lparr>files = filter (\<lambda>f. fst f \<notin> {p, m, g}) (files ?w), live = filter (\<lambda>k. k \<notin> {a, b, c}) (live ?w)\<rparr>\<rparr>"
    by (cases "a_world s") (auto simp: s6_def s5_def s4_def s3_def s2_def s1_def)
  ultimately show ?thesis by simp
qed

text \<open>
  C17. What \<open>manage.py\<close> starts, the API shuts down: after matchbox, the plan and gunicorn have been
  started, \<open>POST /shutdown\<close> is answered 200 with the three processes, which are then gone together with
  their pid files, and no other process or file is touched.
\<close>

theorem shutdown_ends_started:
  assumes starts: "bindA (matchbox_start project (sv_ec S) a) (\<lambda>_. bindA (plan_start app_path (sv_ec S) b)
      (\<lambda>_. gunicorn_start app_path conf create_all (sv_ec S) c)) o1 = (Inr (), o2)"
    and paths: "str_attr (sv_ec S) ''plan_pid_file'' = ok p" "str_attr (sv_ec S) ''matchbox_pid_file'' = ok m"
      "str_attr (sv_ec S) ''gunicorn_pid_file'' = ok g" "distinct [p, m, g]"
    and apart: "\<forall>d. shared_dir (sv_ec S) d \<longrightarrow> \<not> below d p \<and> \<not> below d m"
    and pids: "distinct [a, b, c]" "0 \<le> a" "0 \<le> b" "0 \<le> c"
    and s: "a_world s = world_of o2" and rq: "rq_method rq = ''POST''" "rq_path rq = ''/shutdown''"
  shows "serve S rq s = (jsonify (JList (map (\<lambda>k. JStr (sv_process S k)) [b, a, c])) 200, s\<lparr>a_world :=
    \<lparr>files = filter (\<lambda>f. fst f \<notin> {p, m, g}) (f_files (os_fs o2)),
     live = filter (\<lambda>k. k \<notin> {a, b, c}) (map fst (os_procs o1))\<rparr>\<rparr>)"
proof -
  obtain oa ob where o: "matchbox_start project (sv_ec S) a o1 = (Inr (), oa)" "plan_start app_path (sv_ec S) b oa = (Inr (), ob)"
    "gunicorn_start app_path conf create_all (sv_ec S) c ob = (Inr (), o2)" using starts by (auto simp: bindA_Inr)
  note x = matchbox_start_ok [OF o(1) paths(2)] and y = exec_with_pid_ok [OF o(2) [unfolded plan_start_def] paths(1)]
    and z = gunicorn_start_ok [OF o(3) paths(3)]
  have files: "map_of (f_files (os_fs o2)) p = Some (show_int b)" "map_of (f_files (os_fs o2)) m = Some (show_int a)"
    "map_of (f_files (os_fs o2)) g = Some (show_int c)"
    using x(1) y z(1,3) paths(4) apart unfolding pid_left_def by auto
  have live: "map fst (os_procs o2) = c # filter (\<lambda>k. k \<noteq> c) (b # filter (\<lambda>k. k \<noteq> b) (a # filter (\<lambda>k. k \<noteq> a) (map fst (os_procs o1))))"
    using x(1) y(1) z(1) unfolding pid_left_def by simp
  have "{a, b, c} \<subseteq> set (live (a_world s))" using pids(1) by (auto simp: s world_of_def live)
  from shutdown_three [OF paths _ pids(2-4) _ _ _ this] pids(1) files
  have "ops_shutdown S s = (Inr (JList (map (\<lambda>k. JStr (sv_process S k)) [b, a, c])), s\<lparr>a_world :=
    \<lparr>files = filter (\<lambda>f. fst f \<notin> {p, m, g}) (files (a_world s)), live = filter (\<lambda>k. k \<notin> {a, b, c}) (live (a_world s))\<rparr>\<rparr>)"
    by (auto simp: s world_of_def)
  moreover have "filter (\<lambda>k. k \<notin> {a, b, c}) (live (a_world s)) = filter (\<lambda>k. k \<notin> {a, b, c}) (map fst (os_procs o1))"
    using pids(1) by (auto simp: s world_of_def live intro!: filter_cong)
  ultimately show ?thesis
    using rq by (simp add: serve_def routes_of_def routes_of_1_def shutdown_route_def act_simps s world_of_def)
qed

section \<open>Witness\<close>

definition manage_ec :: config where
  "manage_ec = \<lparr>from_yaml = JObj [], from_env = [], default_values = [], attrs = [
     (''db_uri'', JStr ''sqlite:///e.sqlite''), (''gunicorn_workers'', JInt 1), (''gunicorn_worker_type'', JStr ''sync''),
     (''gunicorn_bind'', JStr ''0.0.0.0:5000''), (''logging_level'', JStr ''DEBUG''),
     (''matchbox_uri'', JStr ''http://127.0.0.1:8080''), (''matchbox_path'', JStr ''/m''), (''matchbox_assets'', JStr ''/m/assets''),
     (''matchbox_logging_level'', JStr ''debug''), (''ignition_journal_dir'', JStr ''/r/journal''),
     (''prometheus_multiproc_dir'', JStr ''/r/prom''), (''werkzeug_fs_cache_dir'', JStr ''/r/cache''),
     (''plan_pid_file'', JStr ''/r/plan.pid''), (''matchbox_pid_file'', JStr ''/r/matchbox.pid''),
     (''gunicorn_pid_file'', JStr ''/r/gunicorn.pid'')]\<rparr>"

text \<open>A machine with one other process, where a run before left a file of the prometheus client.\<close>

definition manage_os :: os where
  "manage_os = \<lparr>os_fs = \<lparr>f_dirs = [''/r'', ''/r/prom''], f_files = [(''/r/prom/counter_1.db'', ''x'')]\<rparr>,
     os_env = [], os_procs = [(1, [''init''])]\<rparr>"

definition manage_server :: "ref_cache server" where
  "manage_server = sample_server\<lparr>sv_ec := manage_ec\<rparr>"

definition manage_starts :: "(os, unit) act" where
  "manage_starts = bindA (matchbox_start ''/e'' manage_ec 10) (\<lambda>_. bindA (plan_start ''/e/enjoliver-api'' manage_ec 20)
      (\<lambda>_. gunicorn_start ''/e/enjoliver-api'' ''/e/gunicorn_conf.py'' (\<lambda>_. ok ()) manage_ec 30))"

lemma manage_started: "fst (manage_starts manage_os) = Inr ()"
  by code_simp

lemma manage_paths:
  "str_attr manage_ec ''plan_pid_file'' = ok ''/r/plan.pid''" "str_attr manage_ec ''matchbox_pid_file'' = ok ''/r/matchbox.pid''"
  "str_attr manage_ec ''gunicorn_pid_file'' = ok ''/r/gunicorn.pid''"
  "str_attr manage_ec ''prometheus_multiproc_dir'' = ok ''/r/prom''" "str_attr manage_ec ''werkzeug_fs_cache_dir'' = ok ''/r/cache''"
  by (simp_all add: str_attr_def attr_def manage_ec_def)

definition shutdown_request :: request where
  "shutdown_request = sample_request ''POST'' ''/shutdown'' None 9"

theorem shutdown_ends_started_witness:
  "fst (manage_starts manage_os) = Inr () \<and>
   serve manage_server shutdown_request ((sample_state empty_db)\<lparr>a_world := world_of (snd (manage_starts manage_os))\<rparr>) =
     (jsonify (JList [JStr ''20'', JStr ''10'', JStr ''30'']) 200, (sample_state empty_db)\<lparr>a_world :=
       \<lparr>files = filter (\<lambda>f. fst f \<notin> {''/r/plan.pid'', ''/r/matchbox.pid'', ''/r/gunicorn.pid''}) (f_files (os_fs (snd (manage_starts manage_os)))),
        live = [1]\<rparr>\<rparr>)"
proof -
  have start: "bindA (matchbox_start ''/e'' (sv_ec manage_server) 10) (\<lambda>_. bindA (plan_start ''/e/enjoliver-api'' (sv_ec manage_server) 20)
      (\<lambda>_. gunicorn_start ''/e/enjoliver-api'' ''/e/gunicorn_conf.py'' (\<lambda>_. ok ()) (sv_ec manage_server) 30)) manage_os =
      (Inr (), snd (manage_starts manage_os))"
    using manage_started by (simp add: manage_starts_def manage_server_def prod_eq_iff)
  have apart: "\<forall>d. shared_dir (sv_ec manage_server) d \<longrightarrow> \<not> below d ''/r/plan.pid'' \<and> \<not> below d ''/r/matchbox.pid''"
    by (auto simp: shared_dir_def manage_server_def manage_paths below_def path_join_def)
  have texts: "show_int 20 = ''20''" "show_int 10 = ''10''" "show_int 30 = ''30''" by code_simp+
  have "serve manage_server shutdown_request ((sample_state empty_db)\<lparr>a_world := world_of (snd (manage_starts manage_os))\<rparr>) =
    (jsonify (JList (map (\<lambda>k. JStr (sv_process manage_server k)) [20, 10, 30])) 200,
     ((sample_state empty_db)\<lparr>a_world := world_of (snd (manage_starts manage_os))\<rparr>)\<lparr>a_world :=
       \<lparr>files = filter (\<lambda>f. fst f \<notin> {''/r/plan.pid'', ''/r/matchbox.pid'', ''/r/gunicorn.pid''}) (f_files (os_fs (snd (manage_starts manage_os)))),
        live = filter (\<lambda>k. k \<notin> {10, 20, 30}) (map fst (os_procs manage_os))\<rparr>\<rparr>)"
    by (rule shutdown_ends_started [OF start _ _ _ _ apart])
      (simp_all add: manage_server_def manage_paths shutdown_request_def sample_request_def)
  with manage_started show ?thesis by (simp add: manage_server_def sample_server_def manage_os_def texts)
qed

end
