(* ===== verification/Runtime_Facts.thy ===== *)
theory Runtime_Facts
  imports Validate Manage_Facts
begin

text \<open>
  What \<open>config.py\<close> leaves on a machine: every step only adds directories and writes its own file, so
  what one step wrote the later ones keep, and a second run finds everything in place.
\<close>

section \<open>Steps\<close>

definition contents :: "os \<Rightarrow> string \<rightharpoonup> string" where
  "contents o' = map_of (f_files (os_fs o'))"

lemma is_file_contents: "is_file (os_fs o1) p \<longleftrightarrow> contents o1 p \<noteq> None"
  by (simp add: is_file_def contents_def map_of_eq_None_iff)

text \<open>The files outside \<open>W\<close> are as before, and no file became a directory.\<close>

definition advances :: "string set \<Rightarrow> os \<Rightarrow> os \<Rightarrow> bool" where
  "advances W o1 o2 \<longleftrightarrow> set (f_dirs (os_fs o1)) \<subseteq> set (f_dirs (os_fs o2)) \<and> (\<forall>q. q \<notin> W \<longrightarrow> contents o2 q = contents o1 q) \<and>
     dom (contents o1) \<subseteq> dom (contents o2) \<and>
     (\<forall>q\<in>dom (contents o1). \<not> is_dir (os_fs o1) q \<longrightarrow> \<not> is_dir (os_fs o2) q)"

definition wrote :: "os \<Rightarrow> string \<Rightarrow> string \<Rightarrow> bool" where
  "wrote o1 p t \<longleftrightarrow> contents o1 p = Some t \<and> is_dir (os_fs o1) (dirname p) \<and> \<not> is_dir (os_fs o1) p"

definition unmade :: "os \<Rightarrow> string \<Rightarrow> bool" where
  "unmade o1 p \<longleftrightarrow> makedirs p (os_fs o1) = raise IOError"

definition same_files :: "os \<Rightarrow> os \<Rightarrow> bool" where
  "same_files o1 o2 \<longleftrightarrow> contents o2 = contents o1 \<and> f_dirs (os_fs o2) = f_dirs (os_fs o1)"

lemma advances_trans:
  assumes "advances V o1 o2" and "advances W o2 o3"
  shows "advances (V \<union> W) o1 o3"
proof -
  have "\<not> is_dir (os_fs o3) q" if "q \<in> dom (contents o1)" "\<not> is_dir (os_fs o1) q" for q
    using that assms by (meson advances_def subsetD)
  with assms show ?thesis by (simp add: advances_def) (meson subset_trans)
qed

lemma advances_wrote: "advances W o1 o2 \<Longrightarrow> wrote o1 p t \<Longrightarrow> p \<notin> W \<Longrightarrow> wrote o2 p t"
  unfolding advances_def wrote_def is_dir_def by (auto simp: dom_def)

lemma unmade_iff: "unmade o1 p \<longleftrightarrow> p = [] \<or> is_dir (os_fs o1) p \<or> contents o1 p \<noteq> None \<or> (\<exists>q\<in>set (ancestors p). contents o1 q \<noteq> None)"
  by (simp add: unmade_def makedirs_def path_exists_def is_file_contents)

lemma advances_unmade: "advances W o1 o2 \<Longrightarrow> unmade o1 p \<Longrightarrow> unmade o2 p"
  unfolding unmade_iff advances_def is_dir_def dom_def by blast

lemma open_write_step:
  assumes "open_write p t o1 = (Inr u, o2)"
  shows "advances {p} o1 o2 \<and> wrote o2 p t"
  using assms
  by (auto simp: open_write_def with_fs_def advances_def wrote_def contents_def write_file_def map_of_other is_dir_def
      split: sum.splits if_splits)

lemma makedirs_step:
  assumes "ignoring_os_error (with_fs (makedirs p)) o1 = (Inr u, o2)"
  shows "advances {} o1 o2 \<and> unmade o2 p"
proof (cases "makedirs p (os_fs o1)")
  case (Inl x)
  with assms have "o2 = o1" "x = IOError"
    by (auto simp: ignoring_os_error_def tryA_run with_fs_def ret_def split: if_splits)
  with Inl show ?thesis by (simp add: advances_def unmade_def)
next
  case (Inr f)
  with assms have o2: "o2 = o1\<lparr>os_fs := f\<rparr>" by (simp add: ignoring_os_error_def tryA_run with_fs_def)
  note m = makedirs_ok [OF Inr]
  have "q \<notin> dom (contents o1)" if "is_dir f q" "\<not> is_dir (os_fs o1) q" for q
    using Inr that by (auto simp: makedirs_def is_dir_def is_file_contents split: if_splits)
  with m show ?thesis by (auto simp: o2 advances_def unmade_iff contents_def)
qed

lemma add_host_step:
  assumes "add_host may this_file o1 = (Inr u, o2)"
  shows "advances {''/etc/hosts''} o1 o2"
proof -
  have r: "advances {''/etc/hosts''} o1 o1" by (simp add: advances_def)
  have "advances {''/etc/hosts''} o1 o3" if "open_write ''/etc/hosts'' t o1 = (Inr v, o3)" for t v o3
    using open_write_step [OF that] by simp
  moreover have "advances {''/etc/hosts''} o1 o3" if "open_write ''/etc/hosts'' t o1 = (Inl v, o3)" for t v o3
    using that r by (auto simp: open_write_def with_fs_def split: sum.splits)
  ultimately show ?thesis using assms r
    by (auto simp: add_host_def ignoring_os_error_def tryA_run ret_def raiseA_def split: sum.splits if_splits prod.splits)
qed

section \<open>The table of hosts\<close>

lemma starts_with_split: "starts_with p s \<Longrightarrow> c \<notin> set p \<Longrightarrow> starts_with p (hd (split_on c s))"
proof (induction s arbitrary: p)
  case Nil
  then show ?case by (cases p) simp_all
next
  case (Cons x s)
  obtain w ws where w: "split_on c s = w # ws" by (cases "split_on c s") simp_all
  with Cons show ?case by (cases p) auto
qed

lemma str_contains_split:
  "str_contains p s \<Longrightarrow> c \<notin> set p \<Longrightarrow> \<exists>l\<in>set (split_on c s). str_contains p l"
proof (induction s)
  case (Cons x s)
  show ?case
  proof (cases "starts_with p (x # s)")
    case True
    have "split_on c (x # s) \<noteq> []" by (rule split_on_nonempty)
    then show ?thesis using starts_with_split [OF True Cons.prems(2)] str_contains_starts hd_in_set by blast
  next
    case False
    with Cons obtain l where l: "l \<in> set (split_on c s)" "str_contains p l" by auto
    obtain w ws where w: "split_on c s = w # ws" by (cases "split_on c s") simp_all
    have "str_contains p (x # w)" if "str_contains p w" using that by simp
    with l w show ?thesis by auto
  qed
qed simp

lemma str_contains_middle: "str_contains p (a @ p @ b)"
proof (induction a)
  case Nil
  show ?case by (simp add: str_contains_starts)
next
  case (Cons x a)
  then show ?case by simp
qed

lemma knows_added: "knows_host (hosts @ hosts_entry this_file)"
proof -
  have "str_contains ''enjoliver.local'' ((hosts @ ''172.20.0.1 '') @ ''enjoliver.local'' @ '' # added by '' @ this_file @ eol)"
    by (rule str_contains_middle)
  then show ?thesis unfolding knows_host_def hosts_entry_def by (intro str_contains_split) simp_all
qed

lemma add_host_again:
  assumes "add_host may this_file o1 = (Inr u, o2)" and "same_files o2 o3"
  shows "add_host may this_file o3 = (Inr (), o3)"
proof -
  obtain hosts where h: "contents o1 ''/etc/hosts'' = Some hosts"
    using assms(1) by (auto simp: add_host_def read_file_def contents_def split: option.splits)
  have r: "read_file (os_fs x) ''/etc/hosts'' = (case contents x ''/etc/hosts'' of None \<Rightarrow> raise IOError | Some t \<Rightarrow> ok t)" for x
    by (simp add: read_file_def contents_def)
  have k: "add_host may this_file x = (Inr (), x)" if "contents x ''/etc/hosts'' = Some t" "knows_host t" for x t
    using that by (simp add: add_host_def r)
  show ?thesis
  proof (cases "knows_host hosts")
    case True
    then have "o2 = o1" using assms(1) h by (simp add: add_host_def r)
    with k [of o3 hosts] True h assms(2) show ?thesis by (simp add: same_files_def)
  next
    case new: False
    define w where "w = (if may then open_write ''/etc/hosts'' (hosts @ hosts_entry this_file) else raiseA IOError)"
    have a: "add_host may this_file o1 = ignoring_os_error w o1" using new h by (simp add: add_host_def r w_def)
    show ?thesis
    proof (cases "w o1")
      case (Pair x o')
      show ?thesis
      proof (cases x)
        case (Inr v)
        then have m: "may" using Pair by (simp add: w_def raiseA_def split: if_splits)
        have "o' = o2" using a assms(1) Pair Inr by (simp add: ignoring_os_error_def tryA_run)
        then have "contents o2 ''/etc/hosts'' = Some (hosts @ hosts_entry this_file)"
          using open_write_step [of "''/etc/hosts''" "hosts @ hosts_entry this_file" o1 v o'] Pair Inr m by (simp add: w_def wrote_def)
        with k [of o3] knows_added assms(2) show ?thesis by (simp add: same_files_def)
      next
        case (Inl e)
        then have o2: "o2 = o1" "w o1 = (Inl IOError, o1)"
          using a assms(1) Pair
          by (auto simp: ignoring_os_error_def tryA_run ret_def w_def open_write_def with_fs_def write_file_def raiseA_def
              split: if_splits sum.splits)
        then have "w o3 = (Inl IOError, o3)"
          using assms(2) by (auto simp: w_def open_write_def with_fs_def write_file_def raiseA_def same_files_def is_dir_def split: if_splits)
        moreover have "add_host may this_file o3 = ignoring_os_error w o3"
          using new h o2(1) assms(2) by (simp add: add_host_def r w_def same_files_def)
        ultimately show ?thesis by (simp add: ignoring_os_error_def tryA_run ret_def)
      qed
    qed
  qed
qed

section \<open>A run and the next\<close>

lemma made_again:
  assumes "unmade o1 p" and "same_files o1 o2"
  shows "ignoring_os_error (with_fs (makedirs p)) o2 = (Inr (), o2)"
proof -
  have "unmade o2 p" using assms by (simp add: unmade_iff same_files_def is_dir_def)
  then show ?thesis by (simp add: unmade_def ignoring_os_error_def tryA_run with_fs_def ret_def)
qed

lemma written_again:
  assumes "wrote o1 p t" and "same_files o1 o2"
  obtains o3 where "open_write p t o2 = (Inr (), o3)" "same_files o1 o3"
proof -
  have w: "wrote o2 p t" using assms by (simp add: wrote_def same_files_def is_dir_def)
  then obtain f where f: "write_file (os_fs o2) p t = ok f" by (simp add: wrote_def write_file_def)
  have "map_of (f_files f) = map_of (f_files (os_fs o2))" "f_dirs f = f_dirs (os_fs o2)"
    using f w by (auto simp: write_file_def wrote_def contents_def map_of_other fun_eq_iff split: if_splits)
  with f assms(2) that [of "o2\<lparr>os_fs := f\<rparr>"] show thesis
    by (simp add: open_write_def with_fs_def same_files_def contents_def)
qed

text \<open>The texts the run writes, and where.\<close>

definition runtime_texts :: "string \<Rightarrow> (string \<times> string) list" where
  "runtime_texts pwd = [(pwd @ ''/paths.d/paths.json'', json_dump (rkt_paths pwd)),
     (pwd @ ''/stage1.d/coreos.json'', json_dump (rkt_stage1 pwd)),
     (pwd @ ''/config.yml'', join_with eol (dgr_lines pwd) @ eol),
     (pwd @ ''/ac-config.yml'', join_with eol (acserver_lines pwd) @ eol)]"

lemma runtime_files_apart:
  "distinct (map fst (runtime_texts pwd))" "''/etc/hosts'' \<notin> fst ` set (runtime_texts pwd)"
proof -
  show "distinct (map fst (runtime_texts pwd))" by (simp add: runtime_texts_def)
  have "last p \<noteq> CHR ''s''" if "p \<in> fst ` set (runtime_texts pwd)" for p using that by (auto simp: runtime_texts_def)
  from this [of "''/etc/hosts''"] show "''/etc/hosts'' \<notin> fst ` set (runtime_texts pwd)" by auto
qed

lemma config_main_steps:
  assumes "config_main may this_file pwd o1 = (Inr u, o2)"
  shows "advances (insert ''/etc/hosts'' (fst ` set (runtime_texts pwd))) o1 o2"
    and "\<forall>(p, t)\<in>set (runtime_texts pwd). wrote o2 p t"
    and "\<forall>p\<in>{pwd @ ''/paths.d/'', ''/tmp/rkt-data'', pwd @ ''/stage1.d/''}. unmade o2 p"
    and "same_files o2 o3 \<Longrightarrow> add_host may this_file o3 = (Inr (), o3)"
proof -
  obtain a b c d e f g where s:
    "ignoring_os_error (with_fs (makedirs (pwd @ ''/paths.d/''))) o1 = (Inr (), a)"
    "ignoring_os_error (with_fs (makedirs ''/tmp/rkt-data'')) a = (Inr (), b)"
    "open_write (pwd @ ''/paths.d/paths.json'') (json_dump (rkt_paths pwd)) b = (Inr (), c)"
    "ignoring_os_error (with_fs (makedirs (pwd @ ''/stage1.d/''))) c = (Inr (), d)"
    "open_write (pwd @ ''/stage1.d/coreos.json'') (json_dump (rkt_stage1 pwd)) d = (Inr (), e)"
    "open_write (pwd @ ''/config.yml'') (join_with eol (dgr_lines pwd) @ eol) e = (Inr (), f)"
    "open_write (pwd @ ''/ac-config.yml'') (join_with eol (acserver_lines pwd) @ eol) f = (Inr (), g)"
    "add_host may this_file g = (Inr u, o2)"
    using assms unfolding config_main_def rkt_path_d_def rkt_stage1_d_def dgr_config_def acserver_config_def bindA_Inr by auto
  note m1 = makedirs_step [OF s(1)] and m2 = makedirs_step [OF s(2)] and m3 = makedirs_step [OF s(4)]
    and w1 = open_write_step [OF s(3)] and w2 = open_write_step [OF s(5)] and w3 = open_write_step [OF s(6)]
    and w4 = open_write_step [OF s(7)] and h = add_host_step [OF s(8)]
  let ?P = "pwd @ ''/paths.d/paths.json''" and ?S = "pwd @ ''/stage1.d/coreos.json''"
    and ?C = "pwd @ ''/config.yml''" and ?A = "pwd @ ''/ac-config.yml''" and ?H = "''/etc/hosts''"
  note t = advances_trans
  have g: "advances {?H} g o2" and f: "advances {?A, ?H} f o2" and e: "advances {?C, ?A, ?H} e o2"
    and d: "advances {?S, ?C, ?A, ?H} d o2" and c: "advances {?S, ?C, ?A, ?H} c o2"
    and b: "advances {?P, ?S, ?C, ?A, ?H} b o2" and a: "advances {?P, ?S, ?C, ?A, ?H} a o2"
    and all: "advances {?P, ?S, ?C, ?A, ?H} o1 o2"
  proof -
    show "advances {?H} g o2" by (rule h)
    from t [OF w4 [THEN conjunct1] this] show 1: "advances {?A, ?H} f o2" by (simp add: insert_commute)
    from t [OF w3 [THEN conjunct1] 1] show 2: "advances {?C, ?A, ?H} e o2" by (simp add: insert_commute)
    from t [OF w2 [THEN conjunct1] 2] show 3: "advances {?S, ?C, ?A, ?H} d o2" by (simp add: insert_commute)
    from t [OF m3 [THEN conjunct1] 3] show 4: "advances {?S, ?C, ?A, ?H} c o2" by simp
    from t [OF w1 [THEN conjunct1] 4] show 5: "advances {?P, ?S, ?C, ?A, ?H} b o2" by (simp add: insert_commute)
    from t [OF m2 [THEN conjunct1] 5] show 6: "advances {?P, ?S, ?C, ?A, ?H} a o2" by simp
    from t [OF m1 [THEN conjunct1] 6] show "advances {?P, ?S, ?C, ?A, ?H} o1 o2" by simp
  qed
  have apart: "?H \<notin> {?P, ?S, ?C, ?A}" using runtime_files_apart(2) [of pwd] by (simp add: runtime_texts_def)
  show "advances (insert ?H (fst ` set (runtime_texts pwd))) o1 o2" using all by (simp add: runtime_texts_def insert_commute)
  show "\<forall>(p, t)\<in>set (runtime_texts pwd). wrote o2 p t"
    using advances_wrote [OF c w1 [THEN conjunct2]] advances_wrote [OF e w2 [THEN conjunct2]]
      advances_wrote [OF f w3 [THEN conjunct2]] advances_wrote [OF g w4 [THEN conjunct2]] apart
    by (auto simp: runtime_texts_def)
  show "\<forall>p\<in>{pwd @ ''/paths.d/'', ''/tmp/rkt-data'', pwd @ ''/stage1.d/''}. unmade o2 p"
    using advances_unmade [OF a m1 [THEN conjunct2]] advances_unmade [OF b m2 [THEN conjunct2]]
      advances_unmade [OF d m3 [THEN conjunct2]] by simp
  show "same_files o2 o3 \<Longrightarrow> add_host may this_file o3 = (Inr (), o3)" by (rule add_host_again [OF s(8)])
qed

lemma config_main_again:
  assumes "config_main may this_file pwd o1 = (Inr u, o2)"
  obtains o3 where "config_main may this_file pwd o2 = (Inr (), o3)" "same_files o2 o3"
proof -
  note m = config_main_steps(3) [OF assms, THEN bspec, THEN made_again]
  have w: "wrote o2 (pwd @ ''/paths.d/paths.json'') (json_dump (rkt_paths pwd))"
    "wrote o2 (pwd @ ''/stage1.d/coreos.json'') (json_dump (rkt_stage1 pwd))"
    "wrote o2 (pwd @ ''/config.yml'') (join_with eol (dgr_lines pwd) @ eol)"
    "wrote o2 (pwd @ ''/ac-config.yml'') (join_with eol (acserver_lines pwd) @ eol)"
    using config_main_steps(2) [OF assms] by (simp_all add: runtime_texts_def)
  have r: "same_files o2 o2" by (simp add: same_files_def)
  obtain a where a: "open_write (pwd @ ''/paths.d/paths.json'') (json_dump (rkt_paths pwd)) o2 = (Inr (), a)" "same_files o2 a"
    by (rule written_again [OF w(1) r])
  obtain b where b: "open_write (pwd @ ''/stage1.d/coreos.json'') (json_dump (rkt_stage1 pwd)) a = (Inr (), b)" "same_files o2 b"
    by (rule written_again [OF w(2) a(2)])
  obtain c where c: "open_write (pwd @ ''/config.yml'') (join_with eol (dgr_lines pwd) @ eol) b = (Inr (), c)" "same_files o2 c"
    by (rule written_again [OF w(3) b(2)])
  obtain d where d: "open_write (pwd @ ''/ac-config.yml'') (join_with eol (acserver_lines pwd) @ eol) c = (Inr (), d)" "same_files o2 d"
    by (rule written_again [OF w(4) c(2)])
  have "config_main may this_file pwd o2 = (Inr (), d)"
    unfolding config_main_def rkt_path_d_def rkt_stage1_d_def dgr_config_def acserver_config_def
    using m [OF _ r] m [OF _ a(2)] a(1) b(1) c(1) d(1) config_main_steps(4) [OF assms d(2)] by (simp add: bindA_def)
  with d(2) that show thesis by blast
qed

lemma runtime_json_ok: "json_ok (rkt_paths pwd)" "json_ok (rkt_stage1 pwd)"
  by (simp_all add: rkt_paths_def rkt_stage1_def json_ok_dict)

text \<open>
  C40. The configuration of the runtime is what the validation looks for, and running it again changes
  nothing: after a run that ended well the two files of rkt hold json that reads back as the values
  written, no file but the four of the runtime and the table of hosts was touched, the check of rkt
  passes exactly when its binary was there, and a second run ends well with every file as it was.
\<close>

theorem config_prepares_runtime:
  assumes run: "config_main may this_file pwd o1 = (Inr (), o2)" and pwd: "starts_with ''/'' pwd" "last pwd \<noteq> CHR ''/''"
  shows "(\<exists>t. contents o2 (pwd @ ''/paths.d/paths.json'') = Some t \<and> json_loads t = Some (rkt_paths pwd)) \<and>
    (\<exists>t. contents o2 (pwd @ ''/stage1.d/coreos.json'') = Some t \<and> json_loads t = Some (rkt_stage1 pwd)) \<and>
    (\<forall>q. q \<noteq> ''/etc/hosts'' \<and> q \<notin> fst ` set (runtime_texts pwd) \<longrightarrow> contents o2 q = contents o1 q) \<and>
    (test_rkt pwd (os_fs o2) \<longleftrightarrow> is_file (os_fs o1) (pwd @ ''/rkt/rkt'')) \<and>
    (\<exists>o3. config_main may this_file pwd o2 = (Inr (), o3) \<and> contents o3 = contents o2)"
proof -
  have w: "contents o2 (pwd @ ''/paths.d/paths.json'') = Some (json_dump (rkt_paths pwd))"
    "contents o2 (pwd @ ''/stage1.d/coreos.json'') = Some (json_dump (rkt_stage1 pwd))"
    using config_main_steps(2) [OF run] by (simp_all add: runtime_texts_def wrote_def)
  have keep: "\<forall>q. q \<noteq> ''/etc/hosts'' \<and> q \<notin> fst ` set (runtime_texts pwd) \<longrightarrow> contents o2 q = contents o1 q"
    using config_main_steps(1) [OF run] by (simp add: advances_def)
  have j: "path_join (path_join pwd d) n = pwd @ ''/'' @ d @ ''/'' @ n"
    if "d \<noteq> []" "\<not> starts_with ''/'' d" "last d \<noteq> CHR ''/''" "\<not> starts_with ''/'' n" for d n
    using pwd that by (cases pwd) (auto simp: path_join_def)
  have "last (pwd @ ''/rkt/rkt'') \<noteq> last ''/etc/hosts''" by simp
  then have "contents o2 (pwd @ ''/rkt/rkt'') = contents o1 (pwd @ ''/rkt/rkt'')"
    using keep by (simp add: runtime_texts_def del: last_append)
  then have "test_rkt pwd (os_fs o2) \<longleftrightarrow> is_file (os_fs o1) (pwd @ ''/rkt/rkt'')"
    using w by (simp add: test_rkt_def j is_file_contents)
  moreover obtain o3 where "config_main may this_file pwd o2 = (Inr (), o3)" "same_files o2 o3" by (rule config_main_again [OF run])
  ultimately show ?thesis using w keep dump_reads [OF runtime_json_ok(1)] dump_reads [OF runtime_json_ok(2)]
    by (simp add: same_files_def)
qed

section \<open>Witness\<close>

definition runtime_os :: os where
  "runtime_os = \<lparr>os_fs = \<lparr>f_dirs = [''/e'', ''/e/r'', ''/etc'', ''/tmp''],
     f_files = [(''/etc/hosts'', ''127.0.0.1 localhost'' @ eol), (''/e/r/rkt/rkt'', '''')]\<rparr>, os_env = [], os_procs = []\<rparr>"

lemma runtime_runs: "fst (config_main True ''/e/r/config.py'' ''/e/r'' runtime_os) = Inr ()"
  by code_simp

theorem config_prepares_runtime_witness:
  "test_rkt ''/e/r'' (os_fs (snd (config_main True ''/e/r/config.py'' ''/e/r'' runtime_os)))"
proof -
  have run: "config_main True ''/e/r/config.py'' ''/e/r'' runtime_os = (Inr (), snd (config_main True ''/e/r/config.py'' ''/e/r'' runtime_os))"
    using runtime_runs by (simp add: prod_eq_iff)
  have "is_file (os_fs runtime_os) (''/e/r'' @ ''/rkt/rkt'')" by (simp add: runtime_os_def is_file_def)
  then show ?thesis using config_prepares_runtime [OF run] by simp
qed

end
