(* ===== verification/Disk.thy ===== *)
theory Disk
  imports Manage "HOL-Library.Word"
begin

text \<open>
  \<open>matchbox/assets/coreos/disk.py\<close>: the flag in the first partition of a CoreOS image that says
  whether it is mounted read-only. An image is a list of bytes; the binary files are an association
  list from paths to images. Reading past the end gives no byte, writing past it fills with zeros, as
  files do.
\<close>

type_synonym image = "8 word list"
type_synonym images = "(string \<times> image) list"

section \<open>The flag\<close>

definition READ_ONLY :: "8 word" where "READ_ONLY = 0xFF"
definition READ_WRITE :: "8 word" where "READ_WRITE = 0x00"
definition MOUNT_OPTION_OFFSET :: nat where "MOUNT_OPTION_OFFSET = 0x464 + 3"
definition USER_A :: nat where "USER_A = 138412032"

definition flag_at :: nat where "flag_at = USER_A + MOUNT_OPTION_OFFSET"

definition write_at :: "nat \<Rightarrow> 8 word list \<Rightarrow> image \<Rightarrow> image" where
  "write_at p bs img = take p (img @ replicate (p - length img) 0) @ bs @ drop (p + length bs) img"

definition read_at :: "nat \<Rightarrow> nat \<Rightarrow> image \<Rightarrow> 8 word list" where
  "read_at p n img = take n (drop p img)"

definition change_flag :: "string \<Rightarrow> bool \<Rightarrow> images \<Rightarrow> images result" where
  "change_flag image_path read_only fs =
     (case map_of fs image_path of
        None \<Rightarrow> raise IOError
      | Some img \<Rightarrow> ok ((image_path, write_at flag_at [if read_only then READ_ONLY else READ_WRITE] img) #
          filter (\<lambda>f. fst f \<noteq> image_path) fs))"

definition get_current_flag :: "string \<Rightarrow> images \<Rightarrow> 8 word list result" where
  "get_current_flag image_path fs =
     (case map_of fs image_path of None \<Rightarrow> raise IOError | Some img \<Rightarrow> ok (read_at flag_at 1 img))"

datatype task = RW | RO

text \<open>The second look at the flag only prints it, and finds the file that was just written.\<close>

definition disk_path :: "string \<Rightarrow> string \<Rightarrow> string" where
  "disk_path file_dir version = path_join (path_join file_dir version) ''coreos_production_image.bin''"

definition disk_main :: "string \<Rightarrow> string option \<Rightarrow> task \<Rightarrow> images \<Rightarrow> images result" where
  "disk_main file_dir version task fs =
     (case version of
        None \<Rightarrow> raise IOError
      | Some v \<Rightarrow>
          if v = [] then raise IOError
          else
            bindE (get_current_flag (disk_path file_dir v) fs) (\<lambda>current_flag.
            if current_flag \<noteq> [READ_WRITE] \<and> current_flag \<noteq> [READ_ONLY] then raise IOError
            else if (current_flag = [READ_ONLY] \<and> task = RO) \<or> (current_flag = [READ_WRITE] \<and> task = RW) then ok fs
            else change_flag (disk_path file_dir v) (task = RO) fs))"

section \<open>What a run does\<close>

lemma read_byte: "read_at p (Suc 0) img = [b] \<longleftrightarrow> p < length img \<and> img ! p = b"
  by (cases "p < length img") (auto simp: read_at_def take_Suc hd_drop_conv_nth)

lemma write_byte: "p < length img \<Longrightarrow> write_at p [b] img = img[p := b]"
  by (simp add: write_at_def upd_conv_take_nth_drop)

definition flag_of :: "task \<Rightarrow> 8 word" where
  "flag_of t = (case t of RW \<Rightarrow> READ_WRITE | RO \<Rightarrow> READ_ONLY)"

lemma flags_differ [simp]: "READ_ONLY \<noteq> READ_WRITE" "READ_WRITE \<noteq> READ_ONLY"
  by (simp_all add: READ_ONLY_def READ_WRITE_def)

lemma disk_main_cases:
  assumes "disk_main file_dir version task fs = ok fs'"
  obtains v img where "version = Some v" "map_of fs (disk_path file_dir v) = Some img" "flag_at < length img"
    "img ! flag_at \<in> {READ_ONLY, READ_WRITE}"
    "map_of fs' = (map_of fs)(disk_path file_dir v \<mapsto> img[flag_at := flag_of task])"
proof -
  obtain v where v: "version = Some v" "v \<noteq> []" using assms by (auto simp: disk_main_def split: option.splits if_splits)
  obtain img where img: "map_of fs (disk_path file_dir v) = Some img"
    using assms v by (auto simp: disk_main_def get_current_flag_def split: option.splits)
  have flag: "read_at flag_at 1 img \<in> {[READ_ONLY], [READ_WRITE]}"
    using assms v img by (auto simp: disk_main_def get_current_flag_def split: if_splits)
  then have at: "flag_at < length img" "img ! flag_at \<in> {READ_ONLY, READ_WRITE}" by (auto simp: read_byte)
  have "map_of fs' = (map_of fs)(disk_path file_dir v \<mapsto> img[flag_at := flag_of task])"
  proof (cases "img ! flag_at = flag_of task")
    case True
    with assms v img at have "fs' = fs"
      by (cases task) (auto simp: disk_main_def get_current_flag_def read_byte flag_of_def split: if_splits)
    moreover have "img[flag_at := flag_of task] = img" using True by (metis list_update_id)
    ultimately show ?thesis using img by (auto simp: fun_eq_iff)
  next
    case False
    with assms v img at have "fs' = (disk_path file_dir v, img[flag_at := flag_of task]) # filter (\<lambda>f. fst f \<noteq> disk_path file_dir v) fs"
      by (cases task) (auto simp: disk_main_def get_current_flag_def read_byte change_flag_def write_byte flag_of_def split: if_splits)
    then show ?thesis by (auto simp: fun_eq_iff map_of_other)
  qed
  with v(1) img at show thesis by (rule that)
qed

text \<open>
  C35. A run that does not fail sets the flag of the image of that version to the one asked for, and
  changes no other byte of it and no other file; and switching a read-only image to read-write and
  back, as the script that alters a distribution does, gives the image it started from.
\<close>

theorem disk_sets_flag:
  assumes "disk_main file_dir (Some v) task fs = ok fs'" and "disk_main file_dir (Some v) task' fs' = ok fs''"
  shows "\<exists>img. map_of fs (disk_path file_dir v) = Some img \<and> flag_at < length img \<and>
    map_of fs' = (map_of fs)(disk_path file_dir v \<mapsto> img[flag_at := flag_of task]) \<and>
    (img ! flag_at = flag_of task' \<longrightarrow> map_of fs'' = map_of fs)"
proof -
  obtain img where a: "map_of fs (disk_path file_dir v) = Some img" "flag_at < length img"
    "map_of fs' = (map_of fs)(disk_path file_dir v \<mapsto> img[flag_at := flag_of task])"
    using assms(1) by (auto elim: disk_main_cases)
  obtain img' where b: "map_of fs' (disk_path file_dir v) = Some img'"
    "map_of fs'' = (map_of fs')(disk_path file_dir v \<mapsto> img'[flag_at := flag_of task'])"
    using assms(2) by (auto elim: disk_main_cases)
  have "img' = img[flag_at := flag_of task]" using a(3) b(1) by simp
  then have "map_of fs'' = (map_of fs)(disk_path file_dir v \<mapsto> img[flag_at := flag_of task'])" by (simp add: b(2) a(3))
  moreover have "img[flag_at := flag_of task'] = img" if "img ! flag_at = flag_of task'" using that by (metis list_update_id)
  ultimately show ?thesis using a by (auto simp: fun_eq_iff)
qed

text \<open>The smallest image with a flag, read-only, switched to read-write and back.\<close>

definition small_image :: image where
  "small_image = replicate (Suc flag_at) READ_ONLY"

theorem disk_sets_flag_witness:
  "\<exists>fs' fs''. disk_main ''/d'' (Some ''1.0'') RW [(''/d/1.0/coreos_production_image.bin'', small_image)] = ok fs' \<and>
     disk_main ''/d'' (Some ''1.0'') RO fs' = ok fs'' \<and>
     map_of fs'' ''/d/1.0/coreos_production_image.bin'' = Some small_image"
proof -
  let ?fs = "[(''/d/1.0/coreos_production_image.bin'', small_image)]"
  have path: "disk_path ''/d'' ''1.0'' = ''/d/1.0/coreos_production_image.bin''" by (simp add: disk_path_def path_join_def)
  have len: "flag_at < length small_image" "small_image ! flag_at = READ_ONLY" 
    unfolding small_image_def by (simp, rule nth_replicate, simp)
  obtain fs' where fs': "disk_main ''/d'' (Some ''1.0'') RW ?fs = ok fs'"
    using len by (simp add: disk_main_def path get_current_flag_def change_flag_def read_byte [THEN iffD2])
  from fs' obtain img where "map_of fs' (disk_path ''/d'' ''1.0'') = Some (img[flag_at := READ_WRITE])" "flag_at < length img"
    by (elim disk_main_cases) (auto simp: flag_of_def)
  then obtain fs'' where fs'': "disk_main ''/d'' (Some ''1.0'') RO fs' = ok fs''"
    by (simp add: disk_main_def get_current_flag_def change_flag_def read_byte [THEN iffD2])
  from disk_sets_flag [OF fs' fs''] len have "map_of fs'' = map_of ?fs" by (auto simp: path flag_of_def)
  with fs' fs'' show ?thesis by (intro exI [of _ fs'] exI [of _ fs'']) simp
qed

end
