(* ===== verification/Monitoring.thy ===== *)
theory Monitoring
  imports Routes_Facts
begin

text \<open>
  \<open>enjoliver/monitoring.py\<close>: the counters around the requests of the API, and around the transactions
  of a database. A counter of the prometheus client is the list of the label tuples it was increased
  with, the latest first; a histogram the list of labels and observed durations. The client, Flask's
  choice of the rule of a request (empty for a path without one) and the qualified names of exception
  classes are arguments. Whether Flask runs the functions registered with \<open>after_request\<close> on the
  answer to an exception that no handler caught depends on its version: it is the argument \<open>finalizes\<close>.
\<close>

section \<open>Counters\<close>

type_synonym counter = "string list list"
type_synonym histogram = "(string list \<times> int) list"

definition inc :: "string list \<Rightarrow> counter \<Rightarrow> counter" where
  "inc ls c = ls # c"

definition observe :: "string list \<Rightarrow> int \<Rightarrow> histogram \<Rightarrow> histogram" where
  "observe ls t h = (ls, t) # h"

text \<open>The value of a counter for labels.\<close>

definition value_of :: "counter \<Rightarrow> string list \<Rightarrow> nat" where
  "value_of c ls = count_list c ls"

section \<open>Requests\<close>

record metrics =
  request_latency :: histogram
  request_count :: counter
  status_count :: counter
  exception_count :: counter

definition no_metrics :: metrics where
  "no_metrics = \<lparr>request_latency = [], request_count = [], status_count = [], exception_count = []\<rparr>"

record libraries =
  url_rule :: "request \<Rightarrow> string"
  class_name :: "exn \<Rightarrow> string"
  finalizes :: bool

definition start_measure :: "libraries \<Rightarrow> request \<Rightarrow> metrics \<Rightarrow> metrics" where
  "start_measure L rq M = M\<lparr>request_count := inc [rq_method rq, url_rule L rq] (request_count M)\<rparr>"

definition count_status :: "libraries \<Rightarrow> request \<Rightarrow> int \<Rightarrow> response \<Rightarrow> metrics \<Rightarrow> metrics" where
  "count_status L rq duration r M =
     M\<lparr>status_count := inc [rq_method rq, url_rule L rq, show_nat (status r)] (status_count M),
       request_latency := observe [rq_method rq, url_rule L rq] duration (request_latency M)\<rparr>"

definition log_exception :: "libraries \<Rightarrow> request \<Rightarrow> exn \<Rightarrow> metrics \<Rightarrow> metrics" where
  "log_exception L rq x M =
     M\<lparr>exception_count := inc [rq_method rq, url_rule L rq, class_name L x] (exception_count M)\<rparr>"

text \<open>What the handler of a request comes to, before an exception is turned into an answer.\<close>

definition dispatch :: "'c server \<Rightarrow> request \<Rightarrow> ('c api, response) act" where
  "dispatch S rq s =
     (case routes_of S rq of
        [] \<Rightarrow> (ok not_found, s)
      | hs \<Rightarrow>
          (case map_of hs (rq_method rq) of
             None \<Rightarrow> (ok (plain ''Method Not Allowed'' 405), s)
           | Some h \<Rightarrow> h s))"

lemma serve_dispatch:
  "serve S rq s = (case dispatch S rq s of (Inl _, s') \<Rightarrow> (server_error, s') | (Inr r, s') \<Rightarrow> (r, s'))"
  by (simp add: serve_def dispatch_def split: list.split option.split)

text \<open>A request to an application that \<open>monitor_flask\<close> has been given.\<close>

definition monitored :: "libraries \<Rightarrow> 'c server \<Rightarrow> request \<Rightarrow> int \<Rightarrow> 'c api \<times> metrics \<Rightarrow> response \<times> 'c api \<times> metrics" where
  "monitored L S rq duration sm =
     (let M = start_measure L rq (snd sm) in
      case dispatch S rq (fst sm) of
        (Inr r, s') \<Rightarrow> (r, s', count_status L rq duration r M)
      | (Inl x, s') \<Rightarrow>
          (let M' = log_exception L rq x M in
           (server_error, s', if finalizes L then count_status L rq duration server_error M' else M')))"

primrec monitored_run :: "libraries \<Rightarrow> 'c server \<Rightarrow> (request \<times> int) list \<Rightarrow> 'c api \<times> metrics \<Rightarrow> response list \<times> 'c api \<times> metrics" where
  "monitored_run L S [] sm = ([], sm)"
| "monitored_run L S (q # qs) sm =
     (case monitored L S (fst q) (snd q) sm of (r, sm') \<Rightarrow>
       (case monitored_run L S qs sm' of (rs, sm'') \<Rightarrow> (r # rs, sm'')))"

section \<open>Transactions\<close>

text \<open>The singleton: the first construction makes the counters, a later one returns the same object.\<close>

record db_metrics =
  db_latency :: histogram
  db_requests :: counter
  db_retries :: counter
  db_exceptions :: counter

definition DatabaseMonitoring_init :: "db_metrics option \<Rightarrow> db_metrics" where
  "DatabaseMonitoring_init one =
     (case one of None \<Rightarrow> \<lparr>db_latency = [], db_requests = [], db_retries = [], db_exceptions = []\<rparr> | Some m \<Rightarrow> m)"

definition observe_transaction :: "string \<Rightarrow> (exn \<Rightarrow> string) \<Rightarrow> int \<Rightarrow> 'a result \<Rightarrow> db_metrics \<Rightarrow> 'a result \<times> db_metrics" where
  "observe_transaction caller type_name latency outcome m =
     (let m1 = (case outcome of Inl x \<Rightarrow> m\<lparr>db_exceptions := inc [caller, type_name x] (db_exceptions m)\<rparr> | Inr _ \<Rightarrow> m) in
      (outcome, m1\<lparr>db_latency := observe [caller] latency (db_latency m1), db_requests := inc [caller] (db_requests m1)\<rparr>))"

section \<open>What the counters say\<close>

lemma monitored_serves: "fst (monitored L S rq t sm) = fst (serve S rq (fst sm))" "fst (snd (monitored L S rq t sm)) = snd (serve S rq (fst sm))"
  by (simp_all add: monitored_def serve_dispatch Let_def split: prod.split sum.split)

lemma monitored_run_step:
  "fst (monitored_run L S (q # qs) sm) = fst (monitored L S (fst q) (snd q) sm) # fst (monitored_run L S qs (snd (monitored L S (fst q) (snd q) sm)))"
  "snd (monitored_run L S (q # qs) sm) = snd (monitored_run L S qs (snd (monitored L S (fst q) (snd q) sm)))"
  by (simp_all split: prod.split)

lemma monitored_run_serves:
  "fst (monitored_run L S qs sm) = fst (run S (map fst qs) (fst sm))" "fst (snd (monitored_run L S qs sm)) = snd (run S (map fst qs) (fst sm))"
  by (induction qs arbitrary: sm)
    (simp_all add: monitored_run_step run_step monitored_serves del: monitored_run.simps(2) run.simps(2))

lemma monitored_requests:
  "request_count (snd (snd (monitored L S rq t sm))) = [rq_method rq, url_rule L rq] # request_count (snd sm)"
  by (simp add: monitored_def Let_def start_measure_def count_status_def log_exception_def inc_def split: prod.split sum.split)

lemma monitored_statuses:
  "finalizes L \<Longrightarrow> status_count (snd (snd (monitored L S rq t sm))) =
     [rq_method rq, url_rule L rq, show_nat (status (fst (monitored L S rq t sm)))] # status_count (snd sm)"
  by (simp add: monitored_def Let_def start_measure_def count_status_def log_exception_def inc_def split: prod.split sum.split)

text \<open>
  C21. Monitoring only counts: a monitored application answers what the application answers and ends in
  the same state; after a run from empty counters the request counter has for a method and a rule the
  number of requests with them, and the response counter for a method, a rule and a status the number
  of those answered with it, the unhandled exceptions among them (where Flask finalises their answers).
\<close>

theorem metrics_count_requests:
  assumes "finalizes L"
  shows "fst (monitored_run L S qs (s, no_metrics)) = fst (run S (map fst qs) s) \<and>
    fst (snd (monitored_run L S qs (s, no_metrics))) = snd (run S (map fst qs) s) \<and>
    value_of (request_count (snd (snd (monitored_run L S qs (s, no_metrics))))) [v, u] =
      length [q \<leftarrow> qs. rq_method (fst q) = v \<and> url_rule L (fst q) = u] \<and>
    value_of (status_count (snd (snd (monitored_run L S qs (s, no_metrics))))) [v, u, show_nat n] =
      length [(q, r) \<leftarrow> zip qs (fst (run S (map fst qs) s)). rq_method (fst q) = v \<and> url_rule L (fst q) = u \<and> status r = n]"
proof -
  have r: "value_of (request_count (snd (snd (monitored_run L S qs sm)))) [v, u] =
      value_of (request_count (snd sm)) [v, u] + length [q \<leftarrow> qs. rq_method (fst q) = v \<and> url_rule L (fst q) = u]" for sm
    by (induction qs arbitrary: sm) (auto simp: monitored_run_step monitored_requests value_of_def simp del: monitored_run.simps(2))
  have c: "value_of (status_count (snd (snd (monitored_run L S qs sm)))) [v, u, show_nat n] =
      value_of (status_count (snd sm)) [v, u, show_nat n] +
      length [(q, r) \<leftarrow> zip qs (fst (run S (map fst qs) (fst sm))). rq_method (fst q) = v \<and> url_rule L (fst q) = u \<and> status r = n]" for sm
    by (induction qs arbitrary: sm)
      (auto simp: monitored_run_step run_step monitored_statuses [OF assms] monitored_serves value_of_def show_nat_inj
        simp del: monitored_run.simps(2) run.simps(2))
  show ?thesis using monitored_run_serves [of L S qs "(s, no_metrics)"] r [of "(s, no_metrics)"] c [of "(s, no_metrics)"]
    by (simp add: no_metrics_def value_of_def)
qed

definition sample_libraries :: libraries where
  "sample_libraries = \<lparr>url_rule = rq_path, class_name = (\<lambda>_. ''builtins.Exception''), finalizes = True\<rparr>"

theorem metrics_count_requests_witness:
  "value_of (request_count (snd (snd (monitored_run sample_libraries sample_server
     [(boot_request 7, 3), (install_request 9, 4), (boot_request 11, 2)] (sample_state empty_db, no_metrics))))) [''GET'', ''/ignition''] = 2 \<and>
   value_of (status_count (snd (snd (monitored_run sample_libraries sample_server
     [(boot_request 7, 3)] (sample_state empty_db, no_metrics))))) [''GET'', ''/ignition'', show_nat 503] = 1"
proof -
  have f: "finalizes sample_libraries" by (simp add: sample_libraries_def)
  have "value_of (request_count (snd (snd (monitored_run sample_libraries sample_server
     [(boot_request 7, 3), (install_request 9, 4), (boot_request 11, 2)] (sample_state empty_db, no_metrics))))) [''GET'', ''/ignition''] = 2"
    using metrics_count_requests [OF f, of sample_server "[(boot_request 7, 3), (install_request 9, 4), (boot_request 11, 2)]"
        "sample_state empty_db" "''GET''" "''/ignition''"]
    by (simp add: sample_libraries_def boot_request_def install_request_def sample_request_def)
  moreover have "status (fst (serve sample_server (boot_request 7) (sample_state empty_db))) = 503"
    by (simp add: serve_ignition [OF boot_request_boots(1)] ignition_route_def act_simps sample_state_def ref_cache_ops_def
        ref_get_def plain_def ignition_pxe_def) (simp add: boot_request_def sample_request_def)
  then have "value_of (status_count (snd (snd (monitored_run sample_libraries sample_server
     [(boot_request 7, 3)] (sample_state empty_db, no_metrics))))) [''GET'', ''/ignition'', show_nat 503] = 1"
    using metrics_count_requests [OF f, of sample_server "[(boot_request 7, 3)]" "sample_state empty_db" "''GET''" "''/ignition''" 503]
    by (simp add: run_step del: run.simps(2)) (simp add: sample_libraries_def boot_request_def sample_request_def)
  ultimately show ?thesis by simp
qed

end
