(* ===== verification/Player.thy ===== *)
theory Player
  imports Validate Scheduler
begin

text \<open>
  \<open>src/enjoliver-testsuite/euid/kvm_player.py\<close>, first part: what every end-to-end test shares: the
  paths, the environment and the configuration of the class, the processes it starts, the cleaning
  before and after, the virtual machines and their restart. What a test does to the outside is the
  record \<open>lab\<close> over a state of its own: HTTP calls, commands, processes, a socket, the client of Kubernetes,
  files, the clock and sleeping some milliseconds. \<open>display\<close> only prints and is left out.
\<close>

section \<open>The outside of a test\<close>

text \<open>A call of \<open>requests\<close>: \<open>verify\<close> is a truth value or a path, \<open>cert\<close> a path per element.\<close>

record http_call =
  hc_verb :: string
  hc_url :: string
  hc_headers :: "(string \<times> string) list"
  hc_data :: "json option"
  hc_verify :: json
  hc_cert :: "string list"

text \<open>What the tests read of a pod.\<close>

record pod =
  pod_ip :: json
  host_ip :: json
  phase :: string

text \<open>
  A command answers its exit code and its output, or raises when there is no such program; a process is
  started with what its target does in the child: preparing, and then the program and the environment
  it becomes. The client of Kubernetes is given the host it is made for; an object is created by the name
  of the method, in a namespace or in none. \<open>yaml\<close> reads and writes documents.
\<close>

type_synonym environ = "(string \<times> string) list"

record 's lab =
  l_http :: "http_call \<Rightarrow> 's \<Rightarrow> reply result \<times> 's"
  l_call :: "string list \<Rightarrow> 's \<Rightarrow> (int \<times> string) result \<times> 's"
  l_connect :: "string \<Rightarrow> int \<Rightarrow> 's \<Rightarrow> int"
  l_start :: "string \<Rightarrow> ('s, string list \<times> environ) act \<Rightarrow> 's \<Rightarrow> int \<times> 's"
  l_alive :: "int \<Rightarrow> 's \<Rightarrow> bool"
  l_signal :: "int \<Rightarrow> int \<Rightarrow> 's \<Rightarrow> unit result \<times> 's"
  l_join :: "int \<Rightarrow> int \<Rightarrow> 's \<Rightarrow> 's"
  l_nodes :: "string \<Rightarrow> 's \<Rightarrow> nat result \<times> 's"
  l_pods :: "string \<Rightarrow> string \<Rightarrow> string \<Rightarrow> 's \<Rightarrow> pod list result \<times> 's"
  l_create :: "string \<Rightarrow> string \<Rightarrow> string option \<Rightarrow> json \<Rightarrow> 's \<Rightarrow> unit result \<times> 's"
  l_yaml :: "string \<Rightarrow> json result"
  l_yaml_text :: "json \<Rightarrow> string"
  l_fs :: "'s \<Rightarrow> fs"
  l_set_fs :: "fs \<Rightarrow> 's \<Rightarrow> 's"
  l_now :: "'s \<Rightarrow> nat"
  l_date :: "'s \<Rightarrow> string"
  l_sleep :: "nat \<Rightarrow> 's \<Rightarrow> 's"

section \<open>Steps of a test\<close>

definition pause_ms :: "'s lab \<Rightarrow> nat \<Rightarrow> ('s, unit) act" where
  "pause_ms L n s = (ok (), l_sleep L n s)"

definition lab_files :: "'s lab \<Rightarrow> (fs \<Rightarrow> fs result) \<Rightarrow> ('s, unit) act" where
  "lab_files L f s = (case f (l_fs L s) of Inl x \<Rightarrow> (raise x, s) | Inr g \<Rightarrow> (ok (), l_set_fs L g s))"

definition lab_write :: "'s lab \<Rightarrow> string \<Rightarrow> string \<Rightarrow> ('s, unit) act" where
  "lab_write L p t = lab_files L (\<lambda>f. write_file f p t)"

definition lab_see :: "'s lab \<Rightarrow> (fs \<Rightarrow> 'a result) \<Rightarrow> ('s, 'a) act" where
  "lab_see L f s = (f (l_fs L s), s)"

definition lab_read :: "'s lab \<Rightarrow> string \<Rightarrow> ('s, string) act" where
  "lab_read L p = lab_see L (\<lambda>f. read_file f p)"

text \<open>\<open>requests.get\<close> and \<open>requests.post\<close> with their defaults and with more.\<close>

definition http_get :: "'s lab \<Rightarrow> string \<Rightarrow> ('s, reply) act" where
  "http_get L url = l_http L \<lparr>hc_verb = ''GET'', hc_url = url, hc_headers = [], hc_data = None, hc_verify = JBool True, hc_cert = []\<rparr>"

definition http_get_tls :: "'s lab \<Rightarrow> string \<Rightarrow> json \<Rightarrow> string list \<Rightarrow> ('s, reply) act" where
  "http_get_tls L url verify cert =
     l_http L \<lparr>hc_verb = ''GET'', hc_url = url, hc_headers = [], hc_data = None, hc_verify = verify, hc_cert = cert\<rparr>"

definition http_post :: "'s lab \<Rightarrow> string \<Rightarrow> (string \<times> string) list \<Rightarrow> json option \<Rightarrow> json \<Rightarrow> ('s, reply) act" where
  "http_post L url headers data verify =
     l_http L \<lparr>hc_verb = ''POST'', hc_url = url, hc_headers = headers, hc_data = data, hc_verify = verify, hc_cert = []\<rparr>"

text \<open>\<open>subprocess.call\<close> and \<open>subprocess.check_output\<close>.\<close>

definition call :: "'s lab \<Rightarrow> string list \<Rightarrow> ('s, int) act" where
  "call L argv = bindA (l_call L argv) (\<lambda>(code, _). ret code)"

definition check_output :: "'s lab \<Rightarrow> string list \<Rightarrow> ('s, string) act" where
  "check_output L argv = bindA (l_call L argv) (\<lambda>(code, out). if code \<noteq> 0 then raiseA CalledProcessError else ret out)"

text \<open>\<open>try: m .. except Exception: pass\<close>, the result when there is one.\<close>

definition attempt :: "('s, 'a) act \<Rightarrow> ('s, 'a option) act" where
  "attempt m = tryA (bindA m (\<lambda>a. ret (Some a))) (\<lambda>_. Some (ret None))"

text \<open>\<open>for t in range(tries)\<close> with a body that leaves the loop with a value or goes on.\<close>

fun poll_from :: "(nat \<Rightarrow> ('s, 'a option) act) \<Rightarrow> nat \<Rightarrow> nat \<Rightarrow> ('s, 'a option) act" where
  "poll_from body t 0 = ret None"
| "poll_from body t (Suc n) =
     bindA (body t) (\<lambda>r. case r of None \<Rightarrow> poll_from body (Suc t) n | Some a \<Rightarrow> ret (Some a))"

definition poll :: "nat \<Rightarrow> (nat \<Rightarrow> ('s, 'a option) act) \<Rightarrow> ('s, 'a option) act" where
  "poll tries body = poll_from body 0 tries"

text \<open>The usual body: try, and sleep when that raised.\<close>

definition or_sleep :: "'s lab \<Rightarrow> nat \<Rightarrow> ('s, 'a) act \<Rightarrow> ('s, 'a option) act" where
  "or_sleep L ms m = bindA (attempt m) (\<lambda>r. if r = None then bindA (pause_ms L ms) (\<lambda>_. ret None) else ret r)"

text \<open>
  \<open>for i, x in enumerate(xs): .. xs.pop(i)\<close>: the list shrinks under the iterator, whose index goes on,
  so the element after one that is taken is not visited in this pass.
\<close>

definition remove_at :: "nat \<Rightarrow> 'a list \<Rightarrow> 'a list" where
  "remove_at i xs = take i xs @ drop (Suc i) xs"

lemma length_remove_at [simp]: "i < length xs \<Longrightarrow> length (remove_at i xs) = length xs - 1"
  by (simp add: remove_at_def)

function pop_pass :: "('a \<Rightarrow> ('s, bool) act) \<Rightarrow> nat \<Rightarrow> 'a list \<Rightarrow> ('s, 'a list) act" where
  "pop_pass f i xs =
     (if i < length xs then bindA (f (xs ! i)) (\<lambda>gone. pop_pass f (Suc i) (if gone then remove_at i xs else xs))
      else ret xs)"
  by pat_completeness auto
termination by (relation "measure (\<lambda>(f, i, xs). length xs - i)") (auto simp: remove_at_def)

declare pop_pass.simps [simp del]

text \<open>The passes, until nothing is left or the tries are used up.\<close>

fun pop_tries :: "('a list \<Rightarrow> ('s, 'a list) act) \<Rightarrow> nat \<Rightarrow> 'a list \<Rightarrow> ('s, 'a list) act" where
  "pop_tries pass 0 xs = ret xs"
| "pop_tries pass (Suc n) xs = (if xs = [] then ret [] else bindA (pass xs) (pop_tries pass n))"

text \<open>\<open>while c: b\<close>, where \<open>b\<close> may return from the function. It need not end.\<close>

partial_function (option) whileA :: "('s \<Rightarrow> bool) \<Rightarrow> ('s, 'a option) act \<Rightarrow> 's \<Rightarrow> ('a option result \<times> 's) option" where
  "whileA c b s =
     (if c s then
        (case b s of
           (r, s') \<Rightarrow> (case r of Inl x \<Rightarrow> Some (raise x, s')
             | Inr v \<Rightarrow> (case v of Some a \<Rightarrow> Some (ok (Some a), s') | None \<Rightarrow> whileA c b s')))
      else Some (ok None, s))"

text \<open>\<open>"%d" % v\<close>\<close>

fun fmt_int :: "json \<Rightarrow> string result" where
  "fmt_int (JInt i) = ok (show_int i)"
| "fmt_int (JBool b) = ok (if b then ''1'' else ''0'')"
| "fmt_int (JReal s) = bindE (int_of_real s) (\<lambda>i. ok (show_int i))"
| "fmt_int _ = raise TypeError"

section \<open>The module and the class\<close>

definition attempt_os :: "('s, 'a) act \<Rightarrow> ('s, 'a option) act" where
  "attempt_os m = tryA (bindA m (\<lambda>a. ret (Some a))) (\<lambda>x. if x = IOError then Some (ret None) else None)"

definition is_virtinstall :: "'s lab \<Rightarrow> ('s, int) act" where
  "is_virtinstall L =
     bindA (attempt_os (call L [''virt-install'', ''--version''])) (\<lambda>r. case r of None \<Rightarrow> ret 2 | Some code \<Rightarrow> ret code)"

text \<open>Seconds to sleep, by the first line on hardware virtualisation; an \<open>OSError\<close> ends the looking.\<close>

definition kvm_factor :: "string \<Rightarrow> nat" where
  "kvm_factor text =
     (case filter (str_contains ''QEMU: Checking for hardware virtualization'') (split_on CHR 0x0A text) of
        [] \<Rightarrow> 3 | l # _ \<Rightarrow> if str_contains ''PASS'' l then 3 else 6)"

definition get_kvm_sleep :: "'s lab \<Rightarrow> string \<Rightarrow> ('s, nat) act" where
  "get_kvm_sleep L f =
     bindA (attempt_os (bindA (lab_write L f []) (\<lambda>_.
       bindA (l_call L [''virt-host-validate'', ''qemu'']) (\<lambda>(_, out).
       bindA (lab_write L f out) (\<lambda>_. lab_read L f))))) (\<lambda>text.
     case text of None \<Rightarrow> ret 3
     | Some t \<Rightarrow> bindA (attempt_os (lab_files L (\<lambda>d. remove_path d f))) (\<lambda>_. ret (kvm_factor t)))"

text \<open>The attributes of the class: \<open>euid_path\<close> is the directory of the module, \<open>pl_sleep\<close> in seconds.\<close>

record player =
  euid_path :: string
  environ :: environ
  api_port :: int
  pl_sleep :: nat
  ec :: config

definition tests_path :: "player \<Rightarrow> string" where
  "tests_path P = dirname (euid_path P)"

definition project_path :: "player \<Rightarrow> string" where
  "project_path P = dirname (tests_path P)"

definition runtime_path :: "player \<Rightarrow> string" where
  "runtime_path P = project_path P @ ''/runtime''"

definition rkt_bin :: "player \<Rightarrow> string" where
  "rkt_bin P = runtime_path P @ ''/rkt/rkt''"

definition helm_bin :: "player \<Rightarrow> string" where
  "helm_bin P = runtime_path P @ ''/helm/helm''"

definition matchbox_bin :: "player \<Rightarrow> string" where
  "matchbox_bin P = runtime_path P @ ''/matchbox/matchbox''"

definition acserver_bin :: "player \<Rightarrow> string" where
  "acserver_bin P = runtime_path P @ ''/run_acserver.py''"

definition ssh_private_key :: "player \<Rightarrow> string" where
  "ssh_private_key P = path_join (tests_path P) ''testing.id_rsa''"

definition test_certs_path :: "player \<Rightarrow> string" where
  "test_certs_path P = tests_path P @ ''/test_certs''"

definition test_matchbox_path :: "player \<Rightarrow> string" where
  "test_matchbox_path P = tests_path P @ ''/test_matchbox''"

definition api_ip :: string where
  "api_ip = ''172.20.0.1''"

definition uri_of_port :: "int \<Rightarrow> string" where
  "uri_of_port port = ''http://'' @ api_ip @ '':'' @ show_int port"

definition player_uri :: "player \<Rightarrow> string" where
  "player_uri P = uri_of_port (api_port P)"

definition ram_kvm_node_memory_mb :: int where
  "ram_kvm_node_memory_mb = 9216"

definition getenv :: "environ \<Rightarrow> string \<Rightarrow> string \<Rightarrow> string" where
  "getenv env k dflt = (case map_of env k of None \<Rightarrow> dflt | Some v \<Rightarrow> v)"

definition setenv :: "string \<Rightarrow> string \<Rightarrow> environ \<Rightarrow> environ" where
  "setenv k v env = (k, v) # filter (\<lambda>e. fst e \<noteq> k) env"

text \<open>What the class puts into the environment before it reads the configuration.\<close>

definition class_environ :: "environ \<Rightarrow> string \<Rightarrow> int \<Rightarrow> environ" where
  "class_environ env euid port =
     setenv ''ENJOLIVER_KUBERNETES_APISERVER_INSECURE_BIND_ADDRESS'' ''0.0.0.0''
     (setenv ''ENJOLIVER_MATCHBOX_ASSETS'' (dirname (dirname euid) @ ''/matchbox/assets'')
     (setenv ''ENJOLIVER_MATCHBOX_PATH'' (dirname euid @ ''/test_matchbox'')
     (setenv ''ENJOLIVER_API_URI'' (uri_of_port port) env)))"

definition player_class :: "'s lab \<Rightarrow> environ \<Rightarrow> string \<Rightarrow> location \<Rightarrow> json result \<Rightarrow> ('s, player) act" where
  "player_class L env euid here yaml_load =
     bindA (liftA (int_of_str (getenv env ''MATCHBOX_PORT'' ''8080''))) (\<lambda>_.
     bindA (liftA (int_of_str (getenv env ''API_PORT'' ''5000''))) (\<lambda>port.
     bindA (get_kvm_sleep L ''/tmp/virt-host-validate'') (\<lambda>d.
     bindA (liftA (EnjoliverConfig_init (map_of (class_environ env euid port)) here yaml_load)) (\<lambda>c.
       ret \<lparr>euid_path = euid, environ = class_environ env euid port, api_port = port, pl_sleep = d, ec = c\<rparr>))))"

text \<open>\<open>time.sleep(self.testing_sleep_seconds)\<close>\<close>

definition nap_ms :: "player \<Rightarrow> nat" where
  "nap_ms P = 1000 * pl_sleep P"

definition nap :: "'s lab \<Rightarrow> player \<Rightarrow> ('s, unit) act" where
  "nap L P = pause_ms L (nap_ms P)"

section \<open>The processes of the class\<close>

text \<open>The targets, up to the program they become.\<close>

definition process_target_matchbox :: "player \<Rightarrow> string \<Rightarrow> ('s, string list \<times> environ) act" where
  "process_target_matchbox P python =
     ret ([python, project_path P @ ''/manage.py'', ''matchbox''],
       setenv ''TERM'' ''xterm'' (setenv ''MATCHBOX_PATH'' (test_matchbox_path P) (environ P)))"

definition process_target_acserver :: "player \<Rightarrow> ('s, string list \<times> environ) act" where
  "process_target_acserver P = ret ([acserver_bin P], setenv ''TERM'' ''xterm'' (environ P))"

text \<open>\<open>shutil.rmtree\<close> with its errors ignored.\<close>

definition rmtree :: "string \<Rightarrow> fs \<Rightarrow> fs" where
  "rmtree p f =
     (if is_dir f p then
        f\<lparr>f_dirs := filter (\<lambda>q. q \<noteq> p \<and> \<not> starts_with (p @ ''/'') q) (f_dirs f),
          f_files := filter (\<lambda>q. \<not> starts_with (p @ ''/'') (fst q)) (f_files f)\<rparr>
      else f)"

definition process_target_api :: "'s lab \<Rightarrow> player \<Rightarrow> string \<Rightarrow> ('s, string list \<times> environ) act" where
  "process_target_api L P python =
     (let journal = euid_path P @ ''/ignition_journal''; shell = (\<lambda>c. l_call L [''/bin/sh'', ''-c'', c]) in
      bindA (lab_files L (\<lambda>f. ok (rmtree journal f))) (\<lambda>_.
      bindA (shell (''sudo -u postgres psql -c '' @ [CHR 0x27] @ ''drop database enjoliver_local;'' @ [CHR 0x27])) (\<lambda>_.
      bindA (shell (''sudo -u postgres psql -c '' @ [CHR 0x27] @ ''create database enjoliver_local;'' @ [CHR 0x27])) (\<lambda>_.
        ret ([python, project_path P @ ''/manage.py'', ''gunicorn''],
          setenv ''ENJOLIVER_SYNC_NOTIFY_TTL'' ''0'' (setenv ''ENJOLIVER_IGNITION_JOURNAL_DIR'' journal (environ P)))))))"

definition term_option :: "player \<Rightarrow> string" where
  "term_option P = ''--set-env=TERM='' @ getenv (environ P) ''TERM'' ''xterm''"

definition local_config :: "player \<Rightarrow> string" where
  "local_config P = ''--local-config='' @ tests_path P"

definition process_target_dnsmasq :: "player \<Rightarrow> ('s, string list \<times> environ) act" where
  "process_target_dnsmasq P =
     ret ([rkt_bin P, local_config P, ''--mount'', ''volume=config,target=/etc/dnsmasq.conf'',
       ''--mount'', ''volume=resolv,target=/etc/resolv.conf'', ''run'', ''enjoliver.local/dnsmasq:latest'',
       ''--insecure-options=all'', ''--net=host'', ''--interactive'', ''--caps-retain=all'', term_option P,
       ''--uuid-file-save=/tmp/dnsmasq.uuid'', ''--volume'', ''resolv,kind=host,source=/etc/resolv.conf'',
       ''--volume'', ''config,kind=host,source='' @ tests_path P @ ''/dnsmasq-rack0.conf''], environ P)"

definition lldp_image :: "player \<Rightarrow> string result" where
  "lldp_image P = str_attr (ec P) ''lldp_image_url''"

definition fetch_lldpd :: "'s lab \<Rightarrow> player \<Rightarrow> ('s, unit) act" where
  "fetch_lldpd L P =
     bindA (liftA (lldp_image P)) (\<lambda>image.
     bindA (call L [rkt_bin P, local_config P, ''fetch'', ''--insecure-options=all'', image]) (\<lambda>code.
       assertA (code = 0)))"

definition process_target_lldpd :: "player \<Rightarrow> ('s, string list \<times> environ) act" where
  "process_target_lldpd P =
     bindA (liftA (lldp_image P)) (\<lambda>image.
       ret ([rkt_bin P, local_config P, ''run'', image, ''--insecure-options=all'', ''--net=host'',
         ''--interactive'', term_option P, ''--exec'', ''/usr/sbin/lldpd'', ''--'', ''-dd''], environ P))"

text \<open>The socket is tried every half second.\<close>

definition dns_masq_running :: "'s lab \<Rightarrow> ('s, unit) act" where
  "dns_masq_running L =
     bindA (poll 120 (\<lambda>_ s. if l_connect L api_ip 53 s = 0 then ret (Some ()) s
       else bindA (pause_ms L 500) (\<lambda>_. ret None) s)) (\<lambda>r. assertA (r \<noteq> None))"

definition acserver_is_running :: "'s lab \<Rightarrow> ('s, unit) act" where
  "acserver_is_running L =
     (let get = bindA (http_get L ''http://enjoliver.local'') (\<lambda>_. ret ()) in
      bindA (poll 20 (\<lambda>_. or_sleep L 500 get)) (\<lambda>r. if r = None then get else ret ()))"

text \<open>\<open>p_list\<close>, the processes to end: name and number.\<close>

type_synonym children = "(string \<times> int) list"

definition is_alive :: "'s lab \<Rightarrow> int \<Rightarrow> ('s, bool) act" where
  "is_alive L pid s = (ok (l_alive L pid s), s)"

definition launch :: "'s lab \<Rightarrow> string \<Rightarrow> ('s, string list \<times> environ) act \<Rightarrow> ('s, int) act" where
  "launch L name target s = (case l_start L name target s of (pid, s') \<Rightarrow> (ok pid, s'))"

text \<open>Start a process, wait, and demand that it lives.\<close>

definition launch_alive :: "'s lab \<Rightarrow> string \<Rightarrow> ('s, string list \<times> environ) act \<Rightarrow> nat \<Rightarrow> ('s, int) act" where
  "launch_alive L name target ms =
     bindA (launch L name target) (\<lambda>pid. bindA (pause_ms L ms) (\<lambda>_.
     bindA (is_alive L pid) (\<lambda>a. bindA (assertA a) (\<lambda>_. ret pid))))"

definition set_matchbox :: "'s lab \<Rightarrow> player \<Rightarrow> string \<Rightarrow> children \<Rightarrow> ('s, children) act" where
  "set_matchbox L P python ps =
     bindA (launch_alive L ''matchbox'' (process_target_matchbox P python) 500) (\<lambda>pid. ret (ps @ [(''matchbox'', pid)]))"

definition set_rack0 :: "'s lab \<Rightarrow> player \<Rightarrow> ('s, unit) act" where
  "set_rack0 L P =
     bindA (call L [rkt_bin P, local_config P, ''run'', ''--net=rack0'', ''--interactive'', term_option P,
       ''--insecure-options=all'', ''coreos.com/rkt/stage1-coreos'', ''--exec'', ''/bin/bash'', ''--'', ''-c'', ''exit'', ''0'']) (\<lambda>_.
     bindA (call L [''ip'', ''link'', ''show'', ''rack0'']) (\<lambda>code. assertA (code = 0)))"

definition set_dnsmasq :: "'s lab \<Rightarrow> player \<Rightarrow> children \<Rightarrow> ('s, children) act" where
  "set_dnsmasq L P ps =
     bindA (launch_alive L ''dnsmasq'' (process_target_dnsmasq P) 500) (\<lambda>pid.
     bindA (dns_masq_running L) (\<lambda>_. ret (ps @ [(''dnsmasq'', pid)])))"

definition set_api :: "'s lab \<Rightarrow> player \<Rightarrow> string \<Rightarrow> children \<Rightarrow> ('s, children) act" where
  "set_api L P python ps =
     bindA (launch_alive L ''api'' (process_target_api L P python) 5000) (\<lambda>pid. ret (ps @ [(''api'', pid)]))"

text \<open>The image server is allowed to have ended, because one may run already.\<close>

definition set_acserver :: "'s lab \<Rightarrow> player \<Rightarrow> children \<Rightarrow> ('s, children) act" where
  "set_acserver L P ps =
     bindA (launch L ''acserver'' (process_target_acserver P)) (\<lambda>pid. bindA (pause_ms L 1000) (\<lambda>_.
     bindA (is_alive L pid) (\<lambda>a. ret (if a then ps @ [(''acserver'', pid)] else ps))))"

definition set_lldp :: "'s lab \<Rightarrow> player \<Rightarrow> children \<Rightarrow> ('s, children) act" where
  "set_lldp L P ps =
     bindA (fetch_lldpd L P) (\<lambda>_.
     bindA (launch_alive L ''lldp'' (process_target_lldpd P) 500) (\<lambda>pid. ret (ps @ [(''lldp'', pid)])))"

text \<open>The class is abstract: a test has a \<open>setUpClass\<close> of its own.\<close>

definition setUpClass :: "('s, unit) act" where
  "setUpClass = raiseA NotImplementedError"

section \<open>Cleaning\<close>

text \<open>Take the files of a directory that satisfy a test.\<close>

definition remove_some :: "'s lab \<Rightarrow> string \<Rightarrow> (string \<Rightarrow> bool) \<Rightarrow> (string \<Rightarrow> string) \<Rightarrow> ('s, unit) act" where
  "remove_some L d p where_is =
     bindA (lab_see L (\<lambda>f. list_dir f d)) (\<lambda>names.
       forA (\<lambda>n. lab_files L (\<lambda>f. remove_path f (where_is n))) (filter p names))"

definition clean_sandbox :: "'s lab \<Rightarrow> player \<Rightarrow> ('s, unit) act" where
  "clean_sandbox L P =
     bindA (forA (\<lambda>k. let d = test_matchbox_path P @ ''/'' @ k in
       remove_some L d (str_contains ''.json'') (\<lambda>n. d @ ''/'' @ n)) [''profiles'', ''groups'']) (\<lambda>_.
     let certs = path_join (tests_path P) ''test_certs'' in
       remove_some L certs (\<lambda>n. n \<noteq> ''.gitkeep'') (path_join certs))"

text \<open>
  The prerequisites. The result is the code the process exits with, \<open>None\<close> when it goes on. The
  effective user is an argument.
\<close>

definition running_requirements :: "'s lab \<Rightarrow> player \<Rightarrow> nat \<Rightarrow> ('s, int option) act" where
  "running_requirements L P euid =
     (if euid \<noteq> 0 then raiseA RuntimeError
      else bindA (clean_sandbox L P) (\<lambda>_.
        lab_see L (\<lambda>f. ok
          (if \<not> is_file f (rkt_bin P) \<or> \<not> is_file f (matchbox_bin P) \<or> \<not> is_file f (acserver_bin P) then Some 2
           else if \<not> is_file f (ssh_private_key P) then Some 3 else None))))"

definition end_child :: "'s lab \<Rightarrow> int \<Rightarrow> ('s, unit) act" where
  "end_child L pid =
     bindA (is_alive L pid) (\<lambda>a.
       if a then
         bindA (l_signal L pid 15) (\<lambda>_. bindA (\<lambda>s. ret () (l_join L pid 10 s)) (\<lambda>_.
         bindA (is_alive L pid) (\<lambda>b. if b then l_signal L pid 9 else ret ())))
       else ret ())"

definition write_ending :: "'s lab \<Rightarrow> string \<Rightarrow> ('s, unit) act" where
  "write_ending L message s =
     lab_files L (\<lambda>f. write_file f ''/tmp/unittest.end''
       ((case map_of (f_files f) ''/tmp/unittest.end'' of None \<Rightarrow> [] | Some t \<Rightarrow> t) @ l_date L s @ '' '' @ message)) s"

definition tearDownClass :: "'s lab \<Rightarrow> player \<Rightarrow> string \<Rightarrow> children \<Rightarrow> ('s, unit) act" where
  "tearDownClass L P name ps =
     bindA (forA (\<lambda>p. end_child L (snd p)) ps) (\<lambda>_.
     bindA (call L [rkt_bin P, local_config P, ''gc'', ''--grace-period=0s'']) (\<lambda>_.
     bindA (clean_sandbox L P) (\<lambda>_.
     bindA (pause_ms L 3000) (\<lambda>_. write_ending L name))))"

definition api_healthz :: "'s lab \<Rightarrow> player \<Rightarrow> ('s, unit) act" where
  "api_healthz L P =
     (let ask = bindA (http_get L (player_uri P @ ''/healthz'')) (\<lambda>r. bindA (liftA (load_reply r)) (\<lambda>_. ret ())) in
      tryA ask (\<lambda>_. Some (bindA (pause_ms L 500) (\<lambda>_. ask))))"

definition setUp :: "'s lab \<Rightarrow> player \<Rightarrow> ('s, unit) act" where
  "setUp L P = bindA (clean_sandbox L P) (\<lambda>_. api_healthz L P)"

section \<open>Virtual machines\<close>

text \<open>A command of libvirt; only \<open>assertion\<close> makes its failure an exception.\<close>

definition virsh :: "'s lab \<Rightarrow> string list \<Rightarrow> bool \<Rightarrow> ('s, unit) act" where
  "virsh L cmd assertion =
     bindA (call L cmd) (\<lambda>code. if assertion \<and> code \<noteq> 0 then raiseA RuntimeError else ret ())"

definition clean_up_virtual_machine :: "'s lab \<Rightarrow> string \<Rightarrow> ('s, unit) act" where
  "clean_up_virtual_machine L name =
     forA (\<lambda>elt. virsh L elt False) [[''virsh'', ''destroy'', name], [''virsh'', ''undefine'', name],
       [''virsh'', ''vol-delete'', name @ ''.qcow2'', ''--pool'', ''default'']]"

text \<open>
  Memory in hundredths of a megabyte, since the default of a machine with a disk is 0.8 of the other, and
  1.2 of the default is given when there is more for each. Physical memory in bytes is an argument.
\<close>

definition get_optimized_memory :: "nat \<Rightarrow> int \<Rightarrow> int \<Rightarrow> int result" where
  "get_optimized_memory mem_bytes nb_nodes disk =
     (if nb_nodes = 0 then raise ZeroDivisionError
      else
        let node_memory = (int mem_bytes div (1024 ^ 3 * nb_nodes)) * 1024;
            default_memory = (if disk \<noteq> 0 then ram_kvm_node_memory_mb * 80 else ram_kvm_node_memory_mb * 100) in
        ok (if node_memory * 100 > default_memory then default_memory * 12 div 10 else default_memory))"

text \<open>\<open>round\<close> takes the even neighbour of a half.\<close>

definition round_half_even :: "int \<Rightarrow> int \<Rightarrow> int" where
  "round_half_even a b =
     (let q = a div b; r = \<bar>a - q * b\<bar>; m = \<bar>b\<bar> in if 2 * r < m \<or> 2 * r = m \<and> even q then q else q + 1)"

definition get_optimized_cpu :: "nat \<Rightarrow> int \<Rightarrow> int result" where
  "get_optimized_cpu cpu_count nb_nodes =
     (if nb_nodes = 0 then raise ZeroDivisionError else ok (round_half_even (int cpu_count) nb_nodes))"

text \<open>\<open>.*-(\d)$\<close>: one digit after a hyphen, at the end or before a final line feed.\<close>

definition machine_digit :: "string \<Rightarrow> nat option" where
  "machine_digit name =
     (let s = (if name \<noteq> [] \<and> last name = CHR 0x0A then butlast name else name); d = last s; h = butlast s in
      if s \<noteq> [] \<and> is_digit d \<and> h \<noteq> [] \<and> last h = CHR ''-'' \<and> CHR 0x0A \<notin> set h then Some (read_nat [d]) else None)"

definition two_digits :: "nat \<Rightarrow> string" where
  "two_digits n = (if n < 10 then ''0'' @ show_nat n else show_nat n)"

definition generate_mac_from_name :: "string \<Rightarrow> string result" where
  "generate_mac_from_name name =
     (case machine_digit name of
        None \<Rightarrow> raise AttributeError
      | Some k \<Rightarrow> if k + 1 > 99 then raise AssertionError else ok (''54:52:00:00:00:'' @ two_digits (k + 1)))"

text \<open>\<open>"%d" % memory\<close> drops the part behind the point.\<close>

definition create_virtual_machine :: "nat \<Rightarrow> nat \<Rightarrow> string \<Rightarrow> int \<Rightarrow> int \<Rightarrow> string list result" where
  "create_virtual_machine mem_bytes cpu_count name nb_node disk_gb =
     bindE (get_optimized_memory mem_bytes nb_node disk_gb) (\<lambda>mem.
     bindE (get_optimized_cpu cpu_count nb_node) (\<lambda>cpus.
     bindE (generate_mac_from_name name) (\<lambda>mac.
       ok [''virt-install'', ''--name'', name, ''--network=bridge:rack0,model=virtio'',
         ''--memory='' @ show_int (mem div 100), ''--vcpus='' @ show_int cpus, ''--cpu'', ''host'', ''--pxe'',
         ''--mac='' @ mac, ''--disk'', (if disk_gb = 0 then ''size=10'' else ''size='' @ show_int disk_gb),
         ''--os-type=linux'', ''--os-variant=generic'', ''--noautoconsole'', ''--check=disk_size=off'',
         ''--boot=hd,network''])))"

text \<open>A machine is started when it is off; one that cannot be started now stays for a later pass.\<close>

definition start_machine :: "'s lab \<Rightarrow> player \<Rightarrow> string \<Rightarrow> ('s, bool) act" where
  "start_machine L P m =
     tryA (bindA (virsh L [''virsh'', ''start'', m] True) (\<lambda>_. bindA (nap L P) (\<lambda>_. ret True)))
       (\<lambda>x. if x = RuntimeError then Some (ret False) else None)"

definition restart_pass :: "'s lab \<Rightarrow> player \<Rightarrow> string list \<Rightarrow> ('s, string list) act" where
  "restart_pass L P xs = bindA (pop_pass (start_machine L P) 0 xs) (\<lambda>ys. bindA (nap L P) (\<lambda>_. ret ys))"

definition kvm_restart_off_machines :: "'s lab \<Rightarrow> player \<Rightarrow> string list \<Rightarrow> nat \<Rightarrow> ('s, unit) act" where
  "kvm_restart_off_machines L P to_start tries =
     bindA (assertA (0 < length to_start)) (\<lambda>_.
     bindA (pop_tries (restart_pass L P) tries to_start) (\<lambda>rest. assertA (length rest = 0)))"

section \<open>Reading the API\<close>

definition get_listing :: "'s lab \<Rightarrow> string \<Rightarrow> ('s, json) act" where
  "get_listing L url =
     bindA (http_get L url) (\<lambda>r. bindA (assertA (rp_status r = 200)) (\<lambda>_. liftA (load_reply r)))"

definition player_discovery :: "'s lab \<Rightarrow> player \<Rightarrow> ('s, json) act" where
  "player_discovery L P = get_listing L (player_uri P @ ''/discovery'')"

definition fetch_discovery_interfaces :: "'s lab \<Rightarrow> player \<Rightarrow> ('s, json list) act" where
  "fetch_discovery_interfaces L P =
     bindA (player_discovery L P) (\<lambda>j. liftA (bindE (jiter j) (mapE (\<lambda>k. jget k ''interfaces''))))"

definition fetch_discovery_ignition_journal :: "'s lab \<Rightarrow> player \<Rightarrow> string \<Rightarrow> ('s, json) act" where
  "fetch_discovery_ignition_journal L P uuid = get_listing L (player_uri P @ ''/discovery/ignition-journal/'' @ uuid)"

end
