(* ===== verification/Player_Services.thy ===== *)
theory Player_Services
  imports Player
begin

text \<open>
  \<open>kvm_player.py\<close>, second part: the services a test waits for (etcd, vault, Kubernetes, tiller), the
  certificates and backups it fetches, and the groups it changes. A service is asked until it answers as
  wanted or the tries are used up; what the code demands afterwards is the assertion at the end.
\<close>

section \<open>Asking again\<close>

text \<open>A truth that is asked for at most \<open>tries\<close> times.\<close>

definition assertFuncTrueInLessThanXTries :: "'s lab \<Rightarrow> player \<Rightarrow> ('s, bool) act \<Rightarrow> nat \<Rightarrow> ('s, unit) act" where
  "assertFuncTrueInLessThanXTries L P func tries =
     bindA (poll tries (\<lambda>_. bindA func (\<lambda>b.
       if b then ret (Some ()) else bindA (pause_ms L (2 * nap_ms P)) (\<lambda>_. ret None)))) (\<lambda>r. assertA (r \<noteq> None))"

definition https_url :: "string \<Rightarrow> int \<Rightarrow> string \<Rightarrow> string" where
  "https_url ip port path = ''https://'' @ ip @ '':'' @ show_int port @ path"

definition cert_file :: "player \<Rightarrow> string \<Rightarrow> string" where
  "cert_file P name = path_join (test_certs_path P) name"

definition vault_ca :: "player \<Rightarrow> json" where
  "vault_ca P = JStr (cert_file P ''vault_server.issuing_ca'')"

definition get_certificates :: "'s lab \<Rightarrow> player \<Rightarrow> string \<Rightarrow> ('s, json \<times> string list) act" where
  "get_certificates L P certs_name =
     (if certs_name = [] then ret (JBool True, [])
      else
        let verify = cert_file P (certs_name @ ''.issuing_ca'');
            certs = [cert_file P (certs_name @ ''.certificate''), cert_file P (certs_name @ ''.private_key'')] in
        bindA (forA (\<lambda>c. bindA (lab_see L (\<lambda>f. ok (path_exists f c))) assertA) (certs @ [verify])) (\<lambda>_.
          ret (JStr verify, certs)))"

text \<open>The certificates of a name replace what the caller says to verify.\<close>

definition verify_and_cert :: "'s lab \<Rightarrow> player \<Rightarrow> json \<Rightarrow> string \<Rightarrow> ('s, json \<times> string list) act" where
  "verify_and_cert L P verify certs_name = (if certs_name = [] then ret (verify, []) else get_certificates L P certs_name)"

section \<open>etcd\<close>

definition endpoint_healthy :: "'s lab \<Rightarrow> int \<Rightarrow> json \<Rightarrow> string list \<Rightarrow> string \<Rightarrow> ('s, bool) act" where
  "endpoint_healthy L port verify certs ip =
     bindA (attempt (bindA (http_get_tls L (https_url ip port ''/health'') verify certs) (\<lambda>r. liftA (load_reply r)))) (\<lambda>r.
       ret (r = Some (JObj [(''health'', JStr ''true'')])))"

text \<open>\<open>healths\<close> has one entry per address, the last answer.\<close>

fun gather_healths :: "(string \<Rightarrow> ('s, bool) act) \<Rightarrow> (string \<times> bool) list \<Rightarrow> string list \<Rightarrow> ('s, (string \<times> bool) list) act" where
  "gather_healths ask healths [] = ret healths"
| "gather_healths ask healths (ip # ips) =
     bindA (ask ip) (\<lambda>b. gather_healths ask ((ip, b) # filter (\<lambda>h. fst h \<noteq> ip) healths) ips)"

definition all_endpoints_health :: "'s lab \<Rightarrow> string list \<Rightarrow> int \<Rightarrow> json \<Rightarrow> string list \<Rightarrow> ('s, bool) act" where
  "all_endpoints_health L ips port verify certs =
     bindA (gather_healths (endpoint_healthy L port verify certs) [] ips) (\<lambda>healths. ret (False \<notin> snd ` set healths))"

definition etcd_endpoint_health ::
    "'s lab \<Rightarrow> player \<Rightarrow> string list \<Rightarrow> int \<Rightarrow> nat \<Rightarrow> json \<Rightarrow> string \<Rightarrow> ('s, unit) act" where
  "etcd_endpoint_health L P ips port tries verify certs_name =
     bindA (assertA (0 < length ips)) (\<lambda>_.
     bindA (verify_and_cert L P verify certs_name) (\<lambda>(v, certs).
       assertFuncTrueInLessThanXTries L P (all_endpoints_health L ips port v certs) tries))"

text \<open>The last answer that could be read is kept from one try to the next.\<close>

fun member_tries :: "('s, json) act \<Rightarrow> ('s, unit) act \<Rightarrow> int \<Rightarrow> nat \<Rightarrow> json \<Rightarrow> ('s, json) act" where
  "member_tries ask wait members_nb 0 result = ret result"
| "member_tries ask wait members_nb (Suc n) result =
     bindA (attempt ask) (\<lambda>r.
     let now = (case r of None \<Rightarrow> result | Some j \<Rightarrow> j) in
     if r \<noteq> None \<and> bindE (jget now ''members'') py_len = ok (nat members_nb) \<and> 0 \<le> members_nb then ret now
     else bindA wait (\<lambda>_. member_tries ask wait members_nb n now))"

definition etcd_member_len ::
    "'s lab \<Rightarrow> player \<Rightarrow> string \<Rightarrow> int \<Rightarrow> int \<Rightarrow> nat \<Rightarrow> json \<Rightarrow> string \<Rightarrow> ('s, unit) act" where
  "etcd_member_len L P ip members_nb port tries verify certs_name =
     bindA (verify_and_cert L P verify certs_name) (\<lambda>(v, certs).
     bindA (member_tries (bindA (http_get_tls L (https_url ip port ''/v2/members'') v certs) (\<lambda>r. liftA (load_reply r)))
       (pause_ms L (2 * nap_ms P)) members_nb tries (JObj [])) (\<lambda>result.
     bindA (liftA (bindE (jget result ''members'') py_len)) (\<lambda>n. assertA (int n = members_nb))))"

section \<open>vault\<close>

text \<open>A key of etcd: \<open>json.loads(..)["node"]["value"]\<close>.\<close>

definition etcd_value :: "'s lab \<Rightarrow> string \<Rightarrow> int \<Rightarrow> string \<Rightarrow> ('s, json) act" where
  "etcd_value L ip port key =
     bindA (http_get_tls L (https_url ip port (''/v2/keys/'' @ key)) (JBool False) []) (\<lambda>r.
       liftA (bindE (load_reply r) (\<lambda>j. bindE (jget j ''node'') (\<lambda>n. jget n ''value''))))"

definition get_vault_uri_by_initier :: "'s lab \<Rightarrow> player \<Rightarrow> string \<Rightarrow> int \<Rightarrow> nat \<Rightarrow> ('s, json) act" where
  "get_vault_uri_by_initier L P ip port tries =
     bindA (poll tries (\<lambda>_. or_sleep L (2 * nap_ms P) (etcd_value L ip port ''initier''))) (\<lambda>r.
     let vault_uri = (case r of None \<Rightarrow> JStr [] | Some v \<Rightarrow> v) in
     bindA (liftA (py_len vault_uri)) (\<lambda>n. bindA (assertA (0 < n)) (\<lambda>_. ret vault_uri)))"

definition get_vault_token_in_etcd :: "'s lab \<Rightarrow> player \<Rightarrow> string \<Rightarrow> int \<Rightarrow> string \<Rightarrow> nat \<Rightarrow> ('s, string) act" where
  "get_vault_token_in_etcd L P ip port etcd_key tries =
     bindA (poll tries (\<lambda>_. or_sleep L (2 * nap_ms P)
       (bindA (etcd_value L ip port etcd_key) (\<lambda>v. liftA (bindE (py_replace eol [] v) as_str))))) (\<lambda>r.
     let token = (case r of None \<Rightarrow> [] | Some t \<Rightarrow> t) in
     bindA (assertA (0 < length token)) (\<lambda>_. ret token))"

text \<open>Each file is opened for writing before the value it gets is looked up.\<close>

definition save_part :: "'s lab \<Rightarrow> player \<Rightarrow> string \<Rightarrow> string \<Rightarrow> json \<Rightarrow> string \<Rightarrow> ('s, unit) act" where
  "save_part L P parent component content c =
     (let path = cert_file P (parent @ ''_'' @ component @ ''.'' @ c) in
      bindA (lab_write L path []) (\<lambda>_.
      bindA (liftA (bindE (jget content c) as_str)) (\<lambda>t. lab_write L path t)))"

definition certificate_request :: json where
  "certificate_request = JObj [(''common_name'', JStr ''enjoliver.local''), (''ttl'', JStr ''17520h''), (''ip_sans'', JStr api_ip)]"

definition vault_issue_certificate ::
    "'s lab \<Rightarrow> player \<Rightarrow> string \<Rightarrow> string \<Rightarrow> json \<Rightarrow> string \<Rightarrow> string \<Rightarrow> nat \<Rightarrow> ('s, unit) act" where
  "vault_issue_certificate L P url token verify parent component tries =
     bindA (poll tries (\<lambda>_. or_sleep L (2 * nap_ms P)
       (bindA (http_post L url [(''X-Vault-Token'', token)] (Some certificate_request) verify) (\<lambda>r.
         liftA (bindE (load_reply r) (\<lambda>j. jget j ''data'')))))) (\<lambda>r.
     let content = (case r of None \<Rightarrow> JObj [] | Some j \<Rightarrow> j) in
     forA (save_part L P parent component content) [''certificate'', ''issuing_ca'', ''private_key''])"

definition vault_self_certs :: "'s lab \<Rightarrow> player \<Rightarrow> string \<Rightarrow> int \<Rightarrow> nat \<Rightarrow> ('s, unit) act" where
  "vault_self_certs L P ip port tries =
     bindA (get_vault_uri_by_initier L P ip port tries) (\<lambda>vault_uri.
     bindA (get_vault_token_in_etcd L P ip port ''token/vault/server'' tries) (\<lambda>token.
       vault_issue_certificate L P (py_str vault_uri @ ''/v1/pki/vault/issue/server'') token (JBool False) ''vault'' ''server'' 30))"

definition vault_verifing_issuing_ca :: "'s lab \<Rightarrow> player \<Rightarrow> string \<Rightarrow> int \<Rightarrow> ('s, unit) act" where
  "vault_verifing_issuing_ca L P ip port =
     bindA (get_vault_uri_by_initier L P ip port 2) (\<lambda>vault_uri.
     bindA (http_get_tls L (py_str vault_uri @ ''/v1/'') (vault_ca P) []) (\<lambda>r.
     bindA (assertA (rp_status r = 404)) (\<lambda>_.
     bindA (liftA (load_reply r)) (\<lambda>j. assertA (j = JObj [(''errors'', JList [])])))))"

definition app_certs :: "(string \<times> string) list" where
  "app_certs = [(''etcd-kubernetes'', ''client''), (''etcd-fleet'', ''client''), (''kubernetes'', ''kube-apiserver''),
     (''kubernetes'', ''kubelet'')]"

text \<open>A certificate that is not issued after all its tries is passed over.\<close>

definition vault_issue_app_certs :: "'s lab \<Rightarrow> player \<Rightarrow> string \<Rightarrow> int \<Rightarrow> nat \<Rightarrow> ('s, unit) act" where
  "vault_issue_app_certs L P ip port tries =
     bindA (get_vault_uri_by_initier L P ip port 2) (\<lambda>vault_uri.
       forA (\<lambda>(parent, component).
         bindA (poll tries (\<lambda>_. or_sleep L (nap_ms P)
           (bindA (get_vault_token_in_etcd L P ip port (''token/'' @ parent @ ''/'' @ component) 30) (\<lambda>token.
             vault_issue_certificate L P (py_str vault_uri @ ''/v1/pki/'' @ parent @ ''/issue/'' @ component) token
               (vault_ca P) parent component 30)))) (\<lambda>_. ret ())) app_certs)"

definition ssh :: "player \<Rightarrow> string \<Rightarrow> string \<Rightarrow> string list" where
  "ssh P ip command = [''ssh'', ''-o'', ''StrictHostKeyChecking=no'', ''-o'', ''UserKnownHostsFile=/dev/null'',
     ''-o'', ''ConnectTimeout=1'', ''-i'', ssh_private_key P, ''-lcore'', ip, command]"

definition unseal_command :: string where
  "unseal_command = ''sudo grep '' @ [CHR 0x22] @ ''Unseal Key 1:'' @ [CHR 0x22] @ '' /etc/vault.d/keys | cut -f4 -d '' @ [CHR 0x27, CHR '' '', CHR 0x27]"

fun first_unseal_key :: "'s lab \<Rightarrow> player \<Rightarrow> string list \<Rightarrow> ('s, unit) act" where
  "first_unseal_key L P [] = ret ()"
| "first_unseal_key L P (ip # ips) =
     bindA (check_output L (ssh P ip unseal_command)) (\<lambda>out.
     let key = str_replace eol [] out in
     if key = [] then first_unseal_key L P ips else lab_write L (cert_file P ''unseal.key'') key)"

definition save_unseal_key :: "'s lab \<Rightarrow> player \<Rightarrow> string list \<Rightarrow> ('s, unit) act" where
  "save_unseal_key L P ips =
     bindA (first_unseal_key L P ips) (\<lambda>_.
     bindA (lab_see L (\<lambda>f. ok (is_file f (cert_file P ''unseal.key'')))) assertA)"

definition unseal_once :: "'s lab \<Rightarrow> player \<Rightarrow> string \<Rightarrow> string \<Rightarrow> ('s, unit) act" where
  "unseal_once L P key ip =
     bindA (http_post L (https_url ip 8200 ''/v1/sys/unseal'') [] (Some (JObj [(''key'', JStr key)])) (vault_ca P)) (\<lambda>r.
     bindA (liftA (bindE (load_reply r) (\<lambda>j. jget j ''sealed''))) (\<lambda>sealed.
     bindA (assertA (\<not> truthy sealed)) (\<lambda>_.
     bindA (http_get_tls L (https_url ip 8200 ''/v1/'') (vault_ca P) []) (\<lambda>q.
     bindA (liftA (bindE (load_reply q) (\<lambda>j. jget j ''errors''))) (\<lambda>errors. assertA (errors = JList []))))))"

text \<open>The last try that fails is an assertion.\<close>

definition unseal_all_vaults :: "'s lab \<Rightarrow> player \<Rightarrow> string list \<Rightarrow> nat \<Rightarrow> ('s, unit) act" where
  "unseal_all_vaults L P ips tries =
     bindA (lab_read L (cert_file P ''unseal.key'')) (\<lambda>key.
     bindA (assertA (0 < length key)) (\<lambda>_.
       forA (\<lambda>ip. bindA (poll tries (\<lambda>t. bindA (attempt (unseal_once L P key ip)) (\<lambda>r.
         if r \<noteq> None then ret r
         else bindA (assertA (Suc t \<noteq> tries)) (\<lambda>_. bindA (pause_ms L (2 * nap_ms P)) (\<lambda>_. ret None))))) (\<lambda>_. ret ())) ips))"

section \<open>The agents\<close>

fun count_healthy :: "(string \<Rightarrow> ('s, bool) act) \<Rightarrow> nat \<Rightarrow> string list \<Rightarrow> ('s, nat) act" where
  "count_healthy ask n [] = ret n"
| "count_healthy ask n (ip # ips) = bindA (ask ip) (\<lambda>b. count_healthy ask (if b then Suc n else n) ips)"

definition agent_healthy :: "'s lab \<Rightarrow> player \<Rightarrow> string \<Rightarrow> ('s, bool) act" where
  "agent_healthy L P ip =
     bindA (poll 10 (\<lambda>_. or_sleep L (nap_ms P)
       (bindA (http_get L (''http://'' @ ip @ '':8000/healthz'')) (\<lambda>r.
        bindA (liftA (bindE (load_reply r) (\<lambda>j. jget j ''Errors''))) (\<lambda>e. assertA (e = JObj [])))))) (\<lambda>r. ret (r \<noteq> None))"

definition healthz_enjoliver_agent :: "'s lab \<Rightarrow> player \<Rightarrow> string list \<Rightarrow> ('s, unit) act" where
  "healthz_enjoliver_agent L P ips =
     bindA (count_healthy (agent_healthy L P) 0 ips) (\<lambda>n. assertA (length ips = n))"

section \<open>Kubernetes\<close>

text \<open>Host and port of the API server without TLS.\<close>

definition apiserver :: "player \<Rightarrow> string \<Rightarrow> string result" where
  "apiserver P ip =
     bindE (attr (ec P) ''kubernetes_apiserver_insecure_port'') (\<lambda>p. bindE (fmt_int p) (\<lambda>d. ok (ip @ '':'' @ d)))"

definition kubernetes_node_nb :: "'s lab \<Rightarrow> player \<Rightarrow> string \<Rightarrow> int \<Rightarrow> nat \<Rightarrow> ('s, unit) act" where
  "kubernetes_node_nb L P api_server_ip nodes_nb tries =
     bindA (liftA (apiserver P api_server_ip)) (\<lambda>host.
     bindA (poll tries (\<lambda>_. bindA (attempt (l_nodes L host)) (\<lambda>r.
       if map_option int r = Some nodes_nb then ret r else bindA (nap L P) (\<lambda>_. ret None)))) (\<lambda>r.
       assertA ((case r of None \<Rightarrow> 0 | Some n \<Rightarrow> int n) = nodes_nb)))"

text \<open>One visit of an address: gone when it is up, else a sleep.\<close>

definition visit :: "'s lab \<Rightarrow> player \<Rightarrow> ('s, bool) act \<Rightarrow> ('s, bool) act" where
  "visit L P up = bindA (attempt up) (\<lambda>r. if r = Some True then ret True else bindA (nap L P) (\<lambda>_. ret False))"

definition apiserver_up :: "'s lab \<Rightarrow> player \<Rightarrow> string \<Rightarrow> ('s, bool) act" where
  "apiserver_up L P ip =
     bindA (liftA (apiserver P ip)) (\<lambda>host.
     bindA (http_get L (''http://'' @ host @ ''/healthz'')) (\<lambda>r. ret (rp_content r = ''ok'')))"

definition all_up :: "(string \<Rightarrow> ('s, bool) act) \<Rightarrow> string list \<Rightarrow> nat \<Rightarrow> ('s, unit) act" where
  "all_up look ips tries =
     bindA (assertA (0 < length ips)) (\<lambda>_.
     bindA (pop_tries (pop_pass look 0) tries ips) (\<lambda>rest. assertA (length rest = 0)))"

definition kube_apiserver_health :: "'s lab \<Rightarrow> player \<Rightarrow> string list \<Rightarrow> nat \<Rightarrow> ('s, unit) act" where
  "kube_apiserver_health L P ips tries = all_up (\<lambda>ip. visit L P (apiserver_up L P ip)) ips tries"

definition node_exporter_up :: "'s lab \<Rightarrow> string \<Rightarrow> ('s, bool) act" where
  "node_exporter_up L ip = bindA (http_get L (''http://'' @ ip @ '':9100'')) (\<lambda>r. ret (rp_status r = 200))"

definition daemonset_node_exporter_are_running :: "'s lab \<Rightarrow> player \<Rightarrow> string list \<Rightarrow> nat \<Rightarrow> ('s, unit) act" where
  "daemonset_node_exporter_are_running L P ips tries = all_up (\<lambda>ip. visit L P (node_exporter_up L ip)) ips tries"

end
