(* ===== verification/Player_Kube.thy ===== *)
theory Player_Kube
  imports Player_Services
begin

text \<open>
  \<open>kvm_player.py\<close>, third part: tiller and what is installed through it, the backups of etcd, the
  interactive mode, and the change of the groups of matchbox. The client of Kubernetes answers lists of
  pods or raises; manifests are read by \<open>yaml\<close>.
\<close>

section \<open>Creating objects\<close>

definition load_manifest :: "'s lab \<Rightarrow> player \<Rightarrow> string \<Rightarrow> ('s, json) act" where
  "load_manifest L P path = bindA (lab_read L (euid_path P @ ''/manifests/'' @ path)) (\<lambda>t. liftA (l_yaml L t))"

definition http_apiserver :: "player \<Rightarrow> string \<Rightarrow> string result" where
  "http_apiserver P ip = bindE (apiserver P ip) (\<lambda>h. ok (''http://'' @ h))"

definition create_tiller :: "'s lab \<Rightarrow> player \<Rightarrow> string \<Rightarrow> ('s, unit) act" where
  "create_tiller L P api_server_ip =
     bindA (liftA (http_apiserver P api_server_ip)) (\<lambda>host.
     bindA (load_manifest L P ''tiller/tiller-service.yaml'') (\<lambda>service.
     bindA (load_manifest L P ''tiller/tiller-deploy.yaml'') (\<lambda>deploy.
     bindA (load_manifest L P ''tiller/tiller-service-account.yaml'') (\<lambda>account.
     bindA (load_manifest L P ''tiller/clusterrolebinding.yaml'') (\<lambda>binding.
     bindA (l_create L host ''create_namespaced_service'' (Some ''kube-system'') service) (\<lambda>_.
     bindA (l_create L host ''create_cluster_role_binding'' None binding) (\<lambda>_.
     bindA (l_create L host ''create_namespaced_service_account'' (Some ''kube-system'') account) (\<lambda>_.
       l_create L host ''create_namespaced_deployment'' (Some ''kube-system'') deploy))))))))"

section \<open>tiller\<close>

definition liveness_url :: "pod \<Rightarrow> string" where
  "liveness_url p = ''http://'' @ py_str (pod_ip p) @ '':44135/liveness''"

definition tiller_pods :: "'s lab \<Rightarrow> string \<Rightarrow> ('s, pod list) act" where
  "tiller_pods L host = l_pods L host ''kube-system'' ''app=tiller''"

text \<open>The code of the last pod that answered.\<close>

fun probe_pods :: "'s lab \<Rightarrow> nat \<Rightarrow> pod list \<Rightarrow> ('s, nat) act" where
  "probe_pods L code [] = ret code"
| "probe_pods L code (p # ps) =
     bindA (attempt (http_get L (liveness_url p))) (\<lambda>r.
       probe_pods L (case r of None \<Rightarrow> code | Some g \<Rightarrow> rp_status g) ps)"

definition value_error_ignored :: "'a \<Rightarrow> ('s, 'a) act \<Rightarrow> ('s, 'a) act" where
  "value_error_ignored a m = tryA m (\<lambda>x. if x = ValueError then Some (ret a) else None)"

text \<open>
  A \<open>ValueError\<close> of the listing leaves the code as it was; the pods are asked after it, and what their
  requests raise is caught for each.
\<close>

fun tiller_tries :: "'s lab \<Rightarrow> player \<Rightarrow> string \<Rightarrow> nat \<Rightarrow> nat \<Rightarrow> ('s, nat) act" where
  "tiller_tries L P host 0 code = ret code"
| "tiller_tries L P host (Suc n) code =
     (if code = 200 then ret code
      else bindA (value_error_ignored code (bindA (tiller_pods L host) (probe_pods L code))) (\<lambda>c.
        bindA (nap L P) (\<lambda>_. tiller_tries L P host n c)))"

definition pod_tiller_is_running :: "'s lab \<Rightarrow> player \<Rightarrow> string \<Rightarrow> nat \<Rightarrow> ('s, unit) act" where
  "pod_tiller_is_running L P api_server_ip tries =
     bindA (liftA (http_apiserver P api_server_ip)) (\<lambda>host.
     bindA (tiller_tries L P host tries 0) (\<lambda>code. assertA (code = 200)))"

definition tiller_is_gc :: "'s lab \<Rightarrow> player \<Rightarrow> string \<Rightarrow> ('s, bool) act" where
  "tiller_is_gc L P node_ip =
     bindA (check_output L (ssh P node_ip
       (''sudo bash -c '' @ [CHR 0x22] @ ''/opt/bin/rkt l --no-legend | grep -c tiller'' @ [CHR 0x22]))) (\<lambda>out.
     bindA (liftA (int_of_str (str_replace eol [] out))) (\<lambda>n. ret (n = 1)))"

text \<open>
  The first pod that is live; without one, the exception of the last, and without any pod the
  \<open>TypeError\<close> of \<open>raise None\<close>.
\<close>

fun first_live :: "'s lab \<Rightarrow> exn \<Rightarrow> pod list \<Rightarrow> ('s, string) act" where
  "first_live L x [] = raiseA x"
| "first_live L x (p # ps) =
     tryA (bindA (http_get L (liveness_url p)) (\<lambda>g. bindA (assertA (rp_status g = 200)) (\<lambda>_.
         ret (py_str (pod_ip p) @ '':44134''))))
       (\<lambda>y. Some (first_live L y ps))"

definition get_tiller_grpc_endpoint :: "'s lab \<Rightarrow> player \<Rightarrow> string \<Rightarrow> ('s, string) act" where
  "get_tiller_grpc_endpoint L P api_server_ip =
     bindA (liftA (http_apiserver P api_server_ip)) (\<lambda>host. bindA (tiller_pods L host) (first_live L TypeError))"

text \<open>
  Killing one tiller: the last pod looked at, the endpoint once its liveness is shown, and whether the
  loop ended there. What is assigned before an exception stays assigned.
\<close>

record kill =
  k_request :: string
  k_node :: json
  k_endpoint :: string

fun kill_tiller :: "'s lab \<Rightarrow> player \<Rightarrow> kill \<Rightarrow> pod list \<Rightarrow> ('s, kill) act" where
  "kill_tiller L P k [] = ret k"
| "kill_tiller L P k (p # ps) =
     (let k1 = k\<lparr>k_request := liveness_url p, k_node := host_ip p\<rparr>; k2 = k1\<lparr>k_endpoint := py_str (pod_ip p) @ '':44134''\<rparr> in
      bindA (attempt (bindA (http_get L (liveness_url p)) (\<lambda>g. assertA (rp_status g = 200)))) (\<lambda>live.
        if live = None then kill_tiller L P k1 ps
        else bindA (attempt (bindA (liftA (as_str (host_ip p))) (\<lambda>ip.
            check_output L (ssh P ip ''sudo /usr/bin/pkill tiller'')))) (\<lambda>killed.
          if killed = None then kill_tiller L P k2 ps else ret k2)))"

text \<open>\<open>with self.assertRaises(requests.ConnectionError)\<close>: anything else goes through, no exception is a failure.\<close>

definition assert_unreachable :: "'s lab \<Rightarrow> string \<Rightarrow> ('s, unit) act" where
  "assert_unreachable L url =
     bindA (tryA (bindA (http_get L url) (\<lambda>_. ret False)) (\<lambda>x. if x = ConnectionError then Some (ret True) else None)) assertA"

text \<open>
  One round of the wait: the endpoint must be the one found, and the wait ends when the old container
  is gone. No exception of the model is a \<open>RuntimeWarning\<close>, the only one the code catches here.
\<close>

definition gc_round :: "'s lab \<Rightarrow> player \<Rightarrow> string \<Rightarrow> string \<Rightarrow> json \<Rightarrow> ('s, unit option) act" where
  "gc_round L P api_server_ip endpoint node =
     bindA (get_tiller_grpc_endpoint L P api_server_ip) (\<lambda>e.
     bindA (assertA (endpoint = e)) (\<lambda>_.
     bindA (liftA (as_str node)) (\<lambda>ip.
     bindA (tiller_is_gc L P ip) (\<lambda>gone.
       if gone then ret (Some ()) else bindA (pause_ms L 1000) (\<lambda>_. ret None)))))"

definition wait_gc :: "'s lab \<Rightarrow> player \<Rightarrow> string \<Rightarrow> nat \<Rightarrow> string \<Rightarrow> json \<Rightarrow> 's \<Rightarrow> (unit result \<times> 's) option" where
  "wait_gc L P api_server_ip ts endpoint node s =
     map_option (\<lambda>(r, s'). (bindE r (\<lambda>a. if a = None then raise AssertionError else ok ()), s'))
       (whileA (\<lambda>s. l_now L s < ts + 120 * second) (gc_round L P api_server_ip endpoint node) s)"

definition tiller_replaced :: "'s lab \<Rightarrow> player \<Rightarrow> string \<Rightarrow> string \<Rightarrow> ('s, string) act" where
  "tiller_replaced L P api_server_ip old =
     bindA (poll 10 (\<lambda>_. or_sleep L 1000 (get_tiller_grpc_endpoint L P api_server_ip))) (\<lambda>_.
     bindA (get_tiller_grpc_endpoint L P api_server_ip) (\<lambda>new.
     bindA (get_tiller_grpc_endpoint L P api_server_ip) (\<lambda>now.
     bindA (assertA (now \<noteq> old)) (\<lambda>_. ret new))))"

text \<open>The URL of the API server is made with the address it binds to in the place of its port.\<close>

definition tiller_host :: "player \<Rightarrow> string \<Rightarrow> string result" where
  "tiller_host P api_server_ip =
     bindE (attr (ec P) ''kubernetes_apiserver_insecure_bind_address'') (\<lambda>a. bindE (fmt_int a) (\<lambda>d.
       ok (''http://'' @ api_server_ip @ '':'' @ d)))"

definition tiller_killed :: "'s lab \<Rightarrow> player \<Rightarrow> string \<Rightarrow> ('s, kill) act" where
  "tiller_killed L P api_server_ip =
     bindA (liftA (tiller_host P api_server_ip)) (\<lambda>host.
     bindA (tiller_pods L host) (\<lambda>ps.
     bindA (kill_tiller L P \<lparr>k_request = [], k_node = JStr [], k_endpoint = []\<rparr> ps) (\<lambda>k.
     bindA (assert_unreachable L (k_request k)) (\<lambda>_. ret k))))"

definition tiller_can_restart :: "'s lab \<Rightarrow> player \<Rightarrow> string \<Rightarrow> 's \<Rightarrow> (unit result \<times> 's) option" where
  "tiller_can_restart L P api_server_ip s =
     (case tiller_killed L P api_server_ip s of
        (Inl x, s1) \<Rightarrow> Some (raise x, s1)
      | (Inr k, s1) \<Rightarrow>
          (case tiller_replaced L P api_server_ip (k_endpoint k) s1 of
             (Inl x, s2) \<Rightarrow> Some (raise x, s2)
           | (Inr new, s2) \<Rightarrow> wait_gc L P api_server_ip (l_now L s1) new (k_node k) s2))"

section \<open>helm and the backups\<close>

definition helm_install :: "'s lab \<Rightarrow> player \<Rightarrow> string \<Rightarrow> string list \<Rightarrow> ('s, unit) act" where
  "helm_install L P tiller rest =
     bindA (call L ([helm_bin P, ''--host'', tiller, ''install''] @ rest)) (\<lambda>code. assertA (code = 0))"

text \<open>Only a conflict is expected of the creation; an exception without a reason is an \<open>AttributeError\<close>.\<close>

fun exn_reason :: "exn \<Rightarrow> string result" where
  "exn_reason (ApiException r) = ok r"
| "exn_reason _ = raise AttributeError"

definition create_helm_etcd_backup :: "'s lab \<Rightarrow> player \<Rightarrow> string \<Rightarrow> string \<Rightarrow> ('s, unit) act" where
  "create_helm_etcd_backup L P api_server_ip etcd_app_name =
     bindA (get_tiller_grpc_endpoint L P api_server_ip) (\<lambda>tiller.
     bindA (liftA (http_apiserver P api_server_ip)) (\<lambda>host.
     bindA (tryA (l_create L host ''create_namespace'' None (JObj [(''kind'', JStr ''Namespace''),
         (''apiVersion'', JStr ''v1''), (''metadata'', JObj [(''name'', JStr ''backup'')])]))
       (\<lambda>x. Some (bindA (liftA (exn_reason x)) (\<lambda>r. assertA (r = ''Conflict''))))) (\<lambda>_.
     let chart = euid_path P @ ''/manifests/etcd3-backup/'' in
       helm_install L P tiller [''-f'', chart @ etcd_app_name @ ''.yaml'', chart])))"

definition create_helm_by_name :: "'s lab \<Rightarrow> player \<Rightarrow> string \<Rightarrow> string \<Rightarrow> ('s, unit) act" where
  "create_helm_by_name L P api_server_ip name =
     bindA (get_tiller_grpc_endpoint L P api_server_ip) (\<lambda>tiller.
       helm_install L P tiller [euid_path P @ ''/manifests/'' @ name])"

definition read_snapshot :: "'s lab \<Rightarrow> player \<Rightarrow> string \<Rightarrow> pod \<Rightarrow> ('s, json) act" where
  "read_snapshot L P etcd_app_name p =
     bindA (liftA (as_str (host_ip p))) (\<lambda>ip.
     bindA (check_output L (ssh P ip
       (''sudo /opt/bin/etcdctl3 snapshot status /var/lib/backup/etcd3/'' @ etcd_app_name @ ''.snap -w json''))) (\<lambda>out.
       liftA (case json_loads out of None \<Rightarrow> raise ValueError | Some j \<Rightarrow> ok j)))"

fun first_snapshot :: "'s lab \<Rightarrow> player \<Rightarrow> string \<Rightarrow> pod list \<Rightarrow> ('s, json option) act" where
  "first_snapshot L P app [] = ret None"
| "first_snapshot L P app (p # ps) =
     (if phase p \<noteq> ''Succeeded'' then first_snapshot L P app ps
      else bindA (attempt (read_snapshot L P app p)) (\<lambda>r. if r = None then first_snapshot L P app ps else ret r))"

text \<open>Without a snapshot the function ends without a value, which is \<open>None\<close>.\<close>

definition snapshot_status :: "'s lab \<Rightarrow> player \<Rightarrow> string \<Rightarrow> string \<Rightarrow> nat \<Rightarrow> ('s, json) act" where
  "snapshot_status L P host etcd_app_name tries =
     bindA (poll tries (\<lambda>_.
       bindA (l_pods L host ''backup'' (''etcd='' @ etcd_app_name)) (\<lambda>ps.
       bindA (first_snapshot L P etcd_app_name ps) (\<lambda>r.
         if r = None then bindA (nap L P) (\<lambda>_. ret None) else ret r)))) (\<lambda>r.
     ret (case r of None \<Rightarrow> JNull | Some j \<Rightarrow> j))"

definition etcd_backup_done :: "'s lab \<Rightarrow> player \<Rightarrow> string \<Rightarrow> string \<Rightarrow> nat \<Rightarrow> ('s, unit) act" where
  "etcd_backup_done L P api_server_ip etcd_app_name tries =
     bindA (liftA (apiserver P api_server_ip)) (\<lambda>host.
     bindA (snapshot_status L P host etcd_app_name tries) (\<lambda>summary.
       forA (\<lambda>k. bindA (liftA (bindE (jget summary k) positive)) assertA) [''revision'', ''totalKey'', ''totalSize'']))"

section \<open>The interactive mode\<close>

definition kubectl_proxy :: "player \<Rightarrow> int \<Rightarrow> ('s, string list \<times> environ) act" where
  "kubectl_proxy P proxy_port =
     ret ([project_path P @ ''/hyperkube/hyperkube'', ''kubectl'', ''--kubeconfig'',
       path_join (tests_path P) ''testing_kubeconfig.yaml'', ''proxy'', ''-p'', show_int proxy_port], environ P)"

definition kube_config :: "player \<Rightarrow> string \<Rightarrow> json" where
  "kube_config P api_server_ip = (let certs = (\<lambda>n. JStr (test_certs_path P @ ''/kubernetes_kubelet.'' @ n)) in JObj [
     (''preferences'', JObj [(''colors'', JBool True)]),
     (''users'', JList [JObj [
        (''user'', JObj [(''client-key'', certs ''private_key''), (''client-certificate'', certs ''certificate'')]),
        (''name'', JStr ''enjoliver.local'')]]),
     (''kind'', JStr ''Config''),
     (''apiVersion'', JStr ''v1''),
     (''clusters'', JList [JObj [
        (''cluster'', JObj [(''server'', JStr (''https://'' @ api_server_ip @ '':6443'')),
           (''certificate-authority'', certs ''issuing_ca'')]),
        (''name'', JStr ''enjoliver'')]]),
     (''contexts'', JList [JObj [
        (''name'', JStr ''e''),
        (''context'', JObj [(''cluster'', JStr ''enjoliver''), (''namespace'', JStr ''kube-system''),
           (''user'', JStr ''enjoliver.local'')])]]),
     (''current-context'', JStr ''e'')])"

definition create_kubeconfig :: "'s lab \<Rightarrow> player \<Rightarrow> string \<Rightarrow> ('s, unit) act" where
  "create_kubeconfig L P api_server_ip =
     bindA (load_manifest L P ''kubeconfig/clusterrolebinding.yaml'') (\<lambda>binding.
     bindA (liftA (http_apiserver P api_server_ip)) (\<lambda>host.
     bindA (l_create L host ''create_cluster_role_binding'' None binding) (\<lambda>_.
       lab_write L (path_join (tests_path P) ''testing_kubeconfig.yaml'') (l_yaml_text L (kube_config P api_server_ip)))))"

text \<open>The proxy is asked only while it lives.\<close>

definition start_proxy :: "'s lab \<Rightarrow> player \<Rightarrow> string \<Rightarrow> ('s, int) act" where
  "start_proxy L P api_server_ip =
     bindA (create_kubeconfig L P api_server_ip) (\<lambda>_.
     bindA (launch L ''kubectl_proxy'' (kubectl_proxy P 8001)) (\<lambda>kp.
     bindA (poll 12 (\<lambda>_. bindA (is_alive L kp) (\<lambda>a.
       bindA (if a then attempt (http_get L ''http://127.0.0.1:8001/healthz'') else ret None) (\<lambda>r.
         if map_option rp_status r = Some 200 then ret (Some ())
         else bindA (pause_ms L 500) (\<lambda>_. ret None))))) (\<lambda>_. ret kp)))"

definition stop_proxy :: "'s lab \<Rightarrow> int \<Rightarrow> ('s, unit) act" where
  "stop_proxy L kp =
     bindA (is_alive L kp) (\<lambda>a. if a then bindA (l_signal L kp 15) (\<lambda>_ s. ret () (l_join L kp 5 s)) else ret ())"

definition waits_for_stop :: "'s lab \<Rightarrow> string \<Rightarrow> 's \<Rightarrow> bool" where
  "waits_for_stop L stop s = (map_of (f_files (l_fs L s)) stop = Some [])"

text \<open>
  The mode ends when the file is gone or not empty. Permissions are not part of the files here. The
  number of the proxy is \<open>None\<close> when there is none.
\<close>

definition interactive_start :: "'s lab \<Rightarrow> player \<Rightarrow> string \<Rightarrow> string \<Rightarrow> ('s, int option) act" where
  "interactive_start L P stop api_server_ip =
     bindA (if api_server_ip = [] then ret None else bindA (start_proxy L P api_server_ip) (\<lambda>kp. ret (Some kp))) (\<lambda>kp.
     bindA (lab_write L stop []) (\<lambda>_. ret kp))"

definition iteractive_usage ::
    "'s lab \<Rightarrow> player \<Rightarrow> string \<Rightarrow> string \<Rightarrow> ('s, unit) act list \<Rightarrow> 's \<Rightarrow> (unit result \<times> 's) option" where
  "iteractive_usage L P stop api_server_ip fns s =
     (case interactive_start L P stop api_server_ip s of
        (Inl x, s1) \<Rightarrow> Some (raise x, s1)
      | (Inr kp, s1) \<Rightarrow>
          map_option (\<lambda>(r, s2). bindA (liftA r)
              (\<lambda>_. case kp of None \<Rightarrow> ret () | Some pid \<Rightarrow> stop_proxy L pid) s2)
            (whileA (waits_for_stop L stop)
              (bindA (forA (\<lambda>fn. fn) fns) (\<lambda>_. bindA (pause_ms L 3000) (\<lambda>_. ret (None :: unit option)))) s1))"

section \<open>The groups of matchbox\<close>

text \<open>\<open>json.dump(v, f, indent=4)\<close>: keys in insertion order.\<close>

definition nl4 :: "nat \<Rightarrow> string" where
  "nl4 l = CHR 0x0A # replicate (4 * l) CHR '' ''"

primrec dump_at :: "json \<Rightarrow> nat \<Rightarrow> string" where
  "dump_at JNull l = ''null''"
| "dump_at (JBool b) l = (if b then ''true'' else ''false'')"
| "dump_at (JInt i) l = show_int i"
| "dump_at (JReal s) l = real_text s"
| "dump_at (JStr s) l = quote_str s"
| "dump_at (JList xs) l =
     (if xs = [] then ''[]''
      else ''['' @ nl4 (Suc l) @ join_with ('','' @ nl4 (Suc l)) (map (\<lambda>f. f (Suc l)) (map dump_at xs)) @ nl4 l @ '']'')"
| "dump_at (JObj d) l =
     (if d = [] then ''{}''
      else ''{'' @ nl4 (Suc l) @ join_with ('','' @ nl4 (Suc l))
        (map (\<lambda>kv. quote_str (fst kv) @ '': '' @ snd kv (Suc l)) (map (map_prod id dump_at) d)) @ nl4 l @ ''}'')"

definition dump_indented :: "json \<Rightarrow> string" where
  "dump_indented j = dump_at j 0"

text \<open>\<open>group["metadata"][k] = v\<close>\<close>

definition set_metadata :: "string \<Rightarrow> json \<Rightarrow> json \<Rightarrow> json result" where
  "set_metadata k v j =
     bindE (jget j ''metadata'') (\<lambda>m.
       case (j, m) of
         (JObj g, JObj d) \<Rightarrow> ok (JObj (dict_set g ''metadata'' (JObj (dict_set d k v))))
       | _ \<Rightarrow> raise TypeError)"

definition rewrite_group :: "'s lab \<Rightarrow> string \<Rightarrow> string \<Rightarrow> json \<Rightarrow> ('s, unit) act" where
  "rewrite_group L path metadata new_value =
     bindA (lab_read L path) (\<lambda>t.
     bindA (liftA (bindE (case json_loads t of None \<Rightarrow> raise ValueError | Some j \<Rightarrow> ok j) (set_metadata metadata new_value))) (\<lambda>g.
       lab_write L path (dump_indented g)))"

definition groups_dir :: "player \<Rightarrow> string" where
  "groups_dir P = test_matchbox_path P @ ''/groups''"

definition is_machine_group :: "string \<Rightarrow> bool" where
  "is_machine_group j = (j \<noteq> ''discovery.json'' \<and> str_contains ''.json'' j)"

text \<open>Every scheduled machine may roll, and every group but that of the discovery gets the value.\<close>

definition allow_rolling :: "'s lab \<Rightarrow> player \<Rightarrow> ('s, unit) act" where
  "allow_rolling L P =
     bindA (http_get L (player_uri P @ ''/scheduler'')) (\<lambda>r.
     bindA (liftA (bindE (load_reply r) jiter)) (\<lambda>macs.
       forA (\<lambda>mac. bindA (http_post L (player_uri P @ ''/lifecycle/rolling/mac='' @ py_str mac) [] None (JBool True)) (\<lambda>_. ret ())) macs))"

definition replace_ignition_metadata :: "'s lab \<Rightarrow> player \<Rightarrow> string \<Rightarrow> json \<Rightarrow> ('s, unit) act" where
  "replace_ignition_metadata L P metadata new_value =
     bindA (allow_rolling L P) (\<lambda>_.
     bindA (lab_see L (\<lambda>f. list_dir f (groups_dir P))) (\<lambda>names.
       forA (\<lambda>j. rewrite_group L (groups_dir P @ ''/'' @ j) metadata new_value) (filter is_machine_group names)))"

end
