(* ===== verification/Player_Facts.thy ===== *)
theory Player_Facts
  imports Player_Kube
begin

text \<open>
  What the loops of the tests do. Taking elements out of a list while enumerating it skips the element
  after each one taken, so a pass over machines that all start leaves half of them: the number of
  tries bounds the number of machines exactly. Nothing is lost on the way: what a successful restart
  started is the machines it was given, each once.
\<close>

section \<open>A pass that takes everything it visits\<close>

fun every_other :: "'a list \<Rightarrow> 'a list" where
  "every_other [] = []"
| "every_other [x] = []"
| "every_other (x # y # zs) = y # every_other zs"

lemma length_every_other: "length (every_other xs) = length xs div 2"
  by (induction xs rule: every_other.induct) simp_all

lemma every_other_step:
  assumes "i < length xs"
  shows "take (Suc i) (remove_at i xs) @ every_other (drop (Suc i) (remove_at i xs)) = take i xs @ every_other (drop i xs)"
proof (cases "Suc i < length xs")
  case True
  then have d: "drop i xs = xs ! i # xs ! Suc i # drop (Suc (Suc i)) xs" by (simp add: Cons_nth_drop_Suc)
  have "remove_at i xs = take i xs @ xs ! Suc i # drop (Suc (Suc i)) xs"
    using True by (simp add: remove_at_def Cons_nth_drop_Suc)
  with d assms show ?thesis by (simp add: min_def)
next
  case False
  with assms have "length xs = Suc i" by simp
  moreover from this have "drop i xs = [xs ! i]" by (simp flip: Cons_nth_drop_Suc)
  ultimately show ?thesis by (simp add: remove_at_def)
qed

lemma pop_pass_all:
  assumes f: "\<And>x s. \<exists>s'. f x s = (Inr True, s')"
  shows "\<exists>s'. pop_pass f i xs s = (Inr (take i xs @ every_other (drop i xs)), s')"
proof (induction "length xs - i" arbitrary: i xs s rule: less_induct)
  case less
  show ?case
  proof (cases "i < length xs")
    case True
    obtain s1 where s1: "f (xs ! i) s = (Inr True, s1)" using f by blast
    have "length (remove_at i xs) - Suc i < length xs - i" using True by simp
    from less [OF this, of s1] s1 True show ?thesis
      by (simp add: pop_pass.simps [of f i xs] bindA_def every_other_step)
  qed (simp add: pop_pass.simps [of f i xs] act_simps)
qed

text \<open>Passes that halve what is left, until it is gone.\<close>

lemma pop_tries_halving:
  assumes p: "\<And>xs s. \<exists>ys s'. pass xs s = (Inr ys, s') \<and> length ys = length xs div 2"
  shows "\<exists>ys s'. pop_tries pass n xs s = (Inr ys, s') \<and> length ys = length xs div 2 ^ n"
proof (induction n arbitrary: xs s)
  case (Suc n)
  show ?case
  proof (cases "xs = []")
    case False
    obtain ys s1 where s1: "pass xs s = (Inr ys, s1)" "length ys = length xs div 2" using p by blast
    obtain zs s2 where "pop_tries pass n ys s1 = (Inr zs, s2)" "length zs = length ys div 2 ^ n" using Suc by blast
    then show ?thesis using False s1 by (simp add: bindA_def div_mult2_eq)
  qed (simp add: act_simps)
qed (simp add: act_simps)

lemma all_taken:
  assumes p: "\<And>xs s. \<exists>ys s'. pass xs s = (Inr ys, s') \<and> length ys = length xs div 2"
  shows "fst (bindA (assertA (0 < length xs)) (\<lambda>_. bindA (pop_tries pass n xs) (\<lambda>rest. assertA (length rest = 0))) s) =
    (if xs \<noteq> [] \<and> length xs < 2 ^ n then Inr () else Inl AssertionError)"
proof (cases "xs = []")
  case False
  obtain ys s' where "pop_tries pass n xs s = (Inr ys, s')" "length ys = length xs div 2 ^ n"
    using pop_tries_halving [where pass = pass] p by blast
  moreover have "length xs div 2 ^ n = 0 \<longleftrightarrow> length xs < 2 ^ n" by (simp add: div_eq_0_iff)
  ultimately show ?thesis using False by (auto simp: assertA_def act_simps)
qed (simp add: assertA_def act_simps)

section \<open>Restarting the machines\<close>

definition start_cmd :: "string \<Rightarrow> string list" where
  "start_cmd m = [''virsh'', ''start'', m]"

lemma start_machine_run:
  "start_machine L P m s =
     (case l_call L (start_cmd m) s of
        (Inl x, s1) \<Rightarrow> if x = RuntimeError then (Inr False, s1) else (Inl x, s1)
      | (Inr (code, out), s1) \<Rightarrow> if code = 0 then (Inr True, l_sleep L (nap_ms P) s1) else (Inr False, s1))"
  by (simp add: start_machine_def virsh_def call_def start_cmd_def nap_def pause_ms_def act_simps
      split: sum.split prod.split)

lemma restart_pass_all:
  assumes start: "\<And>m s. \<exists>out s'. l_call L (start_cmd m) s = (Inr (0, out), s')"
  shows "\<exists>ys s'. restart_pass L P xs s = (Inr ys, s') \<and> length ys = length xs div 2"
proof -
  have "\<exists>s'. start_machine L P m s = (Inr True, s')" for m s
    using start [of m s] by (auto simp: start_machine_run)
  from pop_pass_all [where f = "start_machine L P", OF this, of 0 xs s] show ?thesis
    by (auto simp: restart_pass_def bindA_def nap_def pause_ms_def ret_def length_every_other)
qed

text \<open>
  C38. The bound of the restart of the machines. When every machine starts at the first command, a pass
  starts every other one only, so the restart succeeds exactly when there is a machine and there are
  fewer than \<open>2 ^ tries\<close>; otherwise it ends in an AssertionError.
\<close>

theorem kvm_restart_bound:
  assumes start: "\<And>m s. \<exists>out s'. l_call L (start_cmd m) s = (Inr (0, out), s')"
  shows "fst (kvm_restart_off_machines L P names tries s) =
    (if names \<noteq> [] \<and> length names < 2 ^ tries then Inr () else Inl AssertionError)"
  unfolding kvm_restart_off_machines_def by (rule all_taken) (rule restart_pass_all [OF start])

text \<open>What is left and what was taken make up the list.\<close>

lemma mset_remove_at: "i < length xs \<Longrightarrow> add_mset (xs ! i) (mset (remove_at i xs)) = mset xs"
proof -
  assume i: "i < length xs"
  then have "mset xs = mset (take i xs @ xs ! i # drop (Suc i) xs)" by (simp add: id_take_nth_drop [symmetric])
  then show ?thesis by (simp add: remove_at_def)
qed

lemma pop_pass_log:
  assumes f: "\<And>x s b s'. f x s = (Inr b, s') \<Longrightarrow> log s' = (if b then add_mset x (log s) else log s)"
    and run: "pop_pass f i xs s = (Inr ys, s')"
  shows "log s' + mset ys = log s + mset xs"
  using run
proof (induction "length xs - i" arbitrary: i xs s rule: less_induct)
  case less
  show ?case
  proof (cases "i < length xs")
    case True
    from less.prems True obtain b s1 where b: "f (xs ! i) s = (Inr b, s1)"
      "pop_pass f (Suc i) (if b then remove_at i xs else xs) s1 = (Inr ys, s')"
      unfolding pop_pass.simps [of f i xs] by (auto simp: bindA_Inr)
    have "length (if b then remove_at i xs else xs) - Suc i < length xs - i" using True by (cases b) auto
    from less.hyps [OF this b(2)] have "log s' + mset ys = log s1 + mset (if b then remove_at i xs else xs)" .
    then show ?thesis using f [OF b(1)] mset_remove_at [OF True] by (auto split: if_splits)
  qed (use less.prems in \<open>simp add: pop_pass.simps [of f i xs] act_simps\<close>)
qed

lemma pop_tries_log:
  assumes p: "\<And>xs s ys s'. pass xs s = (Inr ys, s') \<Longrightarrow> log s' + mset ys = log s + mset xs"
    and run: "pop_tries pass n xs s = (Inr ys, s')"
  shows "log s' + mset ys = log s + mset xs"
  using run
proof (induction n arbitrary: xs s)
  case (Suc n)
  show ?case
  proof (cases "xs = []")
    case False
    with Suc.prems obtain zs s1 where "pass xs s = (Inr zs, s1)" "pop_tries pass n zs s1 = (Inr ys, s')"
      by (auto simp: bindA_Inr)
    with Suc.IH p show ?thesis by metis
  qed (use Suc.prems in \<open>simp add: act_simps\<close>)
qed (simp add: act_simps)

text \<open>
  C37. A restart that succeeds started every machine it was given exactly as often as it was given, whatever
  failed in between: for any count of the machines started, which a successful \<open>virsh start\<close> raises and
  nothing else changes.
\<close>

theorem kvm_restart_once:
  assumes run: "kvm_restart_off_machines L P names tries s = (Inr (), s')"
    and count: "\<And>m s r s'. l_call L (start_cmd m) s = (r, s') \<Longrightarrow>
      started s' = (if \<exists>out. r = Inr (0, out) then add_mset m (started s) else started s)"
    and sleeping: "\<And>n s. started (l_sleep L n s) = started s"
  shows "started s' = started s + mset names"
proof -
  have f: "started s' = (if b then add_mset m (started s) else started s)"
    if "start_machine L P m s = (Inr b, s')" for m s b s'
  proof -
    obtain r s1 where r: "l_call L (start_cmd m) s = (r, s1)" by (cases "l_call L (start_cmd m) s")
    from count [OF r] that r show ?thesis
      by (cases r) (auto simp: start_machine_run sleeping split: if_splits prod.splits)
  qed
  have p: "started s' + mset ys = started s + mset xs" if run: "restart_pass L P xs s = (Inr ys, s')" for xs s ys s'
  proof -
    obtain s1 where "pop_pass (start_machine L P) 0 xs s = (Inr ys, s1)" "s' = l_sleep L (nap_ms P) s1"
      using run by (auto simp: restart_pass_def bindA_Inr nap_def pause_ms_def ret_def)
    with pop_pass_log [where f = "start_machine L P" and log = started, OF f] show ?thesis by (simp add: sleeping)
  qed
  obtain ys s1 where "pop_tries (restart_pass L P) tries names s = (Inr ys, s1)" "ys = []" "s' = s1"
    using run by (auto simp: kvm_restart_off_machines_def bindA_Inr assertA_def ret_def raiseA_def split: if_splits)
  with pop_tries_log [where pass = "restart_pass L P" and log = started, OF p] show ?thesis by fastforce
qed

section \<open>tiller\<close>

text \<open>
  The class puts the address the API server binds to into the environment, as a text; formatting it as the
  number of a port raises, so no configuration lets the test of the restart of tiller begin.
\<close>

lemma class_bind_address:
  assumes "player_class L env euid here yaml_load s = (Inr P, s1)"
  shows "attr (ec P) ''kubernetes_apiserver_insecure_bind_address'' = ok (JStr ''0.0.0.0'')"
proof -
  let ?k = "''kubernetes_apiserver_insecure_bind_address''"
  obtain port where r: "EnjoliverConfig_init (map_of (class_environ env euid port)) here yaml_load = ok (ec P)"
    using assms by (auto simp: player_class_def bindA_Inr liftA_def ret_def)
  then obtain y where "yaml_load = ok y" by (cases yaml_load) (auto simp: EnjoliverConfig_init_def split: if_splits)
  with r have c: "EnjoliverConfig_init (map_of (class_environ env euid port)) here (ok y) = ok (ec P)" by simp
  have "(?k, AsIs, JStr ''127.0.0.1'') \<in> set settings_numbers" by (simp add: settings_numbers_def)
  then have "(?k, AsIs, JStr ''127.0.0.1'') \<in> set (all_settings (map_of (class_environ env euid port)) here)"
    by (simp add: all_settings_def main_settings_def)
  from init_values [OF c this] obtain w where
    w: "convert AsIs (configured (map_of (class_environ env euid port)) y ?k (JStr ''127.0.0.1'')) = ok w" "attr (ec P) ?k = ok w" by blast
  have "''ENJOLIVER_'' @ to_upper ?k = ''ENJOLIVER_KUBERNETES_APISERVER_INSECURE_BIND_ADDRESS''" by code_simp
  then have "configured (map_of (class_environ env euid port)) y ?k (JStr ''127.0.0.1'') = JStr ''0.0.0.0''"
    unfolding configured_def by (simp add: class_environ_def setenv_def)
  with w show ?thesis by simp
qed

lemma tiller_restart_fails:
  assumes "player_class L env euid here yaml_load s = (Inr P, s1)"
  shows "tiller_can_restart L P api_server_ip s2 = Some (Inl TypeError, s2)"
  using class_bind_address [OF assms]
  by (simp add: tiller_can_restart_def tiller_killed_def tiller_host_def bindA_def liftA_def)

text \<open>The wait for the old container ends: every round that goes on sleeps a second, and it waits two minutes.\<close>

lemma whileA_ends:
  assumes step: "\<And>s s'. c s \<Longrightarrow> b s = (Inr None, s') \<Longrightarrow> m s' < (m s :: nat)"
  shows "\<exists>y. whileA c b s = Some y"
proof (induction "m s" arbitrary: s rule: less_induct)
  case less
  show ?case
  proof (cases "c s")
    case True
    obtain r s' where b: "b s = (r, s')" by (cases "b s")
    show ?thesis
    proof (cases "r = Inr None")
      case True
      with less step [OF \<open>c s\<close>] b \<open>c s\<close> show ?thesis by (simp add: whileA.simps [of c b s])
    next
      case False
      with b \<open>c s\<close> show ?thesis by (auto simp: whileA.simps [of c b s] split: sum.split option.split)
    qed
  qed (simp add: whileA.simps [of c b s])
qed

lemma wait_gc_ends:
  assumes round: "\<And>s s'. gc_round L P ip endpoint node s = (Inr None, s') \<Longrightarrow> l_now L s < l_now L s'"
  shows "\<exists>y. wait_gc L P ip ts endpoint node s = Some y"
proof -
  let ?c = "\<lambda>s. l_now L s < ts + 120 * second"
  have "ts + 120 * second - l_now L s' < ts + 120 * second - l_now L s"
    if "?c s" "gc_round L P ip endpoint node s = (Inr None, s')" for s s'
    using that(1) round [OF that(2)] by simp
  from whileA_ends [where m = "\<lambda>s. ts + 120 * second - l_now L s" and c = ?c and b = "gc_round L P ip endpoint node", OF this]
  obtain y where "whileA ?c (gc_round L P ip endpoint node) s = Some y" by blast
  then show ?thesis by (simp add: wait_gc_def)
qed

section \<open>Virtual machines\<close>

text \<open>The macs of the machines are distinct as their digits are, and the API takes them.\<close>

lemma digit_val_less: "is_digit c \<Longrightarrow> read_nat [c] < 10"
  unfolding read_nat_def digit_val_def is_digit_def by simp linarith

lemma machine_digit_less: "machine_digit name = Some k \<Longrightarrow> k < 10"
  using digit_val_less by (auto simp: machine_digit_def Let_def split: if_splits)

lemma generated_mac: "machine_digit name = Some k \<Longrightarrow> generate_mac_from_name name = ok (''54:52:00:00:00:'' @ two_digits (k + 1))"
  using machine_digit_less [of name k] by (simp add: generate_mac_from_name_def)

lemma generated_mac_valid:
  assumes "machine_digit name = Some k"
  shows "\<exists>mac. generate_mac_from_name name = ok mac \<and> is_ok (MAC_REGEX mac)"
proof -
  have "\<forall>k\<in>set [0..<10]. is_ok (MAC_REGEX (''54:52:00:00:00:'' @ two_digits (k + 1)))" by code_simp
  with generated_mac [OF assms] machine_digit_less [OF assms] show ?thesis by auto
qed

lemma generated_macs_apart:
  assumes "machine_digit x = Some k" "machine_digit y = Some l"
  shows "generate_mac_from_name x = generate_mac_from_name y \<longleftrightarrow> k = l"
proof -
  have "\<forall>k\<in>set [0..<10]. \<forall>l\<in>set [0..<10]. two_digits (k + 1) = two_digits (l + 1) \<longrightarrow> k = l" by code_simp
  with machine_digit_less [OF assms(1)] machine_digit_less [OF assms(2)]
  show ?thesis unfolding generated_mac [OF assms(1)] generated_mac [OF assms(2)] by auto
qed

text \<open>A machine gets one of four amounts, and never less than its default.\<close>

lemma optimized_memory_bounds:
  assumes "get_optimized_memory bytes n disk = ok m"
  shows "m \<in> (if disk = 0 then {921600, 1105920} else {737280, 884736})"
  using assms by (auto simp: get_optimized_memory_def ram_kvm_node_memory_mb_def Let_def split: if_splits)

section \<open>Witnesses\<close>

text \<open>A machine room whose commands fail when \<open>fails\<close> says so of their number, with the log of what was started.\<close>

type_synonym room = "nat \<times> string list"

definition room_call :: "(nat \<Rightarrow> bool) \<Rightarrow> string list \<Rightarrow> room \<Rightarrow> (int \<times> string) result \<times> room" where
  "room_call fails argv s =
     (case s of (n, log) \<Rightarrow>
        if fails n then (Inr (1, []), (Suc n, log))
        else (Inr (0, []), (Suc n, if length argv = 3 \<and> take 2 argv = [''virsh'', ''start''] then argv ! 2 # log else log)))"

text \<open>A lab in which nothing answers.\<close>

definition idle_lab :: "'s lab" where
  "idle_lab = \<lparr>l_http = (\<lambda>_ s. (raise ConnectionError, s)), l_call = (\<lambda>_ s. (raise IOError, s)), l_connect = (\<lambda>_ _ _. 1),
     l_start = (\<lambda>_ _ s. (1, s)), l_alive = (\<lambda>_ _. False), l_signal = (\<lambda>_ _ s. (raise NoSuchProcess, s)),
     l_join = (\<lambda>_ _ s. s), l_nodes = (\<lambda>_ s. (raise ConnectionError, s)), l_pods = (\<lambda>_ _ _ s. (raise ConnectionError, s)),
     l_create = (\<lambda>_ _ _ _ s. (raise ConnectionError, s)), l_yaml = (\<lambda>_. raise ValueError), l_yaml_text = (\<lambda>_. []),
     l_fs = (\<lambda>_. \<lparr>f_dirs = [], f_files = []\<rparr>), l_set_fs = (\<lambda>_ s. s), l_now = (\<lambda>_. 0), l_date = (\<lambda>_. []),
     l_sleep = (\<lambda>_ s. s)\<rparr>"

definition room_lab :: "(nat \<Rightarrow> bool) \<Rightarrow> room lab" where
  "room_lab fails = idle_lab\<lparr>l_call := room_call fails\<rparr>"

definition sample_player :: player where
  "sample_player = \<lparr>euid_path = ''/e/t/euid'', environ = [], api_port = 80, pl_sleep = 3,
     ec = \<lparr>from_yaml = JObj [], from_env = [], default_values = [], attrs = []\<rparr>\<rparr>"

theorem kvm_restart_bound_witness:
  "fst (kvm_restart_off_machines (room_lab (\<lambda>_. False)) sample_player [''m-0'', ''m-1'', ''m-2''] 2 (0, [])) = Inr () \<and>
   fst (kvm_restart_off_machines (room_lab (\<lambda>_. False)) sample_player [''m-0'', ''m-1'', ''m-2'', ''m-3''] 2 (0, [])) = Inl AssertionError"
proof -
  have "\<exists>out s'. l_call (room_lab (\<lambda>_. False)) (start_cmd m) s = (Inr (0, out), s')" for m s
    by (simp add: room_lab_def idle_lab_def room_call_def split: prod.split)
  from kvm_restart_bound [OF this] show ?thesis by simp
qed

theorem kvm_restart_once_witness:
  "\<exists>s'. kvm_restart_off_machines (room_lab even) sample_player [''m-0'', ''m-1''] 4 (0, []) = (Inr (), s') \<and>
     mset (snd s') = {#''m-0'', ''m-1''#}"
proof -
  have run: "kvm_restart_off_machines (room_lab even) sample_player [''m-0'', ''m-1''] 4 (0, []) = (Inr (), (4, [''m-0'', ''m-1'']))"
    by code_simp
  have c: "mset (snd s') = (if \<exists>out. r = Inr (0, out) then add_mset m (mset (snd s)) else mset (snd s))"
    if "l_call (room_lab even) (start_cmd m) s = (r, s')" for m s r s'
    using that by (auto simp: room_lab_def idle_lab_def room_call_def start_cmd_def split: prod.splits if_splits)
  have z: "mset (snd (l_sleep (room_lab even) n s)) = mset (snd s)" for n s by (simp add: room_lab_def idle_lab_def)
  from kvm_restart_once [OF run, of "\<lambda>s. mset (snd s)", OF c z] run show ?thesis by auto
qed

end
