(* ===== verification/Player_Net.thy ===== *)
theory Player_Net
  imports Player_Facts Net Lifecycle_Facts Json_Text_Facts Samples
begin

text \<open>
  The tests and the API together: the API model as the HTTP server of a test, everything else a test
  talks to left open. \<open>file_lab\<close> is what the proofs need of the outside: files change by writing only. With it,
  what becomes of the certificates when vault cannot be reached, and what the change of a metadata leaves
  in the groups of matchbox and in the API.
\<close>

section \<open>Indented JSON reads back\<close>

lemma nl4_ws: "list_all is_ws (nl4 l)" "nl4 l = [] \<or> hd (nl4 l) = CHR 0x0A"
  by (simp_all add: nl4_def is_ws_def list_all_iff)

lemma text_of_dump_at: "json_ok j \<Longrightarrow> text_of j (dump_at j l)"
proof (induction j arbitrary: l)
  case (JList xs)
  show ?case
  proof (cases "xs = []")
    case False
    have "list_all2 text_of xs (map (\<lambda>x. dump_at x (Suc l)) xs)"
      using JList by (auto simp: list_all2_map2 list_all_iff list_all2_same)
    from text_of_list [OF this nl4_ws(1) nl4_ws(1) nl4_ws(2) _ nl4_ws(1)] False show ?thesis by (simp add: comp_def)
  qed (simp add: text_of_empty)
next
  case (JObj d)
  show ?case
  proof (cases "d = []")
    case False
    have v: "text_of (snd kv) (dump_at (snd kv) (Suc l))" if "kv \<in> set d" for kv
    proof -
      have "json_ok (snd kv)" using JObj.prems that by (auto simp: json_ok_dict)
      with JObj.IH [OF that, of "snd kv" "Suc l"] show ?thesis by (simp add: snds.simps)
    qed
    have "list_all2 member_text d (map (\<lambda>kv. quote_str (fst kv) @ '': '' @ dump_at (snd kv) (Suc l)) d)"
      using v by (auto simp: list_all2_map2 member_text_def list_all2_same)
    moreover have "distinct (map fst d)" using JObj.prems by (simp add: json_ok_dict)
    ultimately show ?thesis
      using text_of_dict [OF _ nl4_ws(1) nl4_ws(1) nl4_ws(2) _ _ nl4_ws(1)] False by (simp add: comp_def)
  qed (simp add: text_of_empty)
qed (simp_all add: text_of_word word_int word_float text_of_string)

lemma dump_indented_reads: "json_ok j \<Longrightarrow> json_loads (dump_indented j) = Some j"
  using text_of_read [OF text_of_dump_at, of j 0 "Suc (length (dump_indented j))" "[]" "[]"]
  by (simp add: json_loads_def dump_indented_def)

section \<open>Setting a key of the metadata\<close>

lemma dict_set_again: "dict_set (dict_set d k v) k v = dict_set d k v"
  by (induction d) auto

lemma dict_set_set: "set (dict_set d k v) \<subseteq> insert (k, v) (set d)"
  by (induction d) (auto split: if_splits)

lemma set_metadata_Inr:
  "set_metadata k v j = Inr g \<longleftrightarrow> (\<exists>e d. j = JObj e \<and> map_of e ''metadata'' = Some (JObj d) \<and>
     g = JObj (dict_set e ''metadata'' (JObj (dict_set d k v))))"
  by (cases j) (auto simp: set_metadata_def bindE_eq_Inr split: option.splits json.splits)

lemma set_metadata_maps:
  assumes "set_metadata k v g = Inr g'"
  shows "\<exists>e m e' m'. g = JObj e \<and> map_of e ''metadata'' = Some (JObj m) \<and> g' = JObj e' \<and>
    map_of e' = (map_of e)(''metadata'' \<mapsto> JObj m') \<and> map_of m' = (map_of m)(k \<mapsto> v)"
proof -
  obtain e d where e: "g = JObj e" "map_of e ''metadata'' = Some (JObj d)" "g' = JObj (dict_set e ''metadata'' (JObj (dict_set d k v)))"
    using assms by (auto simp: set_metadata_Inr)
  then show ?thesis
    by (intro exI [of _ e] exI [of _ d] exI [of _ "dict_set e ''metadata'' (JObj (dict_set d k v))"] exI [of _ "dict_set d k v"]) simp
qed

lemma set_metadata_again: "set_metadata k v j = Inr g \<Longrightarrow> set_metadata k v g = Inr g"
  by (auto simp: set_metadata_Inr dict_set_again)

lemma dict_set_ok: "dict_ok d \<Longrightarrow> json_ok v \<Longrightarrow> dict_ok (dict_set d k v)"
  using dict_set_set [of d k v] by (auto simp: json_ok_dict distinct_dict_set)

lemma set_metadata_ok:
  assumes "set_metadata k v j = Inr g" "json_ok j" "json_ok v"
  shows "json_ok g"
proof -
  obtain e d where e: "j = JObj e" "map_of e ''metadata'' = Some (JObj d)" "g = JObj (dict_set e ''metadata'' (JObj (dict_set d k v)))"
    using assms(1) by (auto simp: set_metadata_Inr)
  have "(''metadata'', JObj d) \<in> set e" using e(2) by (rule map_of_SomeD)
  then have "json_ok (JObj d)" using assms(2) e(1) by (force simp: json_ok_dict)
  with assms(2,3) e(1,3) show ?thesis by (simp add: dict_set_ok)
qed

section \<open>Files change by writing\<close>

text \<open>What the files of a directory hold as JSON.\<close>

definition parsed :: "fs \<Rightarrow> string \<Rightarrow> json option" where
  "parsed f p = (case read_file f p of Inl _ \<Rightarrow> None | Inr t \<Rightarrow> json_loads t)"

locale file_lab =
  fixes L :: "'s lab"
  assumes http_files: "l_fs L (snd (l_http L c s)) = l_fs L s"
    and sleep_files: "l_fs L (l_sleep L n s) = l_fs L s"
    and set_files: "l_fs L (l_set_fs L f s) = f"
begin

lemma write_run:
  "lab_write L p t s =
     (case write_file (l_fs L s) p t of Inl x \<Rightarrow> (Inl x, s) | Inr g \<Rightarrow> (Inr (), l_set_fs L g s))"
  by (simp add: lab_write_def lab_files_def)

lemma rewrite_group_run:
  assumes "rewrite_group L p k v s = (Inr (), s')"
  obtains t j g where "read_file (l_fs L s) p = ok t" "json_loads t = Some j" "set_metadata k v j = ok g"
    "write_file (l_fs L s) p (dump_indented g) = ok (l_fs L s')"
proof -
  obtain t where t: "read_file (l_fs L s) p = ok t"
    using assms by (auto simp: rewrite_group_def lab_read_def lab_see_def bindA_Inr)
  obtain j where j: "json_loads t = Some j"
    using assms t by (cases "json_loads t") (auto simp: rewrite_group_def lab_read_def lab_see_def bindA_Inr liftA_def)
  obtain g where g: "set_metadata k v j = ok g" "lab_write L p (dump_indented g) s = (Inr (), s')"
    using assms t j by (auto simp: rewrite_group_def lab_read_def lab_see_def bindA_Inr liftA_def)
  have "write_file (l_fs L s) p (dump_indented g) = ok (l_fs L s')"
    using g(2) by (auto simp: write_run set_files split: sum.splits)
  with t j g(1) show thesis by (rule that)
qed

lemma rewrite_groups:
  assumes "forA (\<lambda>j. rewrite_group L (d @ ''/'' @ j) k v) js s = (Inr (), s')" "json_ok v"
  shows "(\<forall>q. q \<notin> (\<lambda>j. d @ ''/'' @ j) ` set js \<longrightarrow> read_file (l_fs L s') q = read_file (l_fs L s) q) \<and>
    (\<forall>j\<in>set js. \<forall>g. parsed (l_fs L s) (d @ ''/'' @ j) = Some g \<and> json_ok g \<longrightarrow>
      (\<exists>g'. set_metadata k v g = ok g' \<and> parsed (l_fs L s') (d @ ''/'' @ j) = Some g'))"
  using assms(1)
proof (induction js arbitrary: s)
  case (Cons j js)
  let ?p = "\<lambda>j. d @ ''/'' @ j"
  obtain s1 where s1: "rewrite_group L (?p j) k v s = (Inr (), s1)" "forA (\<lambda>j. rewrite_group L (?p j) k v) js s1 = (Inr (), s')"
    using Cons.prems by (auto simp: bindA_Inr)
  obtain t x y where w: "read_file (l_fs L s) (?p j) = ok t" "json_loads t = Some x" "set_metadata k v x = ok y"
    "write_file (l_fs L s) (?p j) (dump_indented y) = ok (l_fs L s1)" by (rule rewrite_group_run [OF s1(1)])
  note other = read_other [OF w(4)]
  note IH = Cons.IH [OF s1(2)]
  have now: "set_metadata k v g = ok y \<and> parsed (l_fs L s1) (?p j) = Some y \<and> json_ok y"
    if g: "parsed (l_fs L s) (?p j) = Some g" "json_ok g" for g
  proof -
    have "g = x" using g(1) w(1,2) by (simp add: parsed_def)
    moreover from this have "json_ok y" using set_metadata_ok [OF w(3)] g(2) assms(2) by simp
    ultimately show ?thesis using w(3) read_written [OF w(4)] dump_indented_reads by (simp add: parsed_def)
  qed
  have j: "\<exists>g'. set_metadata k v g = ok g' \<and> parsed (l_fs L s') (?p j) = Some g'"
    if g: "parsed (l_fs L s) (?p j) = Some g" "json_ok g" for g
  proof (cases "j \<in> set js")
    case True
    with IH now [OF g] have "\<exists>g'. set_metadata k v y = ok g' \<and> parsed (l_fs L s') (?p j) = Some g'" by blast
    with set_metadata_again [of k v g y] now [OF g] show ?thesis by auto
  next
    case False
    then have "?p j \<notin> ?p ` set js" by auto
    with IH have "read_file (l_fs L s') (?p j) = read_file (l_fs L s1) (?p j)" by blast
    with now [OF g] show ?thesis by (simp add: parsed_def)
  qed
  have i: "\<exists>g'. set_metadata k v g = ok g' \<and> parsed (l_fs L s') (?p i) = Some g'"
    if "i \<in> set js" "parsed (l_fs L s) (?p i) = Some g" "json_ok g" for i g
  proof (cases "i = j")
    case False
    then have "parsed (l_fs L s1) (?p i) = parsed (l_fs L s) (?p i)" using other by (simp add: parsed_def)
    with IH that show ?thesis by auto
  qed (use j that in simp)
  from IH other i j show ?case by auto
qed (simp add: act_simps)

text \<open>A loop whose body never leaves it.\<close>

lemma poll_keeps:
  assumes "\<And>t s. I s \<Longrightarrow> \<exists>s'. body t s = (Inr None, s') \<and> I s'" "I s"
  shows "\<exists>s'. poll n body s = (Inr None, s') \<and> I s'"
proof -
  have "\<exists>s'. poll_from body t n s = (Inr None, s') \<and> I s'" for t
    using assms(2)
  proof (induction n arbitrary: t s)
    case (Suc n)
    obtain s1 where "body t s = (Inr None, s1)" "I s1" using assms(1) Suc.prems by blast
    with Suc.IH [of s1 "Suc t"] show ?case by (simp add: bindA_def)
  qed (simp add: act_simps)
  then show ?thesis by (simp add: poll_def)
qed

text \<open>Without an answer, the file of the certificate is opened and the key is missing then.\<close>

lemma issue_without_answer:
  assumes I: "I s" "\<And>s. I s \<Longrightarrow> \<exists>x s'. http_post L url [(''X-Vault-Token'', token)] (Some certificate_request) verify s = (Inl x, s') \<and> I s'"
      "\<And>n s. I s \<Longrightarrow> I (l_sleep L n s)" "\<And>s. I s \<Longrightarrow> l_fs L s = f"
    and w: "write_file f (cert_file P (parent @ ''_'' @ component @ ''.certificate'')) [] = ok g"
  shows "\<exists>s1. vault_issue_certificate L P url token verify parent component tries s =
      (Inl (KeyError ''certificate''), l_set_fs L g s1) \<and> I s1"
proof -
  let ?ask = "bindA (http_post L url [(''X-Vault-Token'', token)] (Some certificate_request) verify) (\<lambda>r.
         liftA (bindE (load_reply r) (\<lambda>j. jget j ''data'')))"
  have "\<exists>s'. or_sleep L (2 * nap_ms P) ?ask s = (Inr None, s') \<and> I s'" if "I s" for s
  proof -
    obtain x s' where "http_post L url [(''X-Vault-Token'', token)] (Some certificate_request) verify s = (Inl x, s')" "I s'"
      using I(2) \<open>I s\<close> by blast
    then show ?thesis using I(3) by (simp add: or_sleep_def attempt_def pause_ms_def act_simps)
  qed
  from poll_keeps [where body = "\<lambda>_. or_sleep L (2 * nap_ms P) ?ask", OF this I(1)] obtain s1 where
    s1: "poll tries (\<lambda>_. or_sleep L (2 * nap_ms P) ?ask) s = (Inr None, s1)" "I s1" by blast
  have "save_part L P parent component (JObj []) ''certificate'' s1 = (Inl (KeyError ''certificate''), l_set_fs L g s1)"
    using w I(4) [OF s1(2)] by (simp add: save_part_def write_run act_simps Let_def)
  then show ?thesis using s1 by (auto simp: vault_issue_certificate_def bindA_def Let_def)
qed

end

section \<open>The API as the server of the tests\<close>

text \<open>Calls of \<open>requests\<close> are served by the API, a sleep moves its clock; the rest is that of another lab.\<close>

definition net_lab :: "'c server \<Rightarrow> string \<Rightarrow> 'c net lab \<Rightarrow> 'c net lab" where
  "net_lab S base R = R\<lparr>l_http := (\<lambda>c. net_call S base (hc_verb c) (hc_url c) (hc_data c)), l_fs := net_fs,
     l_set_fs := (\<lambda>f st. st\<lparr>net_fs := f\<rparr>), l_now := clock, l_sleep := (\<lambda>n st. st\<lparr>clock := clock st + n * 1000\<rparr>)\<rparr>"

interpretation nl: file_lab "net_lab S base R" for S :: "'c server" and base :: string and R :: "'c net lab"
  by unfold_locales (simp_all add: net_lab_def net_call_def split: prod.split)

lemma cert_file_child:
  assumes "CHR ''/'' \<notin> set n" "n \<noteq> []"
  shows "cert_file P n = test_certs_path P @ ''/'' @ n" "dirname (cert_file P n) = test_certs_path P"
proof -
  have "\<not> starts_with ''/'' n" using assms by (cases n) auto
  then show c: "cert_file P n = test_certs_path P @ ''/'' @ n"
    by (simp add: cert_file_def path_join_def test_certs_path_def)
  show "dirname (cert_file P n) = test_certs_path P" unfolding c by (rule dirname_child [OF assms(1)])
qed

text \<open>
  C39. A certificate that cannot be issued destroys the one there was. When no try reaches vault, the
  function ends in a KeyError, the file of the certificate is empty afterwards whatever it held, and every
  other file and the API are as before.
\<close>

theorem certificate_lost:
  fixes S :: "'c server" and st :: "'c net"
  assumes url: "\<not> starts_with base url" and names: "CHR ''/'' \<notin> set parent" "CHR ''/'' \<notin> set component"
    and dir: "is_dir (net_fs st) (test_certs_path P)"
      "\<not> is_dir (net_fs st) (cert_file P (parent @ ''_'' @ component @ ''.certificate''))"
  shows "\<exists>st'. vault_issue_certificate (net_lab S base R) P url token verify parent component tries st =
      (Inl (KeyError ''certificate''), st') \<and>
    read_file (net_fs st') (cert_file P (parent @ ''_'' @ component @ ''.certificate'')) = ok [] \<and>
    (\<forall>q. q \<noteq> cert_file P (parent @ ''_'' @ component @ ''.certificate'') \<longrightarrow>
      read_file (net_fs st') q = read_file (net_fs st) q) \<and> net_api st' = net_api st"
proof -
  let ?n = "parent @ ''_'' @ component @ ''.certificate''" and ?L = "net_lab S base R"
  define I where "I s \<longleftrightarrow> net_fs s = net_fs st \<and> net_api s = net_api st" for s :: "'c net"
  have "dirname (cert_file P ?n) = test_certs_path P" using names by (intro cert_file_child) auto
  then obtain g where g: "write_file (net_fs st) (cert_file P ?n) [] = ok g" using dir by (simp add: write_file_def)
  have p: "\<exists>x s'. http_post ?L url [(''X-Vault-Token'', token)] (Some certificate_request) verify s = (Inl x, s') \<and> I s'"
    if "I s" for s using url that by (simp add: http_post_def net_lab_def net_call_def)
  have sl: "I (l_sleep ?L n s)" if "I s" for n s using that by (simp add: I_def net_lab_def)
  have fs: "l_fs ?L s = net_fs st" if "I s" for s using that by (simp add: I_def net_lab_def)
  have "I st" by (simp add: I_def)
  from nl.issue_without_answer [where I = I, OF this p sl fs g] obtain s1 where
    s1: "vault_issue_certificate ?L P url token verify parent component tries st =
      (Inl (KeyError ''certificate''), l_set_fs ?L g s1)" "I s1" by blast
  have "net_fs (l_set_fs ?L g s1) = g" "net_api (l_set_fs ?L g s1) = net_api st"
    using s1(2) by (simp_all add: net_lab_def I_def)
  then show ?thesis using read_written [OF g] read_other [OF g]
    by (intro exI [of _ "l_set_fs ?L g s1"] conjI allI impI s1(1)) simp_all
qed

section \<open>Rolling\<close>

definition rolls :: "db \<Rightarrow> nat \<Rightarrow> bool" where
  "rolls d k \<longleftrightarrow> (\<exists>r\<in>set (rollings d). r_machine r = k \<and> r_enable r \<and> r_strategy r = Some ''kexec'')"

lemma apply_rolls:
  assumes E: "engine_ok E" and d: "db_ok d" and k: "machine_known d k"
  obtains d' where "apply_lifecycle_rolling E now k (True, JStr ''kexec'') d = Inr d'" "db_ok d'"
    "machines d' = machines d" "ifaces d' = ifaces d" "rolls d' k" "\<forall>j. rolls d j \<longrightarrow> rolls d' j"
proof -
  let ?v = "(True, JStr ''kexec'')"
  have "is_ok (apply_lifecycle_rolling E now k ?v d)"
    by (auto simp: apply_lifecycle_rolling_def split: option.splits)
  then obtain d' where d': "apply_lifecycle_rolling E now k ?v d = Inr d'" by (auto simp: is_ok_iff)
  obtain rs x where x: "d' = d\<lparr>rollings := rs\<rparr>" "row_put r_id r_machine k (rollings d) x rs" "rolling_holds ?v x"
    by (rule rolling_put [OF E d d'])
  have xs: "x \<in> set rs" "r_machine x = k" "r_enable x" "r_strategy x = Some ''kexec''"
    using x(2,3) by (auto simp: row_put_def rolling_holds_def)
  have "rolls d' j" if "rolls d j" for j
    using that xs row_put_laws(2) [OF x(2)] x(1) by (cases "j = k") (auto simp: rolls_def)
  moreover have "rolls d' k" using xs x(1) by (auto simp: rolls_def)
  moreover have "db_ok d'" using rol.put_ok [OF E d k d'] .
  ultimately show thesis using that d' put_machines(3) [OF d'] by blast
qed

lemma str_contains_chars: "str_contains p s \<Longrightarrow> set p \<subseteq> set s"
proof (induction p s rule: str_contains.induct)
  case (2 p c s)
  have "set p \<subseteq> set (c # s)" if "starts_with p (c # s)"
    using that set_take_subset [of "length p" "c # s"] by (simp add: starts_with_iff)
  with 2 show ?case by auto
qed auto

lemma mac_text:
  assumes "MAC_REGEX mac = ok w"
  shows "mac \<noteq> []" "set mac \<inter> {CHR ''/'', CHR ''&'', CHR ''='', CHR ''-''} = {}"
proof -
  obtain v where v: "mac_shape v" "mac = v \<or> mac = v @ [newline]" using assms by (auto simp: MAC_REGEX_Inr)
  then obtain ws where ws: "length ws = 6" "\<forall>w\<in>set ws. hex_word 2 w" "v = join_with '':'' ws" by (auto simp: mac_shape_def)
  have "set (join_with '':'' us) \<subseteq> insert (CHR '':'') (\<Union> (set ` set us))" for us
  proof (induction us)
    case (Cons u us)
    then show ?case by (cases "us = []") (auto simp: join_with_Cons)
  qed simp
  then have "set v \<subseteq> insert (CHR '':'') {c. is_hex c}" using ws(2,3) by (force simp: hex_word_def)
  then have "set mac \<subseteq> insert newline (insert (CHR '':'') {c. is_hex c})" using v(2) by auto
  then show "set mac \<inter> {CHR ''/'', CHR ''&'', CHR ''='', CHR ''-''} = {}"
    by (auto simp: is_hex_def newline_def)
  show "mac \<noteq> []" using v mac_shape_last by auto
qed

lemma raw_query_of_mac:
  assumes "MAC_REGEX mac = ok w"
  shows "get_mac_from_raw_query (''mac='' @ mac) = ok mac"
proof -
  note m = mac_text [OF assms]
  have "\<not> str_contains ''mac='' mac" using m(2) str_contains_chars [of "''mac=''" mac] by auto
  moreover have "dash_to_colon mac = mac" using m(2) by (auto simp: dash_to_colon_def intro!: map_idI)
  moreover have "CHR ''&'' \<notin> set mac" using m(2) by auto
  ultimately show ?thesis using get_mac_of_query [of mac "[]" "[]"] m(1) by simp
qed

text \<open>A route with a mac of the database behind it.\<close>

lemma machine_mac:
  assumes E: "engine_ok E" and d: "db_ok d" and m: "machine_by_mac E d mac = Some m"
  shows "MAC_REGEX mac = ok mac" "machine_known d (m_id m)"
proof -
  obtain i where i: "m \<in> set (machines d)" "i \<in> set (ifaces d)" "i_mac i = mac"
    using m d machine_by_mac_Some [OF E, of d] by (auto simp: db_ok_def)
  then have "is_ok (MAC_REGEX mac)" using d by (auto simp: db_ok_defs)
  then show "MAC_REGEX mac = ok mac" by (auto simp: is_ok_iff MAC_REGEX_Inr)
  show "machine_known d (m_id m)" using i by (simp add: machine_known_def)
qed

definition rolling_path :: "string \<Rightarrow> string" where
  "rolling_path mac = ''/lifecycle/rolling/mac='' @ mac"

lemma serve_rolling:
  assumes "MAC_REGEX mac = ok w"
  shows "serve S (net_request ''POST'' (rolling_path mac) None now) a =
    (case change_lifecycle_rolling S (net_request ''POST'' (rolling_path mac) None now) (''mac='' @ mac) a of
       (Inl _, a') \<Rightarrow> (server_error, a') | (Inr r, a') \<Rightarrow> (r, a'))"
proof -
  have "CHR ''/'' \<notin> set mac" using mac_text(2) [OF assms] by auto
  then have "split_on CHR ''/'' mac = [mac]" by (rule split_on_no_sep)
  then show ?thesis by (simp add: serve_def routes_of_def routes_of_3_def net_request_def rolling_path_def)
qed

lemma post_rolling:
  assumes E: "engine_ok (sv_engine S)" and d: "db_ok (a_db a)" and m: "machine_by_mac (sv_engine S) (a_db a) mac = Some m"
  obtains r a' where "serve S (net_request ''POST'' (rolling_path mac) None now) a = (r, a')" "db_ok (a_db a')"
    "machines (a_db a') = machines (a_db a)" "ifaces (a_db a') = ifaces (a_db a)" "rolls (a_db a') (m_id m)"
    "\<forall>j. rolls (a_db a) j \<longrightarrow> rolls (a_db a') j"
proof -
  note mac = machine_mac [OF E d m]
  obtain d' where d': "apply_lifecycle_rolling (sv_engine S) now (m_id m) (True, JStr ''kexec'') (a_db a) = Inr d'" "db_ok d'"
    "machines d' = machines (a_db a)" "ifaces d' = ifaces (a_db a)" "rolls d' (m_id m)" "\<forall>j. rolls (a_db a) j \<longrightarrow> rolls d' j"
    by (rule apply_rolls [where now = now, OF E d mac(2)])
  have "inject_machine (sv_engine S) (''mac='' @ mac) (a_db a) = ok m"
    using m raw_query_of_mac [OF mac(1)] by (simp add: inject_machine_def)
  then have "apply_rolling S now (''mac='' @ mac) True (JStr ''kexec'') a = (Inr (), a\<lparr>a_db := d'\<rparr>)"
    using d'(1) by (simp add: apply_rolling_def with_db_def session_commit_def Let_def)
  then have "\<exists>r. serve S (net_request ''POST'' (rolling_path mac) None now) a = (r, a\<lparr>a_db := d'\<rparr>)"
    unfolding serve_rolling [OF mac(1)]
    by (simp add: change_lifecycle_rolling_def requested_strategy_def net_request_def act_simps)
  then show thesis using that d' by auto
qed

lemma post_rollings:
  assumes E: "engine_ok (sv_engine S)" and d: "db_ok (a_db (net_api st))"
    and macs: "\<forall>mac\<in>set macs. machine_by_mac (sv_engine S) (a_db (net_api st)) mac \<noteq> None"
    and run: "forA (\<lambda>mac. bindA (http_post (net_lab S base R) (base @ rolling_path (py_str mac)) [] None (JBool True)) (\<lambda>_. ret ()))
      (map JStr macs) st = (Inr (), st')"
  shows "db_ok (a_db (net_api st')) \<and> machines (a_db (net_api st')) = machines (a_db (net_api st)) \<and>
    ifaces (a_db (net_api st')) = ifaces (a_db (net_api st)) \<and> net_fs st' = net_fs st \<and>
    (\<forall>j. rolls (a_db (net_api st)) j \<longrightarrow> rolls (a_db (net_api st')) j) \<and>
    (\<forall>mac\<in>set macs. \<forall>m. machine_by_mac (sv_engine S) (a_db (net_api st)) mac = Some m \<longrightarrow> rolls (a_db (net_api st')) (m_id m))"
  using d macs run
proof (induction macs arbitrary: st)
  case (Cons mac macs)
  let ?E = "sv_engine S" and ?d = "a_db (net_api st)"
  obtain m where m: "machine_by_mac ?E ?d mac = Some m" using Cons.prems(2) by auto
  obtain r a where a: "serve S (net_request ''POST'' (rolling_path mac) None (clock st)) (net_api st) = (r, a)" "db_ok (a_db a)"
    "machines (a_db a) = machines ?d" "ifaces (a_db a) = ifaces ?d" "rolls (a_db a) (m_id m)" "\<forall>j. rolls ?d j \<longrightarrow> rolls (a_db a) j"
    by (rule post_rolling [where now = "clock st", OF E Cons.prems(1) m])
  let ?st = "st\<lparr>net_api := a\<rparr>"
  have "http_post (net_lab S base R) (base @ rolling_path mac) [] None (JBool True) st = (Inr (reply_of r), ?st)"
    using a(1) by (simp add: http_post_def net_lab_def net_call_def)
  then have rest: "forA (\<lambda>mac. bindA (http_post (net_lab S base R) (base @ rolling_path (py_str mac)) [] None (JBool True)) (\<lambda>_. ret ()))
      (map JStr macs) ?st = (Inr (), st')"
    using Cons.prems(3) by (simp add: bindA_Inr) (simp add: ret_def)
  have same: "machine_by_mac ?E (a_db a) x = machine_by_mac ?E ?d x" for x using a(3,4) by (rule machine_by_mac_same)
  then have "\<forall>mac\<in>set macs. machine_by_mac ?E (a_db (net_api ?st)) mac \<noteq> None" using Cons.prems(2) by simp
  from Cons.IH [OF _ this rest] a same m show ?case by auto
qed (simp add: act_simps)

section \<open>What the listing of the schedules names\<close>

lemma schedule_entries:
  assumes "foldE (schedule_entry E d) acc ms = Inr r"
  shows "fst ` set r = fst ` set acc \<union> {i_mac b | m b. m \<in> set ms \<and> m_schedules E d m \<noteq> [] \<and> m_boot_interface E d m = Some b} \<and>
    (\<forall>m\<in>set ms. m_schedules E d m \<noteq> [] \<longrightarrow> m_boot_interface E d m \<noteq> None)"
  using assms
proof (induction ms arbitrary: acc)
  case (Cons m ms)
  then obtain e where e: "schedule_entry E d acc m = Inr e" "foldE (schedule_entry E d) e ms = Inr r" by (auto simp: bindE_eq_Inr)
  have "fst ` set e = fst ` set acc \<union> {i_mac b | b. m_schedules E d m \<noteq> [] \<and> m_boot_interface E d m = Some b} \<and>
      (m_schedules E d m \<noteq> [] \<longrightarrow> m_boot_interface E d m \<noteq> None)"
  proof (cases "m_schedules E d m = []")
    case False
    then obtain b where b: "m_boot_interface E d m = Some b"
      "e = dict_set acc (i_mac b) (JList (map (\<lambda>k. JStr (s_role k)) (m_schedules E d m)))"
      using e(1) by (auto simp: schedule_entry_def Let_def split: option.splits)
    have "fst ` set e = insert (i_mac b) (fst ` set acc)" unfolding b(2) by (rule keys_dict_set)
    then show ?thesis using False b(1) by simp
  qed (use e(1) in \<open>simp add: schedule_entry_def\<close>)
  with Cons.IH [OF e(2)] show ?case by auto
qed simp

lemma all_schedules_keys:
  assumes E: "engine_ok E" and d: "db_ok d" and g: "get_all_schedules E d = Inr (JObj r)"
  shows "mac \<in> fst ` set r \<Longrightarrow> \<exists>m. machine_by_mac E d mac = Some m"
    and "m \<in> set (machines d) \<Longrightarrow> roles_of d m \<noteq> {} \<Longrightarrow>
      \<exists>b. m_boot_interface E d m = Some b \<and> i_mac b \<in> fst ` set r \<and> machine_by_mac E d (i_mac b) = Some m"
proof -
  note ok = machine_by_mac_Some [OF E, of d]
  have f: "foldE (schedule_entry E d) [] (all_machines E d) = Inr r" using g by (simp add: get_all_schedules_def bindE_eq_Inr)
  note k = schedule_entries [OF f]
  have ms: "set (all_machines E d) = set (machines d)" using E by (simp add: all_machines_def)
  have own: "machine_by_mac E d (i_mac b) = Some m" if "m \<in> set (machines d)" "m_boot_interface E d m = Some b" for m b
  proof -
    have "b \<in> set (query_where E (\<lambda>i. i_machine i = m_id m \<and> i_as_boot i) (ifaces d))"
      using that(2) unfolding m_boot_interface_def by (rule first_Some_in)
    then have "b \<in> set (ifaces d)" "i_machine b = m_id m" using E by auto
    then show ?thesis using ok d that(1) by (auto simp: db_ok_def)
  qed
  show "\<exists>m. machine_by_mac E d mac = Some m" if "mac \<in> fst ` set r" using that k own by (auto simp: ms)
  assume m: "m \<in> set (machines d)" "roles_of d m \<noteq> {}"
  have "m_schedules E d m \<noteq> []"
  proof -
    obtain x where "x \<in> set (schedules d)" "s_machine x = m_id m" using m(2) by (auto simp: roles_of_def)
    then have "x \<in> set (m_schedules E d m)" using E by (simp add: m_schedules_def)
    then show ?thesis by auto
  qed
  moreover from this obtain b where "m_boot_interface E d m = Some b" using k m(1) by (auto simp: ms)
  ultimately show "\<exists>b. m_boot_interface E d m = Some b \<and> i_mac b \<in> fst ` set r \<and> machine_by_mac E d (i_mac b) = Some m"
    using own m(1) k by (auto simp: ms)
qed

text \<open>With no cached answer the listing is that of the database, and anything else ends the run.\<close>

lemma allow_rolling_run:
  assumes run: "allow_rolling (net_lab S base R) P st = (Inr (), st')" and base: "player_uri P = base"
    and fresh: "cache_get (sv_cache S) (clock st) ''/scheduler'' (a_cache (net_api st)) = None"
  obtains r c where "get_all_schedules (sv_engine S) (a_db (net_api st)) = Inr (JObj r)"
    "forA (\<lambda>mac. bindA (http_post (net_lab S base R) (base @ rolling_path (py_str mac)) [] None (JBool True)) (\<lambda>_. ret ()))
      (map JStr (map fst r)) (st\<lparr>net_api := (net_api st)\<lparr>a_cache := c\<rparr>\<rparr>) = (Inr (), st')"
proof -
  let ?g = "get_all_schedules (sv_engine S) (a_db (net_api st))"
  have s: "serve S (net_request ''GET'' ''/scheduler'' None (clock st)) (net_api st) =
    (case scheduler_get S (net_request ''GET'' ''/scheduler'' None (clock st)) (net_api st) of
       (Inl _, a') \<Rightarrow> (server_error, a') | (Inr r, a') \<Rightarrow> (r, a'))"
    by (simp add: serve_def routes_of_def routes_of_1_def net_request_def)
  obtain v where v: "?g = Inr v"
  proof (cases ?g)
    case (Inl x)
    then have "scheduler_get S (net_request ''GET'' ''/scheduler'' None (clock st)) (net_api st) = (Inl x, net_api st)"
      using fresh by (simp add: scheduler_get_def net_request_def act_simps)
    then have "http_get (net_lab S base R) (base @ ''/scheduler'') st = (Inr (reply_of server_error), st)"
      using s by (simp add: http_get_def net_lab_def net_call_def)
    moreover have "load_reply (reply_of server_error) = Inl ValueError"
      by (simp add: load_reply_def reply_of_def server_error_def plain_def is_digit_def)
    ultimately show thesis using run base by (simp add: allow_rolling_def bindA_def liftA_def)
  qed
  then obtain r where r: "v = JObj r" by (auto simp: get_all_schedules_def bindE_eq_Inr)
  obtain c where "scheduler_get S (net_request ''GET'' ''/scheduler'' None (clock st)) (net_api st) =
      (Inr (jsonify v 200), (net_api st)\<lparr>a_cache := c\<rparr>)"
    using fresh v by (simp add: scheduler_get_def net_request_def act_simps)
  then have "http_get (net_lab S base R) (base @ ''/scheduler'') st =
      (Inr (reply_of (jsonify v 200)), st\<lparr>net_api := (net_api st)\<lparr>a_cache := c\<rparr>\<rparr>)"
    using s by (simp add: http_get_def net_lab_def net_call_def)
  then have "forA (\<lambda>mac. bindA (http_post (net_lab S base R) (base @ rolling_path (py_str mac)) [] None (JBool True)) (\<lambda>_. ret ()))
      (map JStr (map fst r)) (st\<lparr>net_api := (net_api st)\<lparr>a_cache := c\<rparr>\<rparr>) = (Inr (), st')"
    using run base by (simp add: allow_rolling_def bindA_Inr liftA_def load_body r rolling_path_def comp_def)
  with v r show thesis by (intro that) simp_all
qed

lemma rewriting_keeps_api:
  "forA (\<lambda>j. rewrite_group (net_lab S base R) (f j) k v) js s = (r, s') \<Longrightarrow> net_api s' = net_api s"
proof (induction js arbitrary: s)
  case (Cons j js)
  have "net_api (snd (rewrite_group (net_lab S base R) p k v s)) = net_api s" for p s
    by (simp add: rewrite_group_def lab_read_def lab_see_def lab_write_def lab_files_def net_lab_def bindA_def liftA_def
        split: sum.split)
  from this [of "f j" s] Cons show ?case by (auto simp: bindA_def split: prod.splits sum.splits)
qed (simp add: act_simps)

lemma rolls_served:
  assumes "engine_ok E" "db_ok d" "machine_by_mac E d mac = Some m" "rolls d (m_id m)"
  shows "get_rolling_status E mac d = Some (True, Some ''kexec'')"
proof -
  obtain r where "r \<in> set (rollings d)" "r_machine r = m_id m" "r_enable r" "r_strategy r = Some ''kexec''"
    using assms(4) by (auto simp: rolls_def)
  with get_rolling_status_owner [OF assms(1-3), of r] show ?thesis by simp
qed

text \<open>
  C36. The change of a metadata, with the API as the server. When it succeeds, every group of a machine that
  held JSON holds the same with the one key changed, no other file was touched, and every machine that has
  a role may roll: the API serves the policy enabled, with kexec, for the mac of its boot interface.
\<close>

theorem metadata_replaced:
  assumes run: "replace_ignition_metadata (net_lab S (player_uri P) R) P key v st = (Inr (), st')" and v: "json_ok v"
    and E: "engine_ok (sv_engine S)" and d: "db_ok (a_db (net_api st))"
    and fresh: "cache_get (sv_cache S) (clock st) ''/scheduler'' (a_cache (net_api st)) = None"
  shows "(\<forall>j\<in>set (listdir (net_fs st) (groups_dir P)). \<forall>g. is_machine_group j \<and>
      parsed (net_fs st) (groups_dir P @ ''/'' @ j) = Some g \<and> json_ok g \<longrightarrow>
      (\<exists>e m e' m'. g = JObj e \<and> map_of e ''metadata'' = Some (JObj m) \<and>
        parsed (net_fs st') (groups_dir P @ ''/'' @ j) = Some (JObj e') \<and>
        map_of e' = (map_of e)(''metadata'' \<mapsto> JObj m') \<and> map_of m' = (map_of m)(key \<mapsto> v))) \<and>
    (\<forall>q. (\<forall>j. is_machine_group j \<longrightarrow> q \<noteq> groups_dir P @ ''/'' @ j) \<longrightarrow> read_file (net_fs st') q = read_file (net_fs st) q) \<and>
    (\<forall>m\<in>set (machines (a_db (net_api st))). roles_of (a_db (net_api st)) m \<noteq> {} \<longrightarrow>
      (\<exists>b. m_boot_interface (sv_engine S) (a_db (net_api st)) m = Some b \<and>
        get_rolling_status (sv_engine S) (i_mac b) (a_db (net_api st')) = Some (True, Some ''kexec'')))"
proof -
  let ?L = "net_lab S (player_uri P) R" and ?E = "sv_engine S" and ?d = "a_db (net_api st)"
  let ?js = "filter is_machine_group (listdir (net_fs st) (groups_dir P))"
  obtain s1 where s1: "allow_rolling ?L P st = (Inr (), s1)"
    "bindA (lab_see ?L (\<lambda>f. list_dir f (groups_dir P))) (\<lambda>names.
       forA (\<lambda>j. rewrite_group ?L (groups_dir P @ ''/'' @ j) key v) (filter is_machine_group names)) s1 = (Inr (), st')"
    using run by (auto simp: replace_ignition_metadata_def bindA_Inr)
  obtain r c where r: "get_all_schedules ?E ?d = Inr (JObj r)"
    "forA (\<lambda>mac. bindA (http_post ?L (player_uri P @ rolling_path (py_str mac)) [] None (JBool True)) (\<lambda>_. ret ()))
      (map JStr (map fst r)) (st\<lparr>net_api := (net_api st)\<lparr>a_cache := c\<rparr>\<rparr>) = (Inr (), s1)"
    by (rule allow_rolling_run [OF s1(1) refl fresh])
  note keys = all_schedules_keys [OF E d r(1)]
  let ?d1 = "a_db (net_api s1)"
  have p: "db_ok ?d1" "machines ?d1 = machines ?d" "ifaces ?d1 = ifaces ?d" "net_fs s1 = net_fs st"
    "\<forall>mac\<in>set (map fst r). \<forall>m. machine_by_mac ?E ?d mac = Some m \<longrightarrow> rolls ?d1 (m_id m)"
    using post_rollings [OF E _ _ r(2)] d keys(1) by auto
  have w: "forA (\<lambda>j. rewrite_group ?L (groups_dir P @ ''/'' @ j) key v) ?js s1 = (Inr (), st')"
    using s1(2) p(4) by (auto simp: bindA_Inr lab_see_def list_dir_def net_lab_def split: if_splits)
  have api: "net_api st' = net_api s1" using w by (rule rewriting_keeps_api)
  have fs: "l_fs ?L = net_fs" by (simp add: net_lab_def)
  note groups = nl.rewrite_groups [OF w v, unfolded fs p(4)]
  have "\<exists>b. m_boot_interface ?E ?d m = Some b \<and> get_rolling_status ?E (i_mac b) (a_db (net_api st')) = Some (True, Some ''kexec'')"
    if m: "m \<in> set (machines ?d)" "roles_of ?d m \<noteq> {}" for m
  proof -
    obtain b where b: "m_boot_interface ?E ?d m = Some b" "i_mac b \<in> fst ` set r" "machine_by_mac ?E ?d (i_mac b) = Some m"
      using keys(2) [OF m] by blast
    have "machine_by_mac ?E ?d1 (i_mac b) = Some m" using b(3) machine_by_mac_same [OF p(2,3)] by simp
    from rolls_served [OF E p(1) this] p(5) b api show ?thesis by auto
  qed
  moreover have "\<exists>e m e' m'. g = JObj e \<and> map_of e ''metadata'' = Some (JObj m) \<and>
      parsed (net_fs st') (groups_dir P @ ''/'' @ j) = Some (JObj e') \<and>
      map_of e' = (map_of e)(''metadata'' \<mapsto> JObj m') \<and> map_of m' = (map_of m)(key \<mapsto> v)"
    if "j \<in> set (listdir (net_fs st) (groups_dir P))" "is_machine_group j"
      "parsed (net_fs st) (groups_dir P @ ''/'' @ j) = Some g" "json_ok g" for j g
  proof -
    have "j \<in> set ?js" using that(1,2) by simp
    note k = this conjI [OF that(3,4)]
    obtain g' where g': "set_metadata key v g = ok g'" "parsed (net_fs st') (groups_dir P @ ''/'' @ j) = Some g'"
      using groups [THEN conjunct2, THEN bspec, THEN spec, THEN mp, OF k] by blast
    from set_metadata_maps [OF g'(1)] g'(2) show ?thesis by auto
  qed
  ultimately show ?thesis using groups by auto
qed

section \<open>Witnesses\<close>

definition sample_groups :: fs where
  "sample_groups = \<lparr>f_dirs = [''/e/t'', ''/e/t/test_matchbox'', ''/e/t/test_matchbox/groups'', ''/e/t/test_certs''],
     f_files = [(''/e/t/test_matchbox/groups/a.json'', dump_indented (JObj [(''metadata'', JObj [])])),
       (''/e/t/test_certs/kubernetes_kubelet.certificate'', ''pem'')]\<rparr>"

definition sample_test :: "ref_cache net" where
  "sample_test = \<lparr>clock = 0, net_api = sample_state scheduled_db, net_fs = sample_groups, net_queries = []\<rparr>"

abbreviation sample_net_lab :: "ref_cache net lab" where
  "sample_net_lab \<equiv> net_lab sample_server (player_uri sample_player) idle_lab"

theorem certificate_lost_witness:
  "\<exists>st'. vault_issue_certificate sample_net_lab sample_player ''https://vault'' ''t'' (JBool False) ''kubernetes'' ''kubelet'' 30 sample_test =
     (Inl (KeyError ''certificate''), st') \<and> read_file (net_fs st') ''/e/t/test_certs/kubernetes_kubelet.certificate'' = ok []"
proof -
  have p: "cert_file sample_player (''kubernetes'' @ ''_'' @ ''kubelet'' @ ''.certificate'') = ''/e/t/test_certs/kubernetes_kubelet.certificate''"
    "test_certs_path sample_player = ''/e/t/test_certs''" by code_simp+
  have u: "\<not> starts_with (player_uri sample_player) ''https://vault''" by code_simp
  have "is_dir (net_fs sample_test) ''/e/t/test_certs''" "\<not> is_dir (net_fs sample_test) ''/e/t/test_certs/kubernetes_kubelet.certificate''"
    by (simp_all add: sample_test_def sample_groups_def is_dir_def)
  from certificate_lost [of "player_uri sample_player" "''https://vault''" "''kubernetes''" "''kubelet''" sample_test sample_player
      sample_server idle_lab "''t''" "JBool False" 30, unfolded p, OF u _ _ this]
  show ?thesis by auto
qed

lemma sample_listing: "get_all_schedules ref_engine scheduled_db = Inr (JObj [(other_mac, JList [JStr etcd_member])])"
  by (simp add: get_all_schedules_def all_machines_def scheduled_db_def other_db_def empty_db_def other_machine_def other_iface_def
      other_mac_def schedule_entry_def m_schedules_def m_boot_interface_def query_where_def)

lemma scheduled_by_mac: "machine_by_mac ref_engine scheduled_db other_mac = Some other_machine"
  using other_by_mac machine_by_mac_same [of scheduled_db other_db] by (simp add: scheduled_db_def)

lemma sample_allowed:
  obtains s where "allow_rolling sample_net_lab sample_player sample_test = (Inr (), s)" "net_fs s = sample_groups"
proof -
  let ?u = "player_uri sample_player" and ?a = "sample_state scheduled_db"
  have S: "sv_engine sample_server = ref_engine" by simp
  obtain c where c: "scheduler_get sample_server (net_request ''GET'' ''/scheduler'' None 0) ?a =
      (Inr (jsonify (JObj [(other_mac, JList [JStr etcd_member])]) 200), ?a\<lparr>a_cache := c\<rparr>)"
    using sample_listing
    by (simp add: scheduler_get_def net_request_def act_simps sample_state_def sample_server_def ref_cache_ops_def ref_get_def)
  have g: "http_get sample_net_lab (?u @ ''/scheduler'') sample_test =
      (Inr (reply_of (jsonify (JObj [(other_mac, JList [JStr etcd_member])]) 200)), sample_test\<lparr>net_api := ?a\<lparr>a_cache := c\<rparr>\<rparr>)"
    using c by (simp add: http_get_def net_lab_def net_call_def serve_def routes_of_def routes_of_1_def net_request_def sample_test_def)
  obtain r a where "serve sample_server (net_request ''POST'' (rolling_path other_mac) None 0) (?a\<lparr>a_cache := c\<rparr>) = (r, a)"
    by (cases "serve sample_server (net_request ''POST'' (rolling_path other_mac) None 0) (?a\<lparr>a_cache := c\<rparr>)")
  then have "http_post sample_net_lab (?u @ rolling_path other_mac) [] None (JBool True) (sample_test\<lparr>net_api := ?a\<lparr>a_cache := c\<rparr>\<rparr>) =
      (Inr (reply_of r), sample_test\<lparr>net_api := a\<rparr>)"
    by (simp add: http_post_def net_lab_def net_call_def sample_test_def)
  then have "allow_rolling sample_net_lab sample_player sample_test = (Inr (), sample_test\<lparr>net_api := a\<rparr>)"
    using g by (simp add: allow_rolling_def bindA_def liftA_def load_body rolling_path_def ret_def)
  then show thesis by (rule that) (simp add: sample_test_def)
qed

text \<open>The one group is read, changed and written.\<close>

lemma sample_rewritten:
  assumes "net_fs s = sample_groups"
  shows "fst (rewrite_group sample_net_lab ''/e/t/test_matchbox/groups/a.json'' ''os'' (JBool True) s) = Inr ()"
proof -
  let ?p = "''/e/t/test_matchbox/groups/a.json''"
  have r: "read_file sample_groups ?p = ok (dump_indented (JObj [(''metadata'', JObj [])]))"
    by (simp add: read_file_def sample_groups_def)
  have d: "dirname ?p = ''/e/t/test_matchbox/groups''" by code_simp
  obtain g where w: "write_file sample_groups ?p (dump_indented (JObj [(''metadata'', JObj [(''os'', JBool True)])])) = ok g"
    unfolding write_file_def d by (simp add: sample_groups_def is_dir_def)
  show ?thesis using assms r w dump_indented_reads [of "JObj [(''metadata'', JObj [])]"]
    by (simp add: rewrite_group_def lab_read_def lab_see_def lab_write_def lab_files_def net_lab_def bindA_def liftA_def
        json_ok_dict set_metadata_def)
qed

theorem metadata_replaced_witness:
  "\<exists>st'. replace_ignition_metadata sample_net_lab sample_player ''os'' (JBool True) sample_test = (Inr (), st') \<and>
     (\<exists>e' m'. parsed (net_fs st') ''/e/t/test_matchbox/groups/a.json'' = Some (JObj e') \<and>
       map_of e' ''metadata'' = Some (JObj m') \<and> map_of m' ''os'' = Some (JBool True)) \<and>
     get_rolling_status ref_engine other_mac (a_db (net_api st')) = Some (True, Some ''kexec'')"
proof -
  let ?p = "''/e/t/test_matchbox/groups/a.json''" and ?g = "JObj [(''metadata'', JObj [])]"
  have dir: "groups_dir sample_player = ''/e/t/test_matchbox/groups''" by code_simp
  have ls: "listdir sample_groups ''/e/t/test_matchbox/groups'' = [''a.json'']" by (simp add: listdir_def sample_groups_def)
  have mg: "is_machine_group ''a.json''" by code_simp
  obtain s where s: "allow_rolling sample_net_lab sample_player sample_test = (Inr (), s)" "net_fs s = sample_groups"
    by (rule sample_allowed)
  obtain st' where st': "rewrite_group sample_net_lab ?p ''os'' (JBool True) s = (Inr (), st')"
    using sample_rewritten [OF s(2)] by (cases "rewrite_group sample_net_lab ?p ''os'' (JBool True) s") simp
  have isd: "is_dir sample_groups ''/e/t/test_matchbox/groups''" by (simp add: is_dir_def sample_groups_def)
  have run: "replace_ignition_metadata sample_net_lab sample_player ''os'' (JBool True) sample_test = (Inr (), st')"
    using s st' ls mg isd
    by (simp add: replace_ignition_metadata_def dir lab_see_def list_dir_def net_lab_def bindA_def ret_def)
  have E: "engine_ok (sv_engine sample_server)" by (simp add: engine_ok_ref)
  have d: "db_ok (a_db (net_api sample_test))" by (simp add: sample_test_def sample_state_def scheduled_db_ok)
  have c: "cache_get (sv_cache sample_server) (clock sample_test) ''/scheduler'' (a_cache (net_api sample_test)) = None"
    by (simp add: sample_test_def sample_state_def sample_server_def ref_cache_ops_def ref_get_def)
  have v: "json_ok (JBool True)" by simp
  note all = metadata_replaced [OF run v E d c, unfolded dir]
  have j: "''a.json'' \<in> set (listdir (net_fs sample_test) ''/e/t/test_matchbox/groups'')" using ls by (simp add: sample_test_def)
  have g: "parsed (net_fs sample_test) (''/e/t/test_matchbox/groups'' @ ''/'' @ ''a.json'') = Some ?g" "json_ok ?g"
    using dump_indented_reads [of ?g] by (simp_all add: parsed_def read_file_def sample_test_def sample_groups_def json_ok_dict)
  obtain e' m' where "parsed (net_fs st') (''/e/t/test_matchbox/groups'' @ ''/'' @ ''a.json'') = Some (JObj e')"
      "map_of e' ''metadata'' = Some (JObj m')" "map_of m' ''os'' = Some (JBool True)"
    using all [THEN conjunct1, rule_format, OF j conjI [OF mg conjI [OF g]]] by auto
  then have "\<exists>e' m'. parsed (net_fs st') ?p = Some (JObj e') \<and> map_of e' ''metadata'' = Some (JObj m') \<and>
      map_of m' ''os'' = Some (JBool True)" by auto
  moreover have "get_rolling_status ref_engine other_mac (a_db (net_api st')) = Some (True, Some ''kexec'')"
  proof -
    let ?d = "a_db (net_api sample_test)"
    have "other_machine \<in> set (machines ?d)" "roles_of ?d other_machine \<noteq> {}"
      by (simp_all add: sample_test_def sample_state_def scheduled_db_def other_db_def roles_of_def other_machine_def)
    moreover have "m_boot_interface ref_engine ?d other_machine = Some other_iface" "i_mac other_iface = other_mac"
      by (simp_all add: sample_test_def sample_state_def scheduled_db_def other_db_def m_boot_interface_def query_where_def
          other_machine_def other_iface_def other_mac_def)
    moreover have "sv_engine sample_server = ref_engine" by simp
    ultimately show ?thesis using bspec [OF all [THEN conjunct2, THEN conjunct2], of other_machine] by auto
  qed
  ultimately show ?thesis using run by blast
qed

end
