(* ===== verification/Spec2Isabelle.thy ===== *)
theory Spec2Isabelle
  imports Cluster Sync_Ready Restore Install_Race Runtime_Facts Disk Monitoring Player_Net
begin

text \<open>
  Enjoliver: an API that knows the machines of a bare-metal cluster, and a plan that gives them their
  roles and writes the boot configuration that matchbox serves to them. This development models the
  Python package \<open>src/enjoliver-api/enjoliver\<close> (paths below are relative to it, unless they start with
  \<open>src/\<close>), the programs that start it, prepare its machine and check what was built for it, and the
  player of virtual machines its end-to-end tests share.

  \<^bold>\<open>The program.\<close> Machines boot over the network, ask the API for \<open>/boot.ipxe\<close> and \<open>/ipxe\<close>, and post what
  they are (uuid, interfaces, disks, LLDP neighbour) to \<open>/discovery\<close>. The plan (\<open>k8s_2t.py\<close>) runs
  beside the API and talks to it over HTTP: it reads the machines without a role, gives roles to some
  (\<open>schedulerv2.py\<close>), and then for every machine with a role writes a profile and a group
  (\<open>sync.py\<close>, \<open>generator.py\<close>) into the directory of matchbox, and notifies the API. From then on
  the API passes \<open>/ignition\<close> on to matchbox. Installed machines report their state and the state of
  their configuration back (\<open>crud.py\<close>, \<open>repositories/machine_state.py\<close>).

  \<^bold>\<open>Values and errors.\<close> \<open>Prelude\<close> holds the exceptions of the code (\<open>exn\<close>), the type \<open>'a result\<close> of a
  computation that may raise one (\<open>Inl\<close> the exception), Python's string operations, and the printing of
  numbers. \<open>Json\<close> has the values that cross the API, with the subscripting, truth, membership and
  iteration of Python, dictionaries as association lists in insertion order; \<open>Pyval\<close> the conversions
  \<open>int(..)\<close> and \<open>str(..)\<close>; \<open>Json_Text\<close> the text of JSON, printed and read. A character is one of the
  first 256 of Unicode. Integers are unbounded, as Python's are; IPv4 addresses are naturals below
  \<open>2 ^ 32\<close> and arithmetic that leaves the range raises. Times are in microseconds, sleeps of the plan in
  milliseconds, time-outs in seconds.

  \<^bold>\<open>Database.\<close> \<open>Model\<close> is \<open>model.py\<close>: one record per table, the record \<open>db\<close> of all tables as lists of rows, the three
  regular expressions as matchers of the regular expressions they are, and the validators; \<open>Validators\<close>
  says which words those expressions accept. \<open>Store\<close> is \<open>db.py\<close> and the part of SQLAlchemy the code
  rests on: \<open>session_commit\<close> keeps the new database on return and the old one on an exception. What the
  library and the server leave open (order of rows, generated keys, conversion into a column) is the
  record \<open>engine\<close>, with the hypothesis \<open>engine_ok\<close>. The invariant \<open>db_ok\<close> says that keys, uuids and
  macs are unique, that references point at rows, that values satisfy their validators and that a
  machine has at most one lifecycle row of each kind. \<open>Rows\<close> proves once, in the locales \<open>keyed_rows\<close>
  and \<open>keyed_values\<close>, what a table with one row per owner promises over any history of writes;
  \<open>Machine_State\<close> and \<open>Lifecycle_Facts\<close> interpret them for the state table and the three lifecycle tables.

  \<^bold>\<open>Repositories.\<close> One theory per file, one definition per method, the steps of a method as definitions of their
  own in the order of the code:
  \<^item> \<open>Tools\<close>: \<open>tools.py\<close>, mac of a raw query and verified names; the resolver is an argument.
  \<^item> \<open>Machine_Discovery\<close>: \<open>repositories/machine_discovery.py\<close>. \<open>Discovery_Facts\<close> and
    \<open>Discovery_Properties\<close>: success and storage of a well-formed report, refusal of a foreign mac, frame,
    invariant, round trip.
  \<^item> \<open>Machine_Schedule\<close>: \<open>repositories/machine_schedule.py\<close>. \<open>Schedule_Facts\<close>: what a request
    adds, idempotence, refusal of unknown roles, exactness of the queries.
  \<^item> \<open>Lifecycle\<close>: \<open>InjectLifecycle\<close> and \<open>FetchLifecycle\<close> of \<open>crud.py\<close>. \<open>Lifecycle_Facts\<close>: which of the
    values reported in a history is the one served.
  \<^item> \<open>Machine_State\<close>: \<open>repositories/machine_state.py\<close>, with its facts.
  \<^item> \<open>Views\<close>: \<open>BackupExport\<close> of \<open>crud.py\<close> and \<open>repositories/user_interface.py\<close>.
  \<open>Samples\<close> has the concrete engine, database and reports on which the theorems are witnessed.

  \<^bold>\<open>API.\<close> \<open>Configs\<close> is \<open>configs.py\<close>: attributes as a dictionary, environment over document over default;
  \<open>yaml.load\<close> is an argument (the loaded document). \<open>Api\<close> has the state of the running application, the
  record \<open>api\<close> of database, cache and outside world, actions over it (state passing with exceptions as
  values), requests and responses. The cache of werkzeug is an argument with the hypothesis \<open>cache_ok\<close>
  (a value stored is found until it expires or is dropped, and other keys are untouched); the replies of other HTTP
  servers, the process table and the templates are arguments too. \<open>Ops\<close> is \<open>ops.py\<close>. \<open>Routes\<close> is
  \<open>routes.py\<close> and \<open>repositories/registry.py\<close>: every handler, and \<open>serve\<close>, which finds the handler of a path and turns an
  escaped exception into the answer 500. \<open>Routes_Facts\<close> shows the installation lock (taken before the
  answer, no second grant while it lasts) and the gate of \<open>/ignition\<close> (closed until a synchronisation
  is notified). \<open>Api_Invariant\<close> shows what holds over any sequence of requests: its locales
  \<open>db_side_writes\<close> and \<open>db_writes\<close> prove that a property of the database which every write of a
  repository keeps is kept by every handler; interpreted for \<open>db_ok\<close> and for the part of the database that
  \<open>/discovery\<close> shows, whose cached listing is then shown to be current. \<open>Restore\<close> follows a backup: the
  requests of the playbook \<open>GET /backup/export\<close> answers, posted to an empty database, and what they bring back.
  \<open>Install_Race\<close> cuts the handler of the lock at its accesses to the shared cache and interleaves several
  workers: the lock bounds the grants by the number of workers and not by one. \<open>Monitoring\<close> is
  \<open>monitoring.py\<close>, the counters around requests and transactions, as hooks around \<open>serve\<close>; \<open>gunicorn_app\<close> in \<open>Routes\<close>
  is the set-up of \<open>app.py\<close>.

  \<^bold>\<open>Plan.\<close> \<open>Scheduler\<close> is \<open>schedulerv2.py\<close>. What a process of the plan can do to its surroundings is the record
  \<open>host\<close> over a state of its own (get, post, sleep, files, query cache), an argument of every
  definition of the plan. \<open>Scheduler_Facts\<close> states the contract of the API as the locale
  \<open>schedule_service\<close> and derives the outcome of a round of the two schedulers inside it, and what the
  retry loop returns. \<open>Files\<close> is the file system, \<open>Generator\<close> is \<open>generator.py\<close>, with \<open>deepdiff\<close> an
  argument (hypothesis \<open>differ_ok\<close>: the order of keys is no difference, equal dictionaries agree in every
  key, and a string equals itself only).
  \<open>Json_Text_Facts\<close> proves that printed JSON reads back, \<open>Generator_Facts\<close> that a dump
  leaves the generated data on disk, once and stably. \<open>Sync_Attr\<close> and \<open>Sync\<close> are \<open>sync.py\<close>: the
  static methods (\<open>Sync_Facts\<close>: disjoint pod ranges, addresses, host names, disk profiles), and the run.
  \<open>Sync_Run\<close> follows a run through its locales: \<open>sync_queries\<close> (a predicate the queries for members keep,
  through the query cache), \<open>sync_reads\<close> (one every read keeps, a \<open>sublocale\<close> of the former), \<open>sync_writes\<close>
  (one the writing of files keeps as well), \<open>file_host\<close> (files change by writing only), from which a
  \<open>sublocale\<close> gets the frame. \<open>Plan\<close> is \<open>k8s_2t.py\<close>; \<open>Plan_Facts\<close> its waiting and its tries, and that it
  sleeps longer than its query cache lives.

  \<^bold>\<open>Plan and API together.\<close> \<open>Net\<close> builds a host out of the API model: its state is the clock, the API, the
  files and the query cache, and a call of the client is one request served by \<open>serve\<close>, its answer
  the text the API produces; the query cache is werkzeug's \<open>SimpleCache\<close>, with its expiry. The interpretation of \<open>schedule_service\<close> discharges the contract on it, so the outcomes of
  the schedulers hold of the two programs composed. \<open>Plan_Net\<close> interprets \<open>file_host\<close> and
  \<open>sync_writes\<close> on the same host and concludes: a successful synchronisation has written the group of
  every scheduled machine before it notifies, a round either waits for machines or schedules all, and the loop of the plan,
  the relation \<open>plan_runs\<close>, keeps the database consistent. What the cache may hold for this is stated
  as \<open>queries_true\<close> (only what the API would answer now) and \<open>queries_dead\<close> (only expired answers).
  \<open>Sync_Ready\<close> shows that the synchronisation does succeed: its locale \<open>ready_host\<close> follows every read and
  write of a round, under conditions on the configuration (\<open>config_ready\<close>, which every constructed
  configuration with lists of texts has), on matchbox's directory (\<open>matchbox_ready\<close>) and on the interfaces
  (\<open>pods_fit\<close>), and none of them raises.
  \<open>Cluster\<close> cuts the loop into its stages (wait, nodes, synchronisation, sleep) and lets the requests of the
  machines be served between them: \<open>cluster_run\<close> is a trace of stages and foreign requests, and its
  invariant says what each stage then does.

  \<^bold>\<open>Machine and build.\<close> \<open>Manage\<close> is \<open>src/manage.py\<close>: the commands that start the API, matchbox and the plan, as
  actions over a machine with files, processes and an environment; \<open>Manage_Facts\<close> that a shutdown ends what was started.
  \<open>Disk\<close> is \<open>src/matchbox/assets/coreos/disk.py\<close>, the flag in the bytes of an image. \<open>Runtime\<close> is
  \<open>src/runtime/config.py\<close>, \<open>run_acserver.py\<close> and the configuration of the test suite, \<open>Validate\<close> is
  \<open>src/validate.py\<close>; \<open>Runtime_Facts\<close> that the files of the former are complete and pass the checks that read them.

  \<^bold>\<open>Tests.\<close> \<open>src/enjoliver-testsuite/euid/kvm_player.py\<close> is the class every end-to-end test extends. What a
  test does to the outside is the record \<open>lab\<close> over a state of its own: HTTP calls, commands, processes, a
  socket, the client of Kubernetes, files, clock; a method is an action over it. \<open>Player\<close> has the attributes
  of the class, its processes, the cleaning and the virtual machines, \<open>Player_Services\<close> the waits for etcd, vault,
  the agents and the API servers, \<open>Player_Kube\<close> tiller, the backups, the interactive mode and the change of
  the groups of matchbox. \<open>Player_Facts\<close> follows the loops: a list that is popped while it is enumerated is
  halved by a pass, and what a restart started is what it was given. \<open>Player_Net\<close> makes the API model the
  HTTP server of a test (\<open>net_lab\<close>), states in the locale \<open>file_lab\<close> that files change by writing only, interprets it
  there, and shows what the change of a metadata leaves in matchbox and in the API, and what becomes of a
  certificate when vault is out of reach.

  \<^bold>\<open>Loops, bounds and fuel.\<close> Loops over collections are structural. The retry loops run over the number
  of tries. The wait for the control plane may never end and is a \<open>partial_function (option)\<close> whose
  outcome, not returning included, is stated exactly; so are the loops of the tests that wait for a file
  and for a container to go, of which the second always ends (\<open>wait_gc_ends\<close>). The reader of JSON takes the length of its text as fuel; the round trip
  shows that it is enough for every printed text, and a text it does not finish reads as malformed.
  \<open>plan_runs\<close> has one step per iteration, without a bound.

  \<^bold>\<open>Limits.\<close> Paths are compared as texts. Floats are kept as their text, which the code only moves. The sort of
  member lists is modelled for strings. A query string is given already split. Requests are served one
  after the other in any order; workers that interleave inside a request are modelled for the
  installation lock only, and foreign requests are served between the stages of the plan and not inside
  one. The environment variable the synchroniser sets is read by nothing and left out. An
  exception that leaves a handler is the answer 500, whatever debugging mode Flask has. The notifications of the
  plan are checked for their effect on the API and not for what matchbox makes of the files.

  \<^bold>\<open>Not modelled.\<close> \<open>gunicorn_conf.py\<close>: settings of gunicorn and two calls of the prometheus client in its
  hooks. The page \<open>/metrics\<close>, the template delimiters, the handlers of the log and Swagger are settings of libraries.
  Of the tests the shared class is modelled and not the tests that call it; what its \<open>display\<close> prints is
  left out, and the file modes it sets are not part of the files. The script \<open>squash_manifest.py\<close> is Python 2 and belongs to the build of images;
  \<open>setup.py\<close> is package metadata.
\<close>

end
